(* ===== verification/Prelude.thy ===== *)
theory Prelude
  imports Complex_Main
begin

text \<open>
  Generic vocabulary of the development: results that carry an exception, folds that stop at
  the first exception, tables as lists of rows in primary-key order, and the probing loop that
  several services use to find a free document number.  Nothing here is specific to one
  component; the lemma collections \<open>result_simps\<close> and \<open>row_simps\<close> are what the component
  theories hand to the simplifier.
\<close>

named_theorems result_simps \<open>results, binds and folds with exceptions\<close>
named_theorems row_simps \<open>lookup and update laws of tables\<close>

type_synonym id = nat

section \<open>Results\<close>

text \<open>A raising computation is a value of \<open>'e + 'a\<close>: \<open>Inl\<close> the exception, \<open>Inr\<close> the result.\<close>

definition ebind :: "'e + 'a \<Rightarrow> ('a \<Rightarrow> 'e + 'b) \<Rightarrow> 'e + 'b" where
  "ebind r f = (case r of Inl e \<Rightarrow> Inl e | Inr a \<Rightarrow> f a)"

definition require :: "bool \<Rightarrow> 'e \<Rightarrow> 'e + unit" where
  "require c e = (if c then Inr () else Inl e)"

fun efold :: "('x \<Rightarrow> 's \<Rightarrow> 'e + 's) \<Rightarrow> 'x list \<Rightarrow> 's \<Rightarrow> 'e + 's" where
  "efold f [] s = Inr s"
| "efold f (x # xs) s = ebind (f x s) (efold f xs)"

fun emap :: "('x \<Rightarrow> 'e + 'y) \<Rightarrow> 'x list \<Rightarrow> 'e + 'y list" where
  "emap f [] = Inr []"
| "emap f (x # xs) = ebind (f x) (\<lambda>y. ebind (emap f xs) (\<lambda>ys. Inr (y # ys)))"

lemma ebind_Inl [simp]: "ebind (Inl e) f = Inl e"
  by (simp add: ebind_def)

lemma ebind_Inr [simp]: "ebind (Inr a) f = f a"
  by (simp add: ebind_def)

lemma ebind_eq_Inr [result_simps]:
  "(ebind r f = Inr b) = (\<exists>a. r = Inr a \<and> f a = Inr b)"
  by (cases r) simp_all

lemma ebind_eq_Inl [result_simps]:
  "(ebind r f = Inl e) = (r = Inl e \<or> (\<exists>a. r = Inr a \<and> f a = Inl e))"
  by (cases r) simp_all

lemma require_eq_Inr [result_simps]: "(require c e = Inr u) = c"
  by (simp add: require_def)

lemma require_eq_Inl [result_simps]: "(require c e = Inl e') = (\<not> c \<and> e = e')"
  by (auto simp: require_def)

lemma require_True [simp]: "require True e = Inr ()"
  by (simp add: require_def)

lemma require_False [simp]: "require False e = Inl e"
  by (simp add: require_def)

lemma efold_append [result_simps]:
  "efold f (xs @ ys) s = ebind (efold f xs s) (efold f ys)"
  by (induction xs arbitrary: s) (simp_all add: ebind_def split: sum.splits)

lemma emap_list_all2:
  "emap f xs = Inr ys \<Longrightarrow> list_all2 (\<lambda>x y. f x = Inr y) xs ys"
  by (induction xs arbitrary: ys) (auto simp: result_simps)

lemma efold_map: "efold f (map g xs) s = efold (\<lambda>x. f (g x)) xs s"
  by (induction xs arbitrary: s) (simp_all add: ebind_def split: sum.splits)

lemma efold_invariant:
  assumes "efold f xs s = Inr t" and "I s"
    and "\<And>x u v. x \<in> set xs \<Longrightarrow> I u \<Longrightarrow> f x u = Inr v \<Longrightarrow> I v"
  shows "I t"
  using assms
proof (induction xs arbitrary: s)
  case Nil
  then show ?case by simp
next
  case (Cons x xs)
  then obtain u where u: "f x s = Inr u" and rest: "efold f xs u = Inr t"
    by (auto simp: result_simps)
  have "I u" using Cons.prems(2) Cons.prems(3)[OF _ _ u] by simp
  then show ?case
  proof (rule Cons.IH[OF rest])
    fix y v w
    assume "y \<in> set xs" and "I v" and "f y v = Inr w"
    then show "I w" using Cons.prems(3)[of y v w] by simp
  qed
qed

text \<open>A quantity that each step changes by \<open>d x\<close> changes by the sum over a successful fold.\<close>

lemma efold_measure:
  fixes m :: "'s \<Rightarrow> int"
  assumes "efold f xs s = Inr t"
    and "\<And>x u v. x \<in> set xs \<Longrightarrow> f x u = Inr v \<Longrightarrow> m v = m u + d x"
  shows "m t = m s + (\<Sum>x\<leftarrow>xs. d x)"
  using assms
proof (induction xs arbitrary: s)
  case Nil
  then show ?case by simp
next
  case (Cons x xs)
  then obtain u where u: "f x s = Inr u" and rest: "efold f xs u = Inr t"
    by (auto simp: result_simps)
  have "m u = m s + d x" using Cons.prems(2)[OF _ u] by simp
  moreover have "m t = m u + (\<Sum>y\<leftarrow>xs. d y)"
    using Cons.IH[OF rest] Cons.prems(2) by simp
  ultimately show ?case by simp
qed

text \<open>
  Elimination rules for operations written as a cascade of early returns: each guard of a
  successful run was passed.  With \<open>returns\<close> the simplifier turns \<open>operation = Inr result\<close> into the
  list of the facts the operation established, without splitting into cases.
\<close>

lemma guard_if:
  "((if c then Inl e else r) = Inr x) = (\<not> c \<and> r = Inr x)"
  "((if c then r else Inl e) = Inr x) = (c \<and> r = Inr x)"
  by simp_all

lemma guard_option:
  "((case v of None \<Rightarrow> Inl e | Some a \<Rightarrow> f a) = Inr x) = (\<exists>a. v = Some a \<and> f a = Inr x)"
  by (cases v) simp_all

lemma guard_let: "((let y = e in f y) = Inr x) = (f e = Inr x)"
  by (simp add: Let_def)

lemma guard_pair: "((case p of (a, b) \<Rightarrow> f a b) = Inr x) = (f (fst p) (snd p) = Inr x)"
  by (simp add: case_prod_beta)

lemma guard_done: "(Inr a = Inr b) = (a = b)"
  by simp

lemmas returns = ebind_eq_Inr guard_if guard_option guard_let guard_pair guard_done

section \<open>Tables\<close>

text \<open>
  A database table is a list of rows in primary-key order.  \<open>row_by pk i\<close> is a lookup by key,
  \<open>save_row\<close> the update of the row that has the same key, \<open>next_pk\<close> a key no row has (what an
  auto-increment column gives).
\<close>

definition row_by :: "('r \<Rightarrow> id) \<Rightarrow> id \<Rightarrow> 'r list \<Rightarrow> 'r option" where
  "row_by pk i rs = find (\<lambda>r. pk r = i) rs"

definition save_row :: "('r \<Rightarrow> id) \<Rightarrow> 'r \<Rightarrow> 'r list \<Rightarrow> 'r list" where
  "save_row pk r rs = map (\<lambda>x. if pk x = pk r then r else x) rs"

definition next_pk :: "('r \<Rightarrow> id) \<Rightarrow> 'r list \<Rightarrow> id" where
  "next_pk pk rs = Suc (foldr max (map pk rs) 0)"

lemma find_Some_mem: "find P xs = Some x \<Longrightarrow> x \<in> set xs \<and> P x"
  by (induction xs) (auto split: if_splits)

lemma find_eq_None: "(find P xs = None) = (\<forall>x \<in> set xs. \<not> P x)"
  by (induction xs) auto

lemma row_by_Some: "row_by pk i rs = Some r \<Longrightarrow> r \<in> set rs \<and> pk r = i"
  by (auto simp: row_by_def dest: find_Some_mem)

lemma row_by_None: "(row_by pk i rs = None) = (i \<notin> pk ` set rs)"
  by (auto simp: row_by_def find_eq_None)

lemma map_pk_save_row [simp, row_simps]: "map pk (save_row pk r rs) = map pk rs"
  by (induction rs) (simp_all add: save_row_def)

lemma length_save_row [simp, row_simps]: "length (save_row pk r rs) = length rs"
  by (simp add: save_row_def)

lemma save_row_same [row_simps]:
  "pk r \<in> pk ` set rs \<Longrightarrow> row_by pk (pk r) (save_row pk r rs) = Some r"
  by (induction rs) (auto simp: row_by_def save_row_def)

lemma save_row_other [row_simps]:
  "i \<noteq> pk r \<Longrightarrow> row_by pk i (save_row pk r rs) = row_by pk i rs"
  by (induction rs) (auto simp: row_by_def save_row_def)

lemma set_save_row: "set (save_row pk r rs) \<subseteq> insert r {x \<in> set rs. pk x \<noteq> pk r}"
  by (auto simp: save_row_def)

lemma set_save_row_eq:
  "pk r \<in> pk ` set rs \<Longrightarrow> set (save_row pk r rs) = insert r {x \<in> set rs. pk x \<noteq> pk r}"
  by (force simp: save_row_def)

lemma le_foldr_max: "x \<in> set xs \<Longrightarrow> x \<le> foldr max xs (0 :: nat)"
  by (induction xs) auto

lemma next_pk_fresh: "next_pk pk rs \<notin> pk ` set rs"
proof
  assume "next_pk pk rs \<in> pk ` set rs"
  then have "next_pk pk rs \<le> foldr max (map pk rs) 0"
    by (intro le_foldr_max) auto
  then show False by (simp add: next_pk_def)
qed

lemma find_append: "find P (xs @ ys) = (case find P xs of None \<Rightarrow> find P ys | Some x \<Rightarrow> Some x)"
  by (induction xs) auto

lemma row_by_append_fresh [row_simps]:
  "pk r = next_pk pk rs \<Longrightarrow> row_by pk (next_pk pk rs) (rs @ [r]) = Some r"
proof -
  assume r: "pk r = next_pk pk rs"
  have "find (\<lambda>x. pk x = next_pk pk rs) rs = None"
    using next_pk_fresh[of pk rs] by (force simp: find_eq_None)
  then show ?thesis using r by (simp add: row_by_def find_append)
qed

lemma row_by_append_old [row_simps]:
  "i \<in> pk ` set rs \<Longrightarrow> row_by pk i (rs @ [r]) = row_by pk i rs"
  unfolding row_by_def by (induction rs) auto

lemma distinct_add_row:
  "distinct (map pk rs) \<Longrightarrow> pk r = next_pk pk rs \<Longrightarrow> distinct (map pk (rs @ [r]))"
  using next_pk_fresh[of pk rs] by simp

text \<open>A sum over a table changes by what its one saved row changes.\<close>

lemma save_row_absent: "pk r \<notin> pk ` set rs \<Longrightarrow> save_row pk r rs = rs"
  by (induction rs) (auto simp: save_row_def)

lemma sum_save_row:
  fixes f :: "'r \<Rightarrow> int"
  assumes "distinct (map pk rs)" and "r0 \<in> set rs" and "pk r = pk r0"
  shows "(\<Sum>x \<leftarrow> save_row pk r rs. f x) = (\<Sum>x \<leftarrow> rs. f x) - f r0 + f r"
  using assms
proof (induction rs)
  case Nil
  then show ?case by simp
next
  case (Cons x xs)
  show ?case
  proof (cases "x = r0")
    case True
    then have "save_row pk r xs = xs" using Cons.prems by (intro save_row_absent) auto
    then show ?thesis using True Cons.prems(3) by (simp add: save_row_def)
  next
    case False
    then have "pk x \<noteq> pk r" using Cons.prems by auto
    then show ?thesis using Cons False by (simp add: save_row_def)
  qed
qed

lemma save_row_map_other:
  "(\<And>x. x \<in> set rs \<Longrightarrow> pk x = pk r \<Longrightarrow> f x = f r) \<Longrightarrow> map f (save_row pk r rs) = map f rs"
  by (auto simp: save_row_def)

section \<open>Probing loops\<close>

text \<open>
  \<open>while used(n): n += 1\<close>.  Fuel bounds the number of probes; \<open>probe_enough\<close> says how much is
  enough and \<open>probe_Some\<close> what the loop returns, so a caller that passes enough fuel has proved
  that its loop ends.
\<close>

fun probe :: "nat \<Rightarrow> (nat \<Rightarrow> bool) \<Rightarrow> nat \<Rightarrow> nat option" where
  "probe 0 used n = None"
| "probe (Suc k) used n = (if used n then probe k used (Suc n) else Some n)"

lemma probe_Some:
  "probe k used n = Some m \<Longrightarrow> n \<le> m \<and> \<not> used m \<and> (\<forall>i. n \<le> i \<and> i < m \<longrightarrow> used i)"
proof (induction k arbitrary: n)
  case 0
  then show ?case by simp
next
  case (Suc k)
  show ?case
  proof (cases "used n")
    case True
    with Suc have "Suc n \<le> m \<and> \<not> used m \<and> (\<forall>i. Suc n \<le> i \<and> i < m \<longrightarrow> used i)"
      by simp
    then have "n \<le> m" and "\<not> used m" and rest: "\<And>i. Suc n \<le> i \<Longrightarrow> i < m \<Longrightarrow> used i"
      by auto
    moreover have "used i" if "n \<le> i" and "i < m" for i
    proof (cases "i = n")
      case True
      with \<open>used n\<close> show ?thesis by simp
    next
      case False
      with that show ?thesis by (intro rest) auto
    qed
    ultimately show ?thesis by blast
  next
    case False
    with Suc.prems show ?thesis by auto
  qed
qed

lemma probe_enough:
  assumes "finite {i. n \<le> i \<and> used i}" and "card {i. n \<le> i \<and> used i} < k"
  shows "\<exists>m. probe k used n = Some m"
  using assms
proof (induction k arbitrary: n)
  case 0
  then show ?case by simp
next
  case (Suc k)
  show ?case
  proof (cases "used n")
    case True
    have eq: "{i. n \<le> i \<and> used i} = insert n {i. Suc n \<le> i \<and> used i}"
      using True by auto
    have fin: "finite {i. Suc n \<le> i \<and> used i}" using Suc.prems(1) by (simp add: eq)
    have "card {i. n \<le> i \<and> used i} = Suc (card {i. Suc n \<le> i \<and> used i})"
      unfolding eq using fin by simp
    with Suc.prems(2) have "card {i. Suc n \<le> i \<and> used i} < k" by simp
    from Suc.IH[OF fin this] True show ?thesis by simp
  next
    case False
    then show ?thesis by simp
  qed
qed

end
