(* ===== verification/Decimals.thy ===== *)
theory Decimals
  imports Prelude
begin

text \<open>
  \<^verbatim>\<open>apps/core/money.py\<close>: decimal arithmetic.  A \<open>Decimal\<close> in flight is a rational number, and
  every multiplication or division goes through \<open>ctx28\<close>, the rounding of Python's default
  decimal context (28 significant digits, ties to even).  A value stored in a money or quantity
  column has three decimal places and is kept as an integer number of thousandths (\<open>milli\<close>):
  \<open>money\<close> and \<open>qty\<close> produce such values.  Sums and differences of stored values are exact in the
  28-digit context (\<open>ctx28_milli\<close>), so they are plain integer sums.  Not modelled: NaN and
  infinities (the services that test for them do so on a separate input type), and values of
  magnitude \<open>10 ^ 25\<close> or more, which \<open>quantize\<close> rejects.
\<close>

type_synonym milli = int

definition dec :: "milli \<Rightarrow> rat" where
  "dec m = of_int m / 1000"

section \<open>Rounding modes\<close>

text \<open>\<open>ROUND_HALF_UP\<close> of the decimal module: nearest, ties away from zero.\<close>

definition round_half_up :: "rat \<Rightarrow> int" where
  "round_half_up x = (if 0 \<le> x then \<lfloor>x + 1 / 2\<rfloor> else - \<lfloor>- x + 1 / 2\<rfloor>)"

definition round_half_even :: "rat \<Rightarrow> int" where
  "round_half_even x =
     (let f = \<lfloor>x\<rfloor>; d = x - of_int f
      in if d < 1 / 2 then f else if 1 / 2 < d then f + 1 else if even f then f else f + 1)"

text \<open>
  What every caller relies on: a rounding never crosses an integer.  \<open>ok\<close> is the range in which
  the rounding keeps this promise.
\<close>

locale rounding =
  fixes rnd :: "rat \<Rightarrow> int" and ok :: "rat \<Rightarrow> bool"
  assumes rnd_le: "ok x \<Longrightarrow> x \<le> of_int m \<Longrightarrow> rnd x \<le> m"
    and rnd_ge: "ok x \<Longrightarrow> of_int m \<le> x \<Longrightarrow> m \<le> rnd x"
begin

lemma rnd_int: "ok (of_int m) \<Longrightarrow> rnd (of_int m) = m"
  by (metis antisym order_refl rnd_ge rnd_le)

lemma rnd_floor: "ok x \<Longrightarrow> \<lfloor>x\<rfloor> \<le> rnd x"
  by (simp add: rnd_ge)

lemma rnd_ceiling: "ok x \<Longrightarrow> rnd x \<le> \<lceil>x\<rceil>"
  by (simp add: rnd_le)

lemma rnd_nonneg: "ok x \<Longrightarrow> 0 \<le> x \<Longrightarrow> 0 \<le> rnd x"
  using rnd_ge[of x 0] by simp

lemma rnd_between:
  "ok x \<Longrightarrow> of_int a \<le> x \<Longrightarrow> x \<le> of_int b \<Longrightarrow> a \<le> rnd x \<and> rnd x \<le> b"
  by (simp add: rnd_ge rnd_le)

end

lemma floor_half_le: "x \<le> of_int m \<Longrightarrow> \<lfloor>x + 1 / 2\<rfloor> \<le> m" for x :: rat
  by (simp add: floor_le_iff)

lemma floor_half_ge: "of_int m \<le> x \<Longrightarrow> m \<le> \<lfloor>x + 1 / 2\<rfloor>" for x :: rat
  by (simp add: le_floor_iff)

lemma round_half_up_le: "x \<le> of_int m \<Longrightarrow> round_half_up x \<le> m"
  using floor_half_le[of x m] floor_half_ge[of "- m" "- x"]
  by (auto simp: round_half_up_def)

lemma round_half_up_ge: "of_int m \<le> x \<Longrightarrow> m \<le> round_half_up x"
  using floor_half_ge[of m x] floor_half_le[of "- x" "- m"]
  by (auto simp: round_half_up_def)

lemma round_half_even_le: "x \<le> of_int m \<Longrightarrow> round_half_even x \<le> m"
proof -
  assume x: "x \<le> of_int m"
  have f: "\<lfloor>x\<rfloor> \<le> m" using x by (simp add: floor_le_iff)
  show ?thesis
  proof (cases "\<lfloor>x\<rfloor> = m")
    case True
    then have "x = of_int m" using x by (simp add: floor_eq_iff)
    then show ?thesis by (simp add: round_half_even_def)
  next
    case False
    with f have "\<lfloor>x\<rfloor> + 1 \<le> m" by simp
    then show ?thesis using f by (auto simp: round_half_even_def Let_def)
  qed
qed

lemma round_half_even_ge: "of_int m \<le> x \<Longrightarrow> m \<le> round_half_even x"
proof -
  assume "of_int m \<le> x"
  then have "m \<le> \<lfloor>x\<rfloor>" by (simp add: le_floor_iff)
  then show ?thesis by (auto simp: round_half_even_def Let_def)
qed

interpretation half_up: rounding round_half_up "\<lambda>_. True"
  by unfold_locales (auto intro: round_half_up_le round_half_up_ge)

interpretation half_even: rounding round_half_even "\<lambda>_. True"
  by unfold_locales (auto intro: round_half_even_le round_half_even_ge)

section \<open>The 28-digit context\<close>

fun digits10 :: "nat \<Rightarrow> nat" where
  "digits10 n = (if n < 10 then 1 else Suc (digits10 (n div 10)))"

declare digits10.simps [simp del]

definition pow10 :: "int \<Rightarrow> rat" where
  "pow10 e = (if 0 \<le> e then 10 ^ nat e else 1 / 10 ^ nat (- e))"

text \<open>The exponent of the leading digit: \<open>pow10 (lead_exp x) \<le> \<bar>x\<bar> < pow10 (lead_exp x + 1)\<close>.\<close>

definition lead_exp :: "rat \<Rightarrow> int" where
  "lead_exp x =
     (case quotient_of \<bar>x\<bar> of (p, q) \<Rightarrow>
        let e = int (digits10 (nat p)) - int (digits10 (nat q))
        in if pow10 e \<le> \<bar>x\<bar> then e else e - 1)"

text \<open>An integer version of \<open>digits10\<close>, for evaluation.\<close>

function digits10_int :: "int \<Rightarrow> int" where
  "digits10_int n = (if n < 10 then 1 else 1 + digits10_int (n div 10))"
  by auto
termination by (relation "measure nat") auto

declare digits10_int.simps [simp del]

lemma digits10_int: "0 \<le> n \<Longrightarrow> digits10_int n = int (digits10 (nat n))"
proof (induction n rule: digits10_int.induct)
  case (1 n)
  then show ?case
    by (cases "n < 10")
      (simp_all add: digits10_int.simps[of n] digits10.simps[of "nat n"] nat_div_distrib nat_less_iff)
qed

lemma lead_exp_code [code]:
  "lead_exp x =
     (case quotient_of \<bar>x\<bar> of (p, q) \<Rightarrow>
        let e = digits10_int p - digits10_int q in if pow10 e \<le> \<bar>x\<bar> then e else e - 1)"
proof -
  obtain p q where pq: "quotient_of \<bar>x\<bar> = (p, q)" by fastforce
  from quotient_of_div[OF pq] quotient_of_denom_pos[OF pq] have "0 \<le> p" "0 < q"
    by (auto simp: zero_le_divide_iff dest!: sym[of "\<bar>x\<bar>"]) (metis abs_ge_zero not_less of_int_0_le_iff of_int_0_less_iff zero_le_divide_iff)
  then show ?thesis by (simp add: lead_exp_def pq digits10_int)
qed

definition ctx28 :: "rat \<Rightarrow> rat" where
  "ctx28 x =
     (if x = 0 then 0
      else let e = lead_exp x - 27 in of_int (round_half_even (x / pow10 e)) * pow10 e)"

definition dmul :: "rat \<Rightarrow> rat \<Rightarrow> rat" where
  "dmul a b = ctx28 (a * b)"

definition ddiv :: "rat \<Rightarrow> rat \<Rightarrow> rat" where
  "ddiv a b = ctx28 (a / b)"

definition dadd :: "rat \<Rightarrow> rat \<Rightarrow> rat" where
  "dadd a b = ctx28 (a + b)"

definition dsub :: "rat \<Rightarrow> rat \<Rightarrow> rat" where
  "dsub a b = ctx28 (a - b)"

lemma pow10_pos [simp]: "0 < pow10 e"
  by (simp add: pow10_def)

lemma pow10_neq0 [simp]: "pow10 e \<noteq> 0"
  by (metis less_irrefl pow10_pos)

lemma pow10_add: "pow10 (a + b) = pow10 a * pow10 b"
proof -
  have "pow10 e = 10 powi e" for e
    by (simp add: pow10_def power_int_def power_one_over inverse_eq_divide)
  then show ?thesis by (simp add: power_int_add)
qed

lemma pow10_nat [simp]: "pow10 (int n) = 10 ^ n"
  by (simp add: pow10_def)

lemma pow10_mono: "a \<le> b \<Longrightarrow> pow10 a \<le> pow10 b"
proof -
  assume "a \<le> b"
  then obtain n where b: "b = a + int n" using zle_iff_zadd by auto
  have "1 \<le> (10 :: rat) ^ n" by simp
  then show ?thesis unfolding b pow10_add by simp
qed

lemma digits10_bounds: "n < 10 ^ digits10 n \<and> (0 < n \<longrightarrow> 10 ^ (digits10 n - 1) \<le> n) \<and> 0 < digits10 n"
proof (induction n rule: digits10.induct)
  case (1 n)
  show ?case
  proof (cases "n < 10")
    case True
    then show ?thesis by (simp add: digits10.simps[of n])
  next
    case False
    let ?d = "digits10 (n div 10)"
    have d: "digits10 n = Suc ?d" using False by (simp add: digits10.simps[of n])
    have ih: "n div 10 < 10 ^ ?d" "10 ^ (?d - 1) \<le> n div 10" "0 < ?d"
      using 1 False by auto
    have "n < 10 ^ Suc ?d" using ih(1) by simp
    moreover have "10 ^ ?d \<le> n"
    proof -
      have "(10 :: nat) ^ ?d = 10 * 10 ^ (?d - 1)" using ih(3) by (cases ?d) simp_all
      also have "\<dots> \<le> n" using ih(2) by simp
      finally show ?thesis .
    qed
    ultimately show ?thesis by (simp add: d)
  qed
qed

lemma pow10_lead_exp_le: "x \<noteq> 0 \<Longrightarrow> pow10 (lead_exp x) \<le> \<bar>x\<bar>"
proof -
  assume x: "x \<noteq> 0"
  obtain p q where pq: "quotient_of \<bar>x\<bar> = (p, q)" by fastforce
  have q: "0 < q" using quotient_of_denom_pos[OF pq] .
  have eq: "\<bar>x\<bar> = of_int p / of_int q" using quotient_of_div[OF pq] .
  have "0 < (of_int p / of_int q :: rat)" using x unfolding eq[symmetric] by simp
  then have p: "0 < p" using q by (simp add: zero_less_divide_iff)
  let ?a = "digits10 (nat p)" and ?b = "digits10 (nat q)"
  have "10 ^ (?a - 1) \<le> nat p" and "nat q < 10 ^ ?b" and a: "0 < ?a"
    using digits10_bounds[of "nat p"] digits10_bounds[of "nat q"] p by auto
  then have pa: "(10 :: rat) ^ (?a - 1) \<le> of_int p" and qb: "of_int q \<le> (10 :: rat) ^ ?b"
    using p q by (metis int_nat_eq less_imp_le of_int_of_nat_eq of_nat_le_iff of_nat_numeral
        of_nat_power)+
  have e: "pow10 (int ?a - int ?b - 1) * 10 ^ ?b = 10 ^ (?a - 1)"
  proof -
    have "pow10 (int ?a - int ?b - 1) * pow10 (int ?b) = pow10 (int (?a - 1))"
      using a by (simp add: pow10_add[symmetric] of_nat_diff del: pow10_nat)
    then show ?thesis by simp
  qed
  have "pow10 (int ?a - int ?b - 1) * of_int q \<le> pow10 (int ?a - int ?b - 1) * 10 ^ ?b"
    using qb by simp
  also have "\<dots> \<le> of_int p" using e pa by simp
  finally have "pow10 (int ?a - int ?b - 1) \<le> \<bar>x\<bar>"
    using q by (simp add: eq pos_le_divide_eq)
  then show ?thesis by (simp add: lead_exp_def pq Let_def)
qed

text \<open>A grid point of the target precision is a barrier: rounding to the context never crosses it.\<close>

lemma lead_exp_less: "x \<noteq> 0 \<Longrightarrow> \<bar>x\<bar> < pow10 k \<Longrightarrow> lead_exp x < k"
  using pow10_lead_exp_le[of x] pow10_mono[of k "lead_exp x"] by linarith

lemma ctx28_le:
  assumes "x \<le> of_int m * pow10 (- k)" and "\<bar>x\<bar> < pow10 (28 - k)"
  shows "ctx28 x \<le> of_int m * pow10 (- k)"
proof (cases "x = 0")
  case True
  with assms show ?thesis by (simp add: ctx28_def)
next
  case False
  let ?e = "lead_exp x - 27"
  have "?e \<le> - k" using lead_exp_less[OF False assms(2)] by simp
  then obtain n where "- k = ?e + int n" using zle_iff_zadd by auto
  then have grid: "of_int m * pow10 (- k) = of_int (m * 10 ^ n) * pow10 ?e"
    by (simp add: pow10_add)
  have "x / pow10 ?e \<le> of_int (m * 10 ^ n)"
    using assms(1) unfolding grid by (simp add: divide_le_eq)
  then have "round_half_even (x / pow10 ?e) \<le> m * 10 ^ n"
    by (rule round_half_even_le)
  then show ?thesis using False unfolding grid ctx28_def Let_def
    by (simp only: if_False mult_le_cancel_right_pos pow10_pos of_int_le_iff)
qed

lemma ctx28_ge:
  assumes "of_int m * pow10 (- k) \<le> x" and "\<bar>x\<bar> < pow10 (28 - k)"
  shows "of_int m * pow10 (- k) \<le> ctx28 x"
proof (cases "x = 0")
  case True
  with assms show ?thesis by (simp add: ctx28_def)
next
  case False
  let ?e = "lead_exp x - 27"
  have "?e \<le> - k" using lead_exp_less[OF False assms(2)] by simp
  then obtain n where "- k = ?e + int n" using zle_iff_zadd by auto
  then have grid: "of_int m * pow10 (- k) = of_int (m * 10 ^ n) * pow10 ?e"
    by (simp add: pow10_add)
  have "of_int (m * 10 ^ n) \<le> x / pow10 ?e"
    using assms(1) unfolding grid by (simp add: le_divide_eq)
  then have "m * 10 ^ n \<le> round_half_even (x / pow10 ?e)"
    by (rule round_half_even_ge)
  then show ?thesis using False unfolding grid ctx28_def Let_def
    by (simp only: if_False mult_le_cancel_right_pos pow10_pos of_int_le_iff)
qed

lemma ctx28_exact:
  "\<bar>of_int m * pow10 (- k)\<bar> < pow10 (28 - k) \<Longrightarrow> ctx28 (of_int m * pow10 (- k)) = of_int m * pow10 (- k)"
  by (intro antisym ctx28_le ctx28_ge) simp_all

text \<open>Stored values, their sums and their products are exact in the context.\<close>

lemma dec_pow10: "dec m = of_int m * pow10 (- 3)"
  by (simp add: dec_def pow10_def)

lemma ctx28_milli: "\<bar>m\<bar> < 10 ^ 28 \<Longrightarrow> ctx28 (dec m) = dec m"
proof -
  assume m: "\<bar>m\<bar> < 10 ^ 28"
  have "\<bar>of_int m :: rat\<bar> < of_int (10 ^ 28)" using m by (metis of_int_abs of_int_less_iff)
  then have "\<bar>of_int m * pow10 (- 3)\<bar> < pow10 (28 - 3)"
    by (simp add: pow10_def abs_mult)
  then show ?thesis unfolding dec_pow10 by (rule ctx28_exact)
qed

lemma dmul_milli: "\<bar>a * b\<bar> < 10 ^ 28 \<Longrightarrow> dmul (dec a) (dec b) = of_int (a * b) / 10 ^ 6"
proof -
  assume m: "\<bar>a * b\<bar> < 10 ^ 28"
  have "\<bar>of_int (a * b) :: rat\<bar> < of_int (10 ^ 28)" using m by (metis of_int_abs of_int_less_iff)
  then have "\<bar>of_int (a * b) * pow10 (- 6)\<bar> < pow10 (28 - 6)"
    by (simp add: pow10_def abs_mult)
  from ctx28_exact[OF this] show ?thesis by (simp add: dmul_def dec_def pow10_def)
qed

section \<open>money, qty and display rounding\<close>

datatype dec_input = Missing | Parsed rat | Unparsable

text \<open>\<open>D\<close>: None and the empty string give the default, unparsable text gives the default.\<close>

definition D :: "dec_input \<Rightarrow> rat \<Rightarrow> rat" where
  "D v d = (case v of Missing \<Rightarrow> d | Parsed x \<Rightarrow> x | Unparsable \<Rightarrow> d)"

definition money :: "rat \<Rightarrow> milli" where
  "money x = round_half_up (1000 * x)"

definition qty :: "rat \<Rightarrow> milli" where
  "qty x = round_half_up (1000 * x)"

definition round_to_precision :: "milli \<Rightarrow> int \<Rightarrow> milli" where
  "round_to_precision v places =
     (let p = max 0 (min places 3)
      in round_half_up (dec v * 10 ^ nat p) * 10 ^ nat (3 - p))"

lemma money_dec [simp]: "money (dec m) = m"
  using half_up.rnd_int[of m] by (simp add: money_def dec_def)

lemma qty_dec [simp]: "qty (dec m) = m"
  using half_up.rnd_int[of m] by (simp add: qty_def dec_def)

lemma money_le: "x \<le> dec m \<Longrightarrow> money x \<le> m"
  by (auto simp: money_def dec_def intro!: round_half_up_le)

lemma money_ge: "dec m \<le> x \<Longrightarrow> m \<le> money x"
  by (auto simp: money_def dec_def intro!: round_half_up_ge)

lemma round_half_up_minus: "round_half_up (- x) = - round_half_up x"
proof -
  have "\<lfloor>1 / 2 :: rat\<rfloor> = 0" by (simp add: floor_eq_iff)
  then show ?thesis by (cases "x = 0"; cases "0 < x") (auto simp: round_half_up_def)
qed

lemma qty_minus: "qty (- x) = - qty x"
  using round_half_up_minus[of "1000 * x"] by (simp add: qty_def)

lemma qty_between: "0 \<le> x \<Longrightarrow> x \<le> dec n \<Longrightarrow> 0 \<le> qty x \<and> qty x \<le> n"
  by (simp add: qty_def dec_def round_half_up_ge round_half_up_le divide_simps)

text \<open>\<open>money\<close> of a context-rounded value is again a rounding to thousandths that crosses none.\<close>

definition ctx_money :: "rat \<Rightarrow> milli" where
  "ctx_money y = money (ctx28 (y / 1000))"

interpretation ctx_money: rounding ctx_money "\<lambda>y. \<bar>y\<bar> < 10 ^ 28"
proof unfold_locales
  fix x :: rat and m :: int
  assume ok: "\<bar>x\<bar> < 10 ^ 28"
  then have ok': "\<bar>x / 1000\<bar> < pow10 (28 - 3)" by (simp add: pow10_def)
  { assume "x \<le> of_int m"
    then have "x / 1000 \<le> of_int m * pow10 (- 3)" by (simp add: pow10_def)
    from ctx28_le[OF this ok'] show "ctx_money x \<le> m"
      by (simp add: ctx_money_def money_le dec_pow10) }
  { assume "of_int m \<le> x"
    then have "of_int m * pow10 (- 3) \<le> x / 1000" by (simp add: pow10_def)
    from ctx28_ge[OF this ok'] show "m \<le> ctx_money x"
      by (simp add: ctx_money_def money_ge dec_pow10) }
qed

end
