(* ===== verification/Plan_Modules.thy ===== *)
theory Plan_Modules
  imports Prelude
begin

text \<open>
  The commercial-module registry (\<^verbatim>\<open>apps/subscriptions/feature_registry.py\<close>) and the resolution
  of a plan's modules (\<^verbatim>\<open>_cyclic_module_keys\<close> and \<^verbatim>\<open>calculate_effective_modules\<close> of
  \<^verbatim>\<open>apps/subscriptions/access.py\<close>).  A plan is the list of the feature fields that are true.  The
  resolution repeats a pass over a Python set until nothing changes; the order in which Python
  iterates the set is the parameter \<open>ord\<close>, and the passes are bounded by fuel.  The locale
  \<open>module_registry\<close> states what a registry must satisfy for the loop to end in the greatest
  supported set of modules; it is interpreted on the registry of the code.
\<close>

section \<open>Registry\<close>

record module_def =
  md_key :: string
  md_label :: string
  md_plan_field :: "string option"
  md_derived_from :: "string option"
  md_dependencies :: "string list"

definition plan_module :: "string \<Rightarrow> string \<Rightarrow> string \<Rightarrow> string list \<Rightarrow> module_def" where
  "plan_module k l f ds = \<lparr>md_key = k, md_label = l, md_plan_field = Some f,
     md_derived_from = None, md_dependencies = ds\<rparr>"

definition derived_module :: "string \<Rightarrow> string \<Rightarrow> string \<Rightarrow> string list \<Rightarrow> module_def" where
  "derived_module k l s ds = \<lparr>md_key = k, md_label = l, md_plan_field = None,
     md_derived_from = Some s, md_dependencies = ds\<rparr>"

definition feature_registry :: "module_def list" where
  "feature_registry =
    [plan_module ''pos_core'' ''POS Core'' ''feature_sales'' [],
     plan_module ''wms'' ''Workshop Management System'' ''feature_wms'' [],
     derived_module ''customers'' ''Customers'' ''pos_core'' [''pos_core''],
     derived_module ''users_staff'' ''Users & Staff'' ''pos_core'' [''pos_core''],
     plan_module ''inventory'' ''Inventory Management'' ''feature_inventory'' [''pos_core''],
     plan_module ''suppliers'' ''Suppliers'' ''feature_suppliers'' [''pos_core''],
     plan_module ''purchases'' ''Purchasing'' ''feature_purchases'' [''inventory'', ''suppliers''],
     plan_module ''stock_transfers'' ''Stock Transfers'' ''feature_transfers'' [''inventory''],
     plan_module ''expenses'' ''Expenses'' ''feature_expenses'' [''pos_core''],
     plan_module ''tailoring'' ''Tailoring Operations'' ''feature_tailoring_module''
       [''pos_core'', ''inventory''],
     plan_module ''customer_credit'' ''Customer Credit'' ''feature_customer_credit'' [''pos_core''],
     plan_module ''advanced_reports'' ''Advanced Reports'' ''feature_advanced_reports''
       [''pos_core''],
     plan_module ''audit_logs'' ''Audit Logs'' ''feature_audit_logs'' [''pos_core''],
     plan_module ''barcode_printing'' ''Barcode Printing'' ''feature_barcode_printing''
       [''pos_core''],
     plan_module ''custom_roles'' ''Custom Roles'' ''feature_custom_roles'' [''users_staff''],
     plan_module ''api_access'' ''API Access'' ''feature_api_access'' []]"

definition get_module_definition :: "module_def list \<Rightarrow> string \<Rightarrow> module_def option" where
  "get_module_definition reg k = find (\<lambda>d. md_key d = k) reg"

definition dependency_keys :: "module_def \<Rightarrow> string list" where
  "dependency_keys d =
     (case md_derived_from d of
        Some s \<Rightarrow> if s \<notin> set (md_dependencies d) then md_dependencies d @ [s] else md_dependencies d
      | None \<Rightarrow> md_dependencies d)"

definition deps_of :: "module_def list \<Rightarrow> string \<Rightarrow> string list" where
  "deps_of reg k =
     (case get_module_definition reg k of Some d \<Rightarrow> dependency_keys d | None \<Rightarrow> [])"

definition registry_keys :: "module_def list \<Rightarrow> string list" where
  "registry_keys reg = map md_key reg"

section \<open>Cyclic modules\<close>

record dfs =
  dfs_states :: "(string \<times> nat) list"
  dfs_stack :: "string list"
  dfs_indexes :: "(string \<times> nat) list"
  dfs_cyclic :: "string list"

text \<open>
  The recursive \<open>visit\<close> of \<^verbatim>\<open>_cyclic_module_keys\<close>.  The dictionaries are association lists whose
  first entry for a key counts; \<open>stack_indexes.pop\<close> drops the key.
\<close>

fun visit :: "nat \<Rightarrow> module_def list \<Rightarrow> string \<Rightarrow> dfs \<Rightarrow> dfs option"
  and visit_deps :: "nat \<Rightarrow> module_def list \<Rightarrow> string list \<Rightarrow> dfs \<Rightarrow> dfs option" where
  "visit 0 reg k s = None"
| "visit (Suc n) reg k s =
     (case visit_deps n reg (deps_of reg k)
             (s\<lparr>dfs_states := (k, 1) # dfs_states s,
                dfs_indexes := (k, length (dfs_stack s)) # dfs_indexes s,
                dfs_stack := dfs_stack s @ [k]\<rparr>) of
        None \<Rightarrow> None
      | Some t \<Rightarrow> Some (t\<lparr>dfs_stack := butlast (dfs_stack t),
                          dfs_indexes := filter (\<lambda>e. fst e \<noteq> k) (dfs_indexes t),
                          dfs_states := (k, 2) # dfs_states t\<rparr>))"
| "visit_deps n reg [] s = Some s"
| "visit_deps n reg (d # ds) s =
     (if get_module_definition reg d = None then visit_deps n reg ds s
      else case map_of (dfs_states s) d of
        None \<Rightarrow> (case visit n reg d s of None \<Rightarrow> None | Some t \<Rightarrow> visit_deps n reg ds t)
      | Some st \<Rightarrow>
          if st = 1
          then visit_deps n reg ds
                 (s\<lparr>dfs_cyclic := dfs_cyclic s @
                      drop (case map_of (dfs_indexes s) d of Some i \<Rightarrow> i | None \<Rightarrow> 0) (dfs_stack s)\<rparr>)
          else visit_deps n reg ds s)"

text \<open>The loop over the registry visits the keys that no visit has reached yet.\<close>

fun visit_all :: "nat \<Rightarrow> module_def list \<Rightarrow> string list \<Rightarrow> dfs \<Rightarrow> dfs option" where
  "visit_all n reg [] s = Some s"
| "visit_all n reg (k # ks) s =
     (if map_of (dfs_states s) k = None
      then (case visit n reg k s of None \<Rightarrow> None | Some t \<Rightarrow> visit_all n reg ks t)
      else visit_all n reg ks s)"

definition cyclic_module_keys :: "module_def list \<Rightarrow> string list option" where
  "cyclic_module_keys reg =
     map_option dfs_cyclic
       (visit_all (Suc (length reg)) reg (registry_keys reg)
          \<lparr>dfs_states = [], dfs_stack = [], dfs_indexes = [], dfs_cyclic = []\<rparr>)"

section \<open>Effective modules\<close>

datatype denial_code =
    AUTHENTICATION_REQUIRED | MEMBERSHIP_REQUIRED | BUSINESS_INACTIVE | SUBSCRIPTION_MISSING
  | SUBSCRIPTION_READ_ONLY | SUBSCRIPTION_SUSPENDED | SUBSCRIPTION_INACTIVE | TRIAL_INVALID
  | PLAN_INACTIVE | MODULE_DISABLED | MODULE_DEPENDENCY_MISSING | PERMISSION_DENIED
  | SCOPE_DENIED | UNKNOWN_MODULE

record access_denial =
  den_code :: denial_code
  den_message :: string
  den_module :: "string option"
  den_missing :: "string list"

definition denial :: "denial_code \<Rightarrow> string \<Rightarrow> access_denial" where
  "denial c m = \<lparr>den_code = c, den_message = m, den_module = None, den_missing = []\<rparr>"

definition module_denial :: "denial_code \<Rightarrow> string \<Rightarrow> string \<Rightarrow> string list \<Rightarrow> access_denial" where
  "module_denial c m k ds = \<lparr>den_code = c, den_message = m, den_module = Some k, den_missing = ds\<rparr>"

record module_resolution =
  effective_modules :: "string list"
  raw_enabled_modules :: "string list"
  module_denials :: "(string \<times> access_denial) list"

definition raw_enabled :: "module_def list \<Rightarrow> string list \<Rightarrow> string list" where
  "raw_enabled reg features =
     map md_key (filter (\<lambda>d. case md_plan_field d of Some f \<Rightarrow> f \<in> set features | None \<Rightarrow> False) reg)"

definition set_add :: "string \<Rightarrow> string list \<Rightarrow> string list" where
  "set_add k e = (if k \<in> set e then e else e @ [k])"

fun add_derived :: "string list \<Rightarrow> module_def list \<Rightarrow> string list \<Rightarrow> string list" where
  "add_derived cyc [] e = e"
| "add_derived cyc (d # ds) e =
     add_derived cyc ds
       (case md_derived_from d of
          Some s \<Rightarrow> if md_key d \<notin> set cyc \<and> s \<in> set e then set_add (md_key d) e else e
        | None \<Rightarrow> e)"

fun prune :: "module_def list \<Rightarrow> string list \<Rightarrow> string list \<Rightarrow> string list" where
  "prune reg [] e = e"
| "prune reg (k # ks) e =
     prune reg ks (if set (deps_of reg k) \<subseteq> set e then e else removeAll k e)"

definition resolve_pass ::
    "(string list \<Rightarrow> string list) \<Rightarrow> module_def list \<Rightarrow> string list \<Rightarrow> string list \<Rightarrow> string list" where
  "resolve_pass ord reg cyc e = (let e1 = add_derived cyc reg e in prune reg (ord e1) e1)"

fun resolve_loop ::
    "nat \<Rightarrow> (string list \<Rightarrow> string list) \<Rightarrow> module_def list \<Rightarrow> string list \<Rightarrow> string list \<Rightarrow> string list option"
where
  "resolve_loop 0 ord reg cyc e = None"
| "resolve_loop (Suc n) ord reg cyc e =
     (let e' = resolve_pass ord reg cyc e
      in if set e' = set e then Some e' else resolve_loop n ord reg cyc e')"

definition module_denial_for ::
    "string list \<Rightarrow> string list \<Rightarrow> string list \<Rightarrow> module_def \<Rightarrow> access_denial" where
  "module_denial_for cyc raw e d =
     (let k = md_key d;
          missing = filter (\<lambda>x. x \<notin> set e) (dependency_keys d)
      in if k \<in> set cyc
         then module_denial MODULE_DEPENDENCY_MISSING
                (md_label d @ '' has cyclic module dependencies.'') k missing
         else case md_derived_from d of
           Some s \<Rightarrow>
             module_denial MODULE_DEPENDENCY_MISSING
               (md_label d @ '' requires enabled parent modules.'') k
               (if s \<notin> set e \<and> s \<notin> set missing then s # missing else missing)
         | None \<Rightarrow>
             if k \<notin> set raw
             then module_denial MODULE_DISABLED (md_label d @ '' is not included in this plan.'') k []
             else module_denial MODULE_DEPENDENCY_MISSING
                    (md_label d @ '' has unmet module dependencies.'') k missing)"

text \<open>
  \<open>None\<close> stands for a resolution that runs out of fuel; \<open>effective_modules_total\<close> proves that the
  registry of the code never does.
\<close>

definition calculate_effective_modules ::
    "(string list \<Rightarrow> string list) \<Rightarrow> module_def list \<Rightarrow> string list \<Rightarrow> module_resolution option" where
  "calculate_effective_modules ord reg features =
     (case cyclic_module_keys reg of
        None \<Rightarrow> None
      | Some cyc \<Rightarrow>
          let raw = raw_enabled reg features
          in case resolve_loop (2 * length reg + 2) ord reg cyc (filter (\<lambda>k. k \<notin> set cyc) raw) of
               None \<Rightarrow> None
             | Some e \<Rightarrow> Some
                 \<lparr>effective_modules = e,
                  raw_enabled_modules = raw,
                  module_denials =
                    map (\<lambda>d. (md_key d, module_denial_for cyc raw e d))
                      (filter (\<lambda>d. md_key d \<notin> set e) reg)\<rparr>)"

section \<open>The resolution of a well-shaped registry\<close>

definition derived_of :: "module_def list \<Rightarrow> string \<Rightarrow> string option" where
  "derived_of reg k =
     (case get_module_definition reg k of Some d \<Rightarrow> md_derived_from d | None \<Rightarrow> None)"

text \<open>
  What a set of modules needs to be granted: each member is registered, not cyclic, has its
  dependencies in the set, and is switched on by the plan unless it is derived.
\<close>

definition supported ::
    "module_def list \<Rightarrow> string list \<Rightarrow> string list \<Rightarrow> string set \<Rightarrow> bool" where
  "supported reg cyc raw S =
     (\<forall>k \<in> S. k \<in> set (registry_keys reg) \<and> k \<notin> set cyc \<and> set (deps_of reg k) \<subseteq> S
        \<and> (derived_of reg k = None \<longrightarrow> k \<in> set raw))"

text \<open>A possible order in which Python iterates a set: any list with the same members.\<close>

definition reorders :: "(string list \<Rightarrow> string list) \<Rightarrow> bool" where
  "reorders ord = (\<forall>xs. set (ord xs) = set xs)"

lemma set_set_add [simp]: "set (set_add k e) = insert k (set e)"
  by (auto simp: set_add_def)

lemma prune_subset: "set (prune reg ks e) \<subseteq> set e"
proof (induction ks arbitrary: e)
  case Nil
  then show ?case by simp
next
  case (Cons k ks)
  show ?case
    using Cons.IH[of e] Cons.IH[of "removeAll k e"] by (auto split: if_splits)
qed

lemma prune_other: "x \<in> set e \<Longrightarrow> x \<notin> set ks \<Longrightarrow> x \<in> set (prune reg ks e)"
  by (induction ks arbitrary: e) auto

lemma prune_keeps:
  "S \<subseteq> set e \<Longrightarrow> (\<And>k. k \<in> S \<Longrightarrow> set (deps_of reg k) \<subseteq> S) \<Longrightarrow> S \<subseteq> set (prune reg ks e)"
proof (induction ks arbitrary: e)
  case Nil
  then show ?case by simp
next
  case (Cons k ks)
  have "S \<subseteq> set (removeAll k e)" if "\<not> set (deps_of reg k) \<subseteq> set e"
    using that Cons.prems by (auto; blast)
  then show ?case using Cons.IH[OF _ Cons.prems(2)] Cons.prems(1) by simp
qed

lemma prune_removes:
  "x \<in> set ks \<Longrightarrow> \<not> set (deps_of reg x) \<subseteq> set e \<Longrightarrow> x \<notin> set (prune reg ks e)"
proof (induction ks arbitrary: e)
  case Nil
  then show ?case by simp
next
  case (Cons k ks)
  show ?case
  proof (cases "x = k")
    case True
    then show ?thesis
      using Cons.prems prune_subset[of reg ks "removeAll k e"] by auto
  next
    case False
    have "\<not> set (deps_of reg x) \<subseteq> set (removeAll k e)" using Cons.prems(2) by auto
    then show ?thesis using Cons.IH[of e] Cons.IH[of "removeAll k e"] Cons.prems False by simp
  qed
qed

lemma prune_keeps_one:
  "x \<in> set e \<Longrightarrow> set (deps_of reg x) \<subseteq> set (prune reg ks e) \<Longrightarrow> x \<in> set (prune reg ks e)"
proof (induction ks arbitrary: e)
  case Nil
  then show ?case by simp
next
  case (Cons k ks)
  let ?e = "if set (deps_of reg k) \<subseteq> set e then e else removeAll k e"
  have "set (deps_of reg x) \<subseteq> set e"
    using Cons.prems(2) prune_subset[of reg "k # ks" e] by blast
  then have "x \<in> set ?e" using Cons.prems(1) by auto
  then show ?case using Cons.IH[of ?e] Cons.prems(2) by simp
qed

lemma prune_fixed:
  "set e \<subseteq> set ks \<Longrightarrow> set (prune reg ks e) = set e \<Longrightarrow> k \<in> set e \<Longrightarrow> set (deps_of reg k) \<subseteq> set e"
  using prune_removes by blast

locale module_registry =
  fixes reg :: "module_def list"
  assumes keys_distinct: "distinct (registry_keys reg)"
    and derived_shape: "d \<in> set reg \<Longrightarrow> md_derived_from d = Some s \<Longrightarrow>
      set (md_dependencies d) \<subseteq> {s} \<and> md_plan_field d = None
        \<and> s \<in> set (registry_keys reg) \<and> derived_of reg s = None"
begin

lemma definition_of: "d \<in> set reg \<Longrightarrow> get_module_definition reg (md_key d) = Some d"
proof -
  assume d: "d \<in> set reg"
  then obtain x where x: "get_module_definition reg (md_key d) = Some x"
    by (fastforce simp: get_module_definition_def find_eq_None not_None_eq[symmetric]
        simp del: not_None_eq)
  then have "x \<in> set reg" "md_key x = md_key d"
    by (auto simp: get_module_definition_def dest: find_Some_mem)
  then have "x = d"
    using keys_distinct d by (auto simp: registry_keys_def distinct_map inj_on_def)
  with x show ?thesis by simp
qed

lemma derived_deps:
  assumes "d \<in> set reg" and "md_derived_from d = Some s"
  shows "set (deps_of reg (md_key d)) = {s}" "derived_of reg (md_key d) = Some s"
    "derived_of reg s = None" "s \<noteq> md_key d"
  using derived_shape[OF assms] definition_of[OF assms(1)] assms(2)
  by (auto simp: deps_of_def dependency_keys_def derived_of_def)

lemma derived_of_key:
  "k \<in> set (registry_keys reg) \<Longrightarrow> derived_of reg k = Some s \<Longrightarrow>
     \<exists>d \<in> set reg. md_key d = k \<and> md_derived_from d = Some s"
  using definition_of by (auto simp: registry_keys_def derived_of_def)

definition closure :: "string list \<Rightarrow> string set \<Rightarrow> string set" where
  "closure cyc S = {k. k \<in> set (registry_keys reg) \<and> k \<notin> set cyc
     \<and> (\<exists>s \<in> S. derived_of reg k = Some s)}"

lemma set_add_derived_prefix:
  "set ds \<subseteq> set reg \<Longrightarrow>
   set (add_derived cyc ds e) =
     set e \<union> {md_key d | d s. d \<in> set ds \<and> md_derived_from d = Some s
                \<and> md_key d \<notin> set cyc \<and> s \<in> set e}"
proof (induction ds arbitrary: e)
  case Nil
  then show ?case by simp
next
  case (Cons d ds)
  have sources: "s' \<noteq> md_key d" if "md_derived_from d = Some s" and "x \<in> set ds"
    and "md_derived_from x = Some s'" for s x s'
    using derived_deps[of d s] derived_deps[of x s'] that Cons.prems by auto
  show ?case
  proof (cases "md_derived_from d")
    case None
    then show ?thesis using Cons by auto
  next
    case (Some s)
    let ?e1 = "if md_key d \<notin> set cyc \<and> s \<in> set e then set_add (md_key d) e else e"
    have same: "s' \<in> set ?e1 \<longleftrightarrow> s' \<in> set e"
      if "x \<in> set ds" and "md_derived_from x = Some s'" for x s'
      using sources[OF Some that] by auto
    have "set (add_derived cyc (d # ds) e) =
        set ?e1 \<union> {md_key x | x s'. x \<in> set ds \<and> md_derived_from x = Some s'
                \<and> md_key x \<notin> set cyc \<and> s' \<in> set ?e1}"
      using Cons.IH[of ?e1] Cons.prems Some by simp
    also have "\<dots> = set ?e1 \<union> {md_key x | x s'. x \<in> set ds \<and> md_derived_from x = Some s'
                \<and> md_key x \<notin> set cyc \<and> s' \<in> set e}"
      using same by blast
    finally show ?thesis using Some by auto
  qed
qed

lemma set_add_derived: "set (add_derived cyc reg e) = set e \<union> closure cyc (set e)"
proof -
  have "k \<in> {md_key d | d s. d \<in> set reg \<and> md_derived_from d = Some s
                \<and> md_key d \<notin> set cyc \<and> s \<in> set e} \<longleftrightarrow> k \<in> closure cyc (set e)" for k
  proof
    assume "k \<in> {md_key d | d s. d \<in> set reg \<and> md_derived_from d = Some s
                \<and> md_key d \<notin> set cyc \<and> s \<in> set e}"
    then obtain d s where "d \<in> set reg" "md_derived_from d = Some s" "k = md_key d"
      "k \<notin> set cyc" "s \<in> set e" by auto
    then show "k \<in> closure cyc (set e)"
      using derived_deps(2)[of d s] by (simp add: closure_def registry_keys_def)
  next
    assume "k \<in> closure cyc (set e)"
    then obtain s where "k \<in> set (registry_keys reg)" "k \<notin> set cyc" "s \<in> set e"
      "derived_of reg k = Some s" by (auto simp: closure_def)
    with derived_of_key[of k s] show "k \<in> {md_key d | d s. d \<in> set reg
        \<and> md_derived_from d = Some s \<and> md_key d \<notin> set cyc \<and> s \<in> set e}" by blast
  qed
  then show ?thesis using set_add_derived_prefix[of reg cyc e] by blast
qed

lemma closure_deps: "k \<in> closure cyc S \<Longrightarrow> set (deps_of reg k) \<subseteq> S \<and> derived_of reg k \<noteq> None"
  unfolding closure_def using derived_of_key derived_deps(1) by fastforce

definition base :: "string list \<Rightarrow> string set" where
  "base e = {k \<in> set e. derived_of reg k = None}"

definition consistent :: "string list \<Rightarrow> string list \<Rightarrow> bool" where
  "consistent cyc e = (set e = base e \<union> closure cyc (base e))"

lemma closure_base: "closure cyc (set e) = closure cyc (base e)"
  unfolding closure_def base_def using derived_of_key derived_deps(3) by blast

definition granted_range :: "string list \<Rightarrow> string list \<Rightarrow> bool" where
  "granted_range cyc e = (set e \<subseteq> set (registry_keys reg) - set cyc)"

lemma set_first: "set (add_derived cyc reg e) = set e \<union> closure cyc (base e)"
  by (simp add: set_add_derived closure_base)

lemma closure_range: "closure cyc S \<subseteq> set (registry_keys reg) - set cyc"
  by (auto simp: closure_def)

lemma pass_subset:
  "reorders ord \<Longrightarrow> set (resolve_pass ord reg cyc e) \<subseteq> set e \<union> closure cyc (base e)"
  using prune_subset[of reg "ord (add_derived cyc reg e)" "add_derived cyc reg e"]
  by (simp add: resolve_pass_def Let_def set_first)

lemma pass_range: "reorders ord \<Longrightarrow> granted_range cyc e \<Longrightarrow> granted_range cyc (resolve_pass ord reg cyc e)"
  using pass_subset[of ord cyc e] closure_range[of cyc "base e"]
  by (auto simp: granted_range_def)

lemma base_pass: "reorders ord \<Longrightarrow> base (resolve_pass ord reg cyc e) \<subseteq> base e"
  using pass_subset[of ord cyc e] by (auto simp: base_def closure_def)

lemma pass_consistent:
  assumes ord: "reorders ord" and range: "granted_range cyc e"
    and same: "base (resolve_pass ord reg cyc e) = base e"
  shows "consistent cyc (resolve_pass ord reg cyc e)"
proof -
  let ?e1 = "add_derived cyc reg e" and ?e' = "resolve_pass ord reg cyc e"
  have e': "?e' = prune reg (ord ?e1) ?e1" by (simp add: resolve_pass_def Let_def)
  have "x \<in> base ?e' \<union> closure cyc (base ?e')" if x: "x \<in> set ?e'" for x
  proof (cases "derived_of reg x")
    case None
    then show ?thesis using x by (simp add: base_def)
  next
    case (Some s)
    have keys: "x \<in> set (registry_keys reg) - set cyc"
      using pass_range[OF ord range] x by (auto simp: granted_range_def)
    then obtain d where d: "d \<in> set reg" "md_key d = x" "md_derived_from d = Some s"
      using derived_of_key[OF _ Some] by auto
    have deps: "set (deps_of reg x) = {s}" and s: "derived_of reg s = None"
      using derived_deps[OF d(1,3)] d(2) by auto
    have "x \<in> set (ord ?e1)"
      using x prune_subset ord by (fastforce simp: e' reorders_def)
    then have "set (deps_of reg x) \<subseteq> set ?e1"
      using prune_removes[of x "ord ?e1" reg ?e1] x by (auto simp: e')
    then have "s \<in> base e" using deps s by (auto simp: set_first base_def closure_def)
    then show ?thesis using keys Some by (auto simp: same closure_def)
  qed
  moreover have "x \<in> set ?e'" if x: "x \<in> closure cyc (base ?e')" for x
  proof -
    have "x \<in> set ?e1" using x by (simp add: set_first same)
    moreover have "set (deps_of reg x) \<subseteq> set ?e'"
      using closure_deps[OF x] by (auto simp: base_def)
    ultimately show ?thesis unfolding e' by (rule prune_keeps_one)
  qed
  ultimately show ?thesis unfolding consistent_def by (auto simp: base_def)
qed

lemma pass_fixed_supported:
  assumes ord: "reorders ord" and range: "granted_range cyc e" and raw: "base e \<subseteq> set raw"
    and fixed: "set (resolve_pass ord reg cyc e) = set e"
  shows "supported reg cyc raw (set e)"
proof -
  let ?e1 = "add_derived cyc reg e"
  have "base (resolve_pass ord reg cyc e) = base e" using fixed by (simp add: base_def)
  from pass_consistent[OF ord range this] have "consistent cyc e"
    by (simp add: consistent_def fixed base_def)
  then have e1: "set ?e1 = set e" unfolding set_first consistent_def by blast
  have "set (deps_of reg k) \<subseteq> set e" if "k \<in> set e" for k
    using prune_fixed[of ?e1 "ord ?e1" reg k] ord fixed that
    by (simp add: resolve_pass_def Let_def e1 reorders_def)
  then show ?thesis using range raw
    by (auto simp: supported_def granted_range_def base_def)
qed

lemma pass_maximal:
  assumes "supported reg cyc raw S" and "{k \<in> S. derived_of reg k = None} \<subseteq> set e"
  shows "S \<subseteq> set (resolve_pass ord reg cyc e)"
proof -
  have "k \<in> set (add_derived cyc reg e)" if k: "k \<in> S" for k
  proof (cases "derived_of reg k")
    case None
    then show ?thesis using assms(2) k by (auto simp: set_first)
  next
    case (Some s)
    have keys: "k \<in> set (registry_keys reg)" "k \<notin> set cyc" "set (deps_of reg k) \<subseteq> S"
      using assms(1) k by (auto simp: supported_def)
    then obtain d where d: "d \<in> set reg" "md_key d = k" "md_derived_from d = Some s"
      using derived_of_key[OF _ Some] by auto
    then have "s \<in> S" "derived_of reg s = None"
      using derived_deps[OF d(1,3)] keys(3) by auto
    then have "s \<in> base e" using assms(2) by (auto simp: base_def)
    then show ?thesis using keys Some by (auto simp: set_first closure_def)
  qed
  then have "S \<subseteq> set (add_derived cyc reg e)" by blast
  then show ?thesis unfolding resolve_pass_def Let_def
    by (rule prune_keeps) (use assms(1) in \<open>auto simp: supported_def\<close>)
qed

text \<open>Each pass that changes the set removes a plan module or makes the derived part consistent.\<close>

definition passes_left :: "string list \<Rightarrow> string list \<Rightarrow> nat" where
  "passes_left cyc e = 2 * card (base e) + (if consistent cyc e then 0 else 1)"

lemma passes_left_decreases:
  assumes "reorders ord" and "granted_range cyc e"
    and changed: "set (resolve_pass ord reg cyc e) \<noteq> set e"
  shows "passes_left cyc (resolve_pass ord reg cyc e) < passes_left cyc e"
proof (cases "base (resolve_pass ord reg cyc e) = base e")
  case True
  have "consistent cyc (resolve_pass ord reg cyc e)"
    by (rule pass_consistent[OF assms(1,2) True])
  moreover from this have "\<not> consistent cyc e" using changed True by (simp add: consistent_def)
  ultimately show ?thesis using True by (simp add: passes_left_def)
next
  case False
  then have "base (resolve_pass ord reg cyc e) \<subset> base e" using base_pass[OF assms(1)] by blast
  then have "card (base (resolve_pass ord reg cyc e)) < card (base e)"
    by (rule psubset_card_mono[rotated]) (simp add: base_def)
  then show ?thesis by (simp add: passes_left_def)
qed

lemma resolve_loop_spec:
  assumes "reorders ord" and "granted_range cyc e" and "base e \<subseteq> set raw"
    and "\<And>S. supported reg cyc raw S \<Longrightarrow> {k \<in> S. derived_of reg k = None} \<subseteq> set e"
    and "passes_left cyc e < n"
  shows "\<exists>r. resolve_loop n ord reg cyc e = Some r \<and> supported reg cyc raw (set r)
    \<and> (\<forall>S. supported reg cyc raw S \<longrightarrow> S \<subseteq> set r)"
  using assms
proof (induction n arbitrary: e)
  case 0
  then show ?case by simp
next
  case (Suc n)
  let ?e' = "resolve_pass ord reg cyc e"
  have max: "S \<subseteq> set ?e'" if "supported reg cyc raw S" for S
    by (rule pass_maximal[OF that Suc.prems(4)[OF that]])
  show ?case
  proof (cases "set ?e' = set e")
    case True
    have "supported reg cyc raw (set e)"
      by (rule pass_fixed_supported[OF Suc.prems(1,2,3) True])
    then show ?thesis using True max by (auto simp: Let_def)
  next
    case False
    have "passes_left cyc ?e' < n"
      using passes_left_decreases[OF Suc.prems(1,2) False] Suc.prems(5) by simp
    moreover have "base ?e' \<subseteq> set raw" using base_pass[OF Suc.prems(1)] Suc.prems(3) by blast
    ultimately have "\<exists>r. resolve_loop n ord reg cyc ?e' = Some r \<and> supported reg cyc raw (set r)
        \<and> (\<forall>S. supported reg cyc raw S \<longrightarrow> S \<subseteq> set r)"
      using Suc.IH[OF Suc.prems(1) pass_range[OF Suc.prems(1,2)]] max by blast
    then show ?thesis using False by (simp add: Let_def)
  qed
qed

lemma raw_not_derived: "k \<in> set (raw_enabled reg features) \<Longrightarrow>
    k \<in> set (registry_keys reg) \<and> derived_of reg k = None"
proof -
  assume "k \<in> set (raw_enabled reg features)"
  then obtain d f where d: "d \<in> set reg" "k = md_key d" "md_plan_field d = Some f"
    by (auto simp: raw_enabled_def split: option.splits)
  then have "md_derived_from d = None" using derived_shape[OF d(1)] by (cases "md_derived_from d") auto
  then show ?thesis using d definition_of[OF d(1)] by (simp add: registry_keys_def derived_of_def)
qed

lemma calculate_spec:
  assumes ord: "reorders ord" and cyc: "cyclic_module_keys reg = Some cyc"
  shows "\<exists>r. calculate_effective_modules ord reg features = Some r
    \<and> supported reg cyc (raw_enabled reg features) (set (effective_modules r))
    \<and> (\<forall>S. supported reg cyc (raw_enabled reg features) S \<longrightarrow> S \<subseteq> set (effective_modules r))"
proof -
  let ?raw = "raw_enabled reg features"
  let ?e = "filter (\<lambda>k. k \<notin> set cyc) ?raw"
  have range: "granted_range cyc ?e" and base: "base ?e \<subseteq> set ?raw"
    using raw_not_derived by (auto simp: granted_range_def base_def)
  have start: "{k \<in> S. derived_of reg k = None} \<subseteq> set ?e" if "supported reg cyc ?raw S" for S
    using that by (auto simp: supported_def)
  have "card (base ?e) \<le> card (set ?raw)" using base by (intro card_mono) auto
  also have "\<dots> \<le> length ?raw" by (rule card_length)
  also have "\<dots> \<le> length reg" by (simp add: raw_enabled_def)
  finally have "passes_left cyc ?e < 2 * length reg + 2" by (simp add: passes_left_def)
  from resolve_loop_spec[OF ord range base start this] obtain r where
    "resolve_loop (2 * length reg + 2) ord reg cyc ?e = Some r" "supported reg cyc ?raw (set r)"
    "\<forall>S. supported reg cyc ?raw S \<longrightarrow> S \<subseteq> set r" by blast
  then show ?thesis by (auto simp: calculate_effective_modules_def cyc Let_def)
qed

end

section \<open>The registry of the code\<close>

lemma feature_registry_acyclic: "cyclic_module_keys feature_registry = Some []"
  by code_simp

interpretation features: module_registry feature_registry
proof unfold_locales
  show "distinct (registry_keys feature_registry)" by code_simp
next
  have "list_all (\<lambda>d. case md_derived_from d of None \<Rightarrow> True
      | Some s \<Rightarrow> set (md_dependencies d) \<subseteq> {s} \<and> md_plan_field d = None
        \<and> s \<in> set (registry_keys feature_registry) \<and> derived_of feature_registry s = None)
      feature_registry"
    by code_simp
  then show "set (md_dependencies d) \<subseteq> {s} \<and> md_plan_field d = None
        \<and> s \<in> set (registry_keys feature_registry) \<and> derived_of feature_registry s = None"
    if "d \<in> set feature_registry" and "md_derived_from d = Some s" for d s
    using that by (fastforce simp: list_all_iff)
qed

text \<open>
  What the registry means for a plan, module by module: the contract that the resolution has to
  implement.
\<close>

definition entitled :: "string list \<Rightarrow> string \<Rightarrow> bool" where
  "entitled features k =
     (let on = (\<lambda>f. f \<in> set features);
          pos = on ''feature_sales'';
          inventory = (pos \<and> on ''feature_inventory'');
          suppliers = (pos \<and> on ''feature_suppliers'')
      in case map_of
          [(''pos_core'', pos), (''wms'', on ''feature_wms''),
           (''customers'', pos), (''users_staff'', pos),
           (''inventory'', inventory), (''suppliers'', suppliers),
           (''purchases'', inventory \<and> suppliers \<and> on ''feature_purchases''),
           (''stock_transfers'', inventory \<and> on ''feature_transfers''),
           (''expenses'', pos \<and> on ''feature_expenses''),
           (''tailoring'', inventory \<and> on ''feature_tailoring_module''),
           (''customer_credit'', pos \<and> on ''feature_customer_credit''),
           (''advanced_reports'', pos \<and> on ''feature_advanced_reports''),
           (''audit_logs'', pos \<and> on ''feature_audit_logs''),
           (''barcode_printing'', pos \<and> on ''feature_barcode_printing''),
           (''custom_roles'', pos \<and> on ''feature_custom_roles''),
           (''api_access'', on ''feature_api_access'')] k of
         Some granted \<Rightarrow> granted
       | None \<Rightarrow> False)"

definition plan_field_of :: "module_def list \<Rightarrow> string \<Rightarrow> string option" where
  "plan_field_of reg k =
     (case get_module_definition reg k of Some d \<Rightarrow> md_plan_field d | None \<Rightarrow> None)"

lemma raw_enabled_iff:
  "k \<in> set (raw_enabled feature_registry features) =
     (\<exists>f. plan_field_of feature_registry k = Some f \<and> f \<in> set features)"
proof
  assume "k \<in> set (raw_enabled feature_registry features)"
  then obtain d f where d: "d \<in> set feature_registry" "k = md_key d" "md_plan_field d = Some f"
    "f \<in> set features" by (auto simp: raw_enabled_def split: option.splits)
  then show "\<exists>f. plan_field_of feature_registry k = Some f \<and> f \<in> set features"
    by (simp add: plan_field_of_def features.definition_of)
next
  assume "\<exists>f. plan_field_of feature_registry k = Some f \<and> f \<in> set features"
  then obtain d f where "get_module_definition feature_registry k = Some d"
    and "md_plan_field d = Some f" "f \<in> set features"
    by (auto simp: plan_field_of_def split: option.splits)
  then show "k \<in> set (raw_enabled feature_registry features)"
    by (force simp: raw_enabled_def get_module_definition_def dest!: find_Some_mem)
qed

lemma registry_keys_list:
  "registry_keys feature_registry =
    [''pos_core'', ''wms'', ''customers'', ''users_staff'', ''inventory'', ''suppliers'',
     ''purchases'', ''stock_transfers'', ''expenses'', ''tailoring'', ''customer_credit'',
     ''advanced_reports'', ''audit_logs'', ''barcode_printing'', ''custom_roles'', ''api_access'']"
  by code_simp

lemma registry_keys_cases:
  assumes "k \<in> set (registry_keys feature_registry)"
  obtains "k = ''pos_core''" | "k = ''wms''" | "k = ''customers''" | "k = ''users_staff''"
    | "k = ''inventory''" | "k = ''suppliers''" | "k = ''purchases''" | "k = ''stock_transfers''"
    | "k = ''expenses''" | "k = ''tailoring''" | "k = ''customer_credit''"
    | "k = ''advanced_reports''" | "k = ''audit_logs''" | "k = ''barcode_printing''"
    | "k = ''custom_roles''" | "k = ''api_access''"
  using assms unfolding registry_keys_list list.set insert_iff empty_iff
  by (elim disjE FalseE) (erule that)+

lemma registry_facts [simp]:
  "deps_of feature_registry ''pos_core'' = []"
  "deps_of feature_registry ''wms'' = []"
  "deps_of feature_registry ''customers'' = [''pos_core'']"
  "deps_of feature_registry ''users_staff'' = [''pos_core'']"
  "deps_of feature_registry ''inventory'' = [''pos_core'']"
  "deps_of feature_registry ''suppliers'' = [''pos_core'']"
  "deps_of feature_registry ''purchases'' = [''inventory'', ''suppliers'']"
  "deps_of feature_registry ''stock_transfers'' = [''inventory'']"
  "deps_of feature_registry ''expenses'' = [''pos_core'']"
  "deps_of feature_registry ''tailoring'' = [''pos_core'', ''inventory'']"
  "deps_of feature_registry ''customer_credit'' = [''pos_core'']"
  "deps_of feature_registry ''advanced_reports'' = [''pos_core'']"
  "deps_of feature_registry ''audit_logs'' = [''pos_core'']"
  "deps_of feature_registry ''barcode_printing'' = [''pos_core'']"
  "deps_of feature_registry ''custom_roles'' = [''users_staff'']"
  "deps_of feature_registry ''api_access'' = []"
  "derived_of feature_registry ''pos_core'' = None"
  "derived_of feature_registry ''wms'' = None"
  "derived_of feature_registry ''inventory'' = None"
  "derived_of feature_registry ''suppliers'' = None"
  "derived_of feature_registry ''purchases'' = None"
  "derived_of feature_registry ''stock_transfers'' = None"
  "derived_of feature_registry ''expenses'' = None"
  "derived_of feature_registry ''tailoring'' = None"
  "derived_of feature_registry ''customer_credit'' = None"
  "derived_of feature_registry ''advanced_reports'' = None"
  "derived_of feature_registry ''audit_logs'' = None"
  "derived_of feature_registry ''barcode_printing'' = None"
  "derived_of feature_registry ''custom_roles'' = None"
  "derived_of feature_registry ''api_access'' = None"
  "derived_of feature_registry ''customers'' = Some ''pos_core''"
  "derived_of feature_registry ''users_staff'' = Some ''pos_core''"
  by code_simp+

lemma registry_plan_fields [simp]:
  "plan_field_of feature_registry ''pos_core'' = Some ''feature_sales''"
  "plan_field_of feature_registry ''wms'' = Some ''feature_wms''"
  "plan_field_of feature_registry ''inventory'' = Some ''feature_inventory''"
  "plan_field_of feature_registry ''suppliers'' = Some ''feature_suppliers''"
  "plan_field_of feature_registry ''purchases'' = Some ''feature_purchases''"
  "plan_field_of feature_registry ''stock_transfers'' = Some ''feature_transfers''"
  "plan_field_of feature_registry ''expenses'' = Some ''feature_expenses''"
  "plan_field_of feature_registry ''tailoring'' = Some ''feature_tailoring_module''"
  "plan_field_of feature_registry ''customer_credit'' = Some ''feature_customer_credit''"
  "plan_field_of feature_registry ''advanced_reports'' = Some ''feature_advanced_reports''"
  "plan_field_of feature_registry ''audit_logs'' = Some ''feature_audit_logs''"
  "plan_field_of feature_registry ''barcode_printing'' = Some ''feature_barcode_printing''"
  "plan_field_of feature_registry ''custom_roles'' = Some ''feature_custom_roles''"
  "plan_field_of feature_registry ''api_access'' = Some ''feature_api_access''"
  by code_simp+

lemma entitled_registered: "entitled features k \<Longrightarrow> k \<in> set (registry_keys feature_registry)"
proof (rule ccontr)
  assume "entitled features k" and "k \<notin> set (registry_keys feature_registry)"
  then show False unfolding registry_keys_list entitled_def Let_def list.set insert_iff
    by (simp only: map_of.simps fst_conv fun_upd_def de_Morgan_disj if_not_P if_False option.case
        not_False_eq_True simp_thms split: option.splits)
qed

lemma entitled_supported:
  "supported feature_registry [] (raw_enabled feature_registry features) {k. entitled features k}"
proof -
  have "set (deps_of feature_registry k) \<subseteq> {k. entitled features k}
      \<and> (derived_of feature_registry k = None \<longrightarrow> k \<in> set (raw_enabled feature_registry features))"
    if "entitled features k" for k
    using entitled_registered[OF that] that
    by (elim registry_keys_cases) (simp_all add: entitled_def raw_enabled_iff Let_def)
  then show ?thesis using entitled_registered by (simp add: supported_def)
qed

lemma supported_entitled:
  assumes S: "supported feature_registry [] (raw_enabled feature_registry features) S"
    and k: "k \<in> S"
  shows "entitled features k"
proof -
  have step: "set (deps_of feature_registry x) \<subseteq> S
      \<and> (derived_of feature_registry x = None \<longrightarrow>
          (\<exists>f. plan_field_of feature_registry x = Some f \<and> f \<in> set features))"
    if "x \<in> S" for x
    using S that by (auto simp: supported_def raw_enabled_iff)
  have pos: "''feature_sales'' \<in> set features" if "''pos_core'' \<in> S"
    using step[OF that] by simp
  have inventory: "''pos_core'' \<in> S \<and> ''feature_inventory'' \<in> set features"
    if "''inventory'' \<in> S"
    using step[OF that] by simp
  have suppliers: "''pos_core'' \<in> S \<and> ''feature_suppliers'' \<in> set features"
    if "''suppliers'' \<in> S"
    using step[OF that] by simp
  have staff: "''pos_core'' \<in> S" if "''users_staff'' \<in> S"
    using step[OF that] by simp
  have "k \<in> set (registry_keys feature_registry)" using S k by (auto simp: supported_def)
  then show ?thesis
    using step[OF k] k
    by (elim registry_keys_cases)
      (simp_all add: entitled_def Let_def pos inventory suppliers staff)
qed

section \<open>The cycle search\<close>

definition depends_on :: "module_def list \<Rightarrow> (string \<times> string) set" where
  "depends_on reg = {(a, b). b \<in> set (deps_of reg a)}"

definition unvisited :: "module_def list \<Rightarrow> dfs \<Rightarrow> string set" where
  "unvisited reg s = {k \<in> set (registry_keys reg). map_of (dfs_states s) k = None}"

lemma finite_unvisited [simp]: "finite (unvisited reg s)"
  by (simp add: unvisited_def)

lemma registered: "(get_module_definition reg d \<noteq> None) = (d \<in> set (registry_keys reg))"
  by (auto simp: get_module_definition_def registry_keys_def find_eq_None)

lemma visit_total:
  "k \<in> unvisited reg s \<Longrightarrow> card (unvisited reg s) \<le> n \<Longrightarrow>
     \<exists>t. visit n reg k s = Some t \<and> unvisited reg t \<subseteq> unvisited reg s"
  "card (unvisited reg s) \<le> n \<Longrightarrow>
     \<exists>t. visit_deps n reg ds s = Some t \<and> unvisited reg t \<subseteq> unvisited reg s"
proof (induction n reg k s and n reg ds s rule: visit_visit_deps.induct)
  case (1 reg k s)
  then show ?case by auto
next
  case (2 n reg k s)
  let ?s1 = "s\<lparr>dfs_states := (k, 1) # dfs_states s,
      dfs_indexes := (k, length (dfs_stack s)) # dfs_indexes s, dfs_stack := dfs_stack s @ [k]\<rparr>"
  have u1: "unvisited reg ?s1 = unvisited reg s - {k}" by (auto simp: unvisited_def)
  then have "card (unvisited reg ?s1) \<le> n" using 2(2,3) by simp
  from 2(1)[OF this] obtain t where t: "visit_deps n reg (deps_of reg k) ?s1 = Some t"
    and sub: "unvisited reg t \<subseteq> unvisited reg ?s1" by blast
  have "unvisited reg (t\<lparr>dfs_stack := butlast (dfs_stack t),
      dfs_indexes := filter (\<lambda>e. fst e \<noteq> k) (dfs_indexes t),
      dfs_states := (k, 2) # dfs_states t\<rparr>) \<subseteq> unvisited reg t"
    by (auto simp: unvisited_def split: if_splits)
  then show ?case using t sub u1 by auto
next
  case (3 n reg s)
  then show ?case by simp
next
  case (4 n reg d ds s)
  show ?case
  proof (cases "get_module_definition reg d = None")
    case True
    then show ?thesis using 4 by simp
  next
    case False
    show ?thesis
    proof (cases "map_of (dfs_states s) d")
      case None
      have d: "d \<in> unvisited reg s" using False None registered[of reg d] by (auto simp: unvisited_def)
      from 4(2)[OF False None d 4(6)] obtain t where t: "visit n reg d s = Some t"
        "unvisited reg t \<subseteq> unvisited reg s" by blast
      have "card (unvisited reg t) \<le> n"
        using card_mono[OF _ t(2)] 4(6) by simp
      from 4(3)[OF False None t(1) this] t False None show ?thesis by auto
    next
      case (Some st)
      let ?s1 = "s\<lparr>dfs_cyclic := dfs_cyclic s @
          drop (case map_of (dfs_indexes s) d of Some i \<Rightarrow> i | None \<Rightarrow> 0) (dfs_stack s)\<rparr>"
      have u: "unvisited reg ?s1 = unvisited reg s" by (simp add: unvisited_def)
      show ?thesis
      proof (cases "st = 1")
        case True
        have "card (unvisited reg ?s1) \<le> n" using 4(6) by (simp only: u)
        from 4(4)[OF False Some True this] False Some True show ?thesis by (auto simp: u)
      next
        case st: False
        from 4(5)[OF False Some st 4(6)] False Some st show ?thesis by auto
      qed
    qed
  qed
qed

lemma visit_all_total:
  "card (unvisited reg s) \<le> n \<Longrightarrow> set ks \<subseteq> set (registry_keys reg) \<Longrightarrow> \<exists>t. visit_all n reg ks s = Some t"
proof (induction ks arbitrary: s)
  case Nil
  then show ?case by simp
next
  case (Cons k ks)
  show ?case
  proof (cases "map_of (dfs_states s) k = None")
    case True
    have "k \<in> unvisited reg s" using True Cons.prems(2) by (simp add: unvisited_def)
    from visit_total(1)[OF this Cons.prems(1)] obtain t where t: "visit n reg k s = Some t"
      "unvisited reg t \<subseteq> unvisited reg s" by blast
    have "card (unvisited reg t) \<le> n"
      using card_mono[OF finite_unvisited t(2)] Cons.prems(1) by simp
    from Cons.IH[OF this] Cons.prems(2) t True show ?thesis by simp
  next
    case False
    then show ?thesis using Cons by auto
  qed
qed

lemma unvisited_start:
  "card (unvisited reg \<lparr>dfs_states = [], dfs_stack = [], dfs_indexes = [], dfs_cyclic = []\<rparr>) \<le> Suc (length reg)"
proof -
  have "card (unvisited reg \<lparr>dfs_states = [], dfs_stack = [], dfs_indexes = [], dfs_cyclic = []\<rparr>)
      \<le> card (set (registry_keys reg))"
    by (rule card_mono) (auto simp: unvisited_def)
  also have "\<dots> \<le> length (registry_keys reg)" by (rule card_length)
  finally show ?thesis by (simp add: registry_keys_def)
qed

lemma cyclic_total: "\<exists>c. cyclic_module_keys reg = Some c"
  using visit_all_total[OF unvisited_start order_refl, of reg] by (auto simp: cyclic_module_keys_def)

text \<open>
  What holds between two steps of the search: the stack is a path of distinct modules, the index
  dictionary gives the positions on it, the modules in state 1 are those on it, and what has been
  reported lies on a cycle.
\<close>

definition dfs_sound :: "module_def list \<Rightarrow> dfs \<Rightarrow> bool" where
  "dfs_sound reg s =
     (distinct (dfs_stack s)
      \<and> (\<forall>i. Suc i < length (dfs_stack s) \<longrightarrow>
           (dfs_stack s ! i, dfs_stack s ! Suc i) \<in> depends_on reg)
      \<and> (\<forall>d i. map_of (dfs_indexes s) d = Some i \<longleftrightarrow> i < length (dfs_stack s) \<and> dfs_stack s ! i = d)
      \<and> (\<forall>d. map_of (dfs_states s) d = Some 1 \<longleftrightarrow> d \<in> set (dfs_stack s))
      \<and> (\<forall>k \<in> set (dfs_cyclic s). (k, k) \<in> (depends_on reg)\<^sup>+))"

lemma path_trancl:
  "(\<And>l. Suc l < length xs \<Longrightarrow> (xs ! l, xs ! Suc l) \<in> R) \<Longrightarrow> i < j \<Longrightarrow> j < length xs \<Longrightarrow>
     (xs ! i, xs ! j) \<in> R\<^sup>+"
proof (induction j)
  case 0
  then show ?case by simp
next
  case (Suc j)
  show ?case
  proof (cases "i = j")
    case True
    then show ?thesis using Suc.prems by auto
  next
    case False
    then show ?thesis using Suc by (auto intro: trancl_into_trancl)
  qed
qed

lemma back_edge_cycle:
  assumes path: "\<And>l. Suc l < length xs \<Longrightarrow> (xs ! l, xs ! Suc l) \<in> R"
    and closing: "(last xs, xs ! i) \<in> R" and i: "i < length xs" and k: "k \<in> set (drop i xs)"
  shows "(k, k) \<in> R\<^sup>+"
proof -
  obtain l where l: "l < length (drop i xs)" "drop i xs ! l = k"
    using k by (metis in_set_conv_nth)
  define j where "j = i + l"
  have j: "i \<le> j" "j < length xs" "k = xs ! j" using l i by (auto simp: j_def)
  let ?m = "length xs - 1"
  have last: "last xs = xs ! ?m" using i by (metis last_conv_nth list.size(3) not_less_zero)
  have up: "(xs ! j, xs ! ?m) \<in> R\<^sup>*"
    using path_trancl[of xs R j ?m, OF path] j by (cases "j = ?m") (auto simp: trancl_into_rtrancl)
  have down: "(xs ! i, xs ! j) \<in> R\<^sup>*"
    using path_trancl[of xs R i j, OF path] j by (cases "i = j") (auto simp: trancl_into_rtrancl)
  have "(xs ! j, xs ! i) \<in> R\<^sup>+" using up closing unfolding last by (rule rtrancl_into_trancl1)
  then show ?thesis using down j(3) by (metis trancl_rtrancl_trancl)
qed

lemma dfs_sound_push:
  assumes s: "dfs_sound reg s" and k: "map_of (dfs_states s) k = None"
    and edge: "dfs_stack s = [] \<or> (last (dfs_stack s), k) \<in> depends_on reg"
  shows "dfs_sound reg (s\<lparr>dfs_states := (k, 1) # dfs_states s,
      dfs_indexes := (k, length (dfs_stack s)) # dfs_indexes s, dfs_stack := dfs_stack s @ [k]\<rparr>)"
proof -
  have "map_of (dfs_states s) k = Some 1 \<longleftrightarrow> k \<in> set (dfs_stack s)"
    using s unfolding dfs_sound_def by blast
  then have fresh: "k \<notin> set (dfs_stack s)" using k by simp
  have path: "((dfs_stack s @ [k]) ! i, (dfs_stack s @ [k]) ! Suc i) \<in> depends_on reg"
    if i: "Suc i < length (dfs_stack s @ [k])" for i
  proof (cases "Suc i = length (dfs_stack s)")
    case True
    then have ne: "dfs_stack s \<noteq> []" and "i = length (dfs_stack s) - 1" by auto
    then have "dfs_stack s ! i = last (dfs_stack s)" by (simp add: last_conv_nth)
    then show ?thesis using edge True ne by (simp add: nth_append)
  next
    case False
    then show ?thesis using s i by (simp add: nth_append dfs_sound_def)
  qed
  have index: "map_of ((k, length (dfs_stack s)) # dfs_indexes s) d = Some i \<longleftrightarrow>
      i < length (dfs_stack s @ [k]) \<and> (dfs_stack s @ [k]) ! i = d" for d i
    using s fresh by (auto simp: dfs_sound_def nth_append less_Suc_eq in_set_conv_nth)
  show ?thesis using s fresh path index by (simp add: dfs_sound_def)
qed

lemma dfs_sound_pop:
  assumes t: "dfs_sound reg t" and top: "dfs_stack t = xs @ [k]"
  shows "dfs_sound reg (t\<lparr>dfs_stack := butlast (dfs_stack t),
      dfs_indexes := filter (\<lambda>e. fst e \<noteq> k) (dfs_indexes t), dfs_states := (k, 2) # dfs_states t\<rparr>)"
proof -
  have fresh: "k \<notin> set xs" "distinct xs" using t top by (auto simp: dfs_sound_def)
  have path: "(xs ! i, xs ! Suc i) \<in> depends_on reg" if i: "Suc i < length xs" for i
  proof -
    have "(dfs_stack t ! i, dfs_stack t ! Suc i) \<in> depends_on reg"
      using t top i by (auto simp: dfs_sound_def)
    then show ?thesis using top i by (simp add: nth_append)
  qed
  have filt: "map_of (filter (\<lambda>e. fst e \<noteq> k) ys) d = (if d = k then None else map_of ys d)" for ys d
    by (induction ys) auto
  have index: "map_of (filter (\<lambda>e. fst e \<noteq> k) (dfs_indexes t)) d = Some i \<longleftrightarrow>
      i < length xs \<and> xs ! i = d" for d i
  proof -
    have "map_of (dfs_indexes t) d = Some i \<longleftrightarrow> i < length (xs @ [k]) \<and> (xs @ [k]) ! i = d"
      using t unfolding dfs_sound_def top by blast
    then show ?thesis using fresh by (auto simp: filt nth_append in_set_conv_nth split: if_splits)
  qed
  have states: "map_of ((k, 2) # dfs_states t) d = Some 1 \<longleftrightarrow> d \<in> set xs" for d
    using t fresh by (auto simp: dfs_sound_def top)
  show ?thesis using t fresh path index states by (simp add: dfs_sound_def top)
qed

lemma dfs_sound_report:
  assumes s: "dfs_sound reg s" and d: "map_of (dfs_states s) d = Some 1"
    and edge: "(last (dfs_stack s), d) \<in> depends_on reg"
  shows "dfs_sound reg (s\<lparr>dfs_cyclic := dfs_cyclic s @
      drop (case map_of (dfs_indexes s) d of Some i \<Rightarrow> i | None \<Rightarrow> 0) (dfs_stack s)\<rparr>)"
proof -
  have "d \<in> set (dfs_stack s)" using s d by (simp add: dfs_sound_def)
  then obtain i where i: "i < length (dfs_stack s)" "dfs_stack s ! i = d"
    by (auto simp: in_set_conv_nth)
  then have idx: "map_of (dfs_indexes s) d = Some i" using s by (simp add: dfs_sound_def)
  have "(k, k) \<in> (depends_on reg)\<^sup>+" if "k \<in> set (drop i (dfs_stack s))" for k
    by (rule back_edge_cycle[OF _ _ i(1) that]) (use s edge i in \<open>auto simp: dfs_sound_def\<close>)
  then show ?thesis unfolding idx option.case using s by (auto simp: dfs_sound_def)
qed

lemma visit_sound:
  "visit n reg k s = Some t \<Longrightarrow> dfs_sound reg s \<Longrightarrow> map_of (dfs_states s) k = None \<Longrightarrow>
     dfs_stack s = [] \<or> (last (dfs_stack s), k) \<in> depends_on reg \<Longrightarrow>
     dfs_sound reg t \<and> dfs_stack t = dfs_stack s"
  "visit_deps n reg ds s = Some t \<Longrightarrow> dfs_sound reg s \<Longrightarrow> dfs_stack s \<noteq> [] \<Longrightarrow>
     \<forall>d \<in> set ds. (last (dfs_stack s), d) \<in> depends_on reg \<Longrightarrow>
     dfs_sound reg t \<and> dfs_stack t = dfs_stack s"
proof (induction n reg k s and n reg ds s arbitrary: t and t rule: visit_visit_deps.induct)
  case (1 reg k s)
  then show ?case by simp
next
  case (2 n reg k s)
  let ?s1 = "s\<lparr>dfs_states := (k, 1) # dfs_states s,
      dfs_indexes := (k, length (dfs_stack s)) # dfs_indexes s, dfs_stack := dfs_stack s @ [k]\<rparr>"
  show ?case
  proof (cases "visit_deps n reg (deps_of reg k) ?s1")
    case None
    then show ?thesis using 2(2) by simp
  next
    case (Some u)
    have "dfs_sound reg u \<and> dfs_stack u = dfs_stack ?s1"
      by (rule 2(1)[OF Some dfs_sound_push[OF 2(3,4,5)]]) (simp_all add: depends_on_def)
    then have u: "dfs_sound reg u" "dfs_stack u = dfs_stack s @ [k]" by simp_all
    have t: "t = u\<lparr>dfs_stack := butlast (dfs_stack u),
      dfs_indexes := filter (\<lambda>e. fst e \<noteq> k) (dfs_indexes u), dfs_states := (k, 2) # dfs_states u\<rparr>"
      using 2(2) unfolding visit.simps Some by simp
    show ?thesis using dfs_sound_pop[OF u] u(2) unfolding t by simp
  qed
next
  case (3 n reg s)
  then show ?case by simp
next
  case (4 n reg d ds s)
  have edge: "(last (dfs_stack s), d) \<in> depends_on reg"
    and edges: "\<forall>d \<in> set ds. (last (dfs_stack s), d) \<in> depends_on reg" using 4(9) by simp_all
  show ?case
  proof (cases "get_module_definition reg d = None")
    case True
    then have "visit_deps n reg ds s = Some t" using 4(6) by simp
    then show ?thesis by (rule 4(1)[OF True _ 4(7,8) edges])
  next
    case False
    show ?thesis
    proof (cases "map_of (dfs_states s) d")
      case None
      obtain u where u: "visit n reg d s = Some u" and rest: "visit_deps n reg ds u = Some t"
        using 4(6) False None by (cases "visit n reg d s") simp_all
      have su: "dfs_sound reg u" "dfs_stack u = dfs_stack s"
        using 4(2)[OF False None u 4(7) None] edge by simp_all
      show ?thesis using 4(3)[OF False None u rest su(1)] 4(8) edges su(2) by simp
    next
      case (Some st)
      show ?thesis
      proof (cases "st = 1")
        case True
        then have one: "map_of (dfs_states s) d = Some 1" using Some by simp
        let ?s1 = "s\<lparr>dfs_cyclic := dfs_cyclic s @
          drop (case map_of (dfs_indexes s) d of Some i \<Rightarrow> i | None \<Rightarrow> 0) (dfs_stack s)\<rparr>"
        have "visit_deps n reg ds ?s1 = Some t" using 4(6) False Some True by simp
        from 4(4)[OF False Some True this dfs_sound_report[OF 4(7) one edge]] 4(8) edges
        show ?thesis by simp
      next
        case st: False
        then have "visit_deps n reg ds s = Some t" using 4(6) False Some by simp
        then show ?thesis by (rule 4(5)[OF False Some st _ 4(7,8) edges])
      qed
    qed
  qed
qed

lemma visit_all_sound:
  "visit_all n reg ks s = Some t \<Longrightarrow> dfs_sound reg s \<Longrightarrow> dfs_stack s = [] \<Longrightarrow> dfs_sound reg t"
proof (induction ks arbitrary: s)
  case Nil
  then show ?case by simp
next
  case (Cons k ks)
  show ?case
  proof (cases "map_of (dfs_states s) k")
    case None
    with Cons.prems(1) obtain u where "visit n reg k s = Some u" "visit_all n reg ks u = Some t"
      by (auto split: option.splits)
    with visit_sound(1)[of n reg k s u] Cons None show ?thesis by auto
  next
    case (Some st)
    then show ?thesis using Cons by simp
  qed
qed

lemma cyclic_sound:
  "cyclic_module_keys reg = Some c \<Longrightarrow> k \<in> set c \<Longrightarrow> (k, k) \<in> (depends_on reg)\<^sup>+"
proof -
  assume "cyclic_module_keys reg = Some c" and k: "k \<in> set c"
  then obtain t where t: "visit_all (Suc (length reg)) reg (registry_keys reg)
      \<lparr>dfs_states = [], dfs_stack = [], dfs_indexes = [], dfs_cyclic = []\<rparr> = Some t"
    and c: "c = dfs_cyclic t"
    by (auto simp: cyclic_module_keys_def)
  have "dfs_sound reg t" by (rule visit_all_sound[OF t]) (auto simp: dfs_sound_def)
  then show ?thesis using k c by (simp add: dfs_sound_def)
qed

lemma calculate_denials:
  assumes "cyclic_module_keys reg = Some cyc"
    and "calculate_effective_modules ord reg features = Some r"
  shows "module_denials r =
    map (\<lambda>d. (md_key d, module_denial_for cyc (raw_enabled reg features) (effective_modules r) d))
      (filter (\<lambda>d. md_key d \<notin> set (effective_modules r)) reg)"
  using assms(2) unfolding calculate_effective_modules_def assms(1) option.case Let_def
  by (cases "resolve_loop (2 * length reg + 2) ord reg cyc
      (filter (\<lambda>k. k \<notin> set cyc) (raw_enabled reg features))") auto

section \<open>Properties\<close>

text \<open>C7: for every plan and every order in which Python may iterate its sets, the resolution
  of the effective modules ends and grants exactly the modules that the registry entitles the plan
  to (each module with its switch on and all its dependencies, derived ones with their parent).\<close>

theorem effective_modules_entitled:
  assumes "reorders ord"
  shows "\<exists>r. calculate_effective_modules ord feature_registry features = Some r
    \<and> (\<forall>k. k \<in> set (effective_modules r) \<longleftrightarrow> entitled features k)"
proof -
  obtain r where r: "calculate_effective_modules ord feature_registry features = Some r"
    "supported feature_registry [] (raw_enabled feature_registry features) (set (effective_modules r))"
    and greatest: "\<forall>S. supported feature_registry [] (raw_enabled feature_registry features) S
      \<longrightarrow> S \<subseteq> set (effective_modules r)"
    using features.calculate_spec[OF assms feature_registry_acyclic] by blast
  have "{k. entitled features k} \<subseteq> set (effective_modules r)"
    by (rule greatest[rule_format, OF entitled_supported])
  then have "k \<in> set (effective_modules r) \<longleftrightarrow> entitled features k" for k
    using supported_entitled[OF r(2), of k] by auto
  with r(1) show ?thesis by simp
qed

theorem effective_modules_entitled_witness:
  "\<exists>r. calculate_effective_modules rev feature_registry [''feature_sales'', ''feature_purchases''] = Some r
    \<and> (\<forall>k. k \<in> set (effective_modules r) \<longleftrightarrow> entitled [''feature_sales'', ''feature_purchases''] k)"
  by (rule effective_modules_entitled) (simp add: reorders_def)

text \<open>C40: every registered module that a plan does not get has a recorded denial, which says
  whether the module is missing from the plan itself or lacks a dependency.\<close>

theorem module_denial_reason:
  assumes "reorders ord" and "d \<in> set feature_registry" and "\<not> entitled features (md_key d)"
  shows "\<exists>r den. calculate_effective_modules ord feature_registry features = Some r
    \<and> map_of (module_denials r) (md_key d) = Some den
    \<and> den_module den = Some (md_key d)
    \<and> den_code den = (case md_plan_field d of
         Some f \<Rightarrow> if f \<in> set features then MODULE_DEPENDENCY_MISSING else MODULE_DISABLED
       | None \<Rightarrow> MODULE_DEPENDENCY_MISSING)"
proof -
  obtain r where r: "calculate_effective_modules ord feature_registry features = Some r"
    "supported feature_registry [] (raw_enabled feature_registry features) (set (effective_modules r))"
    using features.calculate_spec[OF assms(1) feature_registry_acyclic] by blast
  have out: "md_key d \<notin> set (effective_modules r)" using supported_entitled[OF r(2)] assms(3) by blast
  let ?raw = "raw_enabled feature_registry features"
  let ?rows = "map (\<lambda>d. (md_key d, module_denial_for [] ?raw (effective_modules r) d))
      (filter (\<lambda>d. md_key d \<notin> set (effective_modules r)) feature_registry)"
  have rows: "module_denials r = ?rows"
    using r(1) by (rule calculate_denials[OF feature_registry_acyclic])
  have "distinct (map fst ?rows)"
    using distinct_map_filter[OF features.keys_distinct[unfolded registry_keys_def]]
    by (simp add: o_def)
  then have den: "map_of (module_denials r) (md_key d)
      = Some (module_denial_for [] ?raw (effective_modules r) d)"
    unfolding rows using assms(2) out by (intro map_of_is_SomeI) auto
  have derived: "md_plan_field d = None" if "md_derived_from d = Some s" for s
    using features.derived_shape[OF assms(2) that] by blast
  have raw: "md_key d \<in> set ?raw \<longleftrightarrow> (\<exists>f. md_plan_field d = Some f \<and> f \<in> set features)"
    using features.definition_of[OF assms(2)] by (simp add: raw_enabled_iff plan_field_of_def)
  have plan: "md_plan_field d \<noteq> None" if "md_derived_from d = None"
  proof -
    have "list_all (\<lambda>d. md_derived_from d = None \<longrightarrow> md_plan_field d \<noteq> None) feature_registry"
      by code_simp
    then show ?thesis using that assms(2) by (simp add: list_all_iff)
  qed
  have "den_module (module_denial_for [] ?raw (effective_modules r) d) = Some (md_key d)
      \<and> den_code (module_denial_for [] ?raw (effective_modules r) d) = (case md_plan_field d of
         Some f \<Rightarrow> if f \<in> set features then MODULE_DEPENDENCY_MISSING else MODULE_DISABLED
       | None \<Rightarrow> MODULE_DEPENDENCY_MISSING)"
  proof (cases "md_derived_from d")
    case None
    then obtain f where "md_plan_field d = Some f" using plan by auto
    then show ?thesis using None raw by (simp add: module_denial_for_def module_denial_def Let_def)
  next
    case (Some s)
    then show ?thesis using derived[OF Some]
      by (simp add: module_denial_for_def module_denial_def Let_def)
  qed
  with r(1) den show ?thesis by blast
qed

theorem module_denial_reason_witness:
  "\<exists>r den. calculate_effective_modules rev feature_registry [''feature_purchases''] = Some r
    \<and> map_of (module_denials r) ''purchases'' = Some den \<and> den_module den = Some ''purchases''
    \<and> den_code den = MODULE_DEPENDENCY_MISSING"
proof -
  let ?d = "feature_registry ! 6"
  have d: "?d \<in> set feature_registry" "md_key ?d = ''purchases''"
    "md_plan_field ?d = Some ''feature_purchases''" "\<not> entitled [''feature_purchases''] ''purchases''"
    by code_simp+
  show ?thesis
    using module_denial_reason[of rev ?d "[''feature_purchases'']"] d by (simp add: reorders_def)
qed

text \<open>The search for dependency cycles ends on every registry, and each module it reports
  does lie on a cycle of dependencies.\<close>

lemma cyclic_modules_sound:
  "\<exists>c. cyclic_module_keys reg = Some c \<and> (\<forall>k \<in> set c. (k, k) \<in> (depends_on reg)\<^sup>+)"
  using cyclic_total[of reg] cyclic_sound by blast

text \<open>A registry with two cycles through one edge: \<open>a \<rightarrow> b \<rightarrow> a\<close> and \<open>a \<rightarrow> c \<rightarrow> b \<rightarrow> a\<close>.\<close>

definition two_cycles :: "module_def list" where
  "two_cycles =
    [plan_module ''a'' ''A'' ''fa'' [''b'', ''c''], plan_module ''b'' ''B'' ''fb'' [''a''],
     plan_module ''c'' ''C'' ''fc'' [''b'']]"

lemma cyclic_modules_sound_witness:
  "(''a'', ''a'') \<in> (depends_on two_cycles)\<^sup>+"
proof -
  have "cyclic_module_keys two_cycles = Some [''a'', ''b'']" by code_simp
  then show ?thesis using cyclic_modules_sound[of two_cycles] by simp
qed

text \<open>The search does not report every module of a dependency cycle, as its docstring
  says: a module that reaches a cycle through an edge to a finished module is left out.\<close>

lemma cyclic_modules_incomplete:
  "cyclic_module_keys two_cycles = Some [''a'', ''b'']
    \<and> (''c'', ''c'') \<in> (depends_on two_cycles)\<^sup>+"
proof
  show "cyclic_module_keys two_cycles = Some [''a'', ''b'']" by code_simp
next
  have deps: "deps_of two_cycles ''a'' = [''b'', ''c'']" "deps_of two_cycles ''b'' = [''a'']"
    "deps_of two_cycles ''c'' = [''b'']" by code_simp+
  have "(''c'', ''b'') \<in> depends_on two_cycles" "(''b'', ''a'') \<in> depends_on two_cycles"
    "(''a'', ''c'') \<in> depends_on two_cycles"
    by (simp_all add: depends_on_def deps)
  then show "(''c'', ''c'') \<in> (depends_on two_cycles)\<^sup>+"
    by (meson r_into_trancl trancl_trans)
qed

end
