(* ===== verification/Text.thy ===== *)
theory Text
  imports Prelude
begin

text \<open>
  The string methods of Python that the services use, on ASCII text: \<open>strip\<close>, \<open>lower\<close>,
  \<open>upper\<close> and truncation by slicing.  \<open>casefold\<close> agrees with \<open>lower\<close> on ASCII.
\<close>

definition is_space :: "char \<Rightarrow> bool" where
  "is_space c = (let n = (of_char c :: nat) in n = 32 \<or> (9 \<le> n \<and> n \<le> 13) \<or> (28 \<le> n \<and> n \<le> 31))"

definition py_strip :: "string \<Rightarrow> string" where
  "py_strip s = rev (dropWhile is_space (rev (dropWhile is_space s)))"

definition lower_char :: "char \<Rightarrow> char" where
  "lower_char c = (let n = (of_char c :: nat) in if 65 \<le> n \<and> n \<le> 90 then char_of (n + 32) else c)"

definition upper_char :: "char \<Rightarrow> char" where
  "upper_char c = (let n = (of_char c :: nat) in if 97 \<le> n \<and> n \<le> 122 then char_of (n - 32) else c)"

definition py_lower :: "string \<Rightarrow> string" where
  "py_lower s = map lower_char s"

definition py_upper :: "string \<Rightarrow> string" where
  "py_upper s = map upper_char s"

definition blank :: "string \<Rightarrow> bool" where
  "blank s = (py_strip s = [])"

lemma length_dropWhile_rev: "length (dropWhile P (rev (dropWhile P s))) \<le> length s"
  by (metis length_dropWhile_le length_rev order_trans)

lemma length_py_strip: "length (py_strip s) \<le> length s"
  by (simp add: py_strip_def length_dropWhile_rev)

lemma blank_Nil [simp]: "blank []"
  by (simp add: blank_def py_strip_def)

lemma blank_iff: "blank s = list_all is_space s"
proof -
  have "blank s = (\<forall>x \<in> set (dropWhile is_space s). is_space x)"
    by (auto simp: blank_def py_strip_def dropWhile_eq_Nil_conv)
  also have "\<dots> = (dropWhile is_space s = [])"
    by (metis dropWhile_eq_Nil_conv hd_dropWhile hd_in_set list.set(1) empty_iff)
  finally show ?thesis by (simp add: dropWhile_eq_Nil_conv list_all_iff)
qed

end
