(* ===== verification/Tenancy.thy ===== *)
theory Tenancy
  imports Plan_Modules Text
begin

text \<open>
  The tenant root of the data: businesses with their settings (\<^verbatim>\<open>apps/tenants/models.py\<close>), branches
  and warehouses (\<^verbatim>\<open>apps/branches/models.py\<close>), users, roles and memberships
  (\<^verbatim>\<open>apps/accounts/models.py\<close>), plans and subscriptions (\<^verbatim>\<open>apps/subscriptions/models.py\<close>), the
  permission codes (\<^verbatim>\<open>apps/core/permissions.py\<close>), and the exceptions of the services.  A field
  that holds a related object embeds the object.  Points in time are integers (microseconds).
\<close>

section \<open>Exceptions\<close>

datatype err =
    ModuleAccessDenied access_denial
  | ValidationError string
  | ScopeNotAllowed string
  | IdempotencyConflict
  | TenantOperationLocked
  | ScheduleDispatchError
  | InsufficientStock int int
  | DoesNotExist
  | CalculationError string
  | ShiftError string
  | RegisterLifecycleError string
  | IntegrityError
  | Http404
  | SaleError string
  | ValueError string
  | SubscriptionInactive
  | LimitExceeded string nat
  | PermissionDenied string
  | PaymentReversalReasonRequired
  | PaymentAlreadyReversed
  | DataError

section \<open>Businesses, branches, warehouses\<close>

datatype negative_stock = BLOCK | WARN | ALLOW

datatype price_rounding = RoundNone | RoundNearest

record business_settings =
  vat_enabled :: bool
  vat_percentage :: rat
  prices_include_tax :: bool
  invoice_prefix :: string
  invoice_include_branch_code :: bool
  negative_stock_policy :: negative_stock
  shared_fabric_warehouse_id :: "id option"
  allow_sale_without_shift :: bool
  max_discount_percent :: rat
  require_customer_for_credit :: bool
  return_window_days :: nat
  adjustment_requires_approval :: bool
  price_rounding :: price_rounding
  notify_low_stock :: bool
  more_option_labels :: "(string \<times> string) list"

record business =
  biz_id :: id
  biz_active :: bool
  currency_precision :: int
  settings :: business_settings

datatype usage_type = SALES_BRANCH | WORKSHOP_STOCK

record branch =
  br_id :: id
  br_business :: id
  br_code :: string
  br_name :: string
  br_usage :: usage_type
  br_invoice_prefix :: string
  br_active :: bool

record warehouse =
  wh_id :: id
  wh_business :: id
  wh_code :: string
  wh_name :: string
  wh_branch :: "id option"
  wh_default :: bool
  wh_active :: bool

section \<open>Permissions, roles, memberships\<close>

definition ALL_PERMISSION_CODES :: "string list" where
  "ALL_PERMISSION_CODES =
    [''dashboard.view'', ''reports.view'', ''reports.sales'', ''reports.financial'',
     ''reports.export'', ''profit.view'', ''cost.view'',
     ''sales.view'', ''sales.create'', ''sales.void'', ''sales.delete'', ''sales.refund'',
     ''sales.discount'', ''sales.price_override'', ''sales.credit'', ''workshop.fabric_actual'',
     ''products.view'', ''products.manage'', ''products.import'', ''products.archive'',
     ''products.delete'', ''products.export'',
     ''inventory.view'', ''inventory.export'', ''inventory.import'', ''inventory.adjust'',
     ''inventory.adjust_approve'', ''inventory.transfer'', ''inventory.transfer_approve'',
     ''inventory.count'',
     ''purchases.view'', ''purchases.manage'', ''purchases.approve'', ''suppliers.view'',
     ''suppliers.manage'',
     ''customers.view'', ''customers.manage'', ''customers.payments'', ''customers.export'',
     ''customers.import'', ''credit.approve'',
     ''expenses.view'', ''expenses.manage'', ''expenses.approve'',
     ''registers.manage'', ''shifts.open'', ''shifts.close'', ''shifts.approve'', ''shifts.reopen'',
     ''users.manage'', ''branches.manage'', ''settings.manage'', ''audit.view'',
     ''notifications.view'',
     ''backups.view'', ''backups.create'', ''backups.download'', ''backups.schedule'',
     ''backups.pin'', ''backups.restore'']"

record role =
  role_name :: string
  role_is_owner :: bool
  role_permissions :: "string list"

record user =
  user_pk :: "id option"
  is_authenticated :: bool

record membership =
  mem_id :: id
  mem_business :: id
  mem_user :: id
  mem_role :: role
  mem_branches :: "id list"
  mem_active :: bool

definition permission_set :: "membership \<Rightarrow> string list" where
  "permission_set m =
     (if role_is_owner (mem_role m) then ALL_PERMISSION_CODES else role_permissions (mem_role m))"

definition has_perm :: "membership \<Rightarrow> string \<Rightarrow> bool" where
  "has_perm m code = (code \<in> set (permission_set m))"

text \<open>\<open>None\<close> means every branch: an empty assignment is not a restriction.\<close>

definition allowed_branch_ids :: "membership \<Rightarrow> id list option" where
  "allowed_branch_ids m = (if mem_branches m = [] then None else Some (mem_branches m))"

definition can_access_branch :: "membership \<Rightarrow> branch option \<Rightarrow> bool" where
  "can_access_branch m b =
     (case b of
        None \<Rightarrow> True
      | Some br \<Rightarrow>
          if br_business br \<noteq> mem_business m then False
          else (case allowed_branch_ids m of None \<Rightarrow> True | Some ids \<Rightarrow> br_id br \<in> set ids))"

section \<open>Plans and subscriptions\<close>

record plan =
  plan_active :: bool
  allow_trial :: bool
  plan_features :: "string list"
  plan_limits :: "(string \<times> nat) list"

datatype sub_status = TRIAL | ACTIVE | GRACE | PAST_DUE | SUSPENDED | CANCELLED | EXPIRED

record subscription =
  sub_id :: id
  sub_business :: id
  sub_plan :: plan
  sub_status :: sub_status
  trial_ends_at :: "int option"
  current_period_end :: "int option"
  grace_days :: nat

definition day :: int where
  "day = 86400000000"

definition effective_status :: "int \<Rightarrow> subscription \<Rightarrow> sub_status" where
  "effective_status now s =
     (case sub_status s of
        TRIAL \<Rightarrow> (case trial_ends_at s of
            Some t \<Rightarrow> if t < now then EXPIRED else TRIAL
          | None \<Rightarrow> TRIAL)
      | ACTIVE \<Rightarrow> (case current_period_end s of
            Some e \<Rightarrow>
              if e < now
              then (if now \<le> e + int (grace_days s) * day then GRACE else EXPIRED)
              else ACTIVE
          | None \<Rightarrow> ACTIVE)
      | st \<Rightarrow> st)"

definition is_operational :: "int \<Rightarrow> business \<Rightarrow> subscription \<Rightarrow> bool" where
  "is_operational now b s = (biz_active b \<and> effective_status now s \<in> {TRIAL, ACTIVE, GRACE})"

section \<open>The shared part of the database\<close>

datatype expiry_mode = ReadOnlyMode | SuspendMode

record core_db =
  clock :: int
  memberships :: "membership list"
  subscriptions :: "subscription list"
  expiry_mode :: expiry_mode
  branches :: "branch list"
  warehouses :: "warehouse list"

definition allowed_warehouse_ids :: "'a core_db_scheme \<Rightarrow> membership \<Rightarrow> id list option" where
  "allowed_warehouse_ids db m =
     (case allowed_branch_ids m of
        None \<Rightarrow> None
      | Some ids \<Rightarrow> Some (map wh_id (filter (\<lambda>w. wh_business w = mem_business m
          \<and> (case wh_branch w of Some b \<Rightarrow> b \<in> set ids | None \<Rightarrow> False)) (warehouses db))))"

definition subscription_of :: "'a core_db_scheme \<Rightarrow> id \<Rightarrow> subscription option" where
  "subscription_of db b = find (\<lambda>s. sub_business s = b) (subscriptions db)"

end
