(* ===== verification/Catalog.thy ===== *)
theory Catalog
  imports Decimals Tenancy
begin

text \<open>
  Products, variants, units and tax rates (\<^verbatim>\<open>apps/catalog/models.py\<close>) with the properties of
  \<open>Product\<close> that stock, sales and imports branch on.  Related rows (unit, tax rate) are embedded.
  Prices and costs are thousandths; \<open>estimated_*\<close> may be empty.
\<close>

record unit_row =
  unit_id :: id
  unit_business :: id
  unit_is_meter :: bool
  unit_allow_decimal :: bool

record tax_rate_row =
  tax_rate_value :: rat
  tax_active :: bool

datatype product_type = STANDARD | VARIANT_PRODUCT | SERVICE | NON_STOCK

record product =
  prod_id :: id
  prod_business :: id
  prod_name :: string
  prod_sku :: string
  prod_barcode :: string
  prod_unit :: "unit_row option"
  prod_type :: product_type
  prod_purchase_price :: milli
  prod_sale_price :: milli
  prod_minimum_price :: milli
  prod_average_cost :: milli
  prod_tax :: "tax_rate_row option"
  prod_includes_tax :: "bool option"
  reorder_level :: milli
  track_inventory :: bool
  allow_discount :: bool
  is_tailoring_item :: bool
  estimated_adult_fabric :: "milli option"
  estimated_child_fabric :: "milli option"
  prod_active :: bool
  prod_archived :: bool

record variant =
  var_id :: id
  var_business :: id
  var_product :: id
  var_name :: string
  var_sku :: string
  var_barcode :: string
  var_purchase_price :: milli
  var_sale_price :: milli
  var_average_cost :: milli
  var_active :: bool

definition has_variants :: "product \<Rightarrow> bool" where
  "has_variants p = (prod_type p = VARIANT_PRODUCT)"

definition is_stocked :: "product \<Rightarrow> bool" where
  "is_stocked p = (track_inventory p \<and> (prod_type p = STANDARD \<or> prod_type p = VARIANT_PRODUCT))"

definition is_meter_tailoring :: "product \<Rightarrow> bool" where
  "is_meter_tailoring p =
     (is_tailoring_item p \<and> (case prod_unit p of Some u \<Rightarrow> unit_is_meter u | None \<Rightarrow> False))"

definition is_legacy_tailoring :: "product \<Rightarrow> bool" where
  "is_legacy_tailoring p = (is_tailoring_item p \<and> prod_unit p = None)"

definition effective_tax_rate :: "product \<Rightarrow> rat" where
  "effective_tax_rate p =
     (case prod_tax p of Some t \<Rightarrow> if tax_active t then tax_rate_value t else 0 | None \<Rightarrow> 0)"

text \<open>\<open>variant or product\<close>: the row whose price and cost count.\<close>

definition item_average_cost :: "product \<Rightarrow> variant option \<Rightarrow> milli" where
  "item_average_cost p v = (case v of Some x \<Rightarrow> var_average_cost x | None \<Rightarrow> prod_average_cost p)"

definition item_purchase_price :: "product \<Rightarrow> variant option \<Rightarrow> milli" where
  "item_purchase_price p v = (case v of Some x \<Rightarrow> var_purchase_price x | None \<Rightarrow> prod_purchase_price p)"

end
