(* ===== verification/Access.thy ===== *)
theory Access
  imports Tenancy
begin

text \<open>
  \<^verbatim>\<open>apps/subscriptions/access.py\<close>: the one authorization service that every operation of the
  program goes through.  An access context (entitlements of a user in a business) is computed
  once per request and cached on it; a decision adds the action, the modules, the role
  permission and the caller's scope check, in this order.  A service that is not reached through
  a view passes the acting user explicitly (\<open>evaluate_actor_access\<close>).
\<close>

section \<open>Contexts and requests\<close>

datatype access_mode = FULL | READ_ONLY | DENIED

datatype access_action = READ | WRITE

record access_context =
  ctx_mode :: access_mode
  ctx_modules :: "string list"
  ctx_business :: "business option"
  ctx_membership :: "membership option"
  ctx_subscription :: "subscription option"
  ctx_denial :: "access_denial option"
  ctx_module_denials :: "(string \<times> access_denial) list"

definition can_write :: "access_context \<Rightarrow> bool" where
  "can_write c = (ctx_mode c = FULL)"

definition has_module :: "access_context \<Rightarrow> string \<Rightarrow> bool" where
  "has_module c k = (k \<in> set (ctx_modules c))"

type_synonym cache_key = "id option \<times> id option \<times> id option"

text \<open>
  The attributes of a request that authorization reads or writes.  \<open>rq_subscription\<close> carries, with
  the subscription, whether its plan has been loaded; \<open>rq_method\<close> is \<open>None\<close> for an object without
  a method.
\<close>

record request =
  rq_user :: "user option"
  rq_business :: "business option"
  rq_membership :: "membership option"
  rq_method :: "string option"
  rq_subscription :: "(subscription \<times> bool) option"
  rq_resolved :: bool
  rq_resolved_business :: "id option"
  rq_cache :: "(cache_key \<times> access_context) list option"

record access_decision =
  allowed :: bool
  context_of :: access_context
  denial_of :: "access_denial option"

section \<open>Arguments\<close>

datatype action_arg = NoAction | Enum access_action | ActionText string

definition safe_text :: "string \<Rightarrow> bool" where
  "safe_text s = (py_lower (py_strip s) \<in> {''read'', ''safe'', ''view''})"

definition resolve_action :: "string option \<Rightarrow> action_arg \<Rightarrow> access_action" where
  "resolve_action meth a =
     (let verb = py_upper (case meth of Some m \<Rightarrow> m | None \<Rightarrow> ''GET'');
          method_action = (if verb \<in> {''GET'', ''HEAD'', ''OPTIONS''} then READ else WRITE)
      in if method_action = WRITE then WRITE
         else case a of
           Enum x \<Rightarrow> x
         | ActionText s \<Rightarrow> if safe_text s then READ else WRITE
         | NoAction \<Rightarrow> method_action)"

datatype key_arg = KeyText string | KeyOther

datatype modules_arg = OneKey string | Keys "key_arg list" | NotIterable

definition normalize_module_keys :: "modules_arg \<Rightarrow> string list" where
  "normalize_module_keys a =
     (let ks = (case a of OneKey s \<Rightarrow> [KeyText s] | Keys l \<Rightarrow> l | NotIterable \<Rightarrow> [])
      in if ks = [] \<or> list_ex (\<lambda>k. case k of KeyText s \<Rightarrow> blank s | KeyOther \<Rightarrow> True) ks then []
         else map (\<lambda>k. case k of KeyText s \<Rightarrow> s | KeyOther \<Rightarrow> []) ks)"

section \<open>Subscription state\<close>

definition subscription_mode ::
    "'a core_db_scheme \<Rightarrow> subscription \<Rightarrow> access_mode \<times> access_denial option" where
  "subscription_mode db s =
     (if sub_status s = TRIAL
      then (if \<not> allow_trial (sub_plan s)
              \<or> (case trial_ends_at s of None \<Rightarrow> True | Some t \<Rightarrow> t \<le> clock db)
            then (DENIED, Some (denial TRIAL_INVALID ''The trial is not valid or has expired.''))
            else (FULL, None))
      else let st = effective_status (clock db) s in
        if st \<in> {ACTIVE, GRACE} then (FULL, None)
        else if st \<in> {PAST_DUE, EXPIRED, CANCELLED}
        then (if expiry_mode db = SuspendMode
              then (DENIED, Some (denial SUBSCRIPTION_INACTIVE ''The subscription is not active.''))
              else (READ_ONLY, None))
        else if st = SUSPENDED
        then (DENIED, Some (denial SUBSCRIPTION_SUSPENDED ''The subscription is suspended.''))
        else (DENIED, Some (denial SUBSCRIPTION_INACTIVE
                ''The subscription does not permit application access.'')))"

definition empty_context ::
    "access_denial option \<Rightarrow> business option \<Rightarrow> membership option \<Rightarrow> subscription option \<Rightarrow> access_context"
where
  "empty_context d b m s =
     \<lparr>ctx_mode = DENIED, ctx_modules = [], ctx_business = b, ctx_membership = m,
      ctx_subscription = s, ctx_denial = d, ctx_module_denials = []\<rparr>"

text \<open>The modules of a plan of the code's registry; \<open>set_plan_modules\<close> excludes the last branch.\<close>

definition plan_modules :: "(string list \<Rightarrow> string list) \<Rightarrow> plan \<Rightarrow> module_resolution" where
  "plan_modules ord p =
     (case calculate_effective_modules ord feature_registry (plan_features p) of
        Some r \<Rightarrow> r
      | None \<Rightarrow> \<lparr>effective_modules = [], raw_enabled_modules = [], module_denials = []\<rparr>)"

text \<open>
  \<^verbatim>\<open>_load_subscription\<close>: the request's own subscription when it belongs to the business and its
  plan is loaded, else a query; the result is stored on the request when the business is the
  request's.
\<close>

definition load_subscription ::
    "'a core_db_scheme \<Rightarrow> request \<Rightarrow> business \<Rightarrow> subscription option \<times> request" where
  "load_subscription db rq b =
     (let is_request_business =
            (case rq_business rq of Some rb \<Rightarrow> biz_id rb = biz_id b | None \<Rightarrow> False);
          resolved_business_id =
            (case rq_resolved_business rq of Some i \<Rightarrow> Some i
             | None \<Rightarrow> map_option biz_id (rq_business rq));
          store = (\<lambda>c. if is_request_business
             then rq\<lparr>rq_subscription := map_option (\<lambda>s. (s, True)) c, rq_resolved := True,
                     rq_resolved_business := Some (biz_id b)\<rparr>
             else rq);
          query = subscription_of db (biz_id b)
      in case rq_subscription rq of
           Some (s, plan_loaded) \<Rightarrow>
             if sub_business s = biz_id b
             then (if plan_loaded then (Some s, rq)
                   else let c = row_by sub_id (sub_id s) (subscriptions db) in (c, store c))
             else if rq_resolved rq \<and> resolved_business_id = Some (biz_id b) then (None, rq)
             else (query, store query)
         | None \<Rightarrow>
             if rq_resolved rq \<and> resolved_business_id = Some (biz_id b) then (None, rq)
             else (query, store query))"

section \<open>The access context of a request\<close>

definition context_for ::
    "(string list \<Rightarrow> string list) \<Rightarrow> 'a core_db_scheme \<Rightarrow> business \<Rightarrow> membership option \<Rightarrow>
     subscription option \<Rightarrow> access_context" where
  "context_for ord db b m sub =
     (case sub of
        None \<Rightarrow> empty_context (Some (denial SUBSCRIPTION_MISSING
                   ''The business does not have a subscription.'')) (Some b) m None
      | Some s \<Rightarrow>
          if \<not> plan_active (sub_plan s)
          then empty_context (Some (denial PLAN_INACTIVE ''The assigned plan is inactive.''))
                 (Some b) m (Some s)
          else case subscription_mode db s of (mode, mode_denial) \<Rightarrow>
            if mode = DENIED then empty_context mode_denial (Some b) m (Some s)
            else let r = plan_modules ord (sub_plan s) in
              \<lparr>ctx_mode = mode, ctx_modules = effective_modules r, ctx_business = Some b,
               ctx_membership = m, ctx_subscription = Some s, ctx_denial = None,
               ctx_module_denials = module_denials r\<rparr>)"

definition compute_context ::
    "(string list \<Rightarrow> string list) \<Rightarrow> 'a core_db_scheme \<Rightarrow> request \<Rightarrow> business option \<Rightarrow>
     membership option \<Rightarrow> access_context \<times> request" where
  "compute_context ord db rq b m =
     (case rq_user rq of
        None \<Rightarrow> (empty_context (Some (denial AUTHENTICATION_REQUIRED ''Authentication is required.''))
                  None None None, rq)
      | Some u \<Rightarrow>
        if \<not> is_authenticated u
        then (empty_context (Some (denial AUTHENTICATION_REQUIRED ''Authentication is required.''))
               None None None, rq)
        else case (b, m) of
          (Some bus, Some mem) \<Rightarrow>
            if \<not> mem_active mem \<or> Some (mem_user mem) \<noteq> user_pk u \<or> mem_business mem \<noteq> biz_id bus
            then (empty_context (Some (denial MEMBERSHIP_REQUIRED
                   ''The business membership is not active or does not match this user.'')) b m None, rq)
            else if \<not> biz_active bus
            then (empty_context (Some (denial BUSINESS_INACTIVE ''The business is inactive.'')) b m None, rq)
            else (case load_subscription db rq bus of (sub, rq') \<Rightarrow> (context_for ord db bus m sub, rq'))
        | _ \<Rightarrow> (empty_context (Some (denial MEMBERSHIP_REQUIRED
                   ''An active business membership is required.'')) b m None, rq))"

definition request_cache_key :: "request \<Rightarrow> business option \<Rightarrow> membership option \<Rightarrow> cache_key" where
  "request_cache_key rq b m =
     (Option.bind (rq_user rq) user_pk, map_option biz_id b, map_option mem_id m)"

definition or_else :: "'a option \<Rightarrow> 'a option \<Rightarrow> 'a option" where
  "or_else a b = (case a of Some x \<Rightarrow> Some x | None \<Rightarrow> b)"

definition cached :: "request \<Rightarrow> (cache_key \<times> access_context) list" where
  "cached rq = (case rq_cache rq of Some l \<Rightarrow> l | None \<Rightarrow> [])"

definition get_access_context ::
    "(string list \<Rightarrow> string list) \<Rightarrow> 'a core_db_scheme \<Rightarrow> request \<Rightarrow> business option \<Rightarrow>
     membership option \<Rightarrow> access_context \<times> request" where
  "get_access_context ord db rq business membership =
     (let b = or_else business (rq_business rq);
          m = or_else membership (rq_membership rq);
          key = request_cache_key rq b m
      in case map_of (cached rq) key of
           Some c \<Rightarrow> (c, rq)
         | None \<Rightarrow>
             (case compute_context ord db rq b m of (c, rq') \<Rightarrow>
                (c, rq'\<lparr>rq_cache := Some ((key, c) # cached rq)\<rparr>)))"

section \<open>Decisions\<close>

definition deny :: "access_context \<Rightarrow> access_denial option \<Rightarrow> access_decision" where
  "deny c d = \<lparr>allowed = False, context_of = c, denial_of = d\<rparr>"

definition grant :: "access_context \<Rightarrow> access_decision" where
  "grant c = \<lparr>allowed = True, context_of = c, denial_of = None\<rparr>"

text \<open>The first requested module that is unknown or not effective, as a denial.\<close>

fun modules_denial :: "access_context \<Rightarrow> string list \<Rightarrow> access_denial option" where
  "modules_denial c [] = None"
| "modules_denial c (k # ks) =
     (case get_module_definition feature_registry k of
        None \<Rightarrow> Some (module_denial UNKNOWN_MODULE
                  ''The requested commercial module is not registered.'' k [])
      | Some d \<Rightarrow>
          if k \<notin> set (ctx_modules c)
          then Some (case map_of (ctx_module_denials c) k of
                Some x \<Rightarrow> x
              | None \<Rightarrow> module_denial MODULE_DISABLED (md_label d @ '' is not available.'') k [])
          else modules_denial c ks)"

definition permission_denial :: "access_context \<Rightarrow> string option \<Rightarrow> access_denial option" where
  "permission_denial c perm =
     (case perm of
        None \<Rightarrow> None
      | Some p \<Rightarrow>
          if p \<notin> set ALL_PERMISSION_CODES
          then Some (denial PERMISSION_DENIED ''The required role permission is not registered.'')
          else if \<not> (case ctx_membership c of Some m \<Rightarrow> has_perm m p | None \<Rightarrow> False)
          then Some (denial PERMISSION_DENIED
                 (''Permission '' @ [CHR 0x27] @ p @ [CHR 0x27] @ '' is required.''))
          else None)"

definition evaluate_access ::
    "(string list \<Rightarrow> string list) \<Rightarrow> 'a core_db_scheme \<Rightarrow> request \<Rightarrow> modules_arg \<Rightarrow> string option \<Rightarrow>
     action_arg \<Rightarrow> business option \<Rightarrow> membership option \<Rightarrow> bool \<Rightarrow> access_decision \<times> request" where
  "evaluate_access ord db rq module_keys perm action business membership scope_allowed =
     (let modules = normalize_module_keys module_keys in
      case get_access_context ord db rq business membership of (c, rq') \<Rightarrow>
        ((if ctx_denial c \<noteq> None then deny c (ctx_denial c)
          else if modules = []
          then deny c (Some (denial UNKNOWN_MODULE
                 ''At least one registered commercial module is required.''))
          else if ctx_mode c = READ_ONLY \<and> resolve_action (rq_method rq') action = WRITE
          then deny c (Some (denial SUBSCRIPTION_READ_ONLY
                 ''The subscription currently permits read-only access.''))
          else case modules_denial c modules of
            Some d \<Rightarrow> deny c (Some d)
          | None \<Rightarrow>
              (case permission_denial c perm of
                 Some d \<Rightarrow> deny c (Some d)
               | None \<Rightarrow>
                   if \<not> scope_allowed
                   then deny c (Some (denial SCOPE_DENIED
                          ''The requested object is outside the allowed business scope.''))
                   else grant c)), rq'))"

definition evaluate_public_access ::
    "(string list \<Rightarrow> string list) \<Rightarrow> 'a core_db_scheme \<Rightarrow> business option \<Rightarrow> modules_arg \<Rightarrow>
     action_arg \<Rightarrow> access_decision" where
  "evaluate_public_access ord db business module_keys action =
     (case business of
        None \<Rightarrow> (let d = denial BUSINESS_INACTIVE ''The business is inactive.''
                 in deny (empty_context (Some d) None None None) (Some d))
      | Some b \<Rightarrow>
        if \<not> biz_active b
        then (let d = denial BUSINESS_INACTIVE ''The business is inactive.''
              in deny (empty_context (Some d) business None None) (Some d))
        else let c = context_for ord db b None (subscription_of db (biz_id b));
                 modules = normalize_module_keys module_keys
          in if ctx_denial c \<noteq> None
             then deny c (ctx_denial c)
             else if modules = []
             then deny c (Some (denial UNKNOWN_MODULE
                    ''At least one registered commercial module is required.''))
             else if ctx_mode c = READ_ONLY \<and> resolve_action (Some ''GET'') action = WRITE
             then deny c (Some (denial SUBSCRIPTION_READ_ONLY
                    ''The subscription currently permits read-only access.''))
             else case modules_denial c modules of
               Some d \<Rightarrow> deny c (Some d)
             | None \<Rightarrow> grant c)"

section \<open>Explicit actors\<close>

text \<open>The attribute \<open>pk\<close> of an optional user or business, \<open>None\<close> for no object.\<close>

definition upk :: "user option \<Rightarrow> id option" where
  "upk u = Option.bind u user_pk"

definition matching_memberships ::
    "'a core_db_scheme \<Rightarrow> id \<Rightarrow> id \<Rightarrow> membership list" where
  "matching_memberships db b u =
     filter (\<lambda>m. mem_business m = b \<and> mem_user m = u \<and> mem_active m) (memberships db)"

definition resolve_actor_membership ::
    "'a core_db_scheme \<Rightarrow> user option \<Rightarrow> business option \<Rightarrow> membership option \<Rightarrow> request option \<Rightarrow>
     membership option" where
  "resolve_actor_membership db user business membership rq =
     (let lookup =
        (case (business, upk user) of
           (Some b, Some u) \<Rightarrow>
             (case membership of
                Some m \<Rightarrow> row_by mem_id (mem_id m) (matching_memberships db (biz_id b) u)
              | None \<Rightarrow> find (\<lambda>_. True) (matching_memberships db (biz_id b) u))
         | _ \<Rightarrow> None)
      in case Option.bind rq rq_membership of
           Some rm \<Rightarrow>
             if Some (mem_business rm) = map_option biz_id business
                \<and> Some (mem_user rm) = upk user
                \<and> (membership = None \<or> Some (mem_id rm) = map_option mem_id membership)
             then Some rm else lookup
         | None \<Rightarrow> lookup)"

definition action_text :: "action_arg \<Rightarrow> string" where
  "action_text a =
     (case a of
        Enum READ \<Rightarrow> ''read''
      | Enum WRITE \<Rightarrow> ''write''
      | ActionText s \<Rightarrow> py_lower (py_strip s)
      | NoAction \<Rightarrow> ''none'')"

definition service_request :: "user option \<Rightarrow> business option \<Rightarrow> membership option \<Rightarrow> action_arg \<Rightarrow> request"
where
  "service_request user business membership action =
     \<lparr>rq_user = user, rq_business = business, rq_membership = membership,
      rq_method = Some (if action_text action \<in> {''read'', ''safe'', ''view''} then ''GET'' else ''POST''),
      rq_subscription = None, rq_resolved = False, rq_resolved_business = None, rq_cache = None\<rparr>"

definition evaluate_actor_access ::
    "(string list \<Rightarrow> string list) \<Rightarrow> 'a core_db_scheme \<Rightarrow> user option \<Rightarrow> business option \<Rightarrow>
     modules_arg \<Rightarrow> string option \<Rightarrow> action_arg \<Rightarrow> membership option \<Rightarrow> request option \<Rightarrow> bool \<Rightarrow>
     access_decision \<times> request" where
  "evaluate_actor_access ord db user business module_keys perm action membership rq scope_allowed =
     (let auth = (case rq of
            Some r \<Rightarrow> if upk (rq_user r) \<noteq> upk user then None else Some r
          | None \<Rightarrow> None);
          m = resolve_actor_membership db user business membership auth;
          r = (case auth of Some r \<Rightarrow> r | None \<Rightarrow> service_request user business m action)
      in evaluate_access ord db r module_keys perm action business m scope_allowed)"

text \<open>\<^verbatim>\<open>require_actor_access\<close> for a service called without a request: the context or a denial.\<close>

definition decision_result :: "access_decision \<Rightarrow> err + access_context" where
  "decision_result d =
     (if allowed d then Inr (context_of d)
      else Inl (ModuleAccessDenied (case denial_of d of
        Some x \<Rightarrow> x
      | None \<Rightarrow> denial PERMISSION_DENIED [])))"

definition require_actor_access ::
    "(string list \<Rightarrow> string list) \<Rightarrow> 'a core_db_scheme \<Rightarrow> user option \<Rightarrow> business option \<Rightarrow>
     string \<Rightarrow> string option \<Rightarrow> access_action \<Rightarrow> membership option \<Rightarrow> bool \<Rightarrow> err + access_context" where
  "require_actor_access ord db user business module_key perm action membership scope_allowed =
     decision_result (fst (evaluate_actor_access ord db user business (OneKey module_key) perm
       (Enum action) membership None scope_allowed))"

section \<open>Laws\<close>

lemma set_plan_modules:
  "reorders ord \<Longrightarrow> k \<in> set (effective_modules (plan_modules ord p)) \<longleftrightarrow> entitled (plan_features p) k"
proof -
  assume ord: "reorders ord"
  obtain r where r: "calculate_effective_modules ord feature_registry (plan_features p) = Some r"
    "supported feature_registry [] (raw_enabled feature_registry (plan_features p))
       (set (effective_modules r))"
    and greatest: "\<forall>S. supported feature_registry [] (raw_enabled feature_registry (plan_features p)) S
      \<longrightarrow> S \<subseteq> set (effective_modules r)"
    using features.calculate_spec[OF ord feature_registry_acyclic] by blast
  have "{k. entitled (plan_features p) k} \<subseteq> set (effective_modules r)"
    by (rule greatest[rule_format, OF entitled_supported])
  then show ?thesis using supported_entitled[OF r(2), of k] by (auto simp: plan_modules_def r(1))
qed

lemma entitled_definition: "entitled features k \<Longrightarrow> get_module_definition feature_registry k \<noteq> None"
  using entitled_registered registered by blast

lemma modules_denial_None:
  assumes known: "\<forall>k \<in> set (ctx_modules c). get_module_definition feature_registry k \<noteq> None"
  shows "modules_denial c ks = None \<longleftrightarrow> set ks \<subseteq> set (ctx_modules c)"
proof (induction ks)
  case Nil
  then show ?case by simp
next
  case (Cons k ks)
  then show ?case using known
    by (cases "get_module_definition feature_registry k") (auto split: option.splits)
qed

text \<open>When a subscription permits everything, and when only reading.\<close>

definition in_force :: "int \<Rightarrow> subscription \<Rightarrow> bool" where
  "in_force now s =
     (case sub_status s of
        TRIAL \<Rightarrow> allow_trial (sub_plan s) \<and> (case trial_ends_at s of None \<Rightarrow> False | Some t \<Rightarrow> now < t)
      | ACTIVE \<Rightarrow> (case current_period_end s of
            None \<Rightarrow> True
          | Some e \<Rightarrow> now \<le> e + int (grace_days s) * day)
      | st \<Rightarrow> st = GRACE)"

definition lapsed :: "int \<Rightarrow> subscription \<Rightarrow> bool" where
  "lapsed now s =
     (case sub_status s of
        ACTIVE \<Rightarrow> \<not> in_force now s
      | st \<Rightarrow> st \<in> {PAST_DUE, CANCELLED, EXPIRED})"

lemma mode_FULL: "fst (subscription_mode db s) = FULL \<longleftrightarrow> in_force (clock db) s"
proof -
  have "0 \<le> int (grace_days s) * day" by (simp add: day_def)
  then show ?thesis
    by (cases "sub_status s")
      (auto simp: subscription_mode_def in_force_def effective_status_def Let_def
        split: option.splits)
qed

lemma mode_READ_ONLY:
  "fst (subscription_mode db s) = READ_ONLY \<longleftrightarrow> expiry_mode db = ReadOnlyMode \<and> lapsed (clock db) s"
proof -
  have "0 \<le> int (grace_days s) * day" by (simp add: day_def)
  then show ?thesis
    by (cases "sub_status s"; cases "expiry_mode db")
      (auto simp: subscription_mode_def in_force_def lapsed_def effective_status_def Let_def
        split: option.splits)
qed

lemma mode_denial: "(snd (subscription_mode db s) = None) = (fst (subscription_mode db s) \<noteq> DENIED)"
  by (auto simp: subscription_mode_def Let_def)

lemma context_for_ok:
  "ctx_denial (context_for ord db b m sub) = None \<longleftrightarrow>
     (\<exists>s. sub = Some s \<and> plan_active (sub_plan s) \<and> fst (subscription_mode db s) \<noteq> DENIED)"
proof (cases sub)
  case None
  then show ?thesis by (simp add: context_for_def empty_context_def)
next
  case (Some s)
  then show ?thesis using mode_denial[of db s]
    by (cases "subscription_mode db s") (auto simp: context_for_def empty_context_def Let_def)
qed

lemma context_for_fields:
  assumes "ctx_denial (context_for ord db b m (Some s)) = None"
  shows "ctx_mode (context_for ord db b m (Some s)) = fst (subscription_mode db s)"
    "ctx_modules (context_for ord db b m (Some s)) = effective_modules (plan_modules ord (sub_plan s))"
    "ctx_membership (context_for ord db b m (Some s)) = m"
    "ctx_module_denials (context_for ord db b m (Some s)) = module_denials (plan_modules ord (sub_plan s))"
    "ctx_business (context_for ord db b m (Some s)) = Some b"
  using assms unfolding context_for_ok
  by (auto simp: context_for_def Let_def split: prod.splits)

lemma allowed_deny [simp]: "allowed (deny c d) = False" "denial_of (deny c d) = d"
    "context_of (deny c d) = c"
  by (simp_all add: deny_def)

lemma allowed_grant [simp]: "allowed (grant c) = True" "context_of (grant c) = c" "denial_of (grant c) = None"
  by (simp_all add: grant_def)

text \<open>The decision as layers over the context of the request.\<close>

lemma evaluate_access_allowed:
  "allowed (fst (evaluate_access ord db rq mk perm action business membership scope)) \<longleftrightarrow>
     (let (c, rq') = get_access_context ord db rq business membership in
      ctx_denial c = None \<and> normalize_module_keys mk \<noteq> []
      \<and> \<not> (ctx_mode c = READ_ONLY \<and> resolve_action (rq_method rq') action = WRITE)
      \<and> modules_denial c (normalize_module_keys mk) = None
      \<and> permission_denial c perm = None \<and> scope)"
  by (auto simp: evaluate_access_def Let_def split: prod.splits option.splits)

lemma allowed_no_denial:
  "allowed (fst (evaluate_access ord db rq mk perm action business membership scope)) \<Longrightarrow>
     ctx_denial (fst (get_access_context ord db rq business membership)) = None"
  unfolding evaluate_access_allowed
  by (cases "get_access_context ord db rq business membership") simp

lemma evaluate_access_context:
  "context_of (fst (evaluate_access ord db rq mk perm action business membership scope))
     = fst (get_access_context ord db rq business membership)"
  by (auto simp: evaluate_access_def Let_def split: prod.splits option.splits)

lemma load_subscription_frame:
  "rq_user (snd (load_subscription db rq b)) = rq_user rq"
  "rq_business (snd (load_subscription db rq b)) = rq_business rq"
  "rq_membership (snd (load_subscription db rq b)) = rq_membership rq"
  "rq_method (snd (load_subscription db rq b)) = rq_method rq"
  by (simp_all add: load_subscription_def Let_def split: option.splits prod.splits)

lemma compute_context_frame:
  "rq_user (snd (compute_context ord db rq b m)) = rq_user rq"
  "rq_business (snd (compute_context ord db rq b m)) = rq_business rq"
  "rq_membership (snd (compute_context ord db rq b m)) = rq_membership rq"
  "rq_method (snd (compute_context ord db rq b m)) = rq_method rq"
  using load_subscription_frame[of db rq]
  by (auto simp: compute_context_def split: option.splits prod.splits) (metis snd_conv)+

lemma get_context_frame:
  "rq_user (snd (get_access_context ord db rq business membership)) = rq_user rq"
  "rq_business (snd (get_access_context ord db rq business membership)) = rq_business rq"
  "rq_membership (snd (get_access_context ord db rq business membership)) = rq_membership rq"
  "rq_method (snd (get_access_context ord db rq business membership)) = rq_method rq"
proof -
  let ?b = "or_else business (rq_business rq)" and ?m = "or_else membership (rq_membership rq)"
  note f = compute_context_frame[of ord db rq ?b ?m]
  show "rq_user (snd (get_access_context ord db rq business membership)) = rq_user rq"
    "rq_business (snd (get_access_context ord db rq business membership)) = rq_business rq"
    "rq_membership (snd (get_access_context ord db rq business membership)) = rq_membership rq"
    "rq_method (snd (get_access_context ord db rq business membership)) = rq_method rq"
    using f by (cases "compute_context ord db rq ?b ?m";
        simp add: get_access_context_def Let_def split: option.splits)+
qed

section \<open>Services without a request\<close>

lemma resolved_membership:
  assumes "resolve_actor_membership db user (Some b) membership None = Some m"
  shows "m \<in> set (memberships db)" "mem_business m = biz_id b" "Some (mem_user m) = upk user"
    "mem_active m"
  using assms
  by (auto simp: resolve_actor_membership_def matching_memberships_def row_by_def
      split: option.splits dest!: find_Some_mem)

lemma load_service_subscription:
  "fst (load_subscription db (service_request user (Some b) m action) b) = subscription_of db (biz_id b)"
  by (simp add: load_subscription_def service_request_def Let_def)

lemma service_context:
  "fst (get_access_context ord db (service_request user business m action) business m)
     = fst (compute_context ord db (service_request user business m action) business m)"
  by (auto simp: get_access_context_def service_request_def or_else_def cached_def Let_def
      split: option.splits prod.splits)

lemma compute_context_service:
  assumes "resolve_actor_membership db user business membership None = m"
  shows "fst (compute_context ord db (service_request user business m action) business m) =
    (case (user, business, m) of
       (Some u, Some b, Some mem) \<Rightarrow>
         if \<not> is_authenticated u
         then empty_context (Some (denial AUTHENTICATION_REQUIRED ''Authentication is required.''))
                None None None
         else if \<not> biz_active b
         then empty_context (Some (denial BUSINESS_INACTIVE ''The business is inactive.'')) business m None
         else context_for ord db b m (subscription_of db (biz_id b))
     | (Some u, _, _) \<Rightarrow>
         if \<not> is_authenticated u
         then empty_context (Some (denial AUTHENTICATION_REQUIRED ''Authentication is required.''))
                None None None
         else empty_context (Some (denial MEMBERSHIP_REQUIRED
                   ''An active business membership is required.'')) business m None
     | _ \<Rightarrow> empty_context (Some (denial AUTHENTICATION_REQUIRED ''Authentication is required.''))
                None None None)"
proof (cases user)
  case None
  then show ?thesis by (simp add: compute_context_def service_request_def)
next
  case user: (Some u)
  show ?thesis
  proof (cases "business = None \<or> m = None")
    case True
    then show ?thesis using user
      by (cases business; cases m) (simp_all add: compute_context_def service_request_def)
  next
    case False
    then obtain b mem where bm: "business = Some b" "m = Some mem" by auto
    then have "resolve_actor_membership db user (Some b) membership None = Some mem"
      using assms by simp
    note r = resolved_membership[OF this]
    have "fst (load_subscription db (service_request user (Some b) m action) b)
        = subscription_of db (biz_id b)" by (rule load_service_subscription)
    moreover have "rq_user (service_request user (Some b) m action) = Some u"
      by (simp add: service_request_def user)
    ultimately show ?thesis using r user bm
      by (cases "load_subscription db (service_request user (Some b) m action) b")
        (simp add: compute_context_def upk_def)
  qed
qed

text \<open>The contract of authorization, in terms of the stored rows only.\<close>

definition authorized ::
    "'a core_db_scheme \<Rightarrow> user option \<Rightarrow> business option \<Rightarrow> modules_arg \<Rightarrow> string option \<Rightarrow>
     access_action \<Rightarrow> membership option \<Rightarrow> bool \<Rightarrow> bool" where
  "authorized db user business mk perm action membership scope =
     (case (user, business, resolve_actor_membership db user business membership None) of
        (Some u, Some b, Some m) \<Rightarrow>
          is_authenticated u \<and> biz_active b
          \<and> (case subscription_of db (biz_id b) of
               None \<Rightarrow> False
             | Some s \<Rightarrow>
                 plan_active (sub_plan s)
                 \<and> (in_force (clock db) s
                     \<or> (lapsed (clock db) s \<and> expiry_mode db = ReadOnlyMode \<and> action = READ))
                 \<and> (let ks = normalize_module_keys mk
                    in ks \<noteq> [] \<and> list_all (entitled (plan_features (sub_plan s))) ks))
          \<and> (case perm of None \<Rightarrow> True | Some p \<Rightarrow> p \<in> set ALL_PERMISSION_CODES \<and> has_perm m p)
          \<and> scope
      | _ \<Rightarrow> False)"

lemma in_force_not_lapsed: "in_force now s \<Longrightarrow> \<not> lapsed now s"
  by (auto simp: in_force_def lapsed_def split: sub_status.splits)

lemma service_action:
  "resolve_action (rq_method (service_request user business m (Enum a))) (Enum a) = a"
  by (cases a) (simp_all add: service_request_def action_text_def resolve_action_def py_upper_def
      upper_char_def Let_def)

lemma context_layers:
  assumes ord: "reorders ord"
  shows "(let c = context_for ord db b (Some m) (Some s) in
      ctx_denial c = None \<and> ks \<noteq> [] \<and> \<not> (ctx_mode c = READ_ONLY \<and> action = WRITE)
      \<and> modules_denial c ks = None \<and> permission_denial c perm = None) \<longleftrightarrow>
    plan_active (sub_plan s)
      \<and> (in_force (clock db) s \<or> (lapsed (clock db) s \<and> expiry_mode db = ReadOnlyMode \<and> action = READ))
      \<and> ks \<noteq> [] \<and> list_all (entitled (plan_features (sub_plan s))) ks
      \<and> (case perm of None \<Rightarrow> True | Some p \<Rightarrow> p \<in> set ALL_PERMISSION_CODES \<and> has_perm m p)"
proof (cases "ctx_denial (context_for ord db b (Some m) (Some s)) = None")
  case True
  let ?c = "context_for ord db b (Some m) (Some s)"
  note f = context_for_fields[OF True]
  have mode: "plan_active (sub_plan s)" "fst (subscription_mode db s) \<noteq> DENIED"
    using True by (auto simp: context_for_ok)
  have known: "\<forall>k \<in> set (ctx_modules ?c). get_module_definition feature_registry k \<noteq> None"
    using set_plan_modules[OF ord] entitled_definition by (simp add: f)
  have "modules_denial ?c ks = None \<longleftrightarrow> list_all (entitled (plan_features (sub_plan s))) ks"
    unfolding modules_denial_None[OF known] f
    using set_plan_modules[OF ord] by (auto simp: list_all_iff)
  moreover have "permission_denial ?c perm = None \<longleftrightarrow>
      (case perm of None \<Rightarrow> True | Some p \<Rightarrow> p \<in> set ALL_PERMISSION_CODES \<and> has_perm m p)"
    by (cases perm) (simp_all add: permission_denial_def f)
  moreover have "\<not> (ctx_mode ?c = READ_ONLY \<and> action = WRITE) \<longleftrightarrow>
      in_force (clock db) s \<or> (lapsed (clock db) s \<and> expiry_mode db = ReadOnlyMode \<and> action = READ)"
    using mode(2) mode_FULL[of db s] mode_READ_ONLY[of db s] in_force_not_lapsed[of "clock db" s]
    by (cases "fst (subscription_mode db s)"; cases action) (simp_all add: f)
  ultimately show ?thesis using True mode(1) by (simp add: Let_def) blast
next
  case False
  have "\<not> (plan_active (sub_plan s) \<and> (in_force (clock db) s
      \<or> (lapsed (clock db) s \<and> expiry_mode db = ReadOnlyMode \<and> action = READ)))"
    using False mode_FULL[of db s] mode_READ_ONLY[of db s] by (auto simp: context_for_ok)
  then show ?thesis using False by auto
qed

lemma actor_allowed:
  assumes ord: "reorders ord"
  shows "allowed (fst (evaluate_actor_access ord db user business mk perm (Enum action) membership None scope))
    \<longleftrightarrow> authorized db user business mk perm action membership scope"
proof -
  define m where "m = resolve_actor_membership db user business membership None"
  let ?rq = "service_request user business m (Enum action)"
  let ?c = "fst (get_access_context ord db ?rq business m)"
  have "allowed (fst (evaluate_actor_access ord db user business mk perm (Enum action) membership None scope))
    \<longleftrightarrow> ctx_denial ?c = None \<and> normalize_module_keys mk \<noteq> []
      \<and> \<not> (ctx_mode ?c = READ_ONLY \<and> action = WRITE)
      \<and> modules_denial ?c (normalize_module_keys mk) = None
      \<and> permission_denial ?c perm = None \<and> scope"
    unfolding evaluate_actor_access_def Let_def option.case m_def[symmetric] evaluate_access_allowed
    using get_context_frame(4)[of ord db ?rq business m]
    by (cases "get_access_context ord db ?rq business m") (auto simp: service_action)
  also have "\<dots> \<longleftrightarrow> authorized db user business mk perm action membership scope"
  proof (cases "user = None \<or> business = None \<or> m = None")
    case True
    then show ?thesis
      unfolding service_context compute_context_service[OF m_def[symmetric]] authorized_def m_def[symmetric]
      by (cases user; cases business; cases m) (auto simp: empty_context_def)
  next
    case False
    then obtain u b mem where some: "user = Some u" "business = Some b" "m = Some mem" by auto
    show ?thesis
    proof (cases "is_authenticated u \<and> biz_active b")
      case False
      then show ?thesis
        unfolding service_context compute_context_service[OF m_def[symmetric]] authorized_def m_def[symmetric]
        by (auto simp: some empty_context_def)
    next
      case True
      then have c: "?c = context_for ord db b (Some mem) (subscription_of db (biz_id b))"
        unfolding service_context compute_context_service[OF m_def[symmetric]] by (simp add: some)
      show ?thesis
      proof (cases "subscription_of db (biz_id b)")
        case None
        then show ?thesis unfolding c authorized_def m_def[symmetric]
          by (simp add: some context_for_ok)
      next
        case (Some s)
        show ?thesis
          using context_layers[OF ord, of db b mem s "normalize_module_keys mk" action perm] True
          unfolding c authorized_def m_def[symmetric]
          by (cases scope) (simp_all add: some Some Let_def)
      qed
    qed
  qed
  finally show ?thesis .
qed

lemma not_authorized_out_of_scope: "\<not> authorized db user business mk perm action membership False"
  by (simp add: authorized_def split: option.splits)

text \<open>What a service knows once \<open>require_actor_access\<close> has returned a context.\<close>

lemma require_actor_access_Inr:
  assumes "reorders ord"
    and "require_actor_access ord db user business key perm action membership scope = Inr c"
  shows "authorized db user business (OneKey key) perm action membership scope"
  using assms(2) actor_allowed[OF assms(1), of db user business "OneKey key" perm action membership scope]
  by (simp add: require_actor_access_def decision_result_def split: if_splits)

lemma require_actor_access_cases:
  assumes "reorders ord"
  shows "(\<exists>c. require_actor_access ord db user business key perm action membership scope = Inr c)
    \<longleftrightarrow> authorized db user business (OneKey key) perm action membership scope"
  using actor_allowed[OF assms, of db user business "OneKey key" perm action membership scope]
  by (simp add: require_actor_access_def decision_result_def)

lemma require_actor_access_membership:
  assumes "require_actor_access ord db user (Some b) key perm action membership scope = Inr c"
  obtains m where "ctx_membership c = Some m" "ctx_business c = Some b"
    "m \<in> set (memberships db)" "mem_business m = biz_id b" "Some (mem_user m) = upk user"
proof -
  define m where "m = resolve_actor_membership db user (Some b) membership None"
  let ?rq = "service_request user (Some b) m (Enum action)"
  have "allowed (fst (evaluate_actor_access ord db user (Some b) (OneKey key) perm (Enum action) membership None scope))"
    and c: "c = context_of (fst (evaluate_actor_access ord db user (Some b) (OneKey key) perm (Enum action) membership None scope))"
    using assms by (auto simp: require_actor_access_def decision_result_def split: if_splits)
  then have ok: "ctx_denial (fst (get_access_context ord db ?rq (Some b) m)) = None"
    by (auto simp: evaluate_actor_access_def m_def Let_def dest: allowed_no_denial)
  have "c = fst (get_access_context ord db ?rq (Some b) m)"
    unfolding c by (simp add: evaluate_actor_access_def evaluate_access_context m_def Let_def)
  then have c': "c = fst (compute_context ord db ?rq (Some b) m)" by (simp add: service_context)
  from ok obtain u mem where some: "user = Some u" "m = Some mem" "is_authenticated u" "biz_active b"
    unfolding service_context compute_context_service[OF m_def[symmetric]]
    by (cases user; cases m) (auto simp: empty_context_def split: if_splits)
  have ctx: "c = context_for ord db b (Some mem) (subscription_of db (biz_id b))"
    unfolding c' compute_context_service[OF m_def[symmetric]] by (simp add: some)
  have "ctx_denial c = None" using ok c' by (simp add: service_context)
  then obtain s where "subscription_of db (biz_id b) = Some s" using ctx context_for_ok by metis
  then have "ctx_membership c = Some mem" "ctx_business c = Some b"
    using ctx \<open>ctx_denial c = None\<close> context_for_fields(3,5)[of ord db b "Some mem" s] by simp_all
  then show ?thesis
    using that resolved_membership[of db user b membership mem] some(2) by (simp add: m_def)
qed

section \<open>Properties\<close>

text \<open>C1: an operation called for an explicit user is allowed exactly when the stored rows
  authorize it: an authenticated user with an active membership of this very business, an active
  business whose subscription is in force (or lapsed, in read-only mode, for a read), a plan that
  entitles every requested module, a registered permission held by the role, and the caller's
  scope check.\<close>

theorem actor_access_exact:
  assumes "reorders ord"
  shows "allowed (fst (evaluate_actor_access ord db user business mk perm (Enum action) membership None scope))
    \<longleftrightarrow> authorized db user business mk perm action membership scope"
  using assms by (rule actor_allowed)

definition sample_settings :: business_settings where
  "sample_settings = \<lparr>vat_enabled = True, vat_percentage = 5, prices_include_tax = False,
     invoice_prefix = ''INV'', invoice_include_branch_code = False, negative_stock_policy = BLOCK,
     shared_fabric_warehouse_id = None, allow_sale_without_shift = False,
     max_discount_percent = 100, require_customer_for_credit = True, return_window_days = 0,
     adjustment_requires_approval = False, price_rounding = RoundNearest, notify_low_stock = True,
     more_option_labels = [(''chest'', ''Chest'')]\<rparr>"

definition sample_business :: business where
  "sample_business = \<lparr>biz_id = 1, biz_active = True, currency_precision = 2, settings = sample_settings\<rparr>"

definition sample_user :: user where
  "sample_user = \<lparr>user_pk = Some 7, is_authenticated = True\<rparr>"

definition sample_plan :: plan where
  "sample_plan = \<lparr>plan_active = True, allow_trial = True,
     plan_features = [''feature_sales'', ''feature_inventory'', ''feature_transfers'',
       ''feature_customer_credit''], plan_limits = []\<rparr>"

definition sample_core :: core_db where
  "sample_core =
     \<lparr>clock = 100,
      memberships = [\<lparr>mem_id = 3, mem_business = 1, mem_user = 7,
        mem_role = \<lparr>role_name = ''Owner'', role_is_owner = True, role_permissions = []\<rparr>,
        mem_branches = [], mem_active = True\<rparr>],
      subscriptions = [\<lparr>sub_id = 5, sub_business = 1, sub_plan = sample_plan, sub_status = ACTIVE,
        trial_ends_at = None, current_period_end = Some 90, grace_days = 7\<rparr>],
      expiry_mode = ReadOnlyMode,
      branches = [\<lparr>br_id = 1, br_business = 1, br_code = ''HQ'', br_name = ''Head'',
        br_usage = SALES_BRANCH, br_invoice_prefix = [], br_active = True\<rparr>],
      warehouses = [\<lparr>wh_id = 1, wh_business = 1, wh_code = ''W1'', wh_name = ''Main'',
        wh_branch = Some 1, wh_default = True, wh_active = True\<rparr>,
        \<lparr>wh_id = 2, wh_business = 1, wh_code = ''W2'', wh_name = ''Back'',
        wh_branch = Some 1, wh_default = False, wh_active = True\<rparr>]\<rparr>"

lemma reorders_id: "reorders (\<lambda>xs. xs)"
  by (simp add: reorders_def)

theorem actor_access_exact_witness:
  "allowed (fst (evaluate_actor_access (\<lambda>xs. xs) sample_core (Some sample_user) (Some sample_business)
     (OneKey ''inventory'') (Some ''inventory.adjust'') (Enum WRITE) None None True))"
  unfolding actor_access_exact[OF reorders_id] by code_simp

text \<open>C39: full (writing) access is given exactly to a subscription that is in force: a trial
  that its plan allows and whose end lies in the future, an active period that has not run out
  beyond its grace days (to the day), or the grace status itself; and every lapsed one is read-only
  or denied, as the platform is configured.\<close>

theorem subscription_mode_exact:
  "fst (subscription_mode db s) =
     (if in_force (clock db) s then FULL
      else if lapsed (clock db) s \<and> expiry_mode db = ReadOnlyMode then READ_ONLY else DENIED)"
  using mode_FULL[of db s] mode_READ_ONLY[of db s] by (cases "fst (subscription_mode db s)") auto

text \<open>The legacy check is_operational and the central mode agree on every active
  business except for trials: a subscription with full access is operational, and an operational
  one that is not a trial has full access.\<close>

lemma operational_agrees:
  assumes "biz_active b"
  shows "(fst (subscription_mode db s) = FULL \<longrightarrow> is_operational (clock db) b s)
    \<and> (is_operational (clock db) b s \<and> sub_status s \<noteq> TRIAL \<longrightarrow> fst (subscription_mode db s) = FULL)"
proof -
  have "0 \<le> int (grace_days s) * day" by (simp add: day_def)
  then show ?thesis using assms unfolding mode_FULL
    by (cases "sub_status s")
      (auto simp: is_operational_def in_force_def effective_status_def split: option.splits if_splits)
qed

lemma operational_agrees_witness:
  "is_operational (clock sample_core) sample_business (hd (subscriptions sample_core))
    \<and> sub_status (hd (subscriptions sample_core)) = ACTIVE
    \<and> fst (subscription_mode sample_core (hd (subscriptions sample_core))) = FULL"
  using operational_agrees[of sample_business sample_core "hd (subscriptions sample_core)"]
  by (simp add: sample_business_def sample_core_def is_operational_def effective_status_def day_def)

text \<open>Within one request the context is computed once: asking again, whatever has happened
  to the database in between, returns the cached context and leaves the request as it is.\<close>

lemma access_context_cached:
  assumes "get_access_context ord db rq business membership = (c, rq')"
  shows "get_access_context ord' db' rq' business membership = (c, rq')"
proof -
  let ?b = "or_else business (rq_business rq)" and ?m = "or_else membership (rq_membership rq)"
  let ?key = "request_cache_key rq ?b ?m"
  have frame: "rq_user rq' = rq_user rq" "rq_business rq' = rq_business rq"
    "rq_membership rq' = rq_membership rq"
    using get_context_frame[of ord db rq business membership] assms by simp_all
  have hit: "map_of (cached rq') ?key = Some c"
    using assms by (cases "compute_context ord db rq ?b ?m")
      (auto simp: get_access_context_def Let_def cached_def split: option.splits)
  show ?thesis
    using hit by (simp add: get_access_context_def Let_def frame request_cache_key_def)
qed

lemma access_context_cached_witness:
  "\<exists>c rq'. get_access_context (\<lambda>xs. xs) sample_core
      (service_request (Some sample_user) (Some sample_business) None (Enum READ)) None None = (c, rq')
    \<and> get_access_context (\<lambda>xs. xs) (sample_core\<lparr>memberships := []\<rparr>) rq' None None = (c, rq')"
  by (cases "get_access_context (\<lambda>xs. xs) sample_core
      (service_request (Some sample_user) (Some sample_business) None (Enum READ)) None None")
    (use access_context_cached in blast)

text \<open>A service that is handed the request of another user decides as if it had no
  request: neither the cached contexts nor the subscription nor the membership of that request
  are used.\<close>

lemma foreign_request_ignored:
  assumes "upk (rq_user rq) \<noteq> upk user"
  shows "evaluate_actor_access ord db user business mk perm action membership (Some rq) scope
    = evaluate_actor_access ord db user business mk perm action membership None scope"
  using assms by (simp add: evaluate_actor_access_def)

lemma foreign_request_ignored_witness:
  "evaluate_actor_access (\<lambda>xs. xs) sample_core (Some sample_user) (Some sample_business)
     (OneKey ''inventory'') None (Enum WRITE) None
     (Some (service_request None (Some sample_business) None (Enum WRITE))) True
   = evaluate_actor_access (\<lambda>xs. xs) sample_core (Some sample_user) (Some sample_business)
     (OneKey ''inventory'') None (Enum WRITE) None None True"
  by (rule foreign_request_ignored) (simp add: service_request_def upk_def sample_user_def)

end
