(* ===== verification/Sale_Calculations.thy ===== *)
theory Sale_Calculations
  imports Catalog Access
begin

text \<open>
  \<^verbatim>\<open>apps/sales/calculations.py\<close>: the computation of sale lines and totals.  Money results are
  thousandths; quantities, rates and raw prices are rationals, and every product and quotient
  passes the decimal context.  Differences of stored values are plain integer differences (exact
  in the context, see \<open>ctx28_milli\<close>).
\<close>

section \<open>Tax rates\<close>

definition resolve_tax_rate :: "business option \<Rightarrow> product \<Rightarrow> rat option \<Rightarrow> rat" where
  "resolve_tax_rate business p explicit_rate =
     (case business of
        Some b \<Rightarrow>
          if \<not> vat_enabled (settings b) then 0
          else (case explicit_rate of
            Some r \<Rightarrow> r
          | None \<Rightarrow>
              if is_meter_tailoring p then vat_percentage (settings b)
              else if 0 < effective_tax_rate p then effective_tax_rate p
              else vat_percentage (settings b))
      | None \<Rightarrow>
          (case explicit_rate of
             Some r \<Rightarrow> r
           | None \<Rightarrow>
               if is_meter_tailoring p then 0
               else if 0 < effective_tax_rate p then effective_tax_rate p else 0))"

definition price_includes_tax :: "business option \<Rightarrow> product \<Rightarrow> bool option \<Rightarrow> bool" where
  "price_includes_tax business p flag =
     (let default = (case flag of
            Some x \<Rightarrow> x
          | None \<Rightarrow> (case business of Some b \<Rightarrow> prices_include_tax (settings b) | None \<Rightarrow> False))
      in if is_meter_tailoring p then default
         else case prod_includes_tax p of Some x \<Rightarrow> x | None \<Rightarrow> default)"

section \<open>One line\<close>

record line_parts =
  lp_quantity :: rat
  lp_unit_price :: milli
  lp_discount :: milli
  lp_share :: milli
  lp_rate :: rat
  lp_base_before :: milli
  lp_base :: milli
  lp_tax :: milli
  lp_total :: milli

definition gross_amount :: "rat \<Rightarrow> milli \<Rightarrow> milli \<Rightarrow> milli" where
  "gross_amount quantity unit_price discount =
     money (dsub (dmul (dec unit_price) quantity) (dec discount))"

definition base_before_discount :: "milli \<Rightarrow> rat \<Rightarrow> bool \<Rightarrow> milli" where
  "base_before_discount gross rate inclusive =
     (if 0 < rate \<and> inclusive then money (ddiv (dec gross) (dadd 1 (ddiv rate 100))) else gross)"

definition line_tax :: "milli \<Rightarrow> rat \<Rightarrow> milli" where
  "line_tax base rate = (if 0 < rate then money (ddiv (dmul (dec base) rate) 100) else 0)"

definition compute_line ::
    "product \<Rightarrow> rat \<Rightarrow> rat \<Rightarrow> rat \<Rightarrow> business option \<Rightarrow> bool option \<Rightarrow> rat option \<Rightarrow> rat \<Rightarrow> err + line_parts"
where
  "compute_line p quantity unit_price discount business inclusive tax_rate invoice_share =
     (let price = money unit_price;
          disc = money discount;
          share = money invoice_share;
          rate = resolve_tax_rate business p tax_rate;
          gross = gross_amount quantity price disc
      in if gross < 0 then Inl (CalculationError ''Line discount cannot exceed the line amount.'')
         else let before = base_before_discount gross rate (price_includes_tax business p inclusive)
         in if share < 0 then Inl (CalculationError ''Invoice discount cannot be negative.'')
         else if before < share
         then Inl (CalculationError ''Invoice discount cannot exceed the taxable line amount.'')
         else let base = before - share; tax = line_tax base rate
         in Inr \<lparr>lp_quantity = quantity, lp_unit_price = price, lp_discount = disc, lp_share = share,
                 lp_rate = rate, lp_base_before = before, lp_base = base, lp_tax = tax,
                 lp_total = base + tax\<rparr>)"

section \<open>Proportional allocation\<close>

text \<open>
  The loop that splits an amount over weights: every part but the last is the rounded proportional
  one, the last takes what is left.  \<open>part\<close> is the rounded proportional part of a weight.
\<close>

fun allocate :: "('w \<Rightarrow> milli) \<Rightarrow> milli \<Rightarrow> milli \<Rightarrow> 'w list \<Rightarrow> milli list" where
  "allocate part amount allocated [] = []"
| "allocate part amount allocated [w] = [amount - allocated]"
| "allocate part amount allocated (w # v # ws) =
     part w # allocate part amount (allocated + part w) (v # ws)"

definition proportional_part :: "milli \<Rightarrow> rat \<Rightarrow> rat \<Rightarrow> milli" where
  "proportional_part amount tot w = money (ddiv (dmul (dec amount) w) tot)"

definition allocate_discount :: "milli list \<Rightarrow> rat \<Rightarrow> err + milli list" where
  "allocate_discount bases invoice_discount =
     (let disc = money invoice_discount; subtotal = sum_list bases in
      if disc < 0 then Inl (CalculationError ''Invoice discount cannot be negative.'')
      else if subtotal < disc
      then Inl (CalculationError ''Invoice discount cannot exceed the sale subtotal.'')
      else if disc = 0 \<or> subtotal = 0 then Inr (map (\<lambda>_. 0) bases)
      else Inr (allocate (\<lambda>b. proportional_part disc (dec subtotal) (dec b)) disc 0 bases))"

section \<open>Sale totals\<close>

record cart_line =
  cl_product :: product
  cl_variant :: "variant option"
  cl_quantity :: rat
  cl_unit_price :: rat
  cl_discount :: rat

record sale_totals =
  st_lines :: "(cart_line \<times> line_parts) list"
  st_subtotal :: milli
  st_line_discounts :: milli
  st_invoice_discount :: milli
  st_discount_total :: milli
  st_tax_total :: milli
  st_raw_total :: milli
  st_total :: milli
  st_rounding :: milli

definition first_pass_line :: "business \<Rightarrow> cart_line \<Rightarrow> err + line_parts" where
  "first_pass_line b l =
     compute_line (cl_product l) (cl_quantity l) (cl_unit_price l) (cl_discount l) (Some b)
       (Some (prices_include_tax (settings b))) None 0"

definition second_pass_line :: "business \<Rightarrow> (cart_line \<times> line_parts) \<times> milli \<Rightarrow> err + (cart_line \<times> line_parts)"
where
  "second_pass_line b x =
     (case x of ((l, initial), share) \<Rightarrow>
        ebind (compute_line (cl_product l) (cl_quantity l) (cl_unit_price l) (cl_discount l) (Some b)
                (Some (prices_include_tax (settings b))) (Some (lp_rate initial)) (dec share))
          (\<lambda>parts. Inr (l, parts)))"

definition round_total :: "business \<Rightarrow> int option \<Rightarrow> milli \<Rightarrow> milli" where
  "round_total b precision raw =
     (if price_rounding (settings b) = RoundNearest
      then round_to_precision raw (case precision of Some p \<Rightarrow> p | None \<Rightarrow> currency_precision b)
      else raw)"

definition calculate_sale_totals ::
    "business \<Rightarrow> cart_line list \<Rightarrow> rat \<Rightarrow> int option \<Rightarrow> err + sale_totals" where
  "calculate_sale_totals b items invoice_discount precision =
     ebind (emap (first_pass_line b) items) (\<lambda>first_pass.
     ebind (allocate_discount (map lp_base_before first_pass) invoice_discount) (\<lambda>shares.
     ebind (emap (second_pass_line b) (zip (zip items first_pass) shares)) (\<lambda>computed.
       let raw = (\<Sum>x \<leftarrow> computed. lp_total (snd x));
           line_discounts = (\<Sum>x \<leftarrow> first_pass. lp_discount x)
       in Inr \<lparr>st_lines = computed,
               st_subtotal = (\<Sum>x \<leftarrow> first_pass. lp_base_before x),
               st_line_discounts = line_discounts,
               st_invoice_discount = money invoice_discount,
               st_discount_total = line_discounts + money invoice_discount,
               st_tax_total = (\<Sum>x \<leftarrow> computed. lp_tax (snd x)),
               st_raw_total = raw,
               st_total = round_total b precision raw,
               st_rounding = round_total b precision raw - raw\<rparr>)))"

section \<open>Payments\<close>

datatype method_kind = CASH | CARD | BANK | ONLINE | CUSTOMER_CREDIT | STORE_CREDIT | OTHER

record 'm payment_input =
  pi_method :: 'm
  pi_amount :: rat
  pi_reference :: string

record 'm clean_payment =
  cp_method :: 'm
  cp_amount :: milli
  cp_reference :: string

record payment_totals =
  pay_total :: milli
  credit_amount :: milli
  store_credit_amount :: milli
  cash_tendered :: milli

fun add_payments ::
    "('m \<Rightarrow> method_kind) \<Rightarrow> 'm payment_input list \<Rightarrow> 'm clean_payment list \<Rightarrow> payment_totals \<Rightarrow>
     err + ('m clean_payment list \<times> payment_totals)" where
  "add_payments kind [] clean t = Inr (clean, t)"
| "add_payments kind (p # ps) clean t =
     (let amount = money (pi_amount p) in
      if amount \<le> 0 then Inl (CalculationError ''Payment amounts must be positive.'')
      else let k = kind (pi_method p);
               t1 = (if k = CUSTOMER_CREDIT then t\<lparr>credit_amount := credit_amount t + amount\<rparr>
                     else if k = STORE_CREDIT then t\<lparr>store_credit_amount := store_credit_amount t + amount\<rparr>
                     else if k = CASH then t\<lparr>cash_tendered := cash_tendered t + amount\<rparr>
                     else t)
      in add_payments kind ps
           (clean @ [\<lparr>cp_method = pi_method p, cp_amount = amount, cp_reference = pi_reference p\<rparr>])
           (t1\<lparr>pay_total := pay_total t1 + amount\<rparr>))"

definition calculate_payment_totals ::
    "'m payment_input list \<Rightarrow> ('m \<Rightarrow> method_kind) \<Rightarrow> err + ('m clean_payment list \<times> payment_totals)" where
  "calculate_payment_totals payments kind =
     add_payments kind payments []
       \<lparr>pay_total = 0, credit_amount = 0, store_credit_amount = 0, cash_tendered = 0\<rparr>"

section \<open>Laws of the allocation\<close>

lemma allocate_length [simp]: "length (allocate part amount allocated ws) = length ws"
  by (induction part amount allocated ws rule: allocate.induct) simp_all

lemma allocate_sum:
  "ws \<noteq> [] \<Longrightarrow> sum_list (allocate part amount allocated ws) = amount - allocated"
  by (induction part amount allocated ws rule: allocate.induct) simp_all

text \<open>All parts but the last are the rounded ones.\<close>

lemma allocate_butlast: "butlast (allocate part amount allocated ws) = map part (butlast ws)"
proof (induction part amount allocated ws rule: allocate.induct)
  case (3 part amount allocated w v ws)
  have "allocate part amount (allocated + part w) (v # ws) \<noteq> []"
    by (metis allocate_length length_0_conv list.distinct(1))
  then show ?case using 3 by simp
qed simp_all

lemma proportional_part_between:
  assumes "0 \<le> amount" and "amount \<le> tot" and "0 \<le> b" and "b \<le> tot" and "0 < tot"
    and "tot * tot < 10 ^ 25"
  shows "0 \<le> proportional_part amount (dec tot) (dec b) \<and> proportional_part amount (dec tot) (dec b) \<le> b"
proof -
  have mono: "amount * b \<le> tot * tot" using assms by (intro mult_mono) simp_all
  have nonneg: "0 \<le> amount * b" using assms by simp
  then have prod: "dmul (dec amount) (dec b) = of_int (amount * b) / 10 ^ 6"
    using assms(6) mono by (intro dmul_milli) simp
  let ?x = "of_int (amount * b) / 10 ^ 6 / dec tot :: rat"
  have "(a / 10 ^ 6) / (t / 1000) = a / t / 1000" for a t :: rat by simp
  then have x: "?x = of_int (amount * b) / of_int tot / 1000" unfolding dec_def .
  have tpos: "(0 :: rat) < of_int tot" using assms(5) by simp
  have "amount * b \<le> tot * b" using assms by (simp add: mult_right_mono)
  then have "(of_int (amount * b) :: rat) \<le> of_int (tot * b)" by (simp only: of_int_le_iff)
  then have "of_int (amount * b) / of_int tot \<le> (of_int b :: rat)"
    using tpos by (simp add: divide_le_eq mult.commute)
  then have hi: "?x \<le> dec b" unfolding x by (simp add: dec_def)
  have lo: "dec 0 \<le> ?x" using assms nonneg tpos unfolding x by (simp add: dec_def)
  have "tot \<le> tot * tot" using assms(5) by simp
  then have "b < 10 ^ 25" using assms(4,6) by linarith
  then have "(of_int b :: rat) < of_int (10 ^ 25)" by (simp only: of_int_less_iff)
  then have "dec b < 10 ^ 25" by (simp add: dec_def)
  moreover have "0 \<le> ?x" using lo by (simp add: dec_def)
  ultimately have small: "\<bar>?x\<bar> < 10 ^ 25" using hi by linarith
  have rounded: "proportional_part amount (dec tot) (dec b) = money (ctx28 ?x)"
    by (simp only: proportional_part_def prod ddiv_def)
  have "\<bar>?x\<bar> < pow10 (28 - 3)" using small by (simp add: pow10_def)
  then have "dec 0 \<le> ctx28 ?x" "ctx28 ?x \<le> dec b"
    using ctx28_ge[of 0 3 ?x] ctx28_le[of ?x b 3] lo hi by (simp_all add: dec_pow10)
  then show ?thesis unfolding rounded by (simp add: money_ge money_le)
qed

lemma allocate_discount_Inr:
  assumes "allocate_discount bases d = Inr shares"
  shows "length shares = length bases" "0 \<le> money d" "money d \<le> sum_list bases"
    "bases \<noteq> [] \<Longrightarrow> sum_list bases \<noteq> 0 \<Longrightarrow> sum_list shares = money d"
    "sum_list bases = 0 \<Longrightarrow> sum_list shares = 0 \<and> money d = 0"
  using assms
  by (auto simp: allocate_discount_def Let_def allocate_sum map_replicate_const sum_list_replicate
      split: if_splits)

section \<open>Laws of lines and totals\<close>

lemma compute_line_Inr:
  assumes "compute_line p quantity unit_price discount business inclusive tax_rate share = Inr parts"
  shows "lp_rate parts = resolve_tax_rate business p tax_rate"
    "lp_share parts = money share" "lp_discount parts = money discount"
    "lp_unit_price parts = money unit_price"
    "lp_base_before parts = base_before_discount
       (gross_amount quantity (money unit_price) (money discount)) (lp_rate parts)
       (price_includes_tax business p inclusive)"
    "0 \<le> gross_amount quantity (money unit_price) (money discount)"
    "lp_base parts = lp_base_before parts - lp_share parts"
    "0 \<le> lp_share parts" "lp_share parts \<le> lp_base_before parts"
    "lp_tax parts = line_tax (lp_base parts) (lp_rate parts)"
    "lp_total parts = lp_base parts + lp_tax parts"
  using assms by (auto simp: compute_line_def Let_def split: if_splits)

lemma money_0 [simp]: "money 0 = 0"
  using money_dec[of 0] by (simp add: dec_def)

lemma ctx28_0 [simp]: "ctx28 0 = 0"
  by (simp add: ctx28_def)

lemma money_nonneg: "0 \<le> x \<Longrightarrow> 0 \<le> money x"
  using money_ge[of 0 x] by (simp add: dec_def)

lemma ctx28_nonneg: "0 \<le> x \<Longrightarrow> 0 \<le> ctx28 x"
proof (cases "x = 0")
  case False
  assume "0 \<le> x"
  then have "0 \<le> round_half_even (x / pow10 (lead_exp x - 27))"
    by (intro half_even.rnd_nonneg) (simp_all add: less_imp_le)
  then show ?thesis using False by (simp add: ctx28_def Let_def less_imp_le)
qed (simp add: ctx28_def)

lemma line_tax_nonneg: "0 \<le> base \<Longrightarrow> 0 \<le> line_tax base rate"
  by (auto simp: line_tax_def ddiv_def dmul_def dec_def intro!: money_nonneg ctx28_nonneg mult_nonneg_nonneg)

text \<open>The second pass sees the same rate and the same base as the first.\<close>

lemma second_pass_same_base:
  assumes "first_pass_line b l = Inr initial"
    and "second_pass_line b ((l, initial), share) = Inr (l', parts)"
  shows "l' = l" "lp_base_before parts = lp_base_before initial" "lp_share parts = share"
    "lp_rate parts = lp_rate initial"
    "lp_base parts = lp_base_before initial - share" "lp_total parts = lp_base parts + lp_tax parts"
    "0 \<le> share" "share \<le> lp_base_before initial" "lp_tax parts = line_tax (lp_base parts) (lp_rate parts)"
proof -
  from assms(2) have c: "compute_line (cl_product l) (cl_quantity l) (cl_unit_price l) (cl_discount l)
      (Some b) (Some (prices_include_tax (settings b))) (Some (lp_rate initial)) (dec share) = Inr parts"
    and l: "l' = l"
    by (auto simp: second_pass_line_def result_simps)
  note i = compute_line_Inr[OF assms(1)[unfolded first_pass_line_def]] and s = compute_line_Inr[OF c]
  have rate: "lp_rate parts = lp_rate initial"
    using s(1) i(1) by (simp add: resolve_tax_rate_def)
  show "l' = l" "lp_rate parts = lp_rate initial" by (fact l rate)+
  show before: "lp_base_before parts = lp_base_before initial"
    unfolding s(5) i(5) rate ..
  show "lp_share parts = share" "0 \<le> share" "share \<le> lp_base_before initial"
    "lp_base parts = lp_base_before initial - share" "lp_total parts = lp_base parts + lp_tax parts"
    "lp_tax parts = line_tax (lp_base parts) (lp_rate parts)"
    using s before by simp_all
qed

lemma second_pass_lines:
  assumes "list_all2 (\<lambda>l i. first_pass_line b l = Inr i) items firsts" and "length shares = length items"
    and "emap (second_pass_line b) (zip (zip items firsts) shares) = Inr computed"
  shows "length computed = length items"
    "(\<Sum>x \<leftarrow> computed. lp_total (snd x)) =
       sum_list (map lp_base_before firsts) - sum_list shares + (\<Sum>x \<leftarrow> computed. lp_tax (snd x))"
    "\<forall>x \<in> set computed. 0 \<le> lp_share (snd x) \<and> lp_share (snd x) \<le> lp_base_before (snd x)
       \<and> lp_base (snd x) = lp_base_before (snd x) - lp_share (snd x) \<and> 0 \<le> lp_tax (snd x)
       \<and> lp_total (snd x) = lp_base (snd x) + lp_tax (snd x)"
    "map fst computed = items"
proof -
  have "length computed = length items
    \<and> (\<Sum>x \<leftarrow> computed. lp_total (snd x)) =
       sum_list (map lp_base_before firsts) - sum_list shares + (\<Sum>x \<leftarrow> computed. lp_tax (snd x))
    \<and> (\<forall>x \<in> set computed. 0 \<le> lp_share (snd x) \<and> lp_share (snd x) \<le> lp_base_before (snd x)
       \<and> lp_base (snd x) = lp_base_before (snd x) - lp_share (snd x) \<and> 0 \<le> lp_tax (snd x)
       \<and> lp_total (snd x) = lp_base (snd x) + lp_tax (snd x))
    \<and> map fst computed = items"
    using assms
  proof (induction items firsts arbitrary: shares computed rule: list_all2_induct)
    case Nil
    then show ?case by simp
  next
    case (Cons l ls i js)
    from Cons.prems(1) obtain s ss where shares: "shares = s # ss" and len: "length ss = length ls"
      by (cases shares) auto
    from Cons.prems(2) obtain y ys where y: "second_pass_line b ((l, i), s) = Inr y"
      and ys: "emap (second_pass_line b) (zip (zip ls js) ss) = Inr ys" and computed: "computed = y # ys"
      by (auto simp: shares result_simps)
    obtain l' parts where yp: "y = (l', parts)" by (cases y)
    note p = second_pass_same_base[OF Cons.hyps(1) y[unfolded yp]]
    have "0 \<le> lp_base parts" using p by simp
    then have "0 \<le> lp_tax parts" using line_tax_nonneg p(9) by simp
    then show ?case using Cons.IH[OF len ys] p by (auto simp: computed yp shares)
  qed
  then show "length computed = length items"
    "(\<Sum>x \<leftarrow> computed. lp_total (snd x)) =
       sum_list (map lp_base_before firsts) - sum_list shares + (\<Sum>x \<leftarrow> computed. lp_tax (snd x))"
    "\<forall>x \<in> set computed. 0 \<le> lp_share (snd x) \<and> lp_share (snd x) \<le> lp_base_before (snd x)
       \<and> lp_base (snd x) = lp_base_before (snd x) - lp_share (snd x) \<and> 0 \<le> lp_tax (snd x)
       \<and> lp_total (snd x) = lp_base (snd x) + lp_tax (snd x)"
    "map fst computed = items"
    by blast+
qed

lemma calculate_sale_totals_Inr:
  assumes "calculate_sale_totals b items d precision = Inr t"
  obtains firsts shares where
    "list_all2 (\<lambda>l i. first_pass_line b l = Inr i) items firsts"
    "allocate_discount (map lp_base_before firsts) d = Inr shares"
    "emap (second_pass_line b) (zip (zip items firsts) shares) = Inr (st_lines t)"
    "st_subtotal t = sum_list (map lp_base_before firsts)"
    "st_invoice_discount t = money d"
    "st_tax_total t = (\<Sum>x \<leftarrow> st_lines t. lp_tax (snd x))"
    "st_raw_total t = (\<Sum>x \<leftarrow> st_lines t. lp_total (snd x))"
    "st_total t = round_total b precision (st_raw_total t)"
    "st_rounding t = st_total t - st_raw_total t"
    "st_discount_total t = st_line_discounts t + money d"
proof -
  from assms obtain firsts shares where
    e: "emap (first_pass_line b) items = Inr firsts"
       "allocate_discount (map lp_base_before firsts) d = Inr shares"
       "emap (second_pass_line b) (zip (zip items firsts) shares) = Inr (st_lines t)"
       "st_subtotal t = sum_list (map lp_base_before firsts)" "st_invoice_discount t = money d"
       "st_tax_total t = (\<Sum>x \<leftarrow> st_lines t. lp_tax (snd x))"
       "st_raw_total t = (\<Sum>x \<leftarrow> st_lines t. lp_total (snd x))"
       "st_total t = round_total b precision (st_raw_total t)"
       "st_rounding t = st_total t - st_raw_total t"
       "st_discount_total t = st_line_discounts t + money d"
    by (auto simp: calculate_sale_totals_def Let_def result_simps)
  show thesis by (rule that[OF emap_list_all2[OF e(1)] e(2-)])
qed

section \<open>Errors of the two roundings\<close>

lemma round_half_even_error: "\<bar>of_int (round_half_even y) - y\<bar> \<le> 1 / 2"
  unfolding round_half_even_def Let_def by (simp add: abs_if) linarith

lemma round_half_up_error: "\<bar>of_int (round_half_up y) - y\<bar> \<le> 1 / 2"
  using floor_correct[of "y + 1 / 2"] floor_correct[of "- y + 1 / 2"]
  by (simp add: round_half_up_def abs_if; linarith)

lemma ctx28_error: "\<bar>ctx28 x - x\<bar> \<le> \<bar>x\<bar> / 10 ^ 27"
proof (cases "x = 0")
  case True
  then show ?thesis by (simp add: ctx28_def)
next
  case False
  let ?u = "pow10 (lead_exp x - 27)"
  have u: "?u = pow10 (lead_exp x) / 10 ^ 27"
    using pow10_add[of "lead_exp x" "- 27"] by (simp add: pow10_def)
  have "ctx28 x - x = (of_int (round_half_even (x / ?u)) - x / ?u) * ?u"
    using False by (simp add: ctx28_def Let_def left_diff_distrib)
  then have "\<bar>ctx28 x - x\<bar> = \<bar>of_int (round_half_even (x / ?u)) - x / ?u\<bar> * ?u"
    by (simp add: abs_mult less_imp_le)
  also have "\<dots> \<le> 1 * ?u"
    using round_half_even_error[of "x / ?u"] by (intro mult_right_mono) (auto simp: less_imp_le)
  also have "\<dots> \<le> \<bar>x\<bar> / 10 ^ 27"
    unfolding u using pow10_lead_exp_le[OF False] by (simp add: divide_right_mono)
  finally show ?thesis .
qed

lemma money_ctx28_error:
  assumes "\<bar>x\<bar> \<le> 10 ^ 20"
  shows "\<bar>of_int (money (ctx28 x)) - 1000 * x\<bar> \<le> 51 / 100"
proof -
  have "\<bar>ctx28 x - x\<bar> \<le> 1 / 10 ^ 7"
    by (rule order_trans[OF ctx28_error]) (use assms in \<open>simp add: divide_le_eq\<close>)
  then have "\<bar>1000 * ctx28 x - 1000 * x\<bar> \<le> 1 / 100" by (simp add: abs_if split: if_splits)
  with round_half_up_error[of "1000 * ctx28 x"] show ?thesis unfolding money_def by linarith
qed

section \<open>Prices that include the tax\<close>

text \<open>A divisor with at most five decimals and the product with a stored rate are exact.\<close>

lemma rate_divisor_exact:
  assumes "0 < rm" and "rm \<le> 100000"
  shows "dadd 1 (ddiv (dec rm) 100) = 1 + of_int rm / 10 ^ 5"
proof -
  have p: "of_int m * pow10 (- 5) = of_int m / (10 ^ 5 :: rat)" for m by (simp add: pow10_def)
  have b: "(of_int m :: rat) \<le> of_int 200000" if "m \<le> 200000" for m using that by linarith
  have "ddiv (dec rm) 100 = of_int rm / 10 ^ 5"
    using ctx28_exact[of rm 5] assms b[of rm] unfolding p
    by (simp add: ddiv_def dec_def pow10_def)
  moreover have "ctx28 (1 + of_int rm / 10 ^ 5) = 1 + of_int rm / 10 ^ 5"
    using ctx28_exact[of "100000 + rm" 5] assms b[of "100000 + rm"] unfolding p
    by (simp add: pow10_def add_divide_distrib)
  ultimately show ?thesis by (simp only: dadd_def)
qed

lemma line_tax_error:
  assumes "0 < rm" and "rm \<le> 100000" and "0 \<le> base" and "base \<le> 10 ^ 15"
  shows "\<bar>of_int (line_tax base (dec rm)) - of_int base * of_int rm / 10 ^ 5\<bar> \<le> (51 / 100 :: rat)"
proof -
  have le: "base * rm \<le> 10 ^ 15 * 100000" using assms by (intro mult_mono) simp_all
  have nonneg: "0 \<le> base * rm" using assms by simp
  then have "dmul (dec base) (dec rm) = of_int (base * rm) / 10 ^ 6"
    using le by (intro dmul_milli) simp
  moreover have "line_tax base (dec rm) = money (ctx28 (dmul (dec base) (dec rm) / 100))"
    using assms(1) by (simp add: line_tax_def ddiv_def dec_def)
  moreover have "a / 10 ^ 6 / 100 = a / 10 ^ 8" for a :: rat by simp
  ultimately have "line_tax base (dec rm) = money (ctx28 (of_int (base * rm) / 10 ^ 8))" by (simp only:)
  moreover have "(of_int (base * rm) :: rat) \<le> of_int (10 ^ 15 * 100000)"
    using le by (simp only: of_int_le_iff)
  then have "\<bar>of_int (base * rm) / 10 ^ 8\<bar> \<le> (10 ^ 20 :: rat)"
    using nonneg by (simp add: divide_le_eq abs_if del: of_int_mult)
  ultimately show ?thesis
    using money_ctx28_error[of "of_int (base * rm) / 10 ^ 8"] by simp
qed

lemma inclusive_total_error:
  assumes "0 < rm" and "rm \<le> 100000" and "0 \<le> gross" and "gross \<le> 10 ^ 15"
  shows "\<bar>base_before_discount gross (dec rm) True
    + line_tax (base_before_discount gross (dec rm) True) (dec rm) - gross\<bar> \<le> 1"
proof -
  let ?c = "1 + of_int rm / 10 ^ 5 :: rat" and ?b = "base_before_discount gross (dec rm) True"
  have rm: "(0 :: rat) < of_int rm" "(of_int rm :: rat) \<le> of_int 100000"
    using assms by (simp, linarith)
  then have c: "1 < ?c" "?c \<le> 2" by simp_all
  have b: "?b = money (ctx28 (dec gross / ?c))"
    using assms(1) rate_divisor_exact[OF assms(1,2)]
    by (simp add: base_before_discount_def ddiv_def dec_def)
  have g: "(0 :: rat) \<le> of_int gross" "(of_int gross :: rat) \<le> of_int (10 ^ 15)"
    using assms(3,4) by (simp, simp only: of_int_le_iff)
  have q: "0 \<le> of_int gross / ?c" "of_int gross / ?c \<le> of_int gross"
    using g c by (simp_all add: divide_le_eq mult_le_cancel_left1)
  have x: "1000 * (dec gross / ?c) = of_int gross / ?c"
    unfolding dec_def by (simp only: times_divide_eq_right)
  have "0 \<le> dec gross / ?c" "dec gross / ?c \<le> of_int gross" using q x by linarith+
  moreover have "(of_int (10 ^ 15) :: rat) \<le> 10 ^ 20" by simp
  ultimately have "\<bar>dec gross / ?c\<bar> \<le> 10 ^ 20" using g by linarith
  from money_ctx28_error[OF this] have eb: "\<bar>of_int ?b - of_int gross / ?c\<bar> \<le> 51 / 100"
    unfolding b[symmetric] x .
  have "- 1 < (of_int ?b :: rat)" "(of_int ?b :: rat) < of_int (10 ^ 15 + 1)"
    using eb q g unfolding abs_le_iff by linarith+
  then have bb: "0 \<le> ?b" "?b \<le> 10 ^ 15" by linarith+
  have et: "\<bar>of_int (line_tax ?b (dec rm)) - of_int ?b * of_int rm / 10 ^ 5\<bar> \<le> (51 / 100 :: rat)"
    by (rule line_tax_error[OF assms(1,2) bb])
  have "\<bar>?c * (of_int ?b - of_int gross / ?c)\<bar> \<le> 2 * (51 / 100)"
    unfolding abs_mult by (rule mult_mono) (use eb c in auto)
  moreover have "?c * (of_int ?b - of_int gross / ?c)
      = of_int ?b + of_int ?b * of_int rm / 10 ^ 5 - of_int gross"
  proof -
    have "d * (x - g / d) = x * d - g" if "1 < d" for d x g :: rat
      using that by (simp add: right_diff_distrib mult.commute)
    from this[OF c(1)] show ?thesis by (simp only: distrib_left mult_1_right times_divide_eq_right)
  qed
  ultimately have "\<bar>of_int (?b + line_tax ?b (dec rm) - gross) :: rat\<bar> < of_int 2"
    using et unfolding of_int_add of_int_diff of_int_numeral by linarith
  then show ?thesis by (simp only: of_int_abs[symmetric] of_int_less_iff)
qed

section \<open>Laws of a whole cart\<close>

lemma shares_sum:
  "allocate_discount bases d = Inr shares \<Longrightarrow> sum_list shares = money d"
  using allocate_discount_Inr[of bases d shares]
  by (cases "bases = []"; cases "sum_list bases = 0") auto

lemma first_pass_nonneg: "first_pass_line b l = Inr i \<Longrightarrow> 0 \<le> lp_base_before i"
  unfolding first_pass_line_def using compute_line_Inr(8,9) by (metis order_trans)

lemma second_pass_columns:
  assumes "list_all2 (\<lambda>l i. first_pass_line b l = Inr i) items firsts" and "length shares = length items"
    and "emap (second_pass_line b) (zip (zip items firsts) shares) = Inr computed"
  shows "map (\<lambda>x. lp_share (snd x)) computed = shares"
    "map (\<lambda>x. lp_base_before (snd x)) computed = map lp_base_before firsts"
proof -
  have "map (\<lambda>x. lp_share (snd x)) computed = shares
    \<and> map (\<lambda>x. lp_base_before (snd x)) computed = map lp_base_before firsts"
    using assms
  proof (induction items firsts arbitrary: shares computed rule: list_all2_induct)
    case Nil
    then show ?case by simp
  next
    case (Cons l ls i js)
    from Cons.prems(1) obtain s ss where shares: "shares = s # ss" and len: "length ss = length ls"
      by (cases shares) auto
    from Cons.prems(2) obtain y ys where y: "second_pass_line b ((l, i), s) = Inr y"
      and ys: "emap (second_pass_line b) (zip (zip ls js) ss) = Inr ys" and computed: "computed = y # ys"
      by (auto simp: shares result_simps)
    show ?case
      using Cons.IH[OF len ys] second_pass_same_base(2,3)[OF Cons.hyps(1), of s "fst y" "snd y"] y
      by (simp add: computed shares)
  qed
  then show "map (\<lambda>x. lp_share (snd x)) computed = shares"
    "map (\<lambda>x. lp_base_before (snd x)) computed = map lp_base_before firsts" by blast+
qed

lemma allocate_discount_parts:
  assumes "allocate_discount bases d = Inr shares"
  shows "butlast shares = map (\<lambda>x. proportional_part (money d) (dec (sum_list bases)) (dec x)) (butlast bases)"
proof -
  have zero: "proportional_part 0 t w = 0" "proportional_part a (dec 0) w = 0" for a t w
    by (simp_all add: proportional_part_def dmul_def ddiv_def dec_def)
  have "sum_list bases = 0 \<Longrightarrow> money d = 0" using allocate_discount_Inr(2,3)[OF assms] by simp
  then show ?thesis
    using assms
    by (auto simp: allocate_discount_def Let_def allocate_butlast zero map_butlast[symmetric]
        split: if_splits)
qed

text \<open>A line whose share is its whole base is accepted and costs nothing.\<close>

lemma second_pass_full:
  assumes "first_pass_line b l = Inr i"
  shows "\<exists>parts. second_pass_line b ((l, i), lp_base_before i) = Inr (l, parts)
    \<and> lp_base parts = 0 \<and> lp_tax parts = 0 \<and> lp_total parts = 0"
proof -
  note c = compute_line_Inr[OF assms[unfolded first_pass_line_def]]
  have rate: "resolve_tax_rate (Some b) (cl_product l) (Some (lp_rate i)) = lp_rate i"
    using c(1) by (simp add: resolve_tax_rate_def)
  have before: "lp_base_before i = base_before_discount
      (gross_amount (cl_quantity l) (money (cl_unit_price l)) (money (cl_discount l))) (lp_rate i)
      (price_includes_tax (Some b) (cl_product l) (Some (prices_include_tax (settings b))))"
    by (rule c(5))
  have pos: "0 \<le> lp_base_before i" using c(8,9) by linarith
  have no_tax: "line_tax 0 r = 0" for r
    by (simp add: line_tax_def dmul_def ddiv_def dec_def)
  show ?thesis
    using c(6) pos
    by (simp add: second_pass_line_def compute_line_def Let_def rate before[symmetric] result_simps
        no_tax not_less)
qed

lemma second_pass_all_full:
  assumes "list_all2 (\<lambda>l i. first_pass_line b l = Inr i) items firsts"
  shows "\<exists>computed. emap (second_pass_line b) (zip (zip items firsts) (map lp_base_before firsts)) = Inr computed
    \<and> (\<forall>x \<in> set computed. lp_tax (snd x) = 0 \<and> lp_total (snd x) = 0)"
  using assms
proof (induction rule: list_all2_induct)
  case (Cons l ls i js)
  from second_pass_full[OF Cons.hyps(1)] obtain parts where
    "second_pass_line b ((l, i), lp_base_before i) = Inr (l, parts)" "lp_tax parts = 0" "lp_total parts = 0"
    by blast
  with Cons.IH show ?case by (auto simp: result_simps)
qed simp

lemma full_part: "0 < tot \<Longrightarrow> tot * tot < 10 ^ 25 \<Longrightarrow> 0 \<le> w \<Longrightarrow> w \<le> tot \<Longrightarrow> proportional_part tot (dec tot) (dec w) = w"
proof -
  assume a: "0 < tot" "tot * tot < 10 ^ 25" "0 \<le> w" "w \<le> tot"
  have nonneg: "0 \<le> tot * w" using a by simp
  have "tot * w \<le> tot * tot" by (rule mult_left_mono) (use a in simp_all)
  then have "\<bar>tot * w\<bar> < 10 ^ 25" using a(2) by (simp only: abs_of_nonneg[OF nonneg])
  then have "\<bar>tot * w\<bar> < 10 ^ 28" by (rule less_trans) simp
  then have "dmul (dec tot) (dec w) = of_int (tot * w) / 10 ^ 6" by (rule dmul_milli)
  also have "\<dots> / dec tot = dec w" using a(1) by (simp add: dec_def)
  finally have q: "dmul (dec tot) (dec w) / dec tot = dec w" .
  have "w \<le> tot * tot" using a by (simp add: order_trans[of w tot])
  then have "\<bar>w\<bar> < 10 ^ 25" using a(2) by (simp only: abs_of_nonneg[OF a(3)])
  then have "\<bar>w\<bar> < 10 ^ 28" by (rule less_trans) simp
  then have "ctx28 (dec w) = dec w" by (rule ctx28_milli)
  then show ?thesis by (simp add: proportional_part_def ddiv_def q)
qed

lemma allocate_full:
  "\<forall>w \<in> set ws. part w = w \<Longrightarrow> allocated + sum_list ws = amount \<Longrightarrow> allocate part amount allocated ws = ws"
  by (induction part amount allocated ws rule: allocate.induct) auto

section \<open>Laws of the payments\<close>

definition paid_with :: "('m \<Rightarrow> method_kind) \<Rightarrow> method_kind \<Rightarrow> 'm payment_input list \<Rightarrow> milli" where
  "paid_with kind k ps = (\<Sum>p \<leftarrow> filter (\<lambda>p. kind (pi_method p) = k) ps. money (pi_amount p))"

definition clean_payment_of :: "'m payment_input \<Rightarrow> 'm clean_payment" where
  "clean_payment_of p =
     \<lparr>cp_method = pi_method p, cp_amount = money (pi_amount p), cp_reference = pi_reference p\<rparr>"

lemma add_payments_exact:
  "add_payments kind ps clean t =
     (if list_ex (\<lambda>p. money (pi_amount p) \<le> 0) ps
      then Inl (CalculationError ''Payment amounts must be positive.'')
      else Inr (clean @ map clean_payment_of ps,
        \<lparr>pay_total = pay_total t + (\<Sum>p \<leftarrow> ps. money (pi_amount p)),
         credit_amount = credit_amount t + paid_with kind CUSTOMER_CREDIT ps,
         store_credit_amount = store_credit_amount t + paid_with kind STORE_CREDIT ps,
         cash_tendered = cash_tendered t + paid_with kind CASH ps\<rparr>))"
  by (induction kind ps clean t rule: add_payments.induct)
    (auto simp: Let_def paid_with_def clean_payment_of_def)

section \<open>Properties\<close>

text \<open>C28: a calculated sale keeps the lines of the cart in their order; what is charged before
  display rounding is the subtotal less the invoice discount plus the tax, and the rounding row is
  exactly what the rounding added; the shares of the invoice discount sum to it; and each line has
  a share between zero and its base, no negative tax, and a total of base and tax.\<close>

theorem sale_totals_identity:
  assumes "calculate_sale_totals b items d precision = Inr t"
  shows "map fst (st_lines t) = items
    \<and> st_raw_total t = st_subtotal t - st_invoice_discount t + st_tax_total t
    \<and> st_total t = st_raw_total t + st_rounding t
    \<and> 0 \<le> st_invoice_discount t \<and> st_invoice_discount t \<le> st_subtotal t
    \<and> (\<Sum>x \<leftarrow> st_lines t. lp_share (snd x)) = st_invoice_discount t
    \<and> (\<forall>x \<in> set (st_lines t). 0 \<le> lp_share (snd x) \<and> lp_share (snd x) \<le> lp_base_before (snd x)
        \<and> lp_base (snd x) = lp_base_before (snd x) - lp_share (snd x) \<and> 0 \<le> lp_tax (snd x)
        \<and> lp_total (snd x) = lp_base (snd x) + lp_tax (snd x))"
proof -
  from assms obtain firsts shares where e:
    "list_all2 (\<lambda>l i. first_pass_line b l = Inr i) items firsts"
    "allocate_discount (map lp_base_before firsts) d = Inr shares"
    "emap (second_pass_line b) (zip (zip items firsts) shares) = Inr (st_lines t)"
    "st_subtotal t = sum_list (map lp_base_before firsts)" "st_invoice_discount t = money d"
    "st_tax_total t = (\<Sum>x \<leftarrow> st_lines t. lp_tax (snd x))"
    "st_raw_total t = (\<Sum>x \<leftarrow> st_lines t. lp_total (snd x))"
    "st_total t = round_total b precision (st_raw_total t)"
    "st_rounding t = st_total t - st_raw_total t"
    by (rule calculate_sale_totals_Inr)
  note a = allocate_discount_Inr[OF e(2)]
  have len: "length shares = length items" using a(1) list_all2_lengthD[OF e(1)] by simp
  note lines = second_pass_lines[OF e(1) len e(3)] and cols = second_pass_columns[OF e(1) len e(3)]
  show ?thesis
    using lines(2,4) shares_sum[OF e(2)] a(2,3) e(4-9)
    by (intro conjI lines(3)) (simp_all add: cols(1))
qed

text \<open>The invoice discount is spread in proportion: every line but the last bears the rounded
  part of the discount that its base has in the subtotal.\<close>

lemma invoice_discount_proportional:
  assumes "calculate_sale_totals b items d precision = Inr t"
  shows "\<forall>x \<in> set (butlast (st_lines t)).
    lp_share (snd x) = proportional_part (st_invoice_discount t) (dec (st_subtotal t)) (dec (lp_base_before (snd x)))"
proof -
  from assms obtain firsts shares where e:
    "list_all2 (\<lambda>l i. first_pass_line b l = Inr i) items firsts"
    "allocate_discount (map lp_base_before firsts) d = Inr shares"
    "emap (second_pass_line b) (zip (zip items firsts) shares) = Inr (st_lines t)"
    "st_subtotal t = sum_list (map lp_base_before firsts)" "st_invoice_discount t = money d"
    by (rule calculate_sale_totals_Inr)
  have len: "length shares = length items"
    using allocate_discount_Inr(1)[OF e(2)] list_all2_lengthD[OF e(1)] by simp
  note cols = second_pass_columns[OF e(1) len e(3)]
  have "map (\<lambda>x. lp_share (snd x)) (butlast (st_lines t))
    = map (\<lambda>x. proportional_part (st_invoice_discount t) (dec (st_subtotal t)) (dec (lp_base_before (snd x))))
        (butlast (st_lines t))"
    using allocate_discount_parts[OF e(2)]
    unfolding cols(1)[symmetric] cols(2)[symmetric] e(4,5) by (simp add: map_butlast[symmetric] comp_def)
  then show ?thesis by simp
qed

text \<open>An invoice discount of the whole subtotal is accepted, whatever the lines are, and leaves
  nothing to pay: no line is charged and no tax is due.\<close>

lemma full_discount_free:
  assumes "emap (first_pass_line b) items = Inr firsts"
    and "d = dec (\<Sum>x \<leftarrow> firsts. lp_base_before x)"
    and "(\<Sum>x \<leftarrow> firsts. lp_base_before x) < 10 ^ 12"
  shows "\<exists>t. calculate_sale_totals b items d precision = Inr t
    \<and> st_raw_total t = 0 \<and> st_tax_total t = 0 \<and> (\<forall>x \<in> set (st_lines t). lp_total (snd x) = 0)"
proof -
  let ?bases = "map lp_base_before firsts"
  let ?tot = "sum_list ?bases"
  note firsts = emap_list_all2[OF assms(1)]
  have nonneg: "\<forall>x \<in> set ?bases. 0 \<le> x"
    using firsts by (induction rule: list_all2_induct) (auto dest: first_pass_nonneg)
  have le: "x \<le> ?tot" if "x \<in> set ?bases" for x
    using nonneg that by (intro member_le_sum_list) auto
  have pos: "0 \<le> ?tot" using nonneg by (intro sum_list_nonneg) auto
  have sq: "?tot * ?tot < 10 ^ 25"
    using pos assms(3) mult_strict_mono'[of ?tot "10 ^ 12" ?tot "10 ^ 12"] by simp
  have zero: "?tot = 0 \<Longrightarrow> map (\<lambda>_. 0) ?bases = ?bases"
    using nonneg sum_list_nonneg_eq_0_iff[of ?bases] by (auto intro!: map_idI)
  have "allocate_discount ?bases d = Inr ?bases"
    using pos nonneg le zero
    by (auto simp: allocate_discount_def Let_def assms(2) intro!: allocate_full full_part[OF _ sq])
  moreover obtain computed where "emap (second_pass_line b) (zip (zip items firsts) ?bases) = Inr computed"
    "\<forall>x \<in> set computed. lp_tax (snd x) = 0 \<and> lp_total (snd x) = 0"
    using second_pass_all_full[OF firsts] by blast
  moreover from this(2) have "(\<Sum>x \<leftarrow> computed. lp_total (snd x)) = 0" "(\<Sum>x \<leftarrow> computed. lp_tax (snd x)) = 0"
    by (induction computed) simp_all
  ultimately show ?thesis
    using assms(1) by (simp add: calculate_sale_totals_def Let_def result_simps)
qed

text \<open>When the price includes the tax, the customer pays the marked amount: base and tax of a
  line without invoice discount sum to the amount after its own discount, within one thousandth.\<close>

lemma inclusive_price_kept:
  assumes "compute_line p quantity unit_price discount business inclusive tax_rate 0 = Inr parts"
    and "price_includes_tax business p inclusive"
    and "lp_rate parts = dec rm" and "0 < rm" and "rm \<le> 100000"
    and "gross_amount quantity (money unit_price) (money discount) \<le> 10 ^ 15"
  shows "\<bar>lp_total parts - gross_amount quantity (money unit_price) (money discount)\<bar> \<le> 1"
proof -
  note c = compute_line_Inr[OF assms(1)]
  have "lp_base parts = base_before_discount (gross_amount quantity (money unit_price) (money discount)) (dec rm) True"
    using c(2,5,7) assms(2,3) by simp
  then show ?thesis
    using inclusive_total_error[OF assms(4,5) c(6) assms(6)] c(10,11) assms(3) by simp
qed

text \<open>C35: payments are taken all or none: one amount that is not positive rejects them; otherwise
  each is kept in order with its rounded amount, the total is the sum of all, and the credit, store
  credit and cash figures are the sums over the payments of that kind.\<close>

theorem payment_totals_exact:
  "calculate_payment_totals ps kind =
     (if list_ex (\<lambda>p. money (pi_amount p) \<le> 0) ps
      then Inl (CalculationError ''Payment amounts must be positive.'')
      else Inr (map clean_payment_of ps,
        \<lparr>pay_total = \<Sum>p \<leftarrow> ps. money (pi_amount p),
         credit_amount = paid_with kind CUSTOMER_CREDIT ps,
         store_credit_amount = paid_with kind STORE_CREDIT ps,
         cash_tendered = paid_with kind CASH ps\<rparr>))"
  by (simp add: calculate_payment_totals_def add_payments_exact)

section \<open>Witnesses\<close>

definition sample_item :: product where
  "sample_item = \<lparr>prod_id = 10, prod_business = 1, prod_name = ''Cloth'', prod_sku = ''C1'',
     prod_barcode = [], prod_unit = None, prod_type = STANDARD, prod_purchase_price = 1500,
     prod_sale_price = 4000, prod_minimum_price = 0, prod_average_cost = 1500, prod_tax = None,
     prod_includes_tax = None, reorder_level = 3000, track_inventory = True, allow_discount = True,
     is_tailoring_item = False, estimated_adult_fabric = None, estimated_child_fabric = None,
     prod_active = True, prod_archived = False\<rparr>"

definition sample_cart_line :: "rat \<Rightarrow> rat \<Rightarrow> cart_line" where
  "sample_cart_line q price =
     \<lparr>cl_product = sample_item, cl_variant = None, cl_quantity = q, cl_unit_price = price, cl_discount = 0\<rparr>"

definition sample_cart :: "cart_line list" where
  "sample_cart = [sample_cart_line 2 4, sample_cart_line 1 3]"

text \<open>The parts of the sample lines at 5% tax, with a share of the invoice discount.\<close>

definition sample_parts :: "rat \<Rightarrow> milli \<Rightarrow> milli \<Rightarrow> milli \<Rightarrow> milli \<Rightarrow> line_parts" where
  "sample_parts q price before share tax =
     \<lparr>lp_quantity = q, lp_unit_price = price, lp_discount = 0, lp_share = share, lp_rate = 5,
      lp_base_before = before, lp_base = before - share, lp_tax = tax, lp_total = before - share + tax\<rparr>"

lemma sample_parts_fields [simp]:
  "lp_discount (sample_parts q price before share tax) = 0"
  "lp_base_before (sample_parts q price before share tax) = before"
  "lp_tax (sample_parts q price before share tax) = tax"
  "lp_total (sample_parts q price before share tax) = before - share + tax"
  by (simp_all add: sample_parts_def)

lemma sample_first:
  "first_pass_line sample_business (sample_cart_line 2 4) = Inr (sample_parts 2 4000 8000 0 400)"
  "first_pass_line sample_business (sample_cart_line 1 3) = Inr (sample_parts 1 3000 3000 0 150)"
  by code_simp+

lemma sample_shares: "allocate_discount [8000, 3000] 1 = Inr [727, 273]"
proof -
  have "proportional_part 1000 (dec 11000) (dec 8000) = 727" by code_simp
  then show ?thesis using money_dec[of 1000] by (simp add: allocate_discount_def dec_def)
qed

lemma sample_second:
  "second_pass_line sample_business ((sample_cart_line 2 4, sample_parts 2 4000 8000 0 400), 727)
    = Inr (sample_cart_line 2 4, sample_parts 2 4000 8000 727 364)"
  "second_pass_line sample_business ((sample_cart_line 1 3, sample_parts 1 3000 3000 0 150), 273)
    = Inr (sample_cart_line 1 3, sample_parts 1 3000 3000 273 136)"
  by code_simp+

lemma sample_round: "round_total sample_business None 10500 = 10500"
  by code_simp

definition sample_totals :: sale_totals where
  "sample_totals =
     \<lparr>st_lines = [(sample_cart_line 2 4, sample_parts 2 4000 8000 727 364),
        (sample_cart_line 1 3, sample_parts 1 3000 3000 273 136)],
      st_subtotal = 11000, st_line_discounts = 0, st_invoice_discount = 1000, st_discount_total = 1000,
      st_tax_total = 500, st_raw_total = 10500, st_total = 10500, st_rounding = 0\<rparr>"

lemma sample_totals_eq: "calculate_sale_totals sample_business sample_cart 1 None = Inr sample_totals"
  using money_dec[of 1000] sample_round
  by (simp add: calculate_sale_totals_def sample_cart_def sample_first sample_second sample_shares
      sample_totals_def result_simps Let_def dec_def)

theorem sale_totals_identity_witness:
  "st_raw_total sample_totals = st_subtotal sample_totals - st_invoice_discount sample_totals + st_tax_total sample_totals
    \<and> st_subtotal sample_totals = 11000 \<and> st_total sample_totals = 10500"
  using sale_totals_identity[OF sample_totals_eq] by (simp add: sample_totals_def)

lemma invoice_discount_proportional_witness:
  "lp_share (snd (hd (st_lines sample_totals))) = proportional_part 1000 (dec 11000) (dec 8000)"
  using invoice_discount_proportional[OF sample_totals_eq] by (simp add: sample_totals_def sample_parts_def)

lemma sample_firsts:
  "emap (first_pass_line sample_business) sample_cart
    = Inr [sample_parts 2 4000 8000 0 400, sample_parts 1 3000 3000 0 150]"
  by (simp add: sample_cart_def sample_first result_simps)

lemma full_discount_free_witness:
  "\<exists>t. calculate_sale_totals sample_business sample_cart 11 None = Inr t
    \<and> st_raw_total t = 0 \<and> st_tax_total t = 0 \<and> list_all (\<lambda>x. lp_total (snd x) = 0) (st_lines t)"
  unfolding list_all_iff by (rule full_discount_free[OF sample_firsts]) (simp_all add: dec_def)

lemma inclusive_price_kept_witness:
  "\<exists>parts. compute_line sample_item 3 (39 / 4) 0 (Some sample_business) (Some True) None 0 = Inr parts
    \<and> \<bar>lp_total parts - 29250\<bar> \<le> 1"
proof -
  let ?parts = "\<lparr>lp_quantity = 3, lp_unit_price = 9750, lp_discount = 0, lp_share = 0, lp_rate = 5,
    lp_base_before = 27857, lp_base = 27857, lp_tax = 1393, lp_total = 29250\<rparr>"
  have parts: "compute_line sample_item 3 (39 / 4) 0 (Some sample_business) (Some True) None 0 = Inr ?parts"
    by code_simp
  have g: "gross_amount 3 (money (39 / 4)) (money 0) = 29250" by code_simp
  have "\<bar>lp_total ?parts - gross_amount 3 (money (39 / 4)) (money 0)\<bar> \<le> 1"
    by (rule inclusive_price_kept[OF parts, of 5000])
      (simp_all add: g[simplified] dec_def price_includes_tax_def sample_item_def is_meter_tailoring_def)
  then show ?thesis using parts g by auto
qed

lemma small_discount_first:
  "first_pass_line sample_business (sample_cart_line 1 4) = Inr (sample_parts 1 4000 4000 0 200)"
  by code_simp

lemma small_discount_shares:
  "allocate_discount [4000, 4000, 4000, 4000] (2 / 1000) = Inr [1, 1, 1, - 1]"
proof -
  have "proportional_part 2 (dec 16000) (dec 4000) = 1" by code_simp
  then show ?thesis using money_dec[of 2] by (simp add: allocate_discount_def dec_def)
qed

lemma small_discount_second:
  "second_pass_line sample_business ((sample_cart_line 1 4, sample_parts 1 4000 4000 0 200), 1)
    = Inr (sample_cart_line 1 4, sample_parts 1 4000 4000 1 200)"
  "second_pass_line sample_business ((sample_cart_line 1 4, sample_parts 1 4000 4000 0 200), - 1)
    = Inl (CalculationError ''Invoice discount cannot be negative.'')"
  by code_simp+

text \<open>Rounding every share half up can overshoot: four equal lines and a discount of two thousandths
  get the shares 1, 1, 1 and -1, and the last one is refused.\<close>

lemma small_discount_refused:
  "calculate_sale_totals sample_business (replicate 4 (sample_cart_line 1 4)) (2 / 1000) None
    = Inl (CalculationError ''Invoice discount cannot be negative.'')"
proof -
  have four: "replicate 4 x = [x, x, x, x]" for x :: 'a by (simp add: numeral_eq_Suc)
  show ?thesis
    unfolding calculate_sale_totals_def four
    by (simp add: small_discount_first small_discount_shares[simplified] small_discount_second
        result_simps del: replicate.simps)
qed

end
