(* ===== verification/Stock_Ledger.thy ===== *)
theory Stock_Ledger
  imports Catalog Access
begin

text \<open>
  \<^verbatim>\<open>apps/inventory/services.py\<close>: the only way stock changes.  \<open>record_movement\<close> appends an
  immutable ledger row and updates the cached level in one transaction, under the negative-stock
  policy, and keeps the moving-average cost.  The movement it returns is the last row of
  \<open>movements\<close>.  A low-stock notification is a row with the product it refers to (the text
  \<^verbatim>\<open>#pk#\<close> that the code searches in the body) and its recipient; other texts are not modelled.
  Row locks have no effect on a single transaction and are not modelled.
\<close>

section \<open>Tables\<close>

record stock_level =
  lv_id :: id
  lv_business :: id
  lv_warehouse :: id
  lv_product :: id
  lv_variant :: "id option"
  lv_quantity :: milli

datatype movement_type =
    OPENING | PURCHASE | SALE | SALE_RETURN | PURCHASE_RETURN | TRANSFER_OUT | TRANSFER_IN
  | ADJUST_IN | ADJUST_OUT | DAMAGE | WASTAGE | INTERNAL | COUNT

record stock_movement =
  mv_business :: id
  mv_warehouse :: id
  mv_product :: id
  mv_variant :: "id option"
  mv_type :: movement_type
  mv_quantity :: milli
  mv_unit_cost :: milli
  mv_balance_after :: milli
  mv_reference_type :: string
  mv_reference_id :: string
  mv_user :: "id option"
  mv_notes :: string

record notification =
  nt_business :: id
  nt_recipient :: id
  nt_category :: string
  nt_product :: "id option"
  nt_read :: bool

record audit_row =
  au_action :: string
  au_module :: string
  au_description :: string

record stock_db = core_db +
  settings_rows :: "(id \<times> business_settings) list"
  products :: "product list"
  variants :: "variant list"
  levels :: "stock_level list"
  movements :: "stock_movement list"
  notifications :: "notification list"
  audit_log :: "audit_row list"

section \<open>Reading stock\<close>

definition level_at :: "'a stock_db_scheme \<Rightarrow> id \<Rightarrow> id \<Rightarrow> id \<Rightarrow> id option \<Rightarrow> stock_level option" where
  "level_at db b w p v =
     find (\<lambda>l. lv_business l = b \<and> lv_warehouse l = w \<and> lv_product l = p \<and> lv_variant l = v) (levels db)"

definition get_stock :: "'a stock_db_scheme \<Rightarrow> id \<Rightarrow> id \<Rightarrow> id \<Rightarrow> id option \<Rightarrow> milli" where
  "get_stock db b w p v = (case level_at db b w p v of Some l \<Rightarrow> lv_quantity l | None \<Rightarrow> 0)"

definition total_stock :: "'a stock_db_scheme \<Rightarrow> id \<Rightarrow> id \<Rightarrow> id option \<Rightarrow> milli" where
  "total_stock db b p v =
     (\<Sum>l \<leftarrow> filter (\<lambda>l. lv_business l = b \<and> lv_product l = p \<and> lv_variant l = v) (levels db). lv_quantity l)"

definition configured_shared_fabric_warehouse :: "'a stock_db_scheme \<Rightarrow> id \<Rightarrow> warehouse option" where
  "configured_shared_fabric_warehouse db b =
     (case Option.bind (map_of (settings_rows db) b) shared_fabric_warehouse_id of
        None \<Rightarrow> None
      | Some wid \<Rightarrow>
          find (\<lambda>w. wh_business w = b \<and> wh_id w = wid \<and> wh_active w
            \<and> (case wh_branch w of
                 None \<Rightarrow> False
               | Some brid \<Rightarrow> (case row_by br_id brid (branches db) of
                   None \<Rightarrow> False
                 | Some br \<Rightarrow> br_business br = b \<and> br_active br \<and> br_usage br = WORKSHOP_STOCK)))
            (warehouses db))"

definition stock_warehouse_for_sale_product ::
    "'a stock_db_scheme \<Rightarrow> id \<Rightarrow> warehouse \<Rightarrow> product \<Rightarrow> err + warehouse" where
  "stock_warehouse_for_sale_product db b sale_warehouse p =
     (if \<not> is_meter_tailoring p then Inr sale_warehouse
      else case configured_shared_fabric_warehouse db b of
        Some w \<Rightarrow> Inr w
      | None \<Rightarrow>
          (case Option.bind (map_of (settings_rows db) b) shared_fabric_warehouse_id of
             Some _ \<Rightarrow> Inl (ValidationError ''The configured Shared Fabric Location is unavailable.'')
           | None \<Rightarrow> Inr sale_warehouse))"

section \<open>Authorization of stock operations\<close>

definition require_inventory_write ::
    "(string list \<Rightarrow> string list) \<Rightarrow> 'a stock_db_scheme \<Rightarrow> business \<Rightarrow> user option \<Rightarrow> string \<Rightarrow>
     membership option \<Rightarrow> warehouse option list \<Rightarrow> id option list \<Rightarrow> err + access_context" where
  "require_inventory_write ord db business user perm membership whs tenant_objects =
     ebind (require_actor_access ord db user (Some business) ''inventory'' (Some perm) WRITE membership True)
       (\<lambda>c. let ids = (case ctx_membership c of Some m \<Rightarrow> allowed_warehouse_ids db m | None \<Rightarrow> Some []);
              warehouse_scope = list_all (\<lambda>w. case w of None \<Rightarrow> True | Some x \<Rightarrow>
                  wh_business x = biz_id business
                  \<and> (case ids of None \<Rightarrow> True | Some is \<Rightarrow> wh_id x \<in> set is)) whs;
              tenant_scope = list_all (\<lambda>t. case t of None \<Rightarrow> True | Some b \<Rightarrow> b = biz_id business)
                tenant_objects
          in if warehouse_scope \<and> tenant_scope then Inr c
             else ebind (require_actor_access ord db user (Some business) ''inventory'' (Some perm)
                          WRITE (ctx_membership c) False) (\<lambda>_. Inr c))"

definition require_tailoring_product_write ::
    "(string list \<Rightarrow> string list) \<Rightarrow> 'a stock_db_scheme \<Rightarrow> access_context \<Rightarrow> business \<Rightarrow> user option \<Rightarrow>
     product \<Rightarrow> string \<Rightarrow> err + unit" where
  "require_tailoring_product_write ord db c business user p perm =
     (if is_tailoring_item p \<and> \<not> has_module c ''tailoring''
      then ebind (require_actor_access ord db user (Some business) ''tailoring'' (Some perm) WRITE
                   (ctx_membership c) True) (\<lambda>_. Inr ())
      else Inr ())"

section \<open>Side effects of a movement\<close>

definition has_unread_alert :: "'a stock_db_scheme \<Rightarrow> id \<Rightarrow> id \<Rightarrow> bool" where
  "has_unread_alert db b p =
     list_ex (\<lambda>n. nt_business n = b \<and> nt_category n = ''low_stock'' \<and> \<not> nt_read n
        \<and> nt_product n = Some p) (notifications db)"

definition role_members :: "'a core_db_scheme \<Rightarrow> id \<Rightarrow> string \<Rightarrow> id list" where
  "role_members db b perm =
     map mem_user (filter (\<lambda>m. mem_business m = b \<and> mem_active m \<and> has_perm m perm) (memberships db))"

definition low_stock_alert :: "business \<Rightarrow> id \<Rightarrow> 'a stock_db_scheme \<Rightarrow> 'a stock_db_scheme" where
  "low_stock_alert business p db =
     (if has_unread_alert db (biz_id business) p \<or> \<not> notify_low_stock (settings business) then db
      else db\<lparr>notifications := notifications db @
        map (\<lambda>u. \<lparr>nt_business = biz_id business, nt_recipient = u, nt_category = ''low_stock'',
                   nt_product = Some p, nt_read = False\<rparr>)
          (role_members db (biz_id business) ''inventory.view'')\<rparr>)"

definition moving_average :: "milli \<Rightarrow> milli \<Rightarrow> milli \<Rightarrow> rat \<Rightarrow> milli" where
  "moving_average tot old_cost in_qty in_cost =
     (let existing = (if tot - in_qty < 0 then 0 else tot - in_qty);
          denom = existing + in_qty
      in money (if denom \<le> 0 then in_cost
                else ddiv (dadd (dmul (dec existing) (dec old_cost)) (dmul (dec in_qty) in_cost))
                       (dec denom)))"

definition update_average_cost ::
    "id \<Rightarrow> product \<Rightarrow> variant option \<Rightarrow> milli \<Rightarrow> rat \<Rightarrow> 'a stock_db_scheme \<Rightarrow> 'a stock_db_scheme" where
  "update_average_cost b p v in_qty in_cost db =
     (let tot = total_stock db b (prod_id p) (map_option var_id v);
          avg = moving_average tot (item_average_cost p v) in_qty in_cost
      in case v of
           None \<Rightarrow> db\<lparr>products := save_row prod_id (p\<lparr>prod_average_cost := avg\<rparr>) (products db)\<rparr>
         | Some x \<Rightarrow> db\<lparr>variants := save_row var_id (x\<lparr>var_average_cost := avg\<rparr>) (variants db)\<rparr>)"

section \<open>The ledger operation\<close>

definition meter_repair_types :: "movement_type set" where
  "meter_repair_types = {ADJUST_IN, ADJUST_OUT, COUNT, DAMAGE, WASTAGE, INTERNAL}"

text \<open>\<open>get_or_create\<close> of the level, then the update of its quantity.\<close>

definition set_level :: "id \<Rightarrow> id \<Rightarrow> id \<Rightarrow> id option \<Rightarrow> milli \<Rightarrow> stock_level list \<Rightarrow> stock_level list" where
  "set_level b w p v q ls =
     (case find (\<lambda>l. lv_business l = b \<and> lv_warehouse l = w \<and> lv_product l = p \<and> lv_variant l = v) ls of
        Some l \<Rightarrow> save_row lv_id (l\<lparr>lv_quantity := q\<rparr>) ls
      | None \<Rightarrow> ls @ [\<lparr>lv_id = next_pk lv_id ls, lv_business = b, lv_warehouse = w, lv_product = p,
                     lv_variant = v, lv_quantity = q\<rparr>])"

record movement_args =
  ma_type :: movement_type
  ma_quantity :: rat
  ma_unit_cost :: rat
  ma_reference_type :: string
  ma_reference_id :: string
  ma_user :: "id option"
  ma_notes :: string
  ma_enforce :: bool

text \<open>The refreshed product and variant of a movement.\<close>

definition locked_product :: "'a stock_db_scheme \<Rightarrow> id \<Rightarrow> id \<Rightarrow> err + product" where
  "locked_product db b pid =
     (case find (\<lambda>p. prod_id p = pid \<and> prod_business p = b) (products db) of
        Some p \<Rightarrow> Inr p
      | None \<Rightarrow> Inl DoesNotExist)"

definition find_variant :: "'a stock_db_scheme \<Rightarrow> id \<Rightarrow> id \<Rightarrow> id \<Rightarrow> variant option" where
  "find_variant db b pid vid =
     find (\<lambda>v. var_id v = vid \<and> var_business v = b \<and> var_product v = pid) (variants db)"

definition locked_variant :: "'a stock_db_scheme \<Rightarrow> id \<Rightarrow> id \<Rightarrow> variant option \<Rightarrow> err + variant option" where
  "locked_variant db b pid v =
     (case v of
        None \<Rightarrow> Inr None
      | Some x \<Rightarrow> (case find_variant db b pid (var_id x) of
          Some y \<Rightarrow> Inr (Some y)
        | None \<Rightarrow> Inl (ValidationError ''Variant does not belong to product.'')))"

definition movement_refused ::
    "business \<Rightarrow> product \<Rightarrow> variant option \<Rightarrow> movement_args \<Rightarrow> milli \<Rightarrow> milli \<Rightarrow> err option" where
  "movement_refused business p v a available q =
     (let new_quantity = available + q in
      if is_meter_tailoring p \<and> has_variants p \<and> v = None
         \<and> \<not> (available \<noteq> 0 \<and> new_quantity = 0 \<and> ma_type a \<in> meter_repair_types)
      then Some (ValidationError (''Select a variant/color for '' @ prod_name p
             @ ''. A legacy parent balance may only be corrected exactly to zero.''))
      else if q < 0 \<and> new_quantity < 0 \<and> ma_enforce a \<and> ma_type a \<noteq> COUNT
        \<and> negative_stock_policy (settings business) = BLOCK
      then Some (InsufficientStock available (- q))
      else None)"

text \<open>The part of \<open>record_movement\<close> behind its checks: level, ledger row, average cost, alert.\<close>

definition movement_row ::
    "business \<Rightarrow> warehouse \<Rightarrow> product \<Rightarrow> variant option \<Rightarrow> movement_args \<Rightarrow> milli \<Rightarrow> milli \<Rightarrow> stock_movement"
where
  "movement_row business w p v a q new_quantity =
     \<lparr>mv_business = biz_id business, mv_warehouse = wh_id w, mv_product = prod_id p,
      mv_variant = map_option var_id v, mv_type = ma_type a, mv_quantity = q,
      mv_unit_cost = money (ma_unit_cost a), mv_balance_after = new_quantity,
      mv_reference_type = ma_reference_type a, mv_reference_id = take 60 (ma_reference_id a),
      mv_user = ma_user a, mv_notes = take 300 (ma_notes a)\<rparr>"

definition write_movement ::
    "business \<Rightarrow> warehouse \<Rightarrow> product \<Rightarrow> variant option \<Rightarrow> movement_args \<Rightarrow> milli \<Rightarrow> milli \<Rightarrow>
     'a stock_db_scheme \<Rightarrow> 'a stock_db_scheme" where
  "write_movement business w p v a q new_quantity db =
     (let b = biz_id business;
          vid = map_option var_id v;
          db1 = db\<lparr>levels := set_level b (wh_id w) (prod_id p) vid new_quantity (levels db),
                   movements := movements db @ [movement_row business w p v a q new_quantity]\<rparr>;
          db2 = (if (ma_type a = OPENING \<or> ma_type a = PURCHASE) \<and> 0 < q \<and> ma_unit_cost a \<noteq> 0
                 then update_average_cost b p v q (ma_unit_cost a) db1 else db1)
      in if q < 0 \<and> 0 < reorder_level p \<and> total_stock db2 b (prod_id p) vid \<le> reorder_level p
         then low_stock_alert business (prod_id p) db2 else db2)"

definition record_movement ::
    "business \<Rightarrow> warehouse \<Rightarrow> product \<Rightarrow> variant option \<Rightarrow> movement_args \<Rightarrow> 'a stock_db_scheme \<Rightarrow>
     err + 'a stock_db_scheme" where
  "record_movement business w product variant a db =
     (let q = qty (ma_quantity a); b = biz_id business in
      if q = 0 then Inl (ValidationError ''Stock movement quantity cannot be zero.'')
      else if wh_business w \<noteq> b \<or> prod_business product \<noteq> b
      then Inl (ValidationError ''Cross-tenant stock movement blocked.'')
      else ebind (locked_product db b (prod_id product)) (\<lambda>p.
        ebind (locked_variant db b (prod_id p) variant) (\<lambda>v.
          let available = get_stock db b (wh_id w) (prod_id p) (map_option var_id v)
          in case movement_refused business p v a available q of
               Some e \<Rightarrow> Inl e
             | None \<Rightarrow> Inr (write_movement business w p v a q (available + q) db))))"

definition set_opening_stock ::
    "(string list \<Rightarrow> string list) \<Rightarrow> business \<Rightarrow> warehouse \<Rightarrow> product \<Rightarrow> variant option \<Rightarrow> rat \<Rightarrow> rat \<Rightarrow>
     user option \<Rightarrow> membership option \<Rightarrow> 'a stock_db_scheme \<Rightarrow> err + 'a stock_db_scheme" where
  "set_opening_stock ord business w product variant quantity unit_cost user membership db =
     ebind (require_inventory_write ord db business user ''inventory.adjust'' membership [Some w]
             [Some (prod_business product), map_option var_business variant]) (\<lambda>c.
       ebind (locked_product db (biz_id business) (prod_id product)) (\<lambda>p.
         ebind (case variant of
                  None \<Rightarrow> Inr None
                | Some x \<Rightarrow> (case find_variant db (biz_id business) (prod_id p) (var_id x) of
                    Some y \<Rightarrow> Inr (Some y) | None \<Rightarrow> Inl DoesNotExist)) (\<lambda>v.
           ebind (require_tailoring_product_write ord db c business user p ''inventory.adjust'') (\<lambda>_.
             record_movement business w p v
               \<lparr>ma_type = OPENING, ma_quantity = quantity, ma_unit_cost = unit_cost,
                ma_reference_type = ''Opening'', ma_reference_id = [], ma_user = upk user,
                ma_notes = [], ma_enforce = True\<rparr> db))))"

section \<open>Levels and ledger as functions of a key\<close>

type_synonym stock_key = "id \<times> id \<times> id \<times> id option"

definition lv_key :: "stock_level \<Rightarrow> stock_key" where
  "lv_key l = (lv_business l, lv_warehouse l, lv_product l, lv_variant l)"

definition mv_key :: "stock_movement \<Rightarrow> stock_key" where
  "mv_key m = (mv_business m, mv_warehouse m, mv_product m, mv_variant m)"

definition quantity_at :: "stock_level list \<Rightarrow> stock_key \<Rightarrow> milli" where
  "quantity_at ls k = (case find (\<lambda>l. lv_key l = k) ls of Some l \<Rightarrow> lv_quantity l | None \<Rightarrow> 0)"

definition level_sum :: "(stock_key \<Rightarrow> bool) \<Rightarrow> stock_level list \<Rightarrow> milli" where
  "level_sum P ls = (\<Sum>l \<leftarrow> filter (\<lambda>l. P (lv_key l)) ls. lv_quantity l)"

definition ledger_sum :: "stock_movement list \<Rightarrow> stock_key \<Rightarrow> milli" where
  "ledger_sum ms k = (\<Sum>m \<leftarrow> filter (\<lambda>m. mv_key m = k) ms. mv_quantity m)"

definition levels_ok :: "stock_level list \<Rightarrow> bool" where
  "levels_ok ls = (distinct (map lv_id ls) \<and> distinct (map lv_key ls))"

definition balances_ok :: "stock_movement list \<Rightarrow> bool" where
  "balances_ok ms =
     (\<forall>i < length ms. mv_balance_after (ms ! i) = ledger_sum (take (Suc i) ms) (mv_key (ms ! i)))"

text \<open>The cached level is the sum of the ledger, and every ledger row carries the running sum.\<close>

definition stock_inv :: "'a stock_db_scheme \<Rightarrow> bool" where
  "stock_inv db =
     (levels_ok (levels db)
      \<and> (\<forall>k. quantity_at (levels db) k = ledger_sum (movements db) k)
      \<and> balances_ok (movements db))"

lemma get_stock_quantity_at: "get_stock db b w p v = quantity_at (levels db) (b, w, p, v)"
  by (simp add: get_stock_def level_at_def quantity_at_def lv_key_def)

lemma total_stock_level_sum:
  "total_stock db b p v = level_sum (\<lambda>(b', w', p', v'). b' = b \<and> p' = p \<and> v' = v) (levels db)"
  by (simp add: total_stock_def level_sum_def lv_key_def)

lemma set_level_find:
  "set_level b w p v q ls =
     (case find (\<lambda>l. lv_key l = (b, w, p, v)) ls of
        Some l \<Rightarrow> save_row lv_id (l\<lparr>lv_quantity := q\<rparr>) ls
      | None \<Rightarrow> ls @ [\<lparr>lv_id = next_pk lv_id ls, lv_business = b, lv_warehouse = w, lv_product = p,
                     lv_variant = v, lv_quantity = q\<rparr>])"
  by (simp add: set_level_def lv_key_def)

lemma lv_key_update [simp]: "lv_key (l\<lparr>lv_quantity := q\<rparr>) = lv_key l"
  by (simp add: lv_key_def)

lemma save_level_keys:
  "l \<in> set ls \<Longrightarrow> distinct (map lv_id ls) \<Longrightarrow>
     map lv_key (save_row lv_id (l\<lparr>lv_quantity := q\<rparr>) ls) = map lv_key ls"
  by (auto simp: save_row_def distinct_map inj_on_def)

lemma save_level_absent:
  "lv_id l \<notin> lv_id ` set ls \<Longrightarrow> save_row lv_id (l\<lparr>lv_quantity := q\<rparr>) ls = ls"
  by (induction ls) (auto simp: save_row_def)

lemma save_level_update:
  assumes "find (\<lambda>l. lv_key l = k) ls = Some l" and "levels_ok ls"
  shows "\<exists>xs ys. ls = xs @ l # ys \<and> save_row lv_id (l\<lparr>lv_quantity := q\<rparr>) ls = xs @ l\<lparr>lv_quantity := q\<rparr> # ys
    \<and> lv_key l = k \<and> k \<notin> lv_key ` set xs \<and> k \<notin> lv_key ` set ys"
proof -
  have l: "l \<in> set ls" "lv_key l = k" using find_Some_mem[OF assms(1)] by auto
  then obtain xs ys where ls: "ls = xs @ l # ys" by (metis split_list)
  then have "lv_id l \<notin> lv_id ` set xs" "lv_id l \<notin> lv_id ` set ys"
    "k \<notin> lv_key ` set xs" "k \<notin> lv_key ` set ys"
    using assms(2) l(2) by (auto simp: levels_ok_def)
  then show ?thesis
    using ls l(2) save_level_absent[of l xs q] save_level_absent[of l ys q]
    by (intro exI[of _ xs] exI[of _ ys]) (simp add: save_row_def)
qed

lemma levels_ok_set_level:
  assumes "levels_ok ls"
  shows "levels_ok (set_level b w p v q ls)"
proof (cases "find (\<lambda>l. lv_key l = (b, w, p, v)) ls")
  case None
  then have "(b, w, p, v) \<notin> lv_key ` set ls" by (auto simp: find_eq_None)
  moreover have "next_pk lv_id ls \<notin> lv_id ` set ls" by (rule next_pk_fresh)
  ultimately show ?thesis
    using assms None by (simp add: set_level_find levels_ok_def lv_key_def)
next
  case (Some l)
  then show ?thesis
    using assms save_level_keys[of l ls q] find_Some_mem[OF Some]
    by (simp add: set_level_find levels_ok_def)
qed

lemma level_sum_append [simp]: "level_sum P (xs @ ys) = level_sum P xs + level_sum P ys"
  by (simp add: level_sum_def)

lemma level_sum_Cons [simp]:
  "level_sum P (l # ls) = (if P (lv_key l) then lv_quantity l else 0) + level_sum P ls"
  by (simp add: level_sum_def)

lemma level_sum_Nil [simp]: "level_sum P [] = 0"
  by (simp add: level_sum_def)

text \<open>A sum over levels changes by what its one updated level changes.\<close>

lemma level_sum_set_level:
  assumes "levels_ok ls"
  shows "level_sum P (set_level b w p v q ls) =
    level_sum P ls + (if P (b, w, p, v) then q - quantity_at ls (b, w, p, v) else 0)"
proof (cases "find (\<lambda>l. lv_key l = (b, w, p, v)) ls")
  case None
  then show ?thesis by (simp add: set_level_find quantity_at_def lv_key_def)
next
  case (Some l)
  from save_level_update[OF Some assms, of q] Some show ?thesis
    by (auto simp: set_level_find quantity_at_def)
qed

lemma quantity_at_level_sum:
  assumes "levels_ok ls"
  shows "quantity_at ls k = level_sum (\<lambda>k'. k' = k) ls"
proof (cases "find (\<lambda>l. lv_key l = k) ls")
  case None
  then have "filter (\<lambda>l. lv_key l = k) ls = []" by (auto simp: find_eq_None filter_empty_conv)
  then show ?thesis using None by (simp add: quantity_at_def level_sum_def)
next
  case (Some l)
  have none: "level_sum (\<lambda>k'. k' = k) zs = 0" if "k \<notin> lv_key ` set zs" for zs
  proof -
    have "filter (\<lambda>l. lv_key l = k) zs = []" using that by (auto simp: filter_empty_conv)
    then show ?thesis by (simp add: level_sum_def)
  qed
  from save_level_update[OF Some assms] obtain xs ys where "ls = xs @ l # ys" "lv_key l = k"
    "k \<notin> lv_key ` set xs" "k \<notin> lv_key ` set ys" by blast
  then show ?thesis using Some none[of xs] none[of ys] by (simp add: quantity_at_def)
qed

lemma quantity_at_set_level:
  assumes "levels_ok ls"
  shows "quantity_at (set_level b w p v q ls) k = (if k = (b, w, p, v) then q else quantity_at ls k)"
  using level_sum_set_level[OF assms, of "\<lambda>k'. k' = k" b w p v q]
  by (auto simp: quantity_at_level_sum[OF levels_ok_set_level[OF assms]] quantity_at_level_sum[OF assms])

lemma ledger_sum_append [simp]:
  "ledger_sum (ms @ [m]) k = ledger_sum ms k + (if mv_key m = k then mv_quantity m else 0)"
  by (simp add: ledger_sum_def)

lemma balances_ok_append:
  "balances_ok ms \<Longrightarrow> mv_balance_after m = ledger_sum ms (mv_key m) + mv_quantity m \<Longrightarrow>
     balances_ok (ms @ [m])"
  by (auto simp: balances_ok_def nth_append less_Suc_eq)

section \<open>What a movement does\<close>

lemma update_average_cost_frame:
  "\<exists>ps vs. update_average_cost b p v q c db = db\<lparr>products := ps, variants := vs\<rparr>"
proof (cases v)
  case None
  then have "update_average_cost b p v q c db = db\<lparr>products := save_row prod_id (p\<lparr>prod_average_cost :=
      moving_average (total_stock db b (prod_id p) None) (item_average_cost p None) q c\<rparr>) (products db),
      variants := variants db\<rparr>"
    by (simp add: update_average_cost_def Let_def)
  then show ?thesis by blast
next
  case (Some x)
  then have "update_average_cost b p v q c db = db\<lparr>products := products db,
      variants := save_row var_id (x\<lparr>var_average_cost :=
      moving_average (total_stock db b (prod_id p) (Some (var_id x))) (item_average_cost p (Some x)) q c\<rparr>)
        (variants db)\<rparr>"
    by (simp add: update_average_cost_def Let_def)
  then show ?thesis by blast
qed

lemma no_cost_change: "\<exists>ps vs. db = db\<lparr>products := ps, variants := vs\<rparr>"
  by (intro exI[of _ "products db"] exI[of _ "variants db"]) simp

lemma no_alert: "\<exists>ns. db = db\<lparr>notifications := ns\<rparr>"
  by (intro exI[of _ "notifications db"]) simp

lemma low_stock_alert_frame: "\<exists>ns. low_stock_alert business p db = db\<lparr>notifications := ns\<rparr>"
  using no_alert[of db] by (auto simp: low_stock_alert_def)

text \<open>A successful movement, taken apart: the rest of the database is that of \<open>db\<close> up to costs and alerts.\<close>

lemma write_movement_frame:
  "\<exists>ps vs ns. write_movement business w p v a q n db =
     db\<lparr>products := ps, variants := vs,
        levels := set_level (biz_id business) (wh_id w) (prod_id p) (map_option var_id v) n (levels db),
        movements := movements db @ [movement_row business w p v a q n], notifications := ns\<rparr>"
proof -
  define db1 where "db1 = db\<lparr>
      levels := set_level (biz_id business) (wh_id w) (prod_id p) (map_option var_id v) n (levels db),
      movements := movements db @ [movement_row business w p v a q n]\<rparr>"
  define db2 where "db2 = (if (ma_type a = OPENING \<or> ma_type a = PURCHASE) \<and> 0 < q \<and> ma_unit_cost a \<noteq> 0
      then update_average_cost (biz_id business) p v q (ma_unit_cost a) db1 else db1)"
  have "\<exists>ps vs. db2 = db1\<lparr>products := ps, variants := vs\<rparr>"
  proof (cases "(ma_type a = OPENING \<or> ma_type a = PURCHASE) \<and> 0 < q \<and> ma_unit_cost a \<noteq> 0")
    case True
    then have "db2 = update_average_cost (biz_id business) p v q (ma_unit_cost a) db1"
      unfolding db2_def by (rule if_P)
    then show ?thesis using update_average_cost_frame by metis
  next
    case False
    then have "db2 = db1" unfolding db2_def by (rule if_not_P)
    then show ?thesis using no_cost_change by metis
  qed
  then obtain ps vs where 2: "db2 = db1\<lparr>products := ps, variants := vs\<rparr>" by blast
  have "\<exists>ns. write_movement business w p v a q n db = db2\<lparr>notifications := ns\<rparr>"
    using low_stock_alert_frame[of business "prod_id p" db2] no_alert[of db2]
    unfolding write_movement_def Let_def db1_def[symmetric] db2_def[symmetric] by auto
  then obtain ns where "write_movement business w p v a q n db = db2\<lparr>notifications := ns\<rparr>"
    by blast
  then have "write_movement business w p v a q n db =
     db\<lparr>products := ps, variants := vs,
        levels := set_level (biz_id business) (wh_id w) (prod_id p) (map_option var_id v) n (levels db),
        movements := movements db @ [movement_row business w p v a q n], notifications := ns\<rparr>"
    by (simp add: 2 db1_def)
  then show ?thesis by blast
qed

lemma record_movement_elim:
  assumes "record_movement business w product variant a db = Inr db'"
  obtains p v where
    "locked_product db (biz_id business) (prod_id product) = Inr p"
    "locked_variant db (biz_id business) (prod_id p) variant = Inr v"
    "qty (ma_quantity a) \<noteq> 0" "wh_business w = biz_id business" "prod_business product = biz_id business"
    "movement_refused business p v a (quantity_at (levels db)
        (biz_id business, wh_id w, prod_id p, map_option var_id v)) (qty (ma_quantity a)) = None"
    "db' = write_movement business w p v a (qty (ma_quantity a))
        (quantity_at (levels db) (biz_id business, wh_id w, prod_id p, map_option var_id v)
           + qty (ma_quantity a)) db"
  using assms
  by (auto simp: record_movement_def Let_def get_stock_quantity_at result_simps
      split: if_splits option.splits)

lemma write_movement_levels:
  "levels (write_movement business w p v a q n db) =
     set_level (biz_id business) (wh_id w) (prod_id p) (map_option var_id v) n (levels db)"
  "movements (write_movement business w p v a q n db) =
     movements db @ [movement_row business w p v a q n]"
  using write_movement_frame[of business w p v a q n db] by auto

lemma mv_key_movement_row [simp]:
  "mv_key (movement_row business w p v a q n) = (biz_id business, wh_id w, prod_id p, map_option var_id v)"
  "mv_quantity (movement_row business w p v a q n) = q"
  "mv_balance_after (movement_row business w p v a q n) = n"
  "mv_type (movement_row business w p v a q n) = ma_type a"
  by (simp_all add: mv_key_def movement_row_def)

lemma locked_product_Inr:
  "locked_product db b i = Inr p \<Longrightarrow> p \<in> set (products db) \<and> prod_id p = i \<and> prod_business p = b"
  by (auto simp: locked_product_def split: option.splits dest: find_Some_mem)

lemma locked_variant_Inr:
  "locked_variant db b pid v = Inr v' \<Longrightarrow> map_option var_id v' = map_option var_id v
     \<and> (\<forall>x. v' = Some x \<longrightarrow> x \<in> set (variants db) \<and> var_product x = pid \<and> var_business x = b)"
  by (cases v; cases "find (\<lambda>y. var_id y = var_id (the v) \<and> var_business y = b \<and> var_product y = pid)
        (variants db)")
    (auto simp: locked_variant_def find_variant_def dest: find_Some_mem)

text \<open>The law that every client of the ledger uses: stock at one key moves by the quantity.\<close>

definition movement_key :: "business \<Rightarrow> warehouse \<Rightarrow> product \<Rightarrow> variant option \<Rightarrow> stock_key" where
  "movement_key business w p v = (biz_id business, wh_id w, prod_id p, map_option var_id v)"

definition stock_at :: "'a stock_db_scheme \<Rightarrow> stock_key \<Rightarrow> milli" where
  "stock_at db k = quantity_at (levels db) k"

lemma record_movement_stock:
  assumes "record_movement business w product variant a db = Inr db'" and "levels_ok (levels db)"
  shows "levels_ok (levels db')"
    "stock_at db' k = stock_at db k
       + (if k = movement_key business w product variant then qty (ma_quantity a) else 0)"
proof -
  obtain p v where e: "locked_product db (biz_id business) (prod_id product) = Inr p"
    "locked_variant db (biz_id business) (prod_id p) variant = Inr v"
    "db' = write_movement business w p v a (qty (ma_quantity a))
        (quantity_at (levels db) (biz_id business, wh_id w, prod_id p, map_option var_id v)
           + qty (ma_quantity a)) db"
    using record_movement_elim[OF assms(1)] by metis
  have keys: "prod_id p = prod_id product" "map_option var_id v = map_option var_id variant"
    using locked_product_Inr[OF e(1)] locked_variant_Inr[OF e(2)] by simp_all
  show "levels_ok (levels db')"
    using assms(2) by (simp add: e(3) write_movement_levels levels_ok_set_level)
  show "stock_at db' k = stock_at db k
       + (if k = movement_key business w product variant then qty (ma_quantity a) else 0)"
    by (simp add: stock_at_def e(3) write_movement_levels quantity_at_set_level[OF assms(2)]
        movement_key_def keys)
qed

lemma record_movement_inv:
  assumes "record_movement business w product variant a db = Inr db'" and "stock_inv db"
  shows "stock_inv db'"
proof -
  obtain p v where e: "db' = write_movement business w p v a (qty (ma_quantity a))
        (quantity_at (levels db) (biz_id business, wh_id w, prod_id p, map_option var_id v)
           + qty (ma_quantity a)) db"
    using record_movement_elim[OF assms(1)] by metis
  have ok: "levels_ok (levels db)" and sum: "\<And>k. quantity_at (levels db) k = ledger_sum (movements db) k"
    and bal: "balances_ok (movements db)"
    using assms(2) by (auto simp: stock_inv_def)
  show ?thesis
    unfolding stock_inv_def e write_movement_levels
    using levels_ok_set_level[OF ok] quantity_at_set_level[OF ok] sum balances_ok_append[OF bal]
    by simp
qed

section \<open>The moving average\<close>




section \<open>Policy, scope and alerts\<close>

lemma record_movement_block:
  assumes "record_movement business w product variant a db = Inr db'" and "levels_ok (levels db)"
    and "negative_stock_policy (settings business) = BLOCK" and "ma_enforce a" and "ma_type a \<noteq> COUNT"
    and "qty (ma_quantity a) < 0"
  shows "0 \<le> stock_at db' (movement_key business w product variant)"
proof -
  obtain p v where e: "locked_product db (biz_id business) (prod_id product) = Inr p"
    "locked_variant db (biz_id business) (prod_id p) variant = Inr v"
    "movement_refused business p v a (quantity_at (levels db)
        (biz_id business, wh_id w, prod_id p, map_option var_id v)) (qty (ma_quantity a)) = None"
    using record_movement_elim[OF assms(1)] by metis
  have "(biz_id business, wh_id w, prod_id p, map_option var_id v) = movement_key business w product variant"
    using locked_product_Inr[OF e(1)] locked_variant_Inr[OF e(2)] by (simp add: movement_key_def)
  then show ?thesis
    using e(3) assms record_movement_stock(2)[OF assms(1,2), of "movement_key business w product variant"]
    by (auto simp: movement_refused_def Let_def stock_at_def split: if_splits)
qed

lemma require_inventory_write_Inr:
  assumes "reorders ord"
    and "require_inventory_write ord db business user perm membership whs objs = Inr c"
  shows "authorized db user (Some business) (OneKey ''inventory'') (Some perm) WRITE membership True"
    and "Some w \<in> set whs \<Longrightarrow> wh_business w = biz_id business
      \<and> (\<forall>m ids. ctx_membership c = Some m \<longrightarrow> allowed_warehouse_ids db m = Some ids \<longrightarrow> wh_id w \<in> set ids)"
    and "Some t \<in> set objs \<Longrightarrow> t = biz_id business"
proof -
  from assms(2) obtain c0 where c0: "require_actor_access ord db user (Some business) ''inventory'' (Some perm)
      WRITE membership True = Inr c0"
    by (auto simp: require_inventory_write_def result_simps)
  from require_actor_access_Inr[OF assms(1) c0]
  show "authorized db user (Some business) (OneKey ''inventory'') (Some perm) WRITE membership True" .
  have refused: "require_actor_access ord db user (Some business) ''inventory'' (Some perm) WRITE
      (ctx_membership c0) False \<noteq> Inr x" for x
    using require_actor_access_Inr[OF assms(1)] not_authorized_out_of_scope by blast
  let ?ids = "case ctx_membership c0 of Some m \<Rightarrow> allowed_warehouse_ids db m | None \<Rightarrow> Some []"
  let ?scope = "list_all (\<lambda>w. case w of None \<Rightarrow> True | Some x \<Rightarrow>
        wh_business x = biz_id business
        \<and> (case ?ids of None \<Rightarrow> True | Some is \<Rightarrow> wh_id x \<in> set is)) whs
      \<and> list_all (\<lambda>t. case t of None \<Rightarrow> True | Some b \<Rightarrow> b = biz_id business) objs"
  have both: "c = c0 \<and> ?scope"
  proof (cases ?scope)
    case True
    then show ?thesis using assms(2)
      unfolding require_inventory_write_def c0 ebind_Inr Let_def by simp
  next
    case False
    then have "ebind (require_actor_access ord db user (Some business) ''inventory'' (Some perm)
                  WRITE (ctx_membership c0) False) (\<lambda>_. Inr c0) = Inr c"
      using assms(2) unfolding require_inventory_write_def c0 ebind_Inr Let_def by (simp only: if_False)
    then show ?thesis using refused by (auto simp: result_simps)
  qed
  then show "Some w \<in> set whs \<Longrightarrow> wh_business w = biz_id business
      \<and> (\<forall>m ids. ctx_membership c = Some m \<longrightarrow> allowed_warehouse_ids db m = Some ids \<longrightarrow> wh_id w \<in> set ids)"
    by (auto simp: list_all_iff)
  show "Some t \<in> set objs \<Longrightarrow> t = biz_id business"
    using both by (auto simp: list_all_iff)
qed

section \<open>The interface for workflows\<close>

text \<open>
  What the callers of the ledger rely on.  \<open>held P s\<close> is the stock at all keys that satisfy \<open>P\<close>;
  \<open>ok\<close> is the invariant of the store.
\<close>

locale ledger =
  fixes move :: "'m \<Rightarrow> 's \<Rightarrow> 'e + 's"
    and ok :: "'s \<Rightarrow> bool"
    and held :: "('k \<Rightarrow> bool) \<Rightarrow> 's \<Rightarrow> int"
    and key :: "'m \<Rightarrow> 'k"
    and amount :: "'m \<Rightarrow> int"
  assumes move_ok: "move m s = Inr t \<Longrightarrow> ok s \<Longrightarrow> ok t"
    and move_held: "move m s = Inr t \<Longrightarrow> ok s \<Longrightarrow>
      held P t = held P s + (if P (key m) then amount m else 0)"
begin

lemma moves_ok: "efold move ms s = Inr t \<Longrightarrow> ok s \<Longrightarrow> ok t"
  by (rule efold_invariant[where I = ok]) (auto intro: move_ok)

lemma moves_held:
  "efold move ms s = Inr t \<Longrightarrow> ok s \<Longrightarrow>
     held P t = held P s + (\<Sum>m \<leftarrow> ms. if P (key m) then amount m else 0)"
proof (induction ms arbitrary: s)
  case Nil
  then show ?case by simp
next
  case (Cons m ms)
  then obtain u where u: "move m s = Inr u" "efold move ms u = Inr t"
    by (auto simp: result_simps)
  show ?case
    using Cons.IH[OF u(2) move_ok[OF u(1) Cons.prems(2)]] move_held[OF u(1) Cons.prems(2), of P]
    by simp
qed

text \<open>Two batches that cancel each other within \<open>P\<close> leave the stock there as it was.\<close>

lemma moves_cancel:
  assumes "efold move ms s = Inr t" and "efold move ns t = Inr u" and "ok s"
    and "(\<Sum>m \<leftarrow> ns. if P (key m) then amount m else 0) = - (\<Sum>m \<leftarrow> ms. if P (key m) then amount m else 0)"
  shows "held P u = held P s"
  using moves_held[OF assms(1,3), of P] moves_held[OF assms(2) moves_ok[OF assms(1,3)], of P] assms(4)
  by simp

end

type_synonym movement = "business \<times> warehouse \<times> product \<times> variant option \<times> movement_args"

fun move_stock :: "movement \<Rightarrow> 'a stock_db_scheme \<Rightarrow> err + 'a stock_db_scheme" where
  "move_stock (business, w, p, v, a) = record_movement business w p v a"

fun moved_key :: "movement \<Rightarrow> stock_key" where
  "moved_key (business, w, p, v, a) = movement_key business w p v"

fun moved_amount :: "movement \<Rightarrow> milli" where
  "moved_amount (business, w, p, v, a) = qty (ma_quantity a)"

definition held_stock :: "(stock_key \<Rightarrow> bool) \<Rightarrow> 'a stock_db_scheme \<Rightarrow> milli" where
  "held_stock P db = level_sum P (levels db)"

lemma record_movement_held:
  assumes "record_movement business w product variant a db = Inr db'" and "levels_ok (levels db)"
  shows "held_stock P db' = held_stock P db
    + (if P (movement_key business w product variant) then qty (ma_quantity a) else 0)"
proof -
  obtain p v where e: "locked_product db (biz_id business) (prod_id product) = Inr p"
    "locked_variant db (biz_id business) (prod_id p) variant = Inr v"
    "db' = write_movement business w p v a (qty (ma_quantity a))
        (quantity_at (levels db) (biz_id business, wh_id w, prod_id p, map_option var_id v)
           + qty (ma_quantity a)) db"
    using record_movement_elim[OF assms(1)] by metis
  have "(biz_id business, wh_id w, prod_id p, map_option var_id v) = movement_key business w product variant"
    using locked_product_Inr[OF e(1)] locked_variant_Inr[OF e(2)] by (simp add: movement_key_def)
  then show ?thesis
    using level_sum_set_level[OF assms(2)]
    by (simp add: held_stock_def e(3) write_movement_levels)
qed

interpretation stock: ledger move_stock stock_inv held_stock moved_key moved_amount
proof unfold_locales
  fix m :: movement and s t :: "'a stock_db_scheme" and P :: "stock_key \<Rightarrow> bool"
  assume m: "move_stock m s = Inr t" and s: "stock_inv s"
  obtain b w p v a where mv: "m = (b, w, p, v, a)" by (cases m)
  show "stock_inv t" using record_movement_inv[OF _ s, of b w p v a t] m by (simp add: mv)
  show "held_stock P t = held_stock P s + (if P (moved_key m) then moved_amount m else 0)"
    using record_movement_held[of b w p v a s t P] m s by (simp add: mv stock_inv_def)
qed

lemma stock_at_held: "levels_ok (levels db) \<Longrightarrow> stock_at db k = held_stock (\<lambda>k'. k' = k) db"
  by (simp add: stock_at_def held_stock_def quantity_at_level_sum)

lemma total_stock_held:
  "total_stock db b p v = held_stock (\<lambda>(b', w', p', v'). b' = b \<and> p' = p \<and> v' = v) db"
  by (simp add: total_stock_level_sum held_stock_def)

lemma record_movement_frame:
  assumes "record_movement business w product variant a db = Inr db'"
  shows "\<exists>ps vs ls ms ns. db' = db\<lparr>products := ps, variants := vs, levels := ls, movements := ms,
    notifications := ns\<rparr>"
proof -
  obtain p v where "db' = write_movement business w p v a (qty (ma_quantity a))
        (quantity_at (levels db) (biz_id business, wh_id w, prod_id p, map_option var_id v)
           + qty (ma_quantity a)) db"
    using record_movement_elim[OF assms] by metis
  then show ?thesis using write_movement_frame by blast
qed

text \<open>Updates of the tables of other components do not touch the stock.\<close>

lemma stock_inv_cong:
  "levels db' = levels db \<Longrightarrow> movements db' = movements db \<Longrightarrow> stock_inv db' = stock_inv db"
  by (simp add: stock_inv_def)

lemma held_stock_cong: "levels db' = levels db \<Longrightarrow> held_stock P db' = held_stock P db"
  by (simp add: held_stock_def)

section \<open>Properties\<close>

text \<open>C16: every successful movement keeps the ledger invariant: one level row per key, each
  cached level is the sum of the ledger rows of its key, and each ledger row carries the balance
  right after it.\<close>

theorem ledger_invariant:
  assumes "record_movement business w product variant a db = Inr db'" and "stock_inv db"
  shows "stock_inv db'"
  using assms by (rule record_movement_inv)

definition sample_unit :: unit_row where
  "sample_unit = \<lparr>unit_id = 1, unit_business = 1, unit_is_meter = True, unit_allow_decimal = True\<rparr>"

definition sample_product :: product where
  "sample_product = \<lparr>prod_id = 10, prod_business = 1, prod_name = ''Cloth'', prod_sku = ''C1'',
     prod_barcode = [], prod_unit = None, prod_type = STANDARD, prod_purchase_price = 1500,
     prod_sale_price = 4000, prod_minimum_price = 0, prod_average_cost = 1500, prod_tax = None,
     prod_includes_tax = None, reorder_level = 3000, track_inventory = True, allow_discount = True,
     is_tailoring_item = False, estimated_adult_fabric = None, estimated_child_fabric = None,
     prod_active = True, prod_archived = False\<rparr>"

definition sample_stock :: stock_db where
  "sample_stock = core_db.extend sample_core
     \<lparr>settings_rows = [(1, sample_settings)], products = [sample_product], variants = [],
      levels = [\<lparr>lv_id = 1, lv_business = 1, lv_warehouse = 1, lv_product = 10, lv_variant = None,
        lv_quantity = 5000\<rparr>],
      movements = [\<lparr>mv_business = 1, mv_warehouse = 1, mv_product = 10, mv_variant = None,
        mv_type = OPENING, mv_quantity = 5000, mv_unit_cost = 1500, mv_balance_after = 5000,
        mv_reference_type = ''Opening'', mv_reference_id = [], mv_user = Some 7, mv_notes = []\<rparr>],
      notifications = [], audit_log = []\<rparr>"

definition sample_args :: "movement_type \<Rightarrow> rat \<Rightarrow> rat \<Rightarrow> movement_args" where
  "sample_args t q c = \<lparr>ma_type = t, ma_quantity = q, ma_unit_cost = c, ma_reference_type = ''Test'',
     ma_reference_id = [], ma_user = None, ma_notes = [], ma_enforce = True\<rparr>"

lemma sample_stock_inv: "stock_inv sample_stock"
  by (simp add: stock_inv_def sample_stock_def core_db.extend_def levels_ok_def quantity_at_def
      lv_key_def ledger_sum_def mv_key_def balances_ok_def)

definition sample_warehouse :: warehouse where
  "sample_warehouse = hd (warehouses sample_core)"

text \<open>A concrete outbound movement that succeeds, for the witnesses below.\<close>

lemma sample_sale_moves:
  "\<exists>db'. record_movement sample_business sample_warehouse sample_product None
     (sample_args SALE (- 2) 0) sample_stock = Inr db'"
proof -
  have "case record_movement sample_business sample_warehouse sample_product None
     (sample_args SALE (- 2) 0) sample_stock of Inl _ \<Rightarrow> False | Inr _ \<Rightarrow> True"
    by code_simp
  then show ?thesis by (auto split: sum.splits)
qed

theorem ledger_invariant_witness:
  "\<exists>db'. record_movement sample_business sample_warehouse sample_product None
     (sample_args SALE (- 2) 0) sample_stock = Inr db' \<and> stock_inv db'"
  using sample_sale_moves ledger_invariant[OF _ sample_stock_inv] by blast

text \<open>A successful movement changes the stock of exactly one key, by exactly the quantity
  rounded to three decimals, and records it as the last row of the ledger.\<close>

lemma movement_effect:
  assumes "record_movement business w product variant a db = Inr db'" and "stock_inv db"
  shows "(\<forall>k. stock_at db' k = stock_at db k
      + (if k = movement_key business w product variant then qty (ma_quantity a) else 0))
    \<and> (\<exists>m. movements db' = movements db @ [m]
        \<and> mv_key m = movement_key business w product variant \<and> mv_type m = ma_type a
        \<and> mv_quantity m = qty (ma_quantity a) \<and> mv_balance_after m = stock_at db' (mv_key m))"
proof -
  obtain p v where e: "locked_product db (biz_id business) (prod_id product) = Inr p"
    "locked_variant db (biz_id business) (prod_id p) variant = Inr v"
    "db' = write_movement business w p v a (qty (ma_quantity a))
        (quantity_at (levels db) (biz_id business, wh_id w, prod_id p, map_option var_id v)
           + qty (ma_quantity a)) db"
    using record_movement_elim[OF assms(1)] by metis
  have key: "(biz_id business, wh_id w, prod_id p, map_option var_id v) = movement_key business w product variant"
    using locked_product_Inr[OF e(1)] locked_variant_Inr[OF e(2)] by (simp add: movement_key_def)
  have ok: "levels_ok (levels db)" using assms(2) by (simp add: stock_inv_def)
  show ?thesis
    using record_movement_stock(2)[OF assms(1) ok]
    by (auto simp: e(3) write_movement_levels key stock_at_def quantity_at_set_level[OF ok])
qed

lemma movement_effect_witness:
  "\<exists>db'. record_movement sample_business sample_warehouse sample_product None
     (sample_args SALE (- 2) 0) sample_stock = Inr db'
     \<and> stock_at db' (1, 1, 10, None) = 3000"
proof -
  obtain db' where db': "record_movement sample_business sample_warehouse sample_product None
     (sample_args SALE (- 2) 0) sample_stock = Inr db'"
    using sample_sale_moves by blast
  have key: "movement_key sample_business sample_warehouse sample_product None = (1, 1, 10, None)"
    "qty (ma_quantity (sample_args SALE (- 2) 0)) = - 2000"
    "stock_at sample_stock (1, 1, 10, None) = 5000"
    by code_simp+
  show ?thesis
    using movement_effect[OF db' sample_stock_inv] db' unfolding key(1,2) by (simp add: key(3) del: One_nat_def)
qed

text \<open>C26: under the policy block no enforced movement other than a count correction can make
  stock negative: if every level was non-negative, every level still is.\<close>

theorem block_policy_nonnegative:
  assumes "record_movement business w product variant a db = Inr db'" and "stock_inv db"
    and "negative_stock_policy (settings business) = BLOCK" and "ma_enforce a" and "ma_type a \<noteq> COUNT"
    and "\<forall>k. 0 \<le> stock_at db k"
  shows "0 \<le> stock_at db' k"
proof -
  have ok: "levels_ok (levels db)" using assms(2) by (simp add: stock_inv_def)
  have "0 \<le> stock_at db k'" for k' using assms(6) by blast
  from this[of k] this[of "movement_key business w product variant"] show ?thesis
    using record_movement_block[OF assms(1) ok assms(3-5)]
      record_movement_stock(2)[OF assms(1) ok, of k]
    by (cases "k = movement_key business w product variant"; cases "qty (ma_quantity a) < 0") auto
qed

theorem block_policy_nonnegative_witness:
  "\<exists>db'. record_movement sample_business sample_warehouse sample_product None
     (sample_args SALE (- 2) 0) sample_stock = Inr db' \<and> 0 \<le> stock_at db' (1, 1, 10, None)"
proof -
  obtain db' where db': "record_movement sample_business sample_warehouse sample_product None
     (sample_args SALE (- 2) 0) sample_stock = Inr db'"
    using sample_sale_moves by blast
  have "\<forall>k. 0 \<le> stock_at sample_stock k"
    by (simp add: stock_at_def quantity_at_def sample_stock_def core_db.extend_def lv_key_def)
  then have "0 \<le> stock_at db' (1, 1, 10, None)"
    by (intro block_policy_nonnegative[OF db' sample_stock_inv])
      (simp_all add: sample_business_def sample_settings_def sample_args_def)
  with db' show ?thesis by blast
qed

text \<open>A movement is refused for lack of stock only when it is an outbound movement under
  the policy block, and the error names the level and the requested quantity.\<close>

lemma insufficient_stock_exact:
  assumes "record_movement business w product variant a db = Inl (InsufficientStock available requested)"
  shows "available = stock_at db (movement_key business w product variant)
    \<and> requested = - qty (ma_quantity a) \<and> 0 < requested \<and> available < requested
    \<and> negative_stock_policy (settings business) = BLOCK \<and> ma_enforce a \<and> ma_type a \<noteq> COUNT"
proof -
  obtain p v where e: "locked_product db (biz_id business) (prod_id product) = Inr p"
    "locked_variant db (biz_id business) (prod_id p) variant = Inr v"
    "movement_refused business p v a (quantity_at (levels db)
        (biz_id business, wh_id w, prod_id p, map_option var_id v)) (qty (ma_quantity a))
       = Some (InsufficientStock available requested)"
    using assms
    by (auto simp: record_movement_def Let_def get_stock_quantity_at result_simps locked_product_def
        locked_variant_def split: if_splits option.splits)
  have "(biz_id business, wh_id w, prod_id p, map_option var_id v) = movement_key business w product variant"
    using locked_product_Inr[OF e(1)] locked_variant_Inr[OF e(2)] by (simp add: movement_key_def)
  then show ?thesis using e(3)
    by (auto simp: movement_refused_def Let_def stock_at_def split: if_splits)
qed

lemma insufficient_stock_exact_witness:
  "record_movement sample_business sample_warehouse sample_product None (sample_args SALE (- 6) 0)
     sample_stock = Inl (InsufficientStock 5000 6000) \<and> (5000 :: int) < 6000"
proof -
  have "record_movement sample_business sample_warehouse sample_product None (sample_args SALE (- 6) 0)
     sample_stock = Inl (InsufficientStock 5000 6000)"
    by code_simp
  from this insufficient_stock_exact[OF this] show ?thesis by simp
qed






text \<open>A movement of a meter fabric that has variants, recorded without a variant, succeeds
  only as a correction that brings a non-zero legacy balance exactly to zero.\<close>

lemma meter_parent_only_zeroed:
  assumes "record_movement business w product None a db = Inr db'" and "stock_inv db"
    and "locked_product db (biz_id business) (prod_id product) = Inr p"
    and "is_meter_tailoring p" and "has_variants p"
  shows "stock_at db' (movement_key business w product None) = 0
    \<and> stock_at db (movement_key business w product None) \<noteq> 0 \<and> ma_type a \<in> meter_repair_types"
proof -
  obtain p0 v where e: "locked_product db (biz_id business) (prod_id product) = Inr p0"
    "locked_variant db (biz_id business) (prod_id p0) None = Inr v"
    "movement_refused business p0 v a (quantity_at (levels db)
        (biz_id business, wh_id w, prod_id p0, map_option var_id v)) (qty (ma_quantity a)) = None"
    using record_movement_elim[OF assms(1)] by metis
  have eq: "p0 = p" "v = None" using e assms(3) by (auto simp: locked_variant_def)
  have ok: "levels_ok (levels db)" using assms(2) by (simp add: stock_inv_def)
  have "prod_id p = prod_id product" using locked_product_Inr[OF assms(3)] by simp
  then show ?thesis
    using e(3) assms(4,5) record_movement_stock(2)[OF assms(1) ok, of "movement_key business w product None"]
    by (auto simp: eq movement_refused_def Let_def movement_key_def stock_at_def split: if_splits)
qed

definition sample_meter_parent :: product where
  "sample_meter_parent = sample_product\<lparr>is_tailoring_item := True, prod_unit := Some sample_unit,
     prod_type := VARIANT_PRODUCT\<rparr>"

lemma meter_parent_only_zeroed_witness:
  "\<exists>db'. record_movement sample_business sample_warehouse sample_meter_parent None
     (sample_args ADJUST_OUT (- 5) 0) (sample_stock\<lparr>products := [sample_meter_parent]\<rparr>) = Inr db'
     \<and> stock_at db' (movement_key sample_business sample_warehouse sample_meter_parent None) = 0"
proof -
  let ?db = "sample_stock\<lparr>products := [sample_meter_parent]\<rparr>"
  have "case record_movement sample_business sample_warehouse sample_meter_parent None
     (sample_args ADJUST_OUT (- 5) 0) ?db of Inl _ \<Rightarrow> False | Inr _ \<Rightarrow> True"
    by code_simp
  then obtain db' where db': "record_movement sample_business sample_warehouse sample_meter_parent None
     (sample_args ADJUST_OUT (- 5) 0) ?db = Inr db'" by (auto split: sum.splits)
  have inv: "stock_inv ?db" using sample_stock_inv by (simp add: stock_inv_def)
  have facts: "locked_product ?db (biz_id sample_business) (prod_id sample_meter_parent)
      = Inr sample_meter_parent" "is_meter_tailoring sample_meter_parent"
    "has_variants sample_meter_parent" by code_simp+
  from meter_parent_only_zeroed[OF db' inv facts] db' show ?thesis by blast
qed

text \<open>Opening stock can only be set by a user who is authorized to adjust inventory, in a
  warehouse of the business that the user's membership allows.\<close>

lemma opening_stock_authorized:
  assumes "reorders ord"
    and "set_opening_stock ord business w product variant quantity unit_cost user membership db = Inr db'"
  shows "authorized db user (Some business) (OneKey ''inventory'') (Some ''inventory.adjust'') WRITE membership True
    \<and> wh_business w = biz_id business \<and> prod_business product = biz_id business"
proof -
  obtain c where c: "require_inventory_write ord db business user ''inventory.adjust'' membership [Some w]
      [Some (prod_business product), map_option var_business variant] = Inr c"
    using assms(2) by (auto simp: set_opening_stock_def result_simps)
  show ?thesis using require_inventory_write_Inr[OF assms(1) c] by auto
qed

lemma opening_stock_authorized_witness:
  "authorized sample_stock (Some sample_user) (Some sample_business) (OneKey ''inventory'')
     (Some ''inventory.adjust'') WRITE None True"
proof -
  have "case set_opening_stock (\<lambda>xs. xs) sample_business sample_warehouse sample_product None 3 (dec 1500)
     (Some sample_user) None sample_stock of Inl _ \<Rightarrow> False | Inr _ \<Rightarrow> True"
    by code_simp
  then obtain db' where "set_opening_stock (\<lambda>xs. xs) sample_business sample_warehouse sample_product None 3
     (dec 1500) (Some sample_user) None sample_stock = Inr db'" by (auto split: sum.splits)
  from opening_stock_authorized[OF reorders_id this] show ?thesis by simp
qed

end
