(* ===== verification/Numbering.thy ===== *)
theory Numbering
  imports Prelude
begin

text \<open>
  Document numbers.  Several services allocate the next free number of a series by the same
  loop: count the existing rows, render \<open>prefix + zero-padded n\<close>, and count up while a row
  already carries that text (\<^verbatim>\<open>_next_number\<close> in \<^verbatim>\<open>inventory/workflows.py\<close>,
  \<^verbatim>\<open>next_customer_code\<close> and the receipt loop in \<^verbatim>\<open>customers/services.py\<close>, the return-number loop
  in \<^verbatim>\<open>sales/services.py\<close>).  The loop is \<open>probe\<close> with as much fuel as there are rows plus one;
  the locale \<open>doc_numbers\<close> proves once, from injectivity of the rendering, that this is enough
  and that the number is new.
\<close>

section \<open>Decimal text\<close>

definition digit_char :: "nat \<Rightarrow> char" where
  "digit_char d = char_of (48 + d)"

fun nat_str :: "nat \<Rightarrow> string" where
  "nat_str n = (if n < 10 then [digit_char n] else nat_str (n div 10) @ [digit_char (n mod 10)])"

declare nat_str.simps [simp del]

definition zpad :: "nat \<Rightarrow> string \<Rightarrow> string" where
  "zpad w s = replicate (w - length s) (CHR ''0'') @ s"

definition is_digit :: "char \<Rightarrow> bool" where
  "is_digit c = (48 \<le> (of_char c :: nat) \<and> (of_char c :: nat) \<le> 57)"

text \<open>\<open>str.isdigit()\<close> on ASCII text, and \<open>int(text)\<close> for such text.\<close>

definition isdigit :: "string \<Rightarrow> bool" where
  "isdigit s = (s \<noteq> [] \<and> list_all is_digit s)"

definition digits_val :: "string \<Rightarrow> nat" where
  "digits_val s = foldl (\<lambda>a c. 10 * a + (of_char c - 48)) 0 s"

lemma of_char_digit [simp]: "d < 10 \<Longrightarrow> (of_char (digit_char d) :: nat) = 48 + d"
  by (simp add: digit_char_def)

lemma digits_val_append_digit:
  "d < 10 \<Longrightarrow> digits_val (s @ [digit_char d]) = 10 * digits_val s + d"
  by (simp add: digits_val_def)

lemma digits_val_nat_str [simp]: "digits_val (nat_str n) = n"
proof (induction n rule: nat_str.induct)
  case (1 n)
  show ?case
  proof (cases "n < 10")
    case True
    then show ?thesis by (simp add: nat_str.simps[of n] digits_val_def)
  next
    case False
    with 1 show ?thesis
      by (simp add: nat_str.simps[of n] digits_val_append_digit)
  qed
qed

lemma digits_val_zeros: "digits_val (replicate k (CHR ''0'') @ s) = digits_val s"
  by (induction k) (simp_all add: digits_val_def)

lemma digits_val_zpad [simp]: "digits_val (zpad w (nat_str n)) = n"
  by (simp add: zpad_def digits_val_zeros)

lemma isdigit_nat_str: "isdigit (nat_str n)"
proof (induction n rule: nat_str.induct)
  case (1 n)
  then show ?case
    by (cases "n < 10") (simp_all add: nat_str.simps[of n] isdigit_def is_digit_def)
qed

lemma isdigit_zpad: "isdigit (zpad w (nat_str n))"
proof -
  have zeros: "list_all is_digit (replicate k (CHR ''0''))" for k
    by (induction k) (simp_all add: is_digit_def)
  show ?thesis using isdigit_nat_str[of n] zeros by (simp add: isdigit_def zpad_def)
qed

lemma zpad_inj: "zpad w (nat_str m) = zpad w (nat_str n) \<Longrightarrow> m = n"
  by (metis digits_val_zpad)

section \<open>The allocation loop\<close>

text \<open>\<open>f"{prefix}-{n:0wd}"\<close>\<close>

definition doc_number :: "string \<Rightarrow> nat \<Rightarrow> nat \<Rightarrow> string" where
  "doc_number prefix w n = prefix @ ''-'' @ zpad w (nat_str n)"

definition next_free :: "(nat \<Rightarrow> string) \<Rightarrow> string list \<Rightarrow> nat \<Rightarrow> nat option" where
  "next_free render taken n = probe (Suc (length taken)) (\<lambda>i. render i \<in> set taken) n"

locale doc_numbers =
  fixes render :: "nat \<Rightarrow> string"
  assumes render_inj: "render m = render n \<Longrightarrow> m = n"
begin

lemma used_card: "finite {i. n \<le> i \<and> render i \<in> set taken}"
  "card {i. n \<le> i \<and> render i \<in> set taken} \<le> length taken"
proof -
  let ?U = "{i. n \<le> i \<and> render i \<in> set taken}"
  have inj: "inj_on render ?U" by (auto intro: inj_onI dest: render_inj)
  have img: "render ` ?U \<subseteq> set taken" by auto
  show fin: "finite ?U" using finite_imageD[OF finite_subset[OF img] inj] by simp
  have "card ?U = card (render ` ?U)" by (simp add: card_image inj)
  also have "\<dots> \<le> card (set taken)" by (intro card_mono img) simp
  also have "\<dots> \<le> length taken" by (rule card_length)
  finally show "card ?U \<le> length taken" .
qed

lemma next_free_total: "\<exists>m. next_free render taken n = Some m"
  unfolding next_free_def
  by (rule probe_enough) (use used_card[of n taken] in auto)

lemma next_free_new:
  "next_free render taken n = Some m \<Longrightarrow> render m \<notin> set taken \<and> n \<le> m"
  unfolding next_free_def by (drule probe_Some) simp

lemma next_free_least:
  "next_free render taken n = Some m \<Longrightarrow> n \<le> i \<Longrightarrow> i < m \<Longrightarrow> render i \<in> set taken"
  unfolding next_free_def by (drule probe_Some) simp

end

interpretation numbered: doc_numbers "doc_number p w" for p w
  by unfold_locales (auto simp: doc_number_def dest: zpad_inj)

text \<open>
  The number a service hands out: it starts from the row count plus one.  The option never is
  \<open>None\<close> (\<open>next_number_total\<close>), so \<open>next_number\<close> unwraps it.
\<close>

definition next_number :: "string \<Rightarrow> nat \<Rightarrow> string list \<Rightarrow> string" where
  "next_number prefix w taken =
     (case next_free (doc_number prefix w) taken (Suc (length taken)) of
        Some n \<Rightarrow> doc_number prefix w n
      | None \<Rightarrow> [])"

lemma next_number_new: "next_number prefix w taken \<notin> set taken"
  "\<exists>n > length taken. next_number prefix w taken = doc_number prefix w n"
proof -
  obtain m where m: "next_free (doc_number prefix w) taken (Suc (length taken)) = Some m"
    using numbered.next_free_total by blast
  from numbered.next_free_new[OF m] m
  show "next_number prefix w taken \<notin> set taken"
    "\<exists>n > length taken. next_number prefix w taken = doc_number prefix w n"
    by (auto simp: next_number_def Suc_le_eq)
qed

end
