(* ===== verification/Stock_Workflows.thy ===== *)
theory Stock_Workflows
  imports Stock_Ledger Numbering
begin

text \<open>
  \<^verbatim>\<open>apps/inventory/workflows.py\<close>: transfers between warehouses, adjustments with optional approval,
  and physical counts, all on the stock ledger.  A document embeds its item rows and its
  warehouses; the products of items are looked up when an operation runs.  An operation takes the
  business and the document object it is handed (whose row it reads again under a lock), and
  returns the new database; the transaction is undone by
  returning the exception alone.  Time stamps are the clock; texts of notifications are not
  modelled.
\<close>

section \<open>Documents\<close>

datatype transfer_status = T_DRAFT | T_APPROVED | T_DISPATCHED | T_RECEIVED | T_REJECTED | T_CANCELLED

record transfer_item =
  ti_product :: id
  ti_variant :: "id option"
  ti_quantity :: milli
  ti_unit_cost :: milli

record transfer =
  tr_id :: id
  tr_business :: id
  tr_number :: string
  tr_from :: warehouse
  tr_to :: warehouse
  tr_status :: transfer_status
  tr_requested_by :: "id option"
  tr_dispatched_by :: "id option"
  tr_received_by :: "id option"
  tr_dispatched_at :: "int option"
  tr_received_at :: "int option"
  tr_notes :: string
  tr_items :: "transfer_item list"

datatype adjust_reason =
    R_DAMAGE | R_EXPIRY | R_LOSS | R_THEFT | R_WASTAGE | R_INTERNAL | R_SAMPLE | R_COUNT | R_DATA | R_OTHER

datatype adjust_status = A_PENDING | A_APPROVED | A_REJECTED

record adjustment_item =
  ai_product :: id
  ai_variant :: "id option"
  ai_previous :: milli
  ai_change :: milli

record adjustment =
  ad_id :: id
  ad_business :: id
  ad_number :: string
  ad_warehouse :: warehouse
  ad_reason :: adjust_reason
  ad_status :: adjust_status
  ad_created_by :: "id option"
  ad_approved_by :: "id option"
  ad_notes :: string
  ad_items :: "adjustment_item list"

datatype count_status = C_OPEN | C_REVIEW | C_APPROVED | C_CANCELLED

record count_item =
  ci_product :: id
  ci_variant :: "id option"
  ci_expected :: milli
  ci_counted :: "milli option"

record stock_count =
  ct_id :: id
  ct_business :: id
  ct_number :: string
  ct_warehouse :: warehouse
  ct_status :: count_status
  ct_created_by :: "id option"
  ct_approved_by :: "id option"
  ct_notes :: string
  ct_items :: "count_item list"

record workflow_db = stock_db +
  transfers :: "transfer list"
  adjustments :: "adjustment list"
  counts :: "stock_count list"

text \<open>A row of a creation form: the product and variant objects and the quantity, which is rounded when it is stored.\<close>

record input_row =
  in_product :: product
  in_variant :: "variant option"
  in_quantity :: rat

section \<open>Shared checks\<close>

definition lock_inventory_row ::
    "'a stock_db_scheme \<Rightarrow> id \<Rightarrow> bool \<Rightarrow> input_row \<Rightarrow> err + input_row" where
  "lock_inventory_row db b allow_parent_repair row =
     (case find (\<lambda>p. prod_id p = prod_id (in_product row) \<and> prod_business p = b) (products db) of
        None \<Rightarrow> Inl (ValidationError ''Invalid product for this business.'')
      | Some p \<Rightarrow>
          if (case in_variant row of None \<Rightarrow> False
              | Some v \<Rightarrow> var_business v \<noteq> b \<or> var_product v \<noteq> prod_id p)
          then Inl (ValidationError ''Invalid product variant for this business.'')
          else if is_meter_tailoring p \<and> has_variants p \<and> in_variant row = None \<and> \<not> allow_parent_repair
          then Inl (ValidationError (''Select a variant/color for '' @ prod_name p @ ''.''))
          else Inr (row\<lparr>in_product := p\<rparr>))"

definition lock_inventory_rows ::
    "'a stock_db_scheme \<Rightarrow> id \<Rightarrow> bool \<Rightarrow> input_row list \<Rightarrow> err + input_row list" where
  "lock_inventory_rows db b allow_parent_repair rows =
     (if rows = [] then Inl (ValidationError ''Enter at least one inventory item.'')
      else emap (lock_inventory_row db b allow_parent_repair) rows)"

definition validate_warehouse :: "id \<Rightarrow> warehouse \<Rightarrow> err + unit" where
  "validate_warehouse b w =
     require (wh_business w = b \<and> wh_active w)
       (ValidationError ''Inventory warehouse must be active and belong to this business.'')"

definition require_tailoring_inventory_write ::
    "(string list \<Rightarrow> string list) \<Rightarrow> 'a stock_db_scheme \<Rightarrow> business \<Rightarrow> product list \<Rightarrow> user option \<Rightarrow>
     string \<Rightarrow> membership option \<Rightarrow> err + unit" where
  "require_tailoring_inventory_write ord db business ps user perm membership =
     (if \<not> list_ex is_tailoring_item ps then Inr ()
      else ebind (require_actor_access ord db user (Some business) ''tailoring'' (Some perm) WRITE
                   membership True) (\<lambda>_. Inr ()))"

text \<open>\<open>item.product\<close> and \<open>item.variant\<close>, read from the tables (foreign keys are protected).\<close>

definition item_objects ::
    "'a stock_db_scheme \<Rightarrow> id \<Rightarrow> id option \<Rightarrow> err + (product \<times> variant option)" where
  "item_objects db pid vid =
     (case row_by prod_id pid (products db) of
        None \<Rightarrow> Inl DoesNotExist
      | Some p \<Rightarrow>
          (case vid of
             None \<Rightarrow> Inr (p, None)
           | Some i \<Rightarrow> (case row_by var_id i (variants db) of
               None \<Rightarrow> Inl DoesNotExist | Some v \<Rightarrow> Inr (p, Some v))))"

definition input_refs :: "input_row list \<Rightarrow> id option list" where
  "input_refs rows = concat (map (\<lambda>r. [Some (prod_business (in_product r)),
     map_option var_business (in_variant r)]) rows)"

definition log_audit :: "string \<Rightarrow> string \<Rightarrow> string \<Rightarrow> 'a stock_db_scheme \<Rightarrow> 'a stock_db_scheme" where
  "log_audit action area description db =
     db\<lparr>audit_log := audit_log db @
       [\<lparr>au_action = action, au_module = area, au_description = take 400 description\<rparr>]\<rparr>"

section \<open>Transfers\<close>

definition transfer_item_of :: "input_row \<Rightarrow> transfer_item" where
  "transfer_item_of r =
     \<lparr>ti_product = prod_id (in_product r), ti_variant = map_option var_id (in_variant r),
      ti_quantity = qty (in_quantity r),
      ti_unit_cost = (if item_average_cost (in_product r) (in_variant r) \<noteq> 0
        then item_average_cost (in_product r) (in_variant r)
        else item_purchase_price (in_product r) (in_variant r))\<rparr>"

definition draft_transfer ::
    "id \<Rightarrow> warehouse \<Rightarrow> warehouse \<Rightarrow> user option \<Rightarrow> string \<Rightarrow> input_row list \<Rightarrow> transfer list \<Rightarrow> transfer" where
  "draft_transfer b from_warehouse to_warehouse user notes rows ts =
     \<lparr>tr_id = next_pk tr_id ts, tr_business = b,
      tr_number = next_number ''TRF'' 6 (map tr_number (filter (\<lambda>t. tr_business t = b) ts)),
      tr_from = from_warehouse, tr_to = to_warehouse, tr_status = T_DRAFT,
      tr_requested_by = upk user, tr_dispatched_by = None, tr_received_by = None,
      tr_dispatched_at = None, tr_received_at = None, tr_notes = notes,
      tr_items = map transfer_item_of rows\<rparr>"

definition create_transfer ::
    "(string list \<Rightarrow> string list) \<Rightarrow> business \<Rightarrow> warehouse \<Rightarrow> warehouse \<Rightarrow> input_row list \<Rightarrow> user option \<Rightarrow>
     string \<Rightarrow> membership option \<Rightarrow> 'a workflow_db_scheme \<Rightarrow> err + 'a workflow_db_scheme" where
  "create_transfer ord business from_warehouse to_warehouse rows user notes membership db =
     (let b = biz_id business in
      ebind (require_inventory_write ord db business user ''inventory.transfer'' membership
              [Some from_warehouse, Some to_warehouse] (input_refs rows)) (\<lambda>_.
      ebind (validate_warehouse b from_warehouse) (\<lambda>_.
      ebind (validate_warehouse b to_warehouse) (\<lambda>_.
      if wh_id from_warehouse = wh_id to_warehouse
      then Inl (ValidationError ''Transfer warehouses must be different.'')
      else ebind (lock_inventory_rows db b False rows) (\<lambda>locked.
      ebind (require_tailoring_inventory_write ord db business (map in_product locked) user
              ''inventory.transfer'' membership) (\<lambda>_.
      if list_ex (\<lambda>r. in_quantity r \<le> 0) locked
      then Inl (ValidationError ''Transfer quantities must be greater than zero.'')
      else Inr (db\<lparr>transfers := transfers db
             @ [draft_transfer b from_warehouse to_warehouse user notes locked (transfers db)]\<rparr>)))))))"

definition transfer_of :: "'a workflow_db_scheme \<Rightarrow> id \<Rightarrow> id \<Rightarrow> err + transfer" where
  "transfer_of db b i =
     (case find (\<lambda>t. tr_id t = i \<and> tr_business t = b) (transfers db) of
        Some t \<Rightarrow> Inr t | None \<Rightarrow> Inl DoesNotExist)"

definition transfer_movement ::
    "business \<Rightarrow> transfer \<Rightarrow> user option \<Rightarrow> bool \<Rightarrow> string \<Rightarrow> transfer_item \<Rightarrow> product \<times> variant option \<Rightarrow> movement"
where
  "transfer_movement business t user outbound ref item pv =
     (business, if outbound \<or> ref = ''TransferCancel'' then tr_from t else tr_to t, fst pv, snd pv,
      \<lparr>ma_type = (if outbound then TRANSFER_OUT else TRANSFER_IN),
       ma_quantity = dec (if outbound then - ti_quantity item else ti_quantity item),
       ma_unit_cost = dec (ti_unit_cost item), ma_reference_type = ref,
       ma_reference_id = tr_number t, ma_user = upk user, ma_notes = [], ma_enforce = True\<rparr>)"

text \<open>
  What dispatch, receipt and cancellation share: authorization, the refreshed transfer, its items
  with their products, and the tailoring entitlement.
\<close>

definition open_transfer ::
    "(string list \<Rightarrow> string list) \<Rightarrow> business \<Rightarrow> transfer \<Rightarrow> user option \<Rightarrow> membership option \<Rightarrow>
     'a workflow_db_scheme \<Rightarrow> err + (transfer \<times> (transfer_item \<times> product \<times> variant option) list)" where
  "open_transfer ord business passed user membership db =
     ebind (require_inventory_write ord db business user ''inventory.transfer'' membership
             [Some (tr_from passed), Some (tr_to passed)] []) (\<lambda>_.
     ebind (transfer_of db (biz_id business) (tr_id passed)) (\<lambda>t.
     ebind (emap (\<lambda>it. ebind (item_objects db (ti_product it) (ti_variant it)) (\<lambda>pv. Inr (it, pv)))
             (tr_items t)) (\<lambda>items.
     ebind (require_tailoring_inventory_write ord db business (map (\<lambda>x. fst (snd x)) items) user
             ''inventory.transfer'' membership) (\<lambda>_. Inr (t, items)))))"

definition dispatch_transfer ::
    "(string list \<Rightarrow> string list) \<Rightarrow> business \<Rightarrow> transfer \<Rightarrow> user option \<Rightarrow> membership option \<Rightarrow>
     'a workflow_db_scheme \<Rightarrow> err + 'a workflow_db_scheme" where
  "dispatch_transfer ord business passed user membership db =
     ebind (open_transfer ord business passed user membership db) (\<lambda>(t, items).
     if tr_status t \<noteq> T_DRAFT \<and> tr_status t \<noteq> T_APPROVED
     then Inl (ValidationError ''Transfer cannot be dispatched in its current status.'')
     else ebind (efold move_stock
                  (map (\<lambda>(it, pv). transfer_movement business t user True ''Transfer'' it pv) items) db) (\<lambda>db1.
       Inr (log_audit ''transfer.dispatched'' ''inventory''
              (''Transfer '' @ tr_number t @ '' dispatched.'')
              (db1\<lparr>transfers := save_row tr_id (t\<lparr>tr_status := T_DISPATCHED,
                 tr_dispatched_by := upk user, tr_dispatched_at := Some (clock db)\<rparr>) (transfers db1)\<rparr>))))"

definition receive_transfer ::
    "(string list \<Rightarrow> string list) \<Rightarrow> business \<Rightarrow> transfer \<Rightarrow> user option \<Rightarrow> membership option \<Rightarrow>
     'a workflow_db_scheme \<Rightarrow> err + 'a workflow_db_scheme" where
  "receive_transfer ord business passed user membership db =
     ebind (open_transfer ord business passed user membership db) (\<lambda>(t, items).
     if tr_status t \<noteq> T_DISPATCHED
     then Inl (ValidationError ''Only dispatched transfers can be received.'')
     else ebind (efold move_stock
                  (map (\<lambda>(it, pv). transfer_movement business t user False ''Transfer'' it pv) items) db) (\<lambda>db1.
       Inr (log_audit ''transfer.received'' ''inventory''
              (''Transfer '' @ tr_number t @ '' received.'')
              (db1\<lparr>transfers := save_row tr_id (t\<lparr>tr_status := T_RECEIVED,
                 tr_received_by := upk user, tr_received_at := Some (clock db)\<rparr>) (transfers db1)\<rparr>))))"

definition cancel_transfer ::
    "(string list \<Rightarrow> string list) \<Rightarrow> business \<Rightarrow> transfer \<Rightarrow> user option \<Rightarrow> membership option \<Rightarrow>
     'a workflow_db_scheme \<Rightarrow> err + 'a workflow_db_scheme" where
  "cancel_transfer ord business passed user membership db =
     ebind (open_transfer ord business passed user membership db) (\<lambda>(t, items).
     ebind (if tr_status t = T_DISPATCHED
            then efold move_stock
              (map (\<lambda>(it, pv). transfer_movement business t user False ''TransferCancel'' it pv) items) db
            else if tr_status t = T_RECEIVED
            then Inl (ValidationError ''Received transfers cannot be cancelled.'')
            else if tr_status t \<noteq> T_DRAFT \<and> tr_status t \<noteq> T_APPROVED
            then Inl (ValidationError ''Transfer cannot be cancelled in its current status.'')
            else Inr db) (\<lambda>db1.
       Inr (log_audit ''transfer.cancelled'' ''inventory''
              (''Transfer '' @ tr_number t @ '' cancelled.'')
              (db1\<lparr>transfers := save_row tr_id (t\<lparr>tr_status := T_CANCELLED\<rparr>) (transfers db1)\<rparr>))))"

section \<open>Adjustments\<close>

fun adjust_movement :: "adjust_reason \<Rightarrow> movement_type" where
  "adjust_movement R_DAMAGE = DAMAGE"
| "adjust_movement R_EXPIRY = WASTAGE"
| "adjust_movement R_LOSS = ADJUST_OUT"
| "adjust_movement R_THEFT = ADJUST_OUT"
| "adjust_movement R_WASTAGE = WASTAGE"
| "adjust_movement R_INTERNAL = INTERNAL"
| "adjust_movement R_SAMPLE = INTERNAL"
| "adjust_movement R_COUNT = COUNT"
| "adjust_movement R_DATA = ADJUST_OUT"
| "adjust_movement R_OTHER = ADJUST_OUT"

fun reason_label :: "adjust_reason \<Rightarrow> string" where
  "reason_label R_DAMAGE = ''Damage''"
| "reason_label R_EXPIRY = ''Expiry''"
| "reason_label R_LOSS = ''Loss''"
| "reason_label R_THEFT = ''Theft''"
| "reason_label R_WASTAGE = ''Wastage''"
| "reason_label R_INTERNAL = ''Internal use''"
| "reason_label R_SAMPLE = ''Sample''"
| "reason_label R_COUNT = ''Count correction''"
| "reason_label R_DATA = ''Data correction''"
| "reason_label R_OTHER = ''Other''"

definition adjustment_movement ::
    "business \<Rightarrow> adjustment \<Rightarrow> user option \<Rightarrow> adjustment_item \<Rightarrow> product \<times> variant option \<Rightarrow> movement" where
  "adjustment_movement business a user item pv =
     (business, ad_warehouse a, fst pv, snd pv,
      \<lparr>ma_type = (if 0 < ai_change item then ADJUST_IN else adjust_movement (ad_reason a)),
       ma_quantity = dec (ai_change item),
       ma_unit_cost = dec (item_average_cost (fst pv) (snd pv)),
       ma_reference_type = ''Adjustment'', ma_reference_id = ad_number a, ma_user = upk user,
       ma_notes = take 300 (ad_notes a), ma_enforce = True\<rparr>)"

definition adjustment_items ::
    "'a stock_db_scheme \<Rightarrow> adjustment \<Rightarrow> err + (adjustment_item \<times> product \<times> variant option) list" where
  "adjustment_items db a =
     emap (\<lambda>it. ebind (item_objects db (ai_product it) (ai_variant it)) (\<lambda>pv. Inr (it, pv))) (ad_items a)"

definition apply_adjustment ::
    "business \<Rightarrow> adjustment \<Rightarrow> user option \<Rightarrow> 'a stock_db_scheme \<Rightarrow> err + 'a stock_db_scheme" where
  "apply_adjustment business a user db =
     ebind (adjustment_items db a) (\<lambda>items.
       efold move_stock
         (map (\<lambda>(it, pv). adjustment_movement business a user it pv)
           (filter (\<lambda>x. ai_change (fst x) \<noteq> 0) items)) db)"

definition check_parent_repair :: "'a stock_db_scheme \<Rightarrow> id \<Rightarrow> warehouse \<Rightarrow> input_row \<Rightarrow> err + unit" where
  "check_parent_repair db b w r =
     (let p = in_product r; current = get_stock db b (wh_id w) (prod_id p) None in
      require (\<not> (is_meter_tailoring p \<and> has_variants p \<and> in_variant r = None
                  \<and> (current = 0 \<or> in_quantity r \<noteq> dec (- current))))
        (ValidationError (''Legacy parent stock for '' @ prod_name p
           @ '' must be corrected exactly to zero.'')))"

definition create_adjustment ::
    "(string list \<Rightarrow> string list) \<Rightarrow> business \<Rightarrow> warehouse \<Rightarrow> adjust_reason \<Rightarrow> input_row list \<Rightarrow> user option \<Rightarrow>
     string \<Rightarrow> bool \<Rightarrow> membership option \<Rightarrow> 'a workflow_db_scheme \<Rightarrow> err + 'a workflow_db_scheme" where
  "create_adjustment ord business w reason rows user notes requires_approval membership db =
     (let b = biz_id business in
      ebind (require_inventory_write ord db business user ''inventory.adjust'' membership [Some w]
              (input_refs rows)) (\<lambda>_.
      ebind (validate_warehouse b w) (\<lambda>_.
      ebind (lock_inventory_rows db b True rows) (\<lambda>locked.
      ebind (require_tailoring_inventory_write ord db business (map in_product locked) user
              ''inventory.adjust'' membership) (\<lambda>_.
      ebind (emap (check_parent_repair db b w) locked) (\<lambda>_.
      let a = \<lparr>ad_id = next_pk ad_id (adjustments db), ad_business = b,
               ad_number = next_number ''ADJ'' 6
                 (map ad_number (filter (\<lambda>x. ad_business x = b) (adjustments db))),
               ad_warehouse = w, ad_reason = reason,
               ad_status = (if requires_approval then A_PENDING else A_APPROVED),
               ad_created_by = upk user, ad_approved_by = None, ad_notes = notes,
               ad_items = map (\<lambda>r. \<lparr>ai_product = prod_id (in_product r),
                   ai_variant = map_option var_id (in_variant r),
                   ai_previous = get_stock db b (wh_id w) (prod_id (in_product r))
                     (map_option var_id (in_variant r)),
                   ai_change = qty (in_quantity r)\<rparr>) locked\<rparr>;
          db1 = db\<lparr>adjustments := adjustments db @ [a]\<rparr>
      in ebind (if \<not> requires_approval then apply_adjustment business a user db1
                else Inr (db1\<lparr>notifications := notifications db1 @
                  map (\<lambda>u. \<lparr>nt_business = b, nt_recipient = u, nt_category = ''adjustment_pending'',
                             nt_product = None, nt_read = False\<rparr>)
                    (role_members db1 b ''inventory.adjust_approve'')\<rparr>)) (\<lambda>db2.
         Inr (log_audit ''adjustment.created'' ''inventory''
                (''Adjustment '' @ ad_number a @ '' ('' @ reason_label reason @ '') created.'') db2))))))))"

definition adjustment_of :: "'a workflow_db_scheme \<Rightarrow> id \<Rightarrow> id \<Rightarrow> err + adjustment" where
  "adjustment_of db b i =
     (case find (\<lambda>t. ad_id t = i \<and> ad_business t = b) (adjustments db) of
        Some t \<Rightarrow> Inr t | None \<Rightarrow> Inl DoesNotExist)"

definition open_adjustment ::
    "(string list \<Rightarrow> string list) \<Rightarrow> business \<Rightarrow> adjustment \<Rightarrow> user option \<Rightarrow> membership option \<Rightarrow>
     'a workflow_db_scheme \<Rightarrow> err + adjustment" where
  "open_adjustment ord business passed user membership db =
     ebind (require_inventory_write ord db business user ''inventory.adjust_approve'' membership
             [Some (ad_warehouse passed)] []) (\<lambda>_.
     ebind (adjustment_of db (biz_id business) (ad_id passed)) (\<lambda>a.
     ebind (adjustment_items db a) (\<lambda>items.
     ebind (require_tailoring_inventory_write ord db business (map (\<lambda>x. fst (snd x)) items) user
             ''inventory.adjust_approve'' membership) (\<lambda>_. Inr a))))"

definition approve_adjustment ::
    "(string list \<Rightarrow> string list) \<Rightarrow> business \<Rightarrow> adjustment \<Rightarrow> user option \<Rightarrow> membership option \<Rightarrow>
     'a workflow_db_scheme \<Rightarrow> err + 'a workflow_db_scheme" where
  "approve_adjustment ord business passed user membership db =
     ebind (open_adjustment ord business passed user membership db) (\<lambda>a.
     if ad_status a \<noteq> A_PENDING then Inl (ValidationError ''Only pending adjustments can be approved.'')
     else let a' = a\<lparr>ad_status := A_APPROVED, ad_approved_by := upk user\<rparr>;
              db1 = db\<lparr>adjustments := save_row ad_id a' (adjustments db)\<rparr>
       in ebind (apply_adjustment business a' user db1) (\<lambda>db2.
         Inr (log_audit ''adjustment.approved'' ''inventory''
                (''Adjustment '' @ ad_number a @ '' approved.'') db2)))"

definition reject_adjustment ::
    "(string list \<Rightarrow> string list) \<Rightarrow> business \<Rightarrow> adjustment \<Rightarrow> user option \<Rightarrow> membership option \<Rightarrow>
     'a workflow_db_scheme \<Rightarrow> err + 'a workflow_db_scheme" where
  "reject_adjustment ord business passed user membership db =
     ebind (open_adjustment ord business passed user membership db) (\<lambda>a.
     if ad_status a \<noteq> A_PENDING then Inl (ValidationError ''Only pending adjustments can be rejected.'')
     else Inr (log_audit ''adjustment.rejected'' ''inventory''
                (''Adjustment '' @ ad_number a @ '' rejected.'')
                (db\<lparr>adjustments := save_row ad_id
                   (a\<lparr>ad_status := A_REJECTED, ad_approved_by := upk user\<rparr>) (adjustments db)\<rparr>)))"

section \<open>Physical counts\<close>

definition start_count ::
    "(string list \<Rightarrow> string list) \<Rightarrow> business \<Rightarrow> warehouse \<Rightarrow> user option \<Rightarrow> string \<Rightarrow> membership option \<Rightarrow>
     'a workflow_db_scheme \<Rightarrow> err + 'a workflow_db_scheme" where
  "start_count ord business w user notes membership db =
     (let b = biz_id business in
      ebind (require_inventory_write ord db business user ''inventory.count'' membership [Some w] []) (\<lambda>c.
      ebind (validate_warehouse b w) (\<lambda>_.
      Inr (db\<lparr>counts := counts db @
        [\<lparr>ct_id = next_pk ct_id (counts db), ct_business = b,
          ct_number = next_number ''CNT'' 6 (map ct_number (filter (\<lambda>x. ct_business x = b) (counts db))),
          ct_warehouse = w, ct_status = C_OPEN, ct_created_by = upk user, ct_approved_by = None,
          ct_notes = notes,
          ct_items = map (\<lambda>l. \<lparr>ci_product = lv_product l, ci_variant = lv_variant l,
              ci_expected = lv_quantity l, ci_counted = None\<rparr>)
            (filter (\<lambda>l. lv_business l = b \<and> lv_warehouse l = wh_id w
               \<and> (has_module c ''tailoring''
                  \<or> \<not> (case row_by prod_id (lv_product l) (products db) of
                        Some p \<Rightarrow> is_tailoring_item p | None \<Rightarrow> True))) (levels db))\<rparr>]\<rparr>))))"

definition count_of :: "'a workflow_db_scheme \<Rightarrow> id \<Rightarrow> id \<Rightarrow> err + stock_count" where
  "count_of db b i =
     (case find (\<lambda>t. ct_id t = i \<and> ct_business t = b) (counts db) of
        Some t \<Rightarrow> Inr t | None \<Rightarrow> Inl DoesNotExist)"

definition count_variance :: "count_item \<Rightarrow> milli option" where
  "count_variance i = map_option (\<lambda>c. c - ci_expected i) (ci_counted i)"

definition count_corrected :: "count_item \<Rightarrow> bool" where
  "count_corrected i = (case count_variance i of None \<Rightarrow> False | Some v \<Rightarrow> v \<noteq> 0)"

definition count_movement ::
    "business \<Rightarrow> stock_count \<Rightarrow> user option \<Rightarrow> count_item \<Rightarrow> product \<times> variant option \<Rightarrow> movement" where
  "count_movement business ct user item pv =
     (business, ct_warehouse ct, fst pv, snd pv,
      \<lparr>ma_type = COUNT,
       ma_quantity = dec (case count_variance item of Some v \<Rightarrow> v | None \<Rightarrow> 0),
       ma_unit_cost = dec (item_average_cost (fst pv) (snd pv)),
       ma_reference_type = ''StockCount'', ma_reference_id = ct_number ct, ma_user = upk user,
       ma_notes = [], ma_enforce = False\<rparr>)"

definition count_items ::
    "'a stock_db_scheme \<Rightarrow> stock_count \<Rightarrow> err + (count_item \<times> product \<times> variant option) list" where
  "count_items db ct =
     emap (\<lambda>it. ebind (item_objects db (ci_product it) (ci_variant it)) (\<lambda>pv. Inr (it, pv))) (ct_items ct)"

definition close_count ::
    "stock_count \<Rightarrow> user option \<Rightarrow> nat \<Rightarrow> 'a workflow_db_scheme \<Rightarrow> 'a workflow_db_scheme" where
  "close_count ct user corrections db =
     log_audit ''count.approved'' ''inventory''
       (''Stock count '' @ ct_number ct @ '' approved with '' @ nat_str corrections @ '' corrections.'')
       (db\<lparr>counts := save_row ct_id (ct\<lparr>ct_status := C_APPROVED, ct_approved_by := upk user\<rparr>)
             (counts db)\<rparr>)"

definition approve_count ::
    "(string list \<Rightarrow> string list) \<Rightarrow> business \<Rightarrow> stock_count \<Rightarrow> user option \<Rightarrow> membership option \<Rightarrow>
     'a workflow_db_scheme \<Rightarrow> err + 'a workflow_db_scheme" where
  "approve_count ord business passed user membership db =
     ebind (require_inventory_write ord db business user ''inventory.adjust_approve'' membership
             [Some (ct_warehouse passed)] []) (\<lambda>_.
     ebind (count_of db (biz_id business) (ct_id passed)) (\<lambda>ct.
     if ct_status ct \<noteq> C_OPEN \<and> ct_status ct \<noteq> C_REVIEW
     then Inl (ValidationError ''This count is not open.'')
     else ebind (count_items db ct) (\<lambda>items.
       ebind (require_tailoring_inventory_write ord db business
               (map (\<lambda>x. fst (snd x)) (filter (\<lambda>x. count_corrected (fst x)) items))
               user ''inventory.adjust_approve'' membership) (\<lambda>_.
       ebind (efold move_stock
               (map (\<lambda>(it, pv). count_movement business ct user it pv)
                 (filter (\<lambda>x. count_corrected (fst x)) items)) db) (\<lambda>db1.
       Inr (close_count ct user (length (filter (\<lambda>x. count_corrected (fst x)) items)) db1))))))"

section \<open>Items and their movements\<close>

lemma emap_paired:
  "emap (\<lambda>x. ebind (g x) (\<lambda>y. Inr (x, y))) xs = Inr ps \<Longrightarrow>
     map fst ps = xs \<and> (\<forall>q \<in> set ps. g (fst q) = Inr (snd q))"
  by (induction xs arbitrary: ps) (force simp: result_simps)+

lemma item_objects_Inr:
  "item_objects db pid vid = Inr (p, v) \<Longrightarrow> prod_id p = pid \<and> map_option var_id v = vid"
  by (cases vid; cases "row_by var_id (the vid) (variants db)"; cases "row_by prod_id pid (products db)")
    (auto simp: item_objects_def dest: row_by_Some)

definition items_sum :: "(stock_key \<Rightarrow> bool) \<Rightarrow> id \<Rightarrow> id \<Rightarrow> transfer_item list \<Rightarrow> milli" where
  "items_sum P b w its =
     (\<Sum>it \<leftarrow> its. if P (b, w, ti_product it, ti_variant it) then ti_quantity it else 0)"

lemma movement_sums:
  assumes "\<And>q. q \<in> set items \<Longrightarrow> moved_key (f (fst q) (snd q)) = k (fst q)
      \<and> moved_amount (f (fst q) (snd q)) = n (fst q)"
  shows "(\<Sum>m \<leftarrow> map (\<lambda>(it, pv). f it pv) items. if P (moved_key m) then moved_amount m else 0)
    = (\<Sum>it \<leftarrow> map fst items. if P (k it) then n it else 0)"
  using assms by (induction items) auto

lemma sum_filter_zero:
  fixes n :: "'x \<Rightarrow> int"
  assumes "\<And>x. \<not> Q x \<Longrightarrow> n x = 0"
  shows "(\<Sum>x \<leftarrow> filter Q xs. if P (k x) then n x else 0) = (\<Sum>x \<leftarrow> xs. if P (k x) then n x else 0)"
  using assms by (induction xs) auto

lemma transfer_movement_moved:
  assumes "item_objects db (ti_product it) (ti_variant it) = Inr pv"
  shows "moved_key (transfer_movement business t user out ref it pv) =
      (biz_id business, wh_id (if out \<or> ref = ''TransferCancel'' then tr_from t else tr_to t),
       ti_product it, ti_variant it)"
    "moved_amount (transfer_movement business t user out ref it pv) =
      (if out then - ti_quantity it else ti_quantity it)"
  using item_objects_Inr[of db "ti_product it" "ti_variant it" "fst pv" "snd pv"] assms
  by (simp_all add: transfer_movement_def movement_key_def)

lemma signed_items_sum:
  "(\<Sum>it \<leftarrow> its. if P (b, w, ti_product it, ti_variant it)
      then (if out then - ti_quantity it else ti_quantity it) else 0)
    = (if out then - 1 else 1) * items_sum P b w its"
  by (induction its) (simp_all add: items_sum_def)

lemma transfer_moves_sum:
  assumes "\<And>q. q \<in> set items \<Longrightarrow> item_objects db (ti_product (fst q)) (ti_variant (fst q)) = Inr (snd q)"
  shows "(\<Sum>m \<leftarrow> map (\<lambda>(it, pv). transfer_movement business t user out ref it pv) items.
      if P (moved_key m) then moved_amount m else 0)
    = (if out then - 1 else 1) *
      items_sum P (biz_id business) (wh_id (if out \<or> ref = ''TransferCancel'' then tr_from t else tr_to t))
        (map fst items)"
  unfolding signed_items_sum[symmetric]
  by (rule movement_sums) (simp add: transfer_movement_moved[OF assms])

lemma move_stock_frame:
  assumes "move_stock m db = Inr db'"
  shows "\<exists>ps vs ls ms ns. db' = db\<lparr>products := ps, variants := vs, levels := ls, movements := ms,
    notifications := ns\<rparr>"
  using assms record_movement_frame by (cases m) simp

text \<open>Movements leave the documents and the rows of the core alone.\<close>

lemma moves_frame:
  fixes db :: "'a workflow_db_scheme"
  assumes "efold move_stock ms db = Inr db'"
  shows "transfers db' = transfers db \<and> adjustments db' = adjustments db \<and> counts db' = counts db
    \<and> memberships db' = memberships db \<and> subscriptions db' = subscriptions db \<and> clock db' = clock db"
proof (rule efold_invariant[OF assms, where I = "\<lambda>d. transfers d = transfers db
      \<and> adjustments d = adjustments db \<and> counts d = counts db \<and> memberships d = memberships db
      \<and> subscriptions d = subscriptions db \<and> clock d = clock db"])
  show "transfers db = transfers db \<and> adjustments db = adjustments db \<and> counts db = counts db
    \<and> memberships db = memberships db \<and> subscriptions db = subscriptions db \<and> clock db = clock db"
    by simp
next
  fix m and u v :: "'a workflow_db_scheme"
  assume u: "transfers u = transfers db \<and> adjustments u = adjustments db \<and> counts u = counts db
    \<and> memberships u = memberships db \<and> subscriptions u = subscriptions db \<and> clock u = clock db"
    and "move_stock m u = Inr v"
  from move_stock_frame[OF this(2)] u
  show "transfers v = transfers db \<and> adjustments v = adjustments db \<and> counts v = counts db
    \<and> memberships v = memberships db \<and> subscriptions v = subscriptions db \<and> clock v = clock db"
    by auto
qed

lemma log_audit_frame [simp]:
  "levels (log_audit a m d db) = levels db" "movements (log_audit a m d db) = movements db"
  "transfers (log_audit a m d wdb) = transfers wdb" "adjustments (log_audit a m d wdb) = adjustments wdb"
  "counts (log_audit a m d wdb) = counts wdb"
  by (simp_all add: log_audit_def)

section \<open>What each transfer operation does\<close>

lemma transfer_of_Inr: "transfer_of db b i = Inr t \<Longrightarrow> t \<in> set (transfers db) \<and> tr_id t = i \<and> tr_business t = b"
  by (auto simp: transfer_of_def split: option.splits dest: find_Some_mem)

lemma open_transfer_Inr:
  assumes "open_transfer ord business passed user membership db = Inr (t, items)"
  shows "t \<in> set (transfers db)" "tr_id t = tr_id passed" "tr_business t = biz_id business"
    "map fst items = tr_items t"
    "\<And>q. q \<in> set items \<Longrightarrow> item_objects db (ti_product (fst q)) (ti_variant (fst q)) = Inr (snd q)"
proof -
  from assms have t: "transfer_of db (biz_id business) (tr_id passed) = Inr t"
    and items: "emap (\<lambda>it. ebind (item_objects db (ti_product it) (ti_variant it)) (\<lambda>pv. Inr (it, pv)))
      (tr_items t) = Inr items"
    by (auto simp: open_transfer_def result_simps)
  from transfer_of_Inr[OF t] show "t \<in> set (transfers db)" "tr_id t = tr_id passed"
    "tr_business t = biz_id business" by auto
  from emap_paired[OF items] show "map fst items = tr_items t"
    "\<And>q. q \<in> set items \<Longrightarrow> item_objects db (ti_product (fst q)) (ti_variant (fst q)) = Inr (snd q)"
    by auto
qed

text \<open>A document update on top of stock movements: the shared shape of the three operations.\<close>

definition transfer_effect ::
    "id \<Rightarrow> 'a workflow_db_scheme \<Rightarrow> 'a workflow_db_scheme \<Rightarrow> transfer \<Rightarrow> transfer_status \<Rightarrow>
     (transfer \<Rightarrow> warehouse) \<Rightarrow> int \<Rightarrow> bool" where
  "transfer_effect b db db' t st side dir =
     (t \<in> set (transfers db) \<and> tr_business t = b \<and> stock_inv db'
      \<and> (\<exists>t'. tr_id t' = tr_id t \<and> tr_business t' = b \<and> tr_number t' = tr_number t \<and> tr_from t' = tr_from t
           \<and> tr_to t' = tr_to t \<and> tr_items t' = tr_items t \<and> tr_status t' = st
           \<and> transfers db' = save_row tr_id t' (transfers db))
      \<and> (\<forall>P. held_stock P db' = held_stock P db + dir * items_sum P b (wh_id (side t)) (tr_items t)))"

lemma transfer_effectI:
  fixes db :: "'a workflow_db_scheme"
  assumes o: "open_transfer ord business passed user membership db = Inr (t, items)"
    and moves: "efold move_stock
        (map (\<lambda>(it, pv). transfer_movement business t user out ref it pv) items) db = Inr db1"
    and inv: "stock_inv db"
    and t': "tr_id t' = tr_id t" "tr_business t' = tr_business t" "tr_number t' = tr_number t"
      "tr_from t' = tr_from t" "tr_to t' = tr_to t" "tr_items t' = tr_items t" "tr_status t' = st"
    and db': "db' = log_audit a m d (db1\<lparr>transfers := save_row tr_id t' (transfers db1)\<rparr>)"
    and side: "side t = (if out \<or> ref = ''TransferCancel'' then tr_from t else tr_to t)"
  shows "transfer_effect (biz_id business) db db' t st side (if out then - 1 else 1)"
proof -
  note op = open_transfer_Inr[OF o]
  have held: "held_stock P db1 = held_stock P db
      + (if out then - 1 else 1) * items_sum P (biz_id business) (wh_id (side t)) (tr_items t)" for P
    using stock.moves_held[OF moves inv, of P] transfer_moves_sum[OF op(5), where items = items and P = P]
    by (simp add: op(4) side)
  have "stock_inv db1" by (rule stock.moves_ok[OF moves inv])
  then have "stock_inv db'" by (simp add: db' stock_inv_def)
  moreover have "held_stock P db' = held_stock P db1" for P by (simp add: db' held_stock_def)
  moreover have "transfers db' = save_row tr_id t' (transfers db)"
    using moves_frame[OF moves] by (simp add: db')
  ultimately show ?thesis
    using op(1,3) t' held unfolding transfer_effect_def by auto
qed

lemma dispatch_effect:
  assumes "dispatch_transfer ord business passed user membership db = Inr db'" and "stock_inv db"
  obtains t where "tr_id t = tr_id passed" "tr_status t = T_DRAFT \<or> tr_status t = T_APPROVED"
    "transfer_effect (biz_id business) db db' t T_DISPATCHED tr_from (- 1)"
proof -
  from assms(1) obtain t items db1 where o: "open_transfer ord business passed user membership db = Inr (t, items)"
    and st: "tr_status t = T_DRAFT \<or> tr_status t = T_APPROVED"
    and moves: "efold move_stock
        (map (\<lambda>(it, pv). transfer_movement business t user True ''Transfer'' it pv) items) db = Inr db1"
    and db': "db' = log_audit ''transfer.dispatched'' ''inventory''
              (''Transfer '' @ tr_number t @ '' dispatched.'')
              (db1\<lparr>transfers := save_row tr_id (t\<lparr>tr_status := T_DISPATCHED,
                 tr_dispatched_by := upk user, tr_dispatched_at := Some (clock db)\<rparr>) (transfers db1)\<rparr>)"
    by (auto simp: dispatch_transfer_def result_simps split: if_splits)
  show ?thesis
    by (rule that[OF open_transfer_Inr(2)[OF o] st])
      (use transfer_effectI[OF o moves assms(2) _ _ _ _ _ _ _ db', of T_DISPATCHED tr_from] in simp)
qed

lemma receive_effect:
  assumes "receive_transfer ord business passed user membership db = Inr db'" and "stock_inv db"
  obtains t where "tr_id t = tr_id passed" "tr_status t = T_DISPATCHED"
    "transfer_effect (biz_id business) db db' t T_RECEIVED tr_to 1"
proof -
  from assms(1) obtain t items db1 where o: "open_transfer ord business passed user membership db = Inr (t, items)"
    and st: "tr_status t = T_DISPATCHED"
    and moves: "efold move_stock
        (map (\<lambda>(it, pv). transfer_movement business t user False ''Transfer'' it pv) items) db = Inr db1"
    and db': "db' = log_audit ''transfer.received'' ''inventory''
              (''Transfer '' @ tr_number t @ '' received.'')
              (db1\<lparr>transfers := save_row tr_id (t\<lparr>tr_status := T_RECEIVED,
                 tr_received_by := upk user, tr_received_at := Some (clock db)\<rparr>) (transfers db1)\<rparr>)"
    by (auto simp: receive_transfer_def result_simps split: if_splits)
  show ?thesis
    by (rule that[OF open_transfer_Inr(2)[OF o] st])
      (use transfer_effectI[OF o moves assms(2) _ _ _ _ _ _ _ db', of T_RECEIVED tr_to] in simp)
qed

lemma cancel_effect:
  assumes "cancel_transfer ord business passed user membership db = Inr db'" and "stock_inv db"
  obtains (in_transit) t where "tr_id t = tr_id passed" "tr_status t = T_DISPATCHED"
      "transfer_effect (biz_id business) db db' t T_CANCELLED tr_from 1"
    | (draft) t where "tr_id t = tr_id passed" "tr_status t = T_DRAFT \<or> tr_status t = T_APPROVED"
      "transfer_effect (biz_id business) db db' t T_CANCELLED tr_from 0"
proof -
  from assms(1) obtain t items db1 where o: "open_transfer ord business passed user membership db = Inr (t, items)"
    and moves: "(if tr_status t = T_DISPATCHED
            then efold move_stock
              (map (\<lambda>(it, pv). transfer_movement business t user False ''TransferCancel'' it pv) items) db
            else if tr_status t = T_RECEIVED
            then Inl (ValidationError ''Received transfers cannot be cancelled.'')
            else if tr_status t \<noteq> T_DRAFT \<and> tr_status t \<noteq> T_APPROVED
            then Inl (ValidationError ''Transfer cannot be cancelled in its current status.'')
            else Inr db) = Inr db1"
    and db': "db' = log_audit ''transfer.cancelled'' ''inventory''
              (''Transfer '' @ tr_number t @ '' cancelled.'')
              (db1\<lparr>transfers := save_row tr_id (t\<lparr>tr_status := T_CANCELLED\<rparr>) (transfers db1)\<rparr>)"
    by (auto simp: cancel_transfer_def result_simps)
  show ?thesis
  proof (cases "tr_status t = T_DISPATCHED")
    case True
    with moves have m: "efold move_stock
        (map (\<lambda>(it, pv). transfer_movement business t user False ''TransferCancel'' it pv) items) db = Inr db1"
      by simp
    show ?thesis
      by (rule in_transit[OF open_transfer_Inr(2)[OF o] True])
        (use transfer_effectI[OF o m assms(2) _ _ _ _ _ _ _ db', of T_CANCELLED tr_from] in simp)
  next
    case False
    with moves have st: "tr_status t = T_DRAFT \<or> tr_status t = T_APPROVED" and db1: "db1 = db"
      by (auto split: if_splits)
    have "transfer_effect (biz_id business) db db' t T_CANCELLED tr_from 0"
      using open_transfer_Inr(1,3)[OF o] assms(2)
      by (auto simp: transfer_effect_def db' db1 stock_inv_def held_stock_def
          intro!: exI[of _ "t\<lparr>tr_status := T_CANCELLED\<rparr>"])
    then show ?thesis by (rule draft[OF open_transfer_Inr(2)[OF o] st])
  qed
qed

section \<open>Transfers as a state machine\<close>

text \<open>The steps a transfer can take in the database; creation adds a draft.\<close>

inductive transfer_step :: "business \<Rightarrow> 'a workflow_db_scheme \<Rightarrow> 'a workflow_db_scheme \<Rightarrow> bool"
  for business :: business where
  create: "create_transfer ord business from_warehouse to_warehouse rows user notes membership db = Inr db'
    \<Longrightarrow> transfer_step business db db'"
| dispatch: "dispatch_transfer ord business passed user membership db = Inr db'
    \<Longrightarrow> transfer_step business db db'"
| receive: "receive_transfer ord business passed user membership db = Inr db'
    \<Longrightarrow> transfer_step business db db'"
| cancel: "cancel_transfer ord business passed user membership db = Inr db'
    \<Longrightarrow> transfer_step business db db'"

definition status_step :: "transfer_status \<Rightarrow> transfer_status \<Rightarrow> bool" where
  "status_step s s' =
     (case s of
        T_DRAFT \<Rightarrow> s' = T_DISPATCHED \<or> s' = T_CANCELLED
      | T_APPROVED \<Rightarrow> s' = T_DISPATCHED \<or> s' = T_CANCELLED
      | T_DISPATCHED \<Rightarrow> s' = T_RECEIVED \<or> s' = T_CANCELLED
      | _ \<Rightarrow> False)"

definition in_transit :: "'a workflow_db_scheme \<Rightarrow> id \<Rightarrow> id \<Rightarrow> id option \<Rightarrow> milli" where
  "in_transit db b p v =
     (\<Sum>t \<leftarrow> transfers db. if tr_business t = b \<and> tr_status t = T_DISPATCHED
        then \<Sum>it \<leftarrow> tr_items t. if ti_product it = p \<and> ti_variant it = v then ti_quantity it else 0
        else 0)"

text \<open>What a business owns of an item: on the shelves and on the road.\<close>

definition owned :: "'a workflow_db_scheme \<Rightarrow> id \<Rightarrow> id \<Rightarrow> id option \<Rightarrow> milli" where
  "owned db b p v = total_stock db b p v + in_transit db b p v"

definition transfers_ok :: "'a workflow_db_scheme \<Rightarrow> bool" where
  "transfers_ok db =
     (stock_inv db \<and> distinct (map tr_id (transfers db))
      \<and> (\<forall>b. distinct (map tr_number (filter (\<lambda>t. tr_business t = b) (transfers db)))))"

lemma filter_map_save:
  assumes "distinct (map tr_id ts)" and "t \<in> set ts" and "tr_id t' = tr_id t"
    and "tr_business t' = tr_business t" and "tr_number t' = tr_number t"
  shows "map tr_number (filter (\<lambda>t. tr_business t = b) (save_row tr_id t' ts))
    = map tr_number (filter (\<lambda>t. tr_business t = b) ts)"
  using assms
proof (induction ts)
  case Nil
  then show ?case by simp
next
  case (Cons x ts)
  show ?case
  proof (cases "x = t")
    case True
    then have "save_row tr_id t' ts = ts" using Cons.prems by (intro save_row_absent) auto
    then show ?thesis using True Cons.prems by (simp add: save_row_def)
  next
    case False
    then have "tr_id x \<noteq> tr_id t'" using Cons.prems by auto
    then show ?thesis using Cons False by (simp add: save_row_def)
  qed
qed

lemma transfer_effect_ok:
  assumes "transfer_effect b db db' t st side dir" and "transfers_ok db"
  shows "transfers_ok db'"
proof -
  obtain t' where t: "t \<in> set (transfers db)" "stock_inv db'" "tr_id t' = tr_id t"
    "tr_business t' = tr_business t" "tr_number t' = tr_number t"
    "transfers db' = save_row tr_id t' (transfers db)"
    using assms(1) unfolding transfer_effect_def by auto
  have d: "distinct (map tr_id (transfers db))" using assms(2) by (simp add: transfers_ok_def)
  show ?thesis
    using assms(2) t(2) filter_map_save[OF d t(1,3,4,5)] by (simp add: transfers_ok_def t(6))
qed

lemma owned_effect:
  assumes e: "transfer_effect b db db' t st side dir" and ok: "transfers_ok db"
    and balance: "dir + (if st = T_DISPATCHED then 1 else 0) = (if tr_status t = T_DISPATCHED then 1 else 0)"
  shows "owned db' b' p v = owned db b' p v"
proof -
  let ?n = "\<Sum>it \<leftarrow> tr_items t. if ti_product it = p \<and> ti_variant it = v then ti_quantity it else 0"
  obtain t' where t: "t \<in> set (transfers db)" "tr_business t = b" "tr_id t' = tr_id t" "tr_business t' = b"
    "tr_items t' = tr_items t" "tr_status t' = st" "transfers db' = save_row tr_id t' (transfers db)"
    and held: "\<And>P. held_stock P db' = held_stock P db + dir * items_sum P b (wh_id (side t)) (tr_items t)"
    using e unfolding transfer_effect_def by auto
  have d: "distinct (map tr_id (transfers db))" using ok by (simp add: transfers_ok_def)
  have "total_stock db' b' p v = total_stock db b' p v + (if b' = b then dir * ?n else 0)"
    unfolding total_stock_held held by (auto simp: items_sum_def)
  moreover have "in_transit db' b' p v = in_transit db b' p v
      - (if b' = b \<and> tr_status t = T_DISPATCHED then ?n else 0)
      + (if b' = b \<and> st = T_DISPATCHED then ?n else 0)"
    unfolding in_transit_def t(7)
    by (subst sum_save_row[OF d t(1,3)]) (simp add: t(2,4,5,6))
  moreover have "dir = (if tr_status t = T_DISPATCHED then 1 else 0) - (if st = T_DISPATCHED then 1 else 0)"
    using balance by linarith
  ultimately show ?thesis
    by (cases "b' = b"; cases "st = T_DISPATCHED"; cases "tr_status t = T_DISPATCHED")
      (simp_all add: owned_def)
qed

lemma create_transfer_Inr:
  assumes "create_transfer ord business fw tw rows user notes membership db = Inr db'"
  shows "\<exists>locked. wh_id fw \<noteq> wh_id tw \<and> (\<forall>r \<in> set locked. 0 < in_quantity r)
    \<and> db' = db\<lparr>transfers := transfers db
          @ [draft_transfer (biz_id business) fw tw user notes locked (transfers db)]\<rparr>"
  using assms
  by (auto simp: create_transfer_def Let_def result_simps list_ex_iff not_le split: if_splits)

lemma draft_transfer_fields [simp]:
  "tr_id (draft_transfer b fw tw user notes rows ts) = next_pk tr_id ts"
  "tr_business (draft_transfer b fw tw user notes rows ts) = b"
  "tr_status (draft_transfer b fw tw user notes rows ts) = T_DRAFT"
  "tr_number (draft_transfer b fw tw user notes rows ts) =
     next_number ''TRF'' 6 (map tr_number (filter (\<lambda>t. tr_business t = b) ts))"
  by (simp_all add: draft_transfer_def)

lemma create_transfer_ok:
  assumes "create_transfer ord business fw tw rows user notes membership db = Inr db'" and "transfers_ok db"
  shows "transfers_ok db'" "owned db' b p v = owned db b p v"
proof -
  let ?t = "\<lambda>locked. draft_transfer (biz_id business) fw tw user notes locked (transfers db)"
  obtain locked where db': "db' = db\<lparr>transfers := transfers db @ [?t locked]\<rparr>"
    using create_transfer_Inr[OF assms(1)] by blast
  have ids: "distinct (map tr_id (transfers db @ [?t locked]))"
    using assms(2) by (intro distinct_add_row) (simp_all add: transfers_ok_def)
  have numbers: "distinct (map tr_number (filter (\<lambda>t. tr_business t = b) (transfers db @ [?t locked])))" for b
    using assms(2) next_number_new(1)[of "''TRF''" 6
        "map tr_number (filter (\<lambda>t. tr_business t = biz_id business) (transfers db))"]
    by (cases "b = biz_id business") (simp_all add: transfers_ok_def)
  show "transfers_ok db'"
    using assms(2) ids numbers by (simp add: transfers_ok_def db' stock_inv_def)
  show "owned db' b p v = owned db b p v"
    by (simp add: owned_def total_stock_held held_stock_def in_transit_def db')
qed

lemma transfer_step_ok:
  assumes "transfer_step business db db'" and "transfers_ok db"
  shows "transfers_ok db' \<and> owned db' b p v = owned db b p v"
  using assms(1)
proof (cases rule: transfer_step.cases)
  case (create ord from_warehouse to_warehouse rows user remark membership)
  then show ?thesis using create_transfer_ok[OF _ assms(2)] by simp
next
  case (dispatch ord passed user membership)
  have inv: "stock_inv db" using assms(2) by (simp add: transfers_ok_def)
  from dispatch_effect[OF dispatch inv] obtain t where "tr_status t = T_DRAFT \<or> tr_status t = T_APPROVED"
    and e: "transfer_effect (biz_id business) db db' t T_DISPATCHED tr_from (- 1)" by metis
  then show ?thesis using transfer_effect_ok[OF e assms(2)] owned_effect[OF e assms(2)] by auto
next
  case (receive ord passed user membership)
  have inv: "stock_inv db" using assms(2) by (simp add: transfers_ok_def)
  from receive_effect[OF receive inv] obtain t where "tr_status t = T_DISPATCHED"
    and e: "transfer_effect (biz_id business) db db' t T_RECEIVED tr_to 1" by metis
  then show ?thesis using transfer_effect_ok[OF e assms(2)] owned_effect[OF e assms(2)] by auto
next
  case (cancel ord passed user membership)
  have inv: "stock_inv db" using assms(2) by (simp add: transfers_ok_def)
  show ?thesis
  proof (rule cancel_effect[OF cancel inv])
    fix t assume "tr_status t = T_DISPATCHED"
      and e: "transfer_effect (biz_id business) db db' t T_CANCELLED tr_from 1"
    then show ?thesis using transfer_effect_ok[OF e assms(2)] owned_effect[OF e assms(2)] by auto
  next
    fix t assume "tr_status t = T_DRAFT \<or> tr_status t = T_APPROVED"
      and e: "transfer_effect (biz_id business) db db' t T_CANCELLED tr_from 0"
    then show ?thesis using transfer_effect_ok[OF e assms(2)] owned_effect[OF e assms(2)] by auto
  qed
qed

lemma transfer_effect_status:
  assumes e: "transfer_effect b db db' t st side dir" and ok: "transfers_ok db"
    and step: "status_step (tr_status t) st" and u: "row_by tr_id i (transfers db) = Some u"
  shows "\<exists>u'. row_by tr_id i (transfers db') = Some u'
    \<and> (tr_status u' = tr_status u \<or> status_step (tr_status u) (tr_status u'))
    \<and> tr_items u' = tr_items u \<and> tr_from u' = tr_from u \<and> tr_to u' = tr_to u"
proof -
  obtain t' where t: "t \<in> set (transfers db)" "tr_id t' = tr_id t" "tr_items t' = tr_items t"
    "tr_from t' = tr_from t" "tr_to t' = tr_to t" "tr_status t' = st"
    "transfers db' = save_row tr_id t' (transfers db)"
    using e unfolding transfer_effect_def by auto
  show ?thesis
  proof (cases "i = tr_id t")
    case True
    have d: "inj_on tr_id (set (transfers db))" using ok by (simp add: transfers_ok_def distinct_map)
    have "u = t" using row_by_Some[OF u] t(1) True d by (auto dest: inj_onD)
    moreover have "row_by tr_id i (transfers db') = Some t'"
      using save_row_same[of tr_id t' "transfers db"] t(1,2) True by (simp add: t(7))
    ultimately show ?thesis using t step by auto
  next
    case False
    then have "row_by tr_id i (transfers db') = Some u"
      using u t(2) by (simp add: t(7) save_row_other)
    then show ?thesis by auto
  qed
qed

lemma transfer_step_status:
  assumes "transfer_step business db db'" and ok: "transfers_ok db"
    and u: "row_by tr_id i (transfers db) = Some u"
  shows "\<exists>u'. row_by tr_id i (transfers db') = Some u'
    \<and> (tr_status u' = tr_status u \<or> status_step (tr_status u) (tr_status u'))
    \<and> tr_items u' = tr_items u \<and> tr_from u' = tr_from u \<and> tr_to u' = tr_to u"
  using assms(1)
proof (cases rule: transfer_step.cases)
  case (create ord from_warehouse to_warehouse rows user remark membership)
  then obtain t where "db' = db\<lparr>transfers := transfers db @ [t]\<rparr>"
    using create_transfer_Inr by blast
  moreover have "i \<in> tr_id ` set (transfers db)" using row_by_Some[OF u] by auto
  ultimately show ?thesis using u by (simp add: row_by_append_old)
next
  case (dispatch ord passed user membership)
  have inv: "stock_inv db" using ok by (simp add: transfers_ok_def)
  from dispatch_effect[OF dispatch inv] obtain t where st: "tr_status t = T_DRAFT \<or> tr_status t = T_APPROVED"
    and e: "transfer_effect (biz_id business) db db' t T_DISPATCHED tr_from (- 1)" by metis
  from st have "status_step (tr_status t) T_DISPATCHED" by (auto simp: status_step_def)
  from transfer_effect_status[OF e ok this u] show ?thesis .
next
  case (receive ord passed user membership)
  have inv: "stock_inv db" using ok by (simp add: transfers_ok_def)
  from receive_effect[OF receive inv] obtain t where st: "tr_status t = T_DISPATCHED"
    and e: "transfer_effect (biz_id business) db db' t T_RECEIVED tr_to 1" by metis
  from st have "status_step (tr_status t) T_RECEIVED" by (simp add: status_step_def)
  from transfer_effect_status[OF e ok this u] show ?thesis .
next
  case (cancel ord passed user membership)
  have inv: "stock_inv db" using ok by (simp add: transfers_ok_def)
  show ?thesis
  proof (rule cancel_effect[OF cancel inv])
    fix t assume st: "tr_status t = T_DISPATCHED"
      and e: "transfer_effect (biz_id business) db db' t T_CANCELLED tr_from 1"
    from st have "status_step (tr_status t) T_CANCELLED" by (simp add: status_step_def)
    from transfer_effect_status[OF e ok this u] show ?thesis .
  next
    fix t assume st: "tr_status t = T_DRAFT \<or> tr_status t = T_APPROVED"
      and e: "transfer_effect (biz_id business) db db' t T_CANCELLED tr_from 0"
    from st have "status_step (tr_status t) T_CANCELLED" by (auto simp: status_step_def)
    from transfer_effect_status[OF e ok this u] show ?thesis .
  qed
qed

lemma transfer_steps_ok:
  assumes "(transfer_step business)\<^sup>*\<^sup>* db db'" and "transfers_ok db"
  shows "transfers_ok db' \<and> owned db' b p v = owned db b p v"
  using assms
proof (induction rule: rtranclp_induct)
  case base
  then show ?case by simp
next
  case (step u w)
  then show ?case using transfer_step_ok[OF step.hyps(2)] by simp
qed

section \<open>Adjustments and counts\<close>

lemma adjustment_items_Inr:
  assumes "adjustment_items db a = Inr items"
  shows "map fst items = ad_items a"
    "\<And>q. q \<in> set items \<Longrightarrow> item_objects db (ai_product (fst q)) (ai_variant (fst q)) = Inr (snd q)"
  using emap_paired[OF assms[unfolded adjustment_items_def]] by auto

definition adjustment_sum :: "(stock_key \<Rightarrow> bool) \<Rightarrow> id \<Rightarrow> adjustment \<Rightarrow> milli" where
  "adjustment_sum P b a =
     (\<Sum>it \<leftarrow> ad_items a. if P (b, wh_id (ad_warehouse a), ai_product it, ai_variant it)
        then ai_change it else 0)"

lemma apply_adjustment_effect:
  assumes "apply_adjustment business a user db = Inr db'" and "stock_inv db"
  shows "stock_inv db'" "held_stock P db' = held_stock P db + adjustment_sum P (biz_id business) a"
proof -
  from assms(1) obtain items where items: "adjustment_items db a = Inr items"
    and moves: "efold move_stock (map (\<lambda>(it, pv). adjustment_movement business a user it pv)
           (filter (\<lambda>x. ai_change (fst x) \<noteq> 0) items)) db = Inr db'"
    by (auto simp: apply_adjustment_def result_simps)
  show "stock_inv db'" by (rule stock.moves_ok[OF moves assms(2)])
  let ?its = "filter (\<lambda>x. ai_change (fst x) \<noteq> 0) items"
  let ?k = "\<lambda>it. (biz_id business, wh_id (ad_warehouse a), ai_product it, ai_variant it)"
  have "moved_key (adjustment_movement business a user (fst q) (snd q)) = ?k (fst q)
      \<and> moved_amount (adjustment_movement business a user (fst q) (snd q)) = ai_change (fst q)"
    if "q \<in> set ?its" for q
    using that adjustment_items_Inr(2)[OF items, of q]
      item_objects_Inr[of db "ai_product (fst q)" "ai_variant (fst q)" "fst (snd q)" "snd (snd q)"]
    by (simp add: adjustment_movement_def movement_key_def)
  then have "(\<Sum>m \<leftarrow> map (\<lambda>(it, pv). adjustment_movement business a user it pv) ?its.
      if P (moved_key m) then moved_amount m else 0)
    = (\<Sum>it \<leftarrow> map fst ?its. if P (?k it) then ai_change it else 0)"
    by (rule movement_sums[where k = ?k and n = ai_change and f = "adjustment_movement business a user"])
  also have "map fst ?its = filter (\<lambda>it. ai_change it \<noteq> 0) (ad_items a)"
    by (simp add: adjustment_items_Inr(1)[OF items, symmetric] filter_map o_def)
  also have "(\<Sum>it \<leftarrow> filter (\<lambda>it. ai_change it \<noteq> 0) (ad_items a). if P (?k it) then ai_change it else 0)
      = adjustment_sum P (biz_id business) a"
    unfolding adjustment_sum_def
    by (rule sum_filter_zero[where Q = "\<lambda>it. ai_change it \<noteq> 0" and n = ai_change]) simp
  finally show "held_stock P db' = held_stock P db + adjustment_sum P (biz_id business) a"
    unfolding stock.moves_held[OF moves assms(2), of P] by simp
qed

lemma apply_adjustment_frame:
  fixes db :: "'a workflow_db_scheme"
  assumes "apply_adjustment business a user db = Inr db'"
  shows "adjustments db' = adjustments db"
  using assms moves_frame by (fastforce simp: apply_adjustment_def result_simps)

lemma approve_adjustment_Inr:
  assumes "approve_adjustment ord business passed user membership db = Inr db'" and "stock_inv db"
  obtains a where "a \<in> set (adjustments db)" "ad_id a = ad_id passed" "ad_business a = biz_id business"
    "ad_status a = A_PENDING" "stock_inv db'"
    "\<And>P. held_stock P db' = held_stock P db + adjustment_sum P (biz_id business) a"
    "adjustments db' = save_row ad_id (a\<lparr>ad_status := A_APPROVED, ad_approved_by := upk user\<rparr>) (adjustments db)"
proof -
  from assms(1) obtain a db2 where o: "open_adjustment ord business passed user membership db = Inr a"
    and st: "ad_status a = A_PENDING"
    and ap: "apply_adjustment business (a\<lparr>ad_status := A_APPROVED, ad_approved_by := upk user\<rparr>) user
      (db\<lparr>adjustments := save_row ad_id (a\<lparr>ad_status := A_APPROVED, ad_approved_by := upk user\<rparr>) (adjustments db)\<rparr>)
      = Inr db2"
    and db': "db' = log_audit ''adjustment.approved'' ''inventory''
                (''Adjustment '' @ ad_number a @ '' approved.'') db2"
    by (auto simp: approve_adjustment_def Let_def result_simps split: if_splits)
  have a: "a \<in> set (adjustments db) \<and> ad_id a = ad_id passed \<and> ad_business a = biz_id business"
    using o by (auto simp: open_adjustment_def adjustment_of_def result_simps
        split: option.splits dest: find_Some_mem)
  have inv: "stock_inv (db\<lparr>adjustments := save_row ad_id
      (a\<lparr>ad_status := A_APPROVED, ad_approved_by := upk user\<rparr>) (adjustments db)\<rparr>)"
    using assms(2) by (simp add: stock_inv_def)
  show ?thesis
    using that[of a] a st apply_adjustment_effect[OF ap inv] apply_adjustment_frame[OF ap]
    by (simp add: db' stock_inv_def held_stock_def adjustment_sum_def)
qed

definition count_sum :: "(stock_key \<Rightarrow> bool) \<Rightarrow> id \<Rightarrow> stock_count \<Rightarrow> milli" where
  "count_sum P b ct =
     (\<Sum>it \<leftarrow> ct_items ct. if P (b, wh_id (ct_warehouse ct), ci_product it, ci_variant it)
        then (case count_variance it of Some v \<Rightarrow> v | None \<Rightarrow> 0) else 0)"

lemma approve_count_Inr:
  assumes "approve_count ord business passed user membership db = Inr db'" and "stock_inv db"
  obtains ct where "ct \<in> set (counts db)" "ct_id ct = ct_id passed" "ct_business ct = biz_id business"
    "ct_status ct = C_OPEN \<or> ct_status ct = C_REVIEW" "stock_inv db'"
    "\<And>P. held_stock P db' = held_stock P db + count_sum P (biz_id business) ct"
    "counts db' = save_row ct_id (ct\<lparr>ct_status := C_APPROVED, ct_approved_by := upk user\<rparr>) (counts db)"
proof -
  from assms(1) obtain ct items db1 where c: "count_of db (biz_id business) (ct_id passed) = Inr ct"
    and st: "ct_status ct = C_OPEN \<or> ct_status ct = C_REVIEW"
    and items: "count_items db ct = Inr items"
    and moves: "efold move_stock (map (\<lambda>(it, pv). count_movement business ct user it pv)
        (filter (\<lambda>x. count_corrected (fst x)) items)) db = Inr db1"
    and db': "db' = close_count ct user (length (filter (\<lambda>x. count_corrected (fst x)) items)) db1"
    by (auto simp: approve_count_def result_simps split: if_splits)
  note it = emap_paired[OF items[unfolded count_items_def]]
  let ?its = "filter (\<lambda>x. count_corrected (fst x)) items"
  let ?k = "\<lambda>it. (biz_id business, wh_id (ct_warehouse ct), ci_product it, ci_variant it)"
  let ?n = "\<lambda>it. case count_variance it of Some v \<Rightarrow> v | None \<Rightarrow> 0"
  have inv1: "stock_inv db1" by (rule stock.moves_ok[OF moves assms(2)])
  have "moved_key (count_movement business ct user (fst q) (snd q)) = ?k (fst q)
      \<and> moved_amount (count_movement business ct user (fst q) (snd q)) = ?n (fst q)"
    if "q \<in> set ?its" for q
    using that it
      item_objects_Inr[of db "ci_product (fst q)" "ci_variant (fst q)" "fst (snd q)" "snd (snd q)"]
    by (simp add: count_movement_def movement_key_def)
  note moved = this
  have held: "held_stock P db1 = held_stock P db + count_sum P (biz_id business) ct" for P
  proof -
    have "(\<Sum>m \<leftarrow> map (\<lambda>(it, pv). count_movement business ct user it pv) ?its.
        if P (moved_key m) then moved_amount m else 0)
      = (\<Sum>it \<leftarrow> map fst ?its. if P (?k it) then ?n it else 0)"
      by (rule movement_sums[where k = ?k and n = ?n and f = "count_movement business ct user"]) (rule moved)
    also have "map fst ?its = filter count_corrected (ct_items ct)"
      by (simp add: conjunct1[OF it, symmetric] filter_map o_def)
    also have "(\<Sum>it \<leftarrow> filter count_corrected (ct_items ct). if P (?k it) then ?n it else 0)
        = count_sum P (biz_id business) ct"
      unfolding count_sum_def
      by (rule sum_filter_zero[where Q = count_corrected and n = ?n])
        (auto simp: count_corrected_def split: option.splits)
    finally show ?thesis unfolding stock.moves_held[OF moves assms(2), of P] by simp
  qed
  have "ct \<in> set (counts db) \<and> ct_id ct = ct_id passed \<and> ct_business ct = biz_id business"
    using c by (auto simp: count_of_def split: option.splits dest: find_Some_mem)
  then show ?thesis
    using that[of ct] st inv1 held moves_frame[OF moves]
    by (simp add: db' close_count_def stock_inv_def held_stock_def)
qed

lemma transfer_effect_row:
  assumes "transfer_effect b db db' t st side dir" and "u \<in> set (transfers db')" and "tr_id u = tr_id t"
  shows "tr_items u = tr_items t \<and> tr_from u = tr_from t \<and> tr_to u = tr_to t"
  using assms set_save_row[of tr_id _ "transfers db"] by (fastforce simp: transfer_effect_def)

lemma transfer_effect_held:
  "transfer_effect b db db' t st side dir \<Longrightarrow>
     held_stock P db' = held_stock P db + dir * items_sum P b (wh_id (side t)) (tr_items t)"
  "transfer_effect b db db' t st side dir \<Longrightarrow> stock_inv db'"
  "transfer_effect b db db' t st side dir \<Longrightarrow> t \<in> set (transfers db)"
  by (simp_all add: transfer_effect_def)

lemma stock_at_inv: "stock_inv db \<Longrightarrow> stock_at db k = held_stock (\<lambda>k'. k' = k) db"
  by (simp add: stock_inv_def stock_at_held)

section \<open>Properties\<close>

text \<open>C27: creating, dispatching, receiving and cancelling transfers, in any order and by any
  users, never changes what the business owns of an item: the stock on all its shelves plus the
  goods of dispatched transfers stays the same.\<close>

theorem goods_conserved:
  assumes "(transfer_step business)\<^sup>*\<^sup>* db db'" and "transfers_ok db"
  shows "transfers_ok db' \<and> owned db' b p v = owned db b p v"
  using assms by (rule transfer_steps_ok)

definition sample_transfer :: transfer where
  "sample_transfer = \<lparr>tr_id = 1, tr_business = 1, tr_number = ''TRF-000001'',
     tr_from = warehouses sample_core ! 0, tr_to = warehouses sample_core ! 1, tr_status = T_DRAFT,
     tr_requested_by = Some 7, tr_dispatched_by = None, tr_received_by = None,
     tr_dispatched_at = None, tr_received_at = None, tr_notes = [],
     tr_items = [\<lparr>ti_product = 10, ti_variant = None, ti_quantity = 2000, ti_unit_cost = 1500\<rparr>]\<rparr>"

definition sample_adjustment :: adjustment where
  "sample_adjustment = \<lparr>ad_id = 1, ad_business = 1, ad_number = ''ADJ-000001'',
     ad_warehouse = warehouses sample_core ! 0, ad_reason = R_DAMAGE, ad_status = A_PENDING,
     ad_created_by = Some 7, ad_approved_by = None, ad_notes = [],
     ad_items = [\<lparr>ai_product = 10, ai_variant = None, ai_previous = 5000, ai_change = - 1000\<rparr>]\<rparr>"

definition sample_count :: stock_count where
  "sample_count = \<lparr>ct_id = 1, ct_business = 1, ct_number = ''CNT-000001'',
     ct_warehouse = warehouses sample_core ! 0, ct_status = C_OPEN, ct_created_by = Some 7,
     ct_approved_by = None, ct_notes = [],
     ct_items = [\<lparr>ci_product = 10, ci_variant = None, ci_expected = 5000, ci_counted = Some 4200\<rparr>]\<rparr>"

definition sample_workflows :: workflow_db where
  "sample_workflows = stock_db.extend sample_stock
     \<lparr>transfers = [sample_transfer], adjustments = [sample_adjustment], counts = [sample_count]\<rparr>"

lemma sample_workflows_ok: "transfers_ok sample_workflows"
  using sample_stock_inv
  by (simp add: transfers_ok_def stock_inv_def sample_workflows_def stock_db.extend_def)

definition the_result :: "err + 'a \<Rightarrow> 'a \<Rightarrow> 'a" where
  "the_result r d = (case r of Inl _ \<Rightarrow> d | Inr x \<Rightarrow> x)"

lemma the_result_Inr: "(case r of Inl _ \<Rightarrow> False | Inr _ \<Rightarrow> True) \<Longrightarrow> r = Inr (the_result r d)"
  by (simp add: the_result_def split: sum.splits)

definition sample_dispatch :: "err + workflow_db" where
  "sample_dispatch = dispatch_transfer (\<lambda>xs. xs) sample_business sample_transfer (Some sample_user) None
     sample_workflows"

definition sample_dispatched :: workflow_db where
  "sample_dispatched = the_result sample_dispatch sample_workflows"

lemma sample_dispatch_ok:
  "dispatch_transfer (\<lambda>xs. xs) sample_business sample_transfer (Some sample_user) None sample_workflows
     = Inr sample_dispatched"
proof -
  have "case sample_dispatch of Inl _ \<Rightarrow> False | Inr _ \<Rightarrow> True" by code_simp
  from the_result_Inr[OF this] show ?thesis by (simp add: sample_dispatched_def sample_dispatch_def)
qed

theorem goods_conserved_witness:
  "transfers_ok sample_dispatched \<and> owned sample_dispatched 1 10 None = 5000"
proof -
  have "(transfer_step sample_business)\<^sup>*\<^sup>* sample_workflows sample_dispatched"
    by (rule r_into_rtranclp) (rule transfer_step.dispatch[OF sample_dispatch_ok])
  from goods_conserved[OF this sample_workflows_ok]
  have "transfers_ok sample_dispatched \<and> owned sample_dispatched 1 10 None = owned sample_workflows 1 10 None" .
  moreover have "owned sample_workflows 1 10 None = 5000" by code_simp
  ultimately show ?thesis by simp
qed

text \<open>C32: along any sequence of transfer operations a transfer keeps its items and its two
  warehouses, and its status only moves forward: draft or approved to dispatched or cancelled,
  dispatched to received or cancelled; received, rejected and cancelled transfers stay as they are.\<close>

theorem transfer_lifecycle:
  assumes "(transfer_step business)\<^sup>*\<^sup>* db db'" and "transfers_ok db"
    and "row_by tr_id i (transfers db) = Some t"
  shows "\<exists>t'. row_by tr_id i (transfers db') = Some t' \<and> status_step\<^sup>*\<^sup>* (tr_status t) (tr_status t')
    \<and> tr_items t' = tr_items t \<and> tr_from t' = tr_from t \<and> tr_to t' = tr_to t"
  using assms
proof (induction rule: rtranclp_induct)
  case base
  then show ?case by simp
next
  case (step u w)
  then obtain t1 where t1: "row_by tr_id i (transfers u) = Some t1"
    "status_step\<^sup>*\<^sup>* (tr_status t) (tr_status t1)"
    "tr_items t1 = tr_items t \<and> tr_from t1 = tr_from t \<and> tr_to t1 = tr_to t" by blast
  have ok: "transfers_ok u" using transfer_steps_ok[OF step.hyps(1) step.prems(1)] by simp
  from transfer_step_status[OF step.hyps(2) ok t1(1)] t1(2,3) show ?case
    by (metis rtranclp.rtrancl_into_rtrancl)
qed

theorem transfer_lifecycle_witness:
  "\<exists>t'. row_by tr_id 1 (transfers sample_dispatched) = Some t' \<and> status_step\<^sup>*\<^sup>* T_DRAFT (tr_status t')"
proof -
  have "(transfer_step sample_business)\<^sup>*\<^sup>* sample_workflows sample_dispatched"
    by (rule r_into_rtranclp) (rule transfer_step.dispatch[OF sample_dispatch_ok])
  moreover have "row_by tr_id 1 (transfers sample_workflows) = Some sample_transfer" by code_simp
  ultimately show ?thesis
    using transfer_lifecycle[OF _ sample_workflows_ok, of sample_business sample_dispatched 1 sample_transfer]
    by (auto simp: sample_transfer_def)
qed

text \<open>Dispatching a transfer and then receiving it moves exactly its items from the source
  to the destination warehouse and touches no other stock.\<close>

lemma dispatch_receive_moves:
  assumes "dispatch_transfer ord business passed user membership db = Inr db1"
    and "receive_transfer ord' business passed' user' membership' db1 = Inr db2"
    and "tr_id passed' = tr_id passed" and "transfers_ok db"
  shows "\<exists>t \<in> set (transfers db). tr_id t = tr_id passed
    \<and> (\<forall>k. stock_at db2 k = stock_at db k
        - items_sum (\<lambda>k'. k' = k) (biz_id business) (wh_id (tr_from t)) (tr_items t)
        + items_sum (\<lambda>k'. k' = k) (biz_id business) (wh_id (tr_to t)) (tr_items t))"
proof -
  have inv: "stock_inv db" using assms(4) by (simp add: transfers_ok_def)
  obtain t where t: "tr_id t = tr_id passed"
    and e: "transfer_effect (biz_id business) db db1 t T_DISPATCHED tr_from (- 1)"
    by (rule dispatch_effect[OF assms(1) inv])
  obtain u where u: "tr_id u = tr_id passed'"
    and f: "transfer_effect (biz_id business) db1 db2 u T_RECEIVED tr_to 1"
    by (rule receive_effect[OF assms(2) transfer_effect_held(2)[OF e]])
  have same: "tr_items u = tr_items t \<and> tr_from u = tr_from t \<and> tr_to u = tr_to t"
    using transfer_effect_row[OF e transfer_effect_held(3)[OF f]] t u assms(3) by simp
  show ?thesis
    by (rule bexI[OF _ transfer_effect_held(3)[OF e]])
      (simp add: t stock_at_inv[OF inv] stock_at_inv[OF transfer_effect_held(2)[OF f]]
        transfer_effect_held(1)[OF e] transfer_effect_held(1)[OF f] same)
qed

lemma dispatch_receive_moves_witness:
  "\<exists>db2. receive_transfer (\<lambda>xs. xs) sample_business sample_transfer (Some sample_user) None
      sample_dispatched = Inr db2 \<and> stock_at db2 (1, 1, 10, None) = 3000 \<and> stock_at db2 (1, 2, 10, None) = 2000"
proof -
  have "case receive_transfer (\<lambda>xs. xs) sample_business sample_transfer (Some sample_user) None
      sample_dispatched of Inl _ \<Rightarrow> False | Inr _ \<Rightarrow> True" by code_simp
  then obtain db2 where r: "receive_transfer (\<lambda>xs. xs) sample_business sample_transfer
      (Some sample_user) None sample_dispatched = Inr db2" by (auto split: sum.splits)
  have rows: "transfers sample_workflows = [sample_transfer]" "biz_id sample_business = 1"
    "stock_at sample_workflows (1, 1, 10, None) = 5000" "stock_at sample_workflows (1, 2, 10, None) = 0"
    "tr_items sample_transfer = [\<lparr>ti_product = 10, ti_variant = None, ti_quantity = 2000, ti_unit_cost = 1500\<rparr>]"
    "wh_id (tr_from sample_transfer) = 1" "wh_id (tr_to sample_transfer) = 2"
    by code_simp+
  show ?thesis
    using dispatch_receive_moves[OF sample_dispatch_ok r refl sample_workflows_ok] r
    by (simp add: rows items_sum_def del: One_nat_def split_paired_All)
qed

text \<open>Cancelling a dispatched transfer gives every shelf back exactly the stock it had
  before the dispatch.\<close>

lemma dispatch_cancel_restores:
  assumes "dispatch_transfer ord business passed user membership db = Inr db1"
    and "cancel_transfer ord' business passed' user' membership' db1 = Inr db2"
    and "tr_id passed' = tr_id passed" and "transfers_ok db"
  shows "stock_at db2 k = stock_at db k"
proof -
  have inv: "stock_inv db" using assms(4) by (simp add: transfers_ok_def)
  obtain t where t: "tr_id t = tr_id passed"
    and e: "transfer_effect (biz_id business) db db1 t T_DISPATCHED tr_from (- 1)"
    by (rule dispatch_effect[OF assms(1) inv])
  have ok1: "transfers_ok db1" by (rule transfer_effect_ok[OF e assms(4)])
  have row: "tr_items u = tr_items t \<and> tr_from u = tr_from t \<and> tr_status u = T_DISPATCHED"
    if "u \<in> set (transfers db1)" and "tr_id u = tr_id passed'" for u
    using e that t assms(3) set_save_row[of tr_id _ "transfers db"]
    by (fastforce simp: transfer_effect_def)
  show ?thesis
  proof (rule cancel_effect[OF assms(2) transfer_effect_held(2)[OF e]])
    fix u assume u: "tr_id u = tr_id passed'"
      and f: "transfer_effect (biz_id business) db1 db2 u T_CANCELLED tr_from 1"
    show ?thesis
      using row[OF transfer_effect_held(3)[OF f] u]
      by (simp add: stock_at_inv[OF inv] stock_at_inv[OF transfer_effect_held(2)[OF f]]
        transfer_effect_held(1)[OF e] transfer_effect_held(1)[OF f])
  next
    fix u assume u: "tr_id u = tr_id passed'" "tr_status u = T_DRAFT \<or> tr_status u = T_APPROVED"
      and f: "transfer_effect (biz_id business) db1 db2 u T_CANCELLED tr_from 0"
    then show ?thesis using row[OF transfer_effect_held(3)[OF f] u(1)] by simp
  qed
qed

lemma dispatch_cancel_restores_witness:
  "\<exists>db2. cancel_transfer (\<lambda>xs. xs) sample_business sample_transfer (Some sample_user) None
      sample_dispatched = Inr db2 \<and> stock_at db2 (1, 1, 10, None) = 5000"
proof -
  have "case cancel_transfer (\<lambda>xs. xs) sample_business sample_transfer (Some sample_user) None
      sample_dispatched of Inl _ \<Rightarrow> False | Inr _ \<Rightarrow> True" by code_simp
  then obtain db2 where r: "cancel_transfer (\<lambda>xs. xs) sample_business sample_transfer
      (Some sample_user) None sample_dispatched = Inr db2" by (auto split: sum.splits)
  have "stock_at sample_workflows (1, 1, 10, None) = 5000" by code_simp
  with dispatch_cancel_restores[OF sample_dispatch_ok r refl sample_workflows_ok] r show ?thesis by simp
qed

text \<open>C33: approving a pending adjustment changes the stock of its warehouse by exactly the
  changes of its items, and the adjustment can never be approved again.\<close>

theorem adjustment_applied_once:
  assumes "approve_adjustment ord business passed user membership db = Inr db'" and "stock_inv db"
    and "distinct (map ad_id (adjustments db))" and "ad_id passed' = ad_id passed"
  shows "(\<exists>a \<in> set (adjustments db). ad_id a = ad_id passed
      \<and> (\<forall>k. stock_at db' k = stock_at db k + adjustment_sum (\<lambda>k'. k' = k) (biz_id business) a))
    \<and> (\<forall>db2. approve_adjustment ord' business passed' user' membership' db' \<noteq> Inr db2)"
proof -
  from approve_adjustment_Inr[OF assms(1,2)] obtain a where
    a: "a \<in> set (adjustments db)" "ad_id a = ad_id passed" "stock_inv db'"
    "\<And>P. held_stock P db' = held_stock P db + adjustment_sum P (biz_id business) a"
    "adjustments db' = save_row ad_id (a\<lparr>ad_status := A_APPROVED, ad_approved_by := upk user\<rparr>) (adjustments db)"
    by metis
  have effect: "stock_at db' k = stock_at db k + adjustment_sum (\<lambda>k'. k' = k) (biz_id business) a" for k
    by (simp add: stock_at_inv[OF assms(2)] stock_at_inv[OF a(3)] a(4))
  have "approve_adjustment ord' business passed' user' membership' db' \<noteq> Inr db2" for db2
  proof
    assume again: "approve_adjustment ord' business passed' user' membership' db' = Inr db2"
    from approve_adjustment_Inr[OF again a(3)] obtain c where
      "c \<in> set (adjustments db')" "ad_id c = ad_id passed'" "ad_status c = A_PENDING" by metis
    then show False
      using a(2,5) assms(4) set_save_row[of ad_id "a\<lparr>ad_status := A_APPROVED, ad_approved_by := upk user\<rparr>"
          "adjustments db"] by auto
  qed
  with effect a(1,2) show ?thesis by blast
qed

theorem adjustment_applied_once_witness:
  "\<exists>db'. approve_adjustment (\<lambda>xs. xs) sample_business sample_adjustment (Some sample_user) None
      sample_workflows = Inr db' \<and> stock_at db' (1, 1, 10, None) = 4000"
proof -
  have "case approve_adjustment (\<lambda>xs. xs) sample_business sample_adjustment (Some sample_user) None
      sample_workflows of Inl _ \<Rightarrow> False | Inr _ \<Rightarrow> True" by code_simp
  then obtain db' where r: "approve_adjustment (\<lambda>xs. xs) sample_business sample_adjustment
      (Some sample_user) None sample_workflows = Inr db'" by (auto split: sum.splits)
  have inv: "stock_inv sample_workflows" using sample_workflows_ok by (simp add: transfers_ok_def)
  have rows: "adjustments sample_workflows = [sample_adjustment]" "biz_id sample_business = 1"
    "stock_at sample_workflows (1, 1, 10, None) = 5000"
    "adjustment_sum (\<lambda>k'. k' = (1, 1, 10, None)) 1 sample_adjustment = - 1000" by code_simp+
  have "\<forall>k. stock_at db' k = stock_at sample_workflows k + adjustment_sum (\<lambda>k'. k' = k) 1 sample_adjustment"
    using adjustment_applied_once[OF r inv _ refl] by (simp add: rows del: One_nat_def split_paired_All)
  from spec[OF this, of "(1, 1, 10, None)"] r show ?thesis by (simp add: rows del: One_nat_def)
qed

text \<open>C34: approving a physical count adds to each item what was counted minus what was expected
  when the count started, so an item whose stock has not moved since then ends at the counted
  quantity, and movements in between are kept on top of it.\<close>

theorem count_corrects_stock:
  assumes "approve_count ord business passed user membership db = Inr db'" and "stock_inv db"
    and "distinct (map ct_id (counts db))" and "ct \<in> set (counts db)" and "ct_id ct = ct_id passed"
    and "distinct (map (\<lambda>it. (ci_product it, ci_variant it)) (ct_items ct))"
    and "it \<in> set (ct_items ct)" and "ci_counted it = Some n"
  shows "stock_at db' (biz_id business, wh_id (ct_warehouse ct), ci_product it, ci_variant it)
    = n + (stock_at db (biz_id business, wh_id (ct_warehouse ct), ci_product it, ci_variant it)
           - ci_expected it)"
proof -
  from approve_count_Inr[OF assms(1,2)] obtain c where
    c: "c \<in> set (counts db)" "ct_id c = ct_id passed" "stock_inv db'"
    "\<And>P. held_stock P db' = held_stock P db + count_sum P (biz_id business) c"
    by metis
  have "inj_on ct_id (set (counts db))" using assms(3) by (simp add: distinct_map)
  then have eq: "c = ct" using c(1,2) assms(4,5) by (metis inj_onD)
  let ?k = "(biz_id business, wh_id (ct_warehouse ct), ci_product it, ci_variant it)"
  let ?n = "\<lambda>it. case count_variance it of Some v \<Rightarrow> v | None \<Rightarrow> 0"
  have "(\<Sum>x \<leftarrow> its. if (ci_product x, ci_variant x) = (ci_product it, ci_variant it) then ?n x else 0) = ?n it"
    if "distinct (map (\<lambda>it. (ci_product it, ci_variant it)) its)" and "it \<in> set its" for its
    using that
  proof (induction its)
    case Nil
    then show ?case by simp
  next
    case (Cons x its)
    have zero: "(\<Sum>x \<leftarrow> its. if (ci_product x, ci_variant x) = (ci_product it, ci_variant it) then ?n x else 0) = 0"
      if "(ci_product it, ci_variant it) \<notin> (\<lambda>it. (ci_product it, ci_variant it)) ` set its"
      using that by (induction its) auto
    show ?case
    proof (cases "x = it")
      case True
      then show ?thesis using Cons.prems zero by simp
    next
      case False
      then have "it \<in> set its" using Cons.prems(2) by simp
      moreover from this have "(ci_product x, ci_variant x) \<noteq> (ci_product it, ci_variant it)"
        using Cons.prems(1) by force
      ultimately show ?thesis using Cons.IH Cons.prems(1) by auto
    qed
  qed
  from this[OF assms(6,7)] have "count_sum (\<lambda>k'. k' = ?k) (biz_id business) ct = ?n it"
    by (simp add: count_sum_def)
  then show ?thesis
    by (simp add: stock_at_inv[OF assms(2)] stock_at_inv[OF c(3)] c(4) eq count_variance_def assms(8))
qed

theorem count_corrects_stock_witness:
  "\<exists>db'. approve_count (\<lambda>xs. xs) sample_business sample_count (Some sample_user) None
      sample_workflows = Inr db' \<and> stock_at db' (1, 1, 10, None) = 4200"
proof -
  have "case approve_count (\<lambda>xs. xs) sample_business sample_count (Some sample_user) None
      sample_workflows of Inl _ \<Rightarrow> False | Inr _ \<Rightarrow> True" by code_simp
  then obtain db' where r: "approve_count (\<lambda>xs. xs) sample_business sample_count
      (Some sample_user) None sample_workflows = Inr db'" by (auto split: sum.splits)
  have inv: "stock_inv sample_workflows" using sample_workflows_ok by (simp add: transfers_ok_def)
  let ?it = "\<lparr>ci_product = 10, ci_variant = None, ci_expected = 5000, ci_counted = Some 4200\<rparr>"
  have rows: "counts sample_workflows = [sample_count]" "biz_id sample_business = 1"
    "stock_at sample_workflows (1, 1, 10, None) = 5000" "ct_items sample_count = [?it]"
    "wh_id (ct_warehouse sample_count) = 1" by code_simp+
  have "stock_at db' (1, 1, 10, None) = 4200"
    using count_corrects_stock[OF r inv, of sample_count ?it 4200] by (simp add: rows del: One_nat_def)
  with r show ?thesis by blast
qed

end
