(* ===== verification/Sales_Data.thy ===== *)
theory Sales_Data
  imports Sale_Calculations Stock_Workflows
begin

text \<open>
  The rows of \<^verbatim>\<open>apps/sales/models.py\<close> (sales, sale items, payments, returns), of
  \<^verbatim>\<open>apps/customers/models.py\<close> and \<^verbatim>\<open>apps/registers/models.py\<close>, the part of the database they
  make up (\<open>pos_db\<close>, which extends the stock tables), and the properties the sale models derive.
  Money and quantities are thousandths; rows name each other by key, and a payment embeds its
  method.  A sale's payments and returns are arguments of the properties that read them.
  Free-form tailoring details are a list of keys with their text.
\<close>

record payment_method =
  pm_id :: id
  pm_business :: id
  pm_name :: string
  pm_kind :: method_kind
  pm_active :: bool

datatype sale_status =
  S_DRAFT | S_COMPLETED | S_PARTIAL | S_CREDIT | S_VOIDED | S_PART_RETURNED | S_RETURNED

datatype delivery_status = NoDelivery | PENDING | IN_PRODUCTION | READY | DELIVERED | D_CANCELLED

datatype sale_priority = P_NORMAL | P_HIGH | P_URGENT

record sale =
  sale_id :: id
  sale_business :: id
  sale_branch :: id
  sale_warehouse :: id
  sale_register :: "id option"
  sale_shift :: "id option"
  sale_cashier :: id
  sale_salesperson :: "id option"
  sale_customer :: id
  sale_invoice_number :: string
  sale_checkout_token :: "string option"
  sale_status :: sale_status
  sale_priority :: sale_priority
  sale_date :: int
  sale_created :: int
  sale_delivery_date :: "int option"
  sale_delivery_status :: delivery_status
  sale_subtotal :: milli
  sale_discount :: milli
  sale_tax :: milli
  sale_rounding :: milli
  sale_total :: milli
  sale_amount_paid :: milli
  sale_change_due :: milli
  sale_total_cost :: milli
  sale_gross_profit :: milli
  sale_notes :: string
  sale_voided_at :: "int option"
  sale_voided_by :: "id option"
  sale_void_reason :: string

datatype garment_classification = NoClass | ADULT | CHILD

datatype collection_type = NoCollection | NORMAL | PREMIUM

record sale_item =
  si_id :: id
  si_business :: id
  si_sale :: id
  si_family_member :: "id option"
  si_product :: id
  si_variant :: "id option"
  si_warehouse :: "id option"
  si_name :: string
  si_sku :: string
  si_quantity :: milli
  si_unit_price :: milli
  si_discount :: milli
  si_tax_rate :: rat
  si_tax :: milli
  si_line_total :: milli
  si_unit_cost :: milli
  si_gross_profit :: milli
  si_returned :: milli
  si_classification :: garment_classification
  si_collection :: collection_type
  si_estimated_fabric :: "milli option"
  si_actual_fabric :: "milli option"
  si_customer_fabric :: bool
  si_fabric_meter :: "milli option"
  si_details :: "(string \<times> string) list"

record sale_payment =
  sp_business :: id
  sp_sale :: id
  sp_method :: payment_method
  sp_amount :: milli
  sp_shift :: "id option"
  sp_date :: int
  sp_reference :: string
  sp_notes :: string
  sp_received_by :: "id option"

datatype refund_method = R_CASH | R_CARD | R_BANK | R_STORE_CREDIT | R_CUSTOMER_ACCOUNT

record sale_return =
  sr_id :: id
  sr_business :: id
  sr_number :: string
  sr_sale :: id
  sr_customer :: id
  sr_branch :: id
  sr_warehouse :: id
  sr_reason :: string
  sr_restock :: bool
  sr_processed_by :: "id option"
  sr_refund_method :: refund_method
  sr_refund_amount :: milli
  sr_shift :: "id option"

record sale_return_item =
  ri_business :: id
  ri_return :: id
  ri_item :: id
  ri_quantity :: milli
  ri_refund_per_unit :: milli
  ri_line_refund :: milli
  ri_restocked :: bool

record invoice_sequence =
  seq_business :: id
  seq_branch :: "id option"
  seq_year :: nat
  seq_last :: nat

text \<open>
  A parked cart is the JSON object the cashier's screen sent; of it the model has what the services
  read: per line the product it names, the fabric flag and whether a meter is kept, the delivery
  date and the priority.  A line that is not an object is \<open>None\<close>, items that are not a list too.
\<close>

datatype product_ref = NoProduct | BadProduct | ProductRef id

datatype fabric_flag = FlagMissing | FlagBool bool | FlagInvalid

record held_line =
  hl_product :: product_ref
  hl_fabric :: fabric_flag
  hl_meter :: "string option"

record held_cart =
  hc_items :: "held_line option list option"
  hc_delivery :: bool
  hc_priority :: string

record held_sale =
  hs_id :: id
  hs_business :: id
  hs_branch :: id
  hs_cashier :: id
  hs_label :: string
  hs_cart :: held_cart

section \<open>Customers, registers, shifts\<close>

record contact =
  cn_mobile :: string
  cn_whatsapp :: string
  cn_email :: string
  cn_address :: string
  cn_city :: string
  cn_country :: string
  cn_tax_number :: string
  cn_notes :: string

record customer_group =
  cg_id :: id
  cg_business :: id
  cg_name :: string

record customer =
  cu_id :: id
  cu_business :: id
  cu_home_branch :: "id option"
  cu_code :: string
  cu_name :: string
  cu_contact :: contact
  cu_group :: "id option"
  cu_more_options :: "(string \<times> string) list"
  cu_credit_limit :: milli
  cu_opening_balance :: milli
  cu_balance :: milli
  cu_store_credit :: milli
  cu_walk_in :: bool
  cu_active :: bool

datatype family_relation = SON | BROTHER | FATHER

record family_member =
  fm_id :: id
  fm_public_id :: id
  fm_business :: id
  fm_customer :: id
  fm_name :: string
  fm_relation :: family_relation
  fm_more_options :: "(string \<times> string) list"
  fm_active :: bool

datatype customer_payment_kind = COLLECTION | REFUND_TO_CREDIT | STORE_CREDIT_USED

record customer_payment =
  cpay_business :: id
  cpay_number :: string
  cpay_customer :: id
  cpay_branch :: "id option"
  cpay_kind :: customer_payment_kind
  cpay_amount :: milli
  cpay_method :: "payment_method option"
  cpay_reference :: string
  cpay_notes :: string
  cpay_received_by :: "id option"
  cpay_shift :: "id option"

record cash_register =
  cr_id :: id
  cr_business :: id
  cr_name :: string
  cr_code :: string
  cr_branch :: id
  cr_printer :: string
  cr_active :: bool

datatype shift_status = SH_OPEN | SH_CLOSED | SH_APPROVED

record shift =
  sh_id :: id
  sh_business :: id
  sh_register :: id
  sh_branch :: id
  sh_cashier :: id
  sh_status :: shift_status
  sh_opened_at :: int
  sh_opening_cash :: milli
  sh_opening_notes :: string
  sh_closed_at :: "int option"
  sh_expected_cash :: milli
  sh_actual_cash :: "milli option"
  sh_difference :: milli
  sh_closing_notes :: string
  sh_approved_by :: "id option"
  sh_reopened_count :: nat

text \<open>The columns of an expense that the cash count of a shift reads.\<close>

datatype expense_status = EX_DRAFT | EX_SUBMITTED | EX_APPROVED | EX_REJECTED | EX_PAID | EX_CANCELLED

record expense_row =
  ex_business :: id
  ex_amount :: milli
  ex_method :: "payment_method option"
  ex_status :: expense_status
  ex_shift :: "id option"

text \<open>A supplier; its descriptive text is a list of the fields of the profile, latest first.\<close>

record supplier_row =
  su_id :: id
  su_business :: id
  su_code :: string
  su_profile :: "(string \<times> string) list"
  su_opening_balance :: milli
  su_balance :: milli
  su_active :: bool

record pos_db = workflow_db +
  customer_groups :: "customer_group list"
  customers :: "customer list"
  family_members :: "family_member list"
  customer_payments :: "customer_payment list"
  payment_methods :: "payment_method list"
  sales :: "sale list"
  sale_items :: "sale_item list"
  sale_payments :: "sale_payment list"
  sale_returns :: "sale_return list"
  return_items :: "sale_return_item list"
  invoice_sequences :: "invoice_sequence list"
  held_sales :: "held_sale list"
  registers :: "cash_register list"
  shifts :: "shift list"
  expenses :: "expense_row list"
  suppliers :: "supplier_row list"

section \<open>Properties of a sale\<close>

text \<open>Refund methods that give back settled money; a refund to the customer account does not.\<close>

definition refund_methods :: "refund_method list" where
  "refund_methods = [R_CASH, R_CARD, R_BANK, R_STORE_CREDIT]"

definition returned_amount :: "sale_return list \<Rightarrow> milli" where
  "returned_amount returns = (\<Sum>r \<leftarrow> returns. sr_refund_amount r)"

definition refunded_amount :: "sale_return list \<Rightarrow> milli" where
  "refunded_amount returns =
     (\<Sum>r \<leftarrow> filter (\<lambda>r. sr_refund_method r \<in> set refund_methods) returns. sr_refund_amount r)"

definition net_total :: "sale \<Rightarrow> sale_return list \<Rightarrow> milli" where
  "net_total s returns = sale_total s - returned_amount returns"

definition net_amount_paid :: "sale \<Rightarrow> sale_return list \<Rightarrow> milli" where
  "net_amount_paid s returns = sale_amount_paid s - refunded_amount returns"

definition balance :: "sale \<Rightarrow> sale_return list \<Rightarrow> milli" where
  "balance s returns = net_total s returns - net_amount_paid s returns"

definition is_delivery_overdue :: "int \<Rightarrow> sale \<Rightarrow> bool" where
  "is_delivery_overdue today s =
     (case sale_delivery_date s of
        Some d \<Rightarrow> d < today \<and> sale_delivery_status s \<noteq> DELIVERED \<and> sale_delivery_status s \<noteq> D_CANCELLED
      | None \<Rightarrow> False)"

datatype payment_state = Unpaid | Overpaid | PartiallyPaid | Paid

definition payment_state :: "sale \<Rightarrow> sale_return list \<Rightarrow> payment_state" where
  "payment_state s returns =
     (let total = net_total s returns; paid = net_amount_paid s returns in
      if paid \<le> 0 \<and> 0 < total then Unpaid
      else if total < paid then Overpaid
      else if paid < total then PartiallyPaid
      else Paid)"

definition is_finalized :: "sale \<Rightarrow> bool" where
  "is_finalized s = (sale_status s \<noteq> S_DRAFT)"

section \<open>Properties of a sale item\<close>

definition returnable_quantity :: "sale_item \<Rightarrow> milli" where
  "returnable_quantity i = si_quantity i - si_returned i"

definition has_tailoring_details :: "sale_item \<Rightarrow> bool" where
  "has_tailoring_details i =
     (si_classification i \<noteq> NoClass
      \<or> list_ex (\<lambda>(key, value). let v = py_strip value in
            v \<noteq> [] \<and> \<not> (key = ''priority'' \<and> v = ''normal'')) (si_details i))"

definition is_tailoring_line :: "sale_item \<Rightarrow> bool" where
  "is_tailoring_line i =
     (si_customer_fabric i \<or> si_fabric_meter i \<noteq> None \<or> has_tailoring_details i
      \<or> si_estimated_fabric i \<noteq> None \<or> si_actual_fabric i \<noteq> None \<or> si_collection i \<noteq> NoCollection)"

definition inventory_quantity :: "sale_item \<Rightarrow> milli" where
  "inventory_quantity i =
     (if si_customer_fabric i then 0
      else case si_fabric_meter i of Some m \<Rightarrow> m | None \<Rightarrow> si_quantity i)"

definition garment_classification_label :: "sale_item \<Rightarrow> string" where
  "garment_classification_label i =
     (case si_classification i of
        ADULT \<Rightarrow> ''Adult''
      | CHILD \<Rightarrow> ''Child''
      | NoClass \<Rightarrow> if is_tailoring_line i then ''Legacy / Not Recorded'' else [])"

definition collection_type_label :: "sale_item \<Rightarrow> string" where
  "collection_type_label i =
     (case si_collection i of
        NORMAL \<Rightarrow> ''Normal''
      | PREMIUM \<Rightarrow> ''Premium''
      | NoCollection \<Rightarrow> if is_tailoring_line i then ''Legacy / Not Recorded'' else [])"

definition fabric_variance :: "sale_item \<Rightarrow> milli option" where
  "fabric_variance i =
     (case (si_estimated_fabric i, si_actual_fabric i) of
        (Some e, Some a) \<Rightarrow> Some (a - e)
      | _ \<Rightarrow> None)"

section \<open>Laws\<close>

lemma refunded_le_returned:
  "\<forall>r \<in> set returns. 0 \<le> sr_refund_amount r \<Longrightarrow> refunded_amount returns \<le> returned_amount returns"
  by (induction returns) (auto simp: refunded_amount_def returned_amount_def)

text \<open>The payment state tells the sign of the balance: a sale is overpaid exactly when its
  balance is negative, settled exactly when it is zero, and otherwise money is owed, all of the net
  total being open when it is unpaid.\<close>

lemma payment_state_sign:
  "(payment_state s returns = Overpaid \<longleftrightarrow> balance s returns < 0)
   \<and> (payment_state s returns = Paid \<longleftrightarrow> balance s returns = 0)
   \<and> (payment_state s returns \<in> {Unpaid, PartiallyPaid} \<longleftrightarrow> 0 < balance s returns)
   \<and> (payment_state s returns = Unpaid \<longleftrightarrow> 0 < net_total s returns \<and> net_total s returns \<le> balance s returns)"
  by (auto simp: payment_state_def balance_def Let_def)

end
