(* ===== verification/Plan_Limits.thy ===== *)
theory Plan_Limits
  imports Sales_Data
begin

text \<open>
  \<^verbatim>\<open>apps/subscriptions/services.py\<close>: the limits a plan puts on the number of rows a business may
  create.  A limit of zero is no limit.  The calendar (months of the server's and the tenant's
  time zone, which come from the zone database) is a parameter.
\<close>

record calendar =
  utc_month :: "int \<Rightarrow> int \<times> int"
  local_month :: "int \<Rightarrow> int \<times> int"
  business_date :: "id \<Rightarrow> int \<Rightarrow> int"

datatype limited_resource =
    L_BRANCHES | L_WAREHOUSES | L_USERS | L_PRODUCTS | L_CUSTOMERS | L_MONTHLY_INVOICES | L_EMPLOYEES
  | L_SUPPLIERS | L_ACTIVE_ORDERS | L_API_CALLS | L_BRANCH_MANAGERS | L_CASHIERS
  | L_LOGGED_IN_DEVICES | L_POS_TERMINALS

fun resource_key :: "limited_resource \<Rightarrow> string" where
  "resource_key L_BRANCHES = ''branches''"
| "resource_key L_WAREHOUSES = ''warehouses''"
| "resource_key L_USERS = ''users''"
| "resource_key L_PRODUCTS = ''products''"
| "resource_key L_CUSTOMERS = ''customers''"
| "resource_key L_MONTHLY_INVOICES = ''monthly_invoices''"
| "resource_key L_EMPLOYEES = ''employees''"
| "resource_key L_SUPPLIERS = ''suppliers''"
| "resource_key L_ACTIVE_ORDERS = ''active_orders''"
| "resource_key L_API_CALLS = ''api_calls''"
| "resource_key L_BRANCH_MANAGERS = ''branch_managers''"
| "resource_key L_CASHIERS = ''cashiers''"
| "resource_key L_LOGGED_IN_DEVICES = ''logged_in_devices''"
| "resource_key L_POS_TERMINALS = ''pos_terminals''"

definition limit_field :: "limited_resource \<Rightarrow> string" where
  "limit_field r = ''max_'' @ resource_key r"

definition count_rows :: "('r \<Rightarrow> bool) \<Rightarrow> 'r list \<Rightarrow> nat" where
  "count_rows P rows = length (filter P rows)"

definition count_for :: "calendar \<Rightarrow> 'a pos_db_scheme \<Rightarrow> business \<Rightarrow> limited_resource \<Rightarrow> nat" where
  "count_for cal db business r =
     (let b = biz_id business; active = (\<lambda>m. mem_business m = b \<and> mem_active m) in
      case r of
        L_BRANCHES \<Rightarrow> count_rows (\<lambda>x. br_business x = b) (branches db)
      | L_WAREHOUSES \<Rightarrow> count_rows (\<lambda>x. wh_business x = b) (warehouses db)
      | L_USERS \<Rightarrow> count_rows active (memberships db)
      | L_PRODUCTS \<Rightarrow> count_rows (\<lambda>x. prod_business x = b) (products db)
      | L_CUSTOMERS \<Rightarrow> count_rows (\<lambda>x. cu_business x = b) (customers db)
      | L_MONTHLY_INVOICES \<Rightarrow>
          count_rows (\<lambda>s. sale_business s = b \<and> local_month cal (sale_created s) = utc_month cal (clock db)
            \<and> sale_status s \<noteq> S_DRAFT) (sales db)
      | L_EMPLOYEES \<Rightarrow> count_rows (\<lambda>m. active m \<and> \<not> role_is_owner (mem_role m)) (memberships db)
      | L_SUPPLIERS \<Rightarrow> count_rows (\<lambda>x. su_business x = b \<and> su_active x) (suppliers db)
      | L_ACTIVE_ORDERS \<Rightarrow>
          count_rows (\<lambda>s. sale_business s = b
            \<and> sale_delivery_status s \<notin> {NoDelivery, DELIVERED, D_CANCELLED}) (sales db)
          + count_rows (\<lambda>h. hs_business h = b) (held_sales db)
      | L_BRANCH_MANAGERS \<Rightarrow>
          count_rows (\<lambda>m. active m \<and> py_lower (role_name (mem_role m)) = ''branch manager'') (memberships db)
      | L_CASHIERS \<Rightarrow>
          count_rows (\<lambda>m. active m \<and> py_lower (role_name (mem_role m)) = ''cashier'') (memberships db)
      | L_POS_TERMINALS \<Rightarrow> count_rows (\<lambda>x. cr_business x = b \<and> cr_active x) (registers db)
      | L_API_CALLS \<Rightarrow> 0
      | L_LOGGED_IN_DEVICES \<Rightarrow> 0)"

definition require_operational :: "'a core_db_scheme \<Rightarrow> business \<Rightarrow> err + subscription" where
  "require_operational db business =
     (case subscription_of db (biz_id business) of
        None \<Rightarrow> Inl SubscriptionInactive
      | Some s \<Rightarrow> if is_operational (clock db) business s then Inr s else Inl SubscriptionInactive)"

definition limit_state :: "calendar \<Rightarrow> 'a pos_db_scheme \<Rightarrow> business \<Rightarrow> limited_resource \<Rightarrow> nat \<times> nat \<times> bool" where
  "limit_state cal db business r =
     (case subscription_of db (biz_id business) of
        None \<Rightarrow> (0, 0, False)
      | Some s \<Rightarrow>
          let limit = (case map_of (plan_limits (sub_plan s)) (limit_field r) of Some n \<Rightarrow> n | None \<Rightarrow> 0);
              current = count_for cal db business r
          in (current, limit, limit = 0 \<or> current < limit))"

definition check_limit :: "calendar \<Rightarrow> 'a pos_db_scheme \<Rightarrow> business \<Rightarrow> limited_resource \<Rightarrow> err + unit" where
  "check_limit cal db business r =
     ebind (require_operational db business) (\<lambda>_.
       case limit_state cal db business r of (current, limit, ok) \<Rightarrow>
         require ok (LimitExceeded (map (\<lambda>c. if c = CHR ''_'' then CHR '' '' else c) (resource_key r)) limit))"

definition has_feature :: "'a core_db_scheme \<Rightarrow> business \<Rightarrow> string \<Rightarrow> bool" where
  "has_feature db business feature =
     (case subscription_of db (biz_id business) of
        None \<Rightarrow> False
      | Some s \<Rightarrow> ''feature_'' @ feature \<in> set (plan_features (sub_plan s)))"

section \<open>Laws\<close>

lemma check_limit_Inr:
  "check_limit cal db business r = Inr u \<longleftrightarrow>
     (\<exists>s. subscription_of db (biz_id business) = Some s \<and> is_operational (clock db) business s
        \<and> (let limit = (case map_of (plan_limits (sub_plan s)) (limit_field r) of Some n \<Rightarrow> n | None \<Rightarrow> 0)
           in limit = 0 \<or> count_for cal db business r < limit))"
  by (auto simp: check_limit_def require_operational_def limit_state_def Let_def require_def ebind_def
      split: option.splits if_splits)

end
