(* ===== verification/Invoice_Numbers.thy ===== *)
theory Invoice_Numbers
  imports Sales_Data
begin

text \<open>
  \<^verbatim>\<open>next_invoice_number\<close> in \<^verbatim>\<open>apps/sales/services.py\<close>: the invoice number of a branch, from a
  lifetime counter per prefix scope.  The loop has fuel; \<open>allocate_two\<close> shows that it ends with its
  second candidate at the latest, because the counter jumps behind every number in use.
\<close>

section \<open>The prefix\<close>

definition text_or :: "string \<Rightarrow> string \<Rightarrow> string" where
  "text_or s d = (if s = [] then d else s)"

text \<open>The text before the counter and the branch the counter belongs to, if it is per branch.\<close>

definition invoice_scope :: "business \<Rightarrow> branch \<Rightarrow> string \<times> id option" where
  "invoice_scope business branch =
     (let branch_prefix = py_strip (br_invoice_prefix branch) in
      if branch_prefix \<noteq> [] then (branch_prefix, Some (br_id branch))
      else let base = text_or (py_strip (text_or (invoice_prefix (settings business)) ''INV'')) ''INV'';
               include_branch = invoice_include_branch_code (settings business);
               segment = py_strip (br_code branch)
           in (if include_branch \<and> segment \<noteq> [] then base @ ''-'' @ segment else base,
               if include_branch then Some (br_id branch) else None))"

definition rstrip :: "string \<Rightarrow> string" where
  "rstrip s = rev (dropWhile is_space (rev s))"

definition with_separator :: "string \<Rightarrow> string" where
  "with_separator base =
     (if base \<noteq> [] \<and> last base = CHR ''-'' then rstrip (butlast base) @ ''-'' else base @ ''-'')"

section \<open>The counter\<close>

definition candidate :: "string \<Rightarrow> nat \<Rightarrow> string" where
  "candidate base n = base @ zpad 3 (nat_str n)"

definition used_suffixes :: "string \<Rightarrow> string list \<Rightarrow> nat list" where
  "used_suffixes base taken =
     map digits_val (filter isdigit (map (drop (length base)) (filter (\<lambda>s. take (length base) s = base) taken)))"

fun allocate_number :: "nat \<Rightarrow> string \<Rightarrow> string list \<Rightarrow> nat \<Rightarrow> nat option" where
  "allocate_number 0 base taken n = None"
| "allocate_number (Suc k) base taken n =
     (if candidate base (Suc n) \<notin> set taken then Some (Suc n)
      else allocate_number k base taken (foldr max (used_suffixes base taken) (Suc n)))"

definition invoice_numbers :: "'a pos_db_scheme \<Rightarrow> id \<Rightarrow> string list" where
  "invoice_numbers db b = map sale_invoice_number (filter (\<lambda>s. sale_business s = b) (sales db))"

definition LIFETIME_SEQUENCE :: nat where
  "LIFETIME_SEQUENCE = 0"

definition is_counter :: "id \<Rightarrow> id option \<Rightarrow> invoice_sequence \<Rightarrow> bool" where
  "is_counter b branch q = (seq_business q = b \<and> seq_branch q = branch \<and> seq_year q = LIFETIME_SEQUENCE)"

definition counter_value :: "'a pos_db_scheme \<Rightarrow> id \<Rightarrow> id option \<Rightarrow> nat" where
  "counter_value db b branch =
     (case find (is_counter b branch) (invoice_sequences db) of Some q \<Rightarrow> seq_last q | None \<Rightarrow> 0)"

definition save_counter :: "id \<Rightarrow> id option \<Rightarrow> nat \<Rightarrow> invoice_sequence list \<Rightarrow> invoice_sequence list" where
  "save_counter b branch n qs =
     (if list_ex (is_counter b branch) qs
      then map (\<lambda>q. if is_counter b branch q then q\<lparr>seq_last := n\<rparr> else q) qs
      else qs @ [\<lparr>seq_business = b, seq_branch = branch, seq_year = LIFETIME_SEQUENCE, seq_last = n\<rparr>])"

text \<open>The option is never \<open>None\<close> with this fuel (\<open>allocate_two\<close>).\<close>

definition next_invoice_number :: "business \<Rightarrow> branch \<Rightarrow> 'a pos_db_scheme \<Rightarrow> string \<times> 'a pos_db_scheme" where
  "next_invoice_number business branch db =
     (case invoice_scope business branch of (prefix, scope_branch) \<Rightarrow>
        let base = with_separator prefix; b = biz_id business in
        case allocate_number 2 base (invoice_numbers db b) (counter_value db b scope_branch) of
          Some n \<Rightarrow> (candidate base n,
            db\<lparr>invoice_sequences := save_counter b scope_branch n (invoice_sequences db)\<rparr>)
        | None \<Rightarrow> ([], db))"

section \<open>Laws\<close>

lemma candidate_inj: "candidate base m = candidate base n \<Longrightarrow> m = n"
  by (auto simp: candidate_def dest: zpad_inj)

lemma taken_suffix: "candidate base n \<in> set taken \<Longrightarrow> n \<in> set (used_suffixes base taken)"
  by (force simp: used_suffixes_def candidate_def isdigit_zpad image_iff)

lemma foldr_max_ge: "x \<in> set xs \<Longrightarrow> x \<le> foldr max xs (a :: nat)" "(a :: nat) \<le> foldr max xs a"
  by (induction xs) auto

text \<open>Behind the greatest number in use no candidate is taken: more fuel than two changes nothing.\<close>

lemma allocate_two:
  "2 \<le> k \<Longrightarrow> \<exists>m. allocate_number k base taken n = Some m \<and> n < m \<and> candidate base m \<notin> set taken
     \<and> (m = Suc n \<or> (candidate base (Suc n) \<in> set taken
          \<and> (\<forall>i. candidate base i \<in> set taken \<longrightarrow> i < m)))"
proof -
  assume "2 \<le> k"
  then obtain j where k: "k = Suc (Suc j)" by (metis add_2_eq_Suc le_Suc_ex)
  define top where "top = foldr max (used_suffixes base taken) (Suc n)"
  have below: "i \<le> top" if "candidate base i \<in> set taken" for i
    using foldr_max_ge(1)[OF taken_suffix[OF that]] by (simp add: top_def)
  have free: "candidate base (Suc top) \<notin> set taken" using below[of "Suc top"] by auto
  have "Suc n \<le> top" unfolding top_def by (rule foldr_max_ge)
  then show ?thesis
    using below free by (auto simp: k less_Suc_eq_le top_def[symmetric])
qed

lemma allocate_stable: "2 \<le> k \<Longrightarrow> allocate_number k base taken n = allocate_number 2 base taken n"
proof -
  assume k: "2 \<le> k"
  obtain j where j: "k = Suc (Suc j)" using k by (metis add_2_eq_Suc le_Suc_ex)
  obtain m m' where m: "allocate_number 2 base taken n = Some m" "allocate_number k base taken n = Some m'"
    using allocate_two k by blast
  have two: "allocate_number 2 base taken n = allocate_number (Suc (Suc 0)) base taken n"
    by (simp only: numeral_2_eq_2)
  define c where "c = foldr max (used_suffixes base taken) (Suc n)"
  show ?thesis
  proof (cases "candidate base (Suc n) \<in> set taken")
    case True
    then have "candidate base (Suc c) \<notin> set taken"
      using m(1) unfolding two by (auto simp: c_def[symmetric] split: if_splits)
    then show ?thesis unfolding two j using True by (simp add: c_def[symmetric])
  next
    case False
    then show ?thesis unfolding two j by simp
  qed
qed

lemma is_counter_update [simp]: "is_counter b s (q\<lparr>seq_last := n\<rparr>) = is_counter b s q"
  by (simp add: is_counter_def)

lemma find_counter_map:
  "find (is_counter b' s') (map (\<lambda>q. if is_counter b s q then q\<lparr>seq_last := n\<rparr> else q) qs)
    = (if b' = b \<and> s' = s then map_option (\<lambda>q. q\<lparr>seq_last := n\<rparr>) (find (is_counter b s) qs)
       else find (is_counter b' s') qs)"
proof (induction qs)
  case (Cons q qs)
  have "is_counter b s q \<Longrightarrow> is_counter b' s' q \<Longrightarrow> b' = b \<and> s' = s" by (simp add: is_counter_def)
  with Cons show ?case by (cases "is_counter b s q"; cases "is_counter b' s' q") auto
qed simp

lemma counter_saved:
  "counter_value (db\<lparr>invoice_sequences := save_counter b s n (invoice_sequences db)\<rparr>) b' s'
     = (if b' = b \<and> s' = s then n else counter_value db b' s')"
proof -
  have new: "is_counter b' s' \<lparr>seq_business = b, seq_branch = s, seq_year = LIFETIME_SEQUENCE, seq_last = n\<rparr>
    \<longleftrightarrow> b' = b \<and> s' = s"
    by (auto simp: is_counter_def)
  have none: "find (is_counter b s) (invoice_sequences db) = None \<longleftrightarrow> \<not> list_ex (is_counter b s) (invoice_sequences db)"
    by (simp add: find_eq_None list_ex_iff)
  show ?thesis
  proof (cases "find (is_counter b s) (invoice_sequences db)")
    case None
    then show ?thesis using none new
      by (auto simp: counter_value_def save_counter_def find_append split: option.splits)
  next
    case (Some q)
    then show ?thesis using none by (simp add: counter_value_def save_counter_def find_counter_map)
  qed
qed

lemma next_invoice_number_frame:
  "next_invoice_number business branch db = (number, db') \<Longrightarrow> \<exists>qs. db' = db\<lparr>invoice_sequences := qs\<rparr>"
proof -
  obtain base s where scope: "invoice_scope business branch = (base, s)" by (cases "invoice_scope business branch")
  obtain n where "allocate_number 2 (with_separator base) (invoice_numbers db (biz_id business))
      (counter_value db (biz_id business) s) = Some n"
    using allocate_two[of 2] by blast
  then show "next_invoice_number business branch db = (number, db') \<Longrightarrow> ?thesis"
    by (auto simp: next_invoice_number_def scope Let_def)
qed

section \<open>Property\<close>

text \<open>C38: allocating an invoice number always ends, after at most two candidates however many
  invoices exist: the number carries the prefix of the branch and a counter value above the stored
  one, no invoice of the business has it, exactly this counter advances to that value, and it skips
  a value only behind every number in use.\<close>

theorem invoice_number_allocated:
  "\<exists>base s n. invoice_scope business branch = (base, s)
    \<and> (\<forall>k. allocate_number (2 + k) (with_separator base) (invoice_numbers db (biz_id business))
          (counter_value db (biz_id business) s) = Some n)
    \<and> fst (next_invoice_number business branch db) = candidate (with_separator base) n
    \<and> candidate (with_separator base) n \<notin> set (invoice_numbers db (biz_id business))
    \<and> counter_value db (biz_id business) s < n
    \<and> (n = Suc (counter_value db (biz_id business) s)
        \<or> {i. candidate (with_separator base) i \<in> set (invoice_numbers db (biz_id business))} \<subseteq> {..<n})
    \<and> (\<forall>b' s'. counter_value (snd (next_invoice_number business branch db)) b' s'
        = (if b' = biz_id business \<and> s' = s then n else counter_value db b' s'))"
proof -
  obtain base s where scope: "invoice_scope business branch = (base, s)" by (cases "invoice_scope business branch")
  let ?taken = "invoice_numbers db (biz_id business)" and ?last = "counter_value db (biz_id business) s"
  let ?alloc = "\<lambda>k. allocate_number k (with_separator base) ?taken ?last"
  obtain n where n: "?alloc 2 = Some n" "?last < n" "candidate (with_separator base) n \<notin> set ?taken"
    "n = Suc ?last \<or> {i. candidate (with_separator base) i \<in> set ?taken} \<subseteq> {..<n}"
    using allocate_two[of 2] by blast
  have same: "?alloc (2 + k) = Some n" for k
    by (simp only: allocate_stable[of "2 + k"] n(1) le_add1)
  have next_eq: "next_invoice_number business branch db = (candidate (with_separator base) n,
      db\<lparr>invoice_sequences := save_counter (biz_id business) s n (invoice_sequences db)\<rparr>)"
    by (simp add: next_invoice_number_def scope Let_def n(1))
  show ?thesis
    unfolding next_eq fst_conv snd_conv counter_saved
  proof (intro exI conjI)
    show "invoice_scope business branch = (base, s)" by (rule scope)
  qed (use n(2-4) same in blast)+
qed

end
