(* ===== verification/Pos_Access.thy ===== *)
theory Pos_Access
  imports Plan_Limits
begin

text \<open>
  The write boundary that the services of the point of sale share: \<^verbatim>\<open>_require_register_write\<close> in
  \<^verbatim>\<open>apps/registers/services.py\<close> and \<^verbatim>\<open>_require_pos_write\<close> in \<^verbatim>\<open>apps/sales/services.py\<close> (the same
  code), with their scope denial.  A row that a guard names by key is looked up in its table.
\<close>

definition scoped :: "access_context \<Rightarrow> branch option \<Rightarrow> bool" where
  "scoped c branch =
     (case branch of
        None \<Rightarrow> True
      | Some b \<Rightarrow> (case ctx_membership c of Some m \<Rightarrow> can_access_branch m (Some b) | None \<Rightarrow> False))"

definition require_pos_write ::
    "(string list \<Rightarrow> string list) \<Rightarrow> 'a core_db_scheme \<Rightarrow> business \<Rightarrow> user option \<Rightarrow> string \<Rightarrow>
     membership option \<Rightarrow> branch option \<Rightarrow> err + access_context" where
  "require_pos_write ord db business user perm membership branch =
     ebind (require_actor_access ord db user (Some business) ''pos_core'' (Some perm) WRITE membership True)
       (\<lambda>c. if scoped c branch then Inr c
            else ebind (require_actor_access ord db user (Some business) ''pos_core'' (Some perm) WRITE
                         (ctx_membership c) False) (\<lambda>_. Inr c))"

definition deny_pos_scope ::
    "(string list \<Rightarrow> string list) \<Rightarrow> 'a core_db_scheme \<Rightarrow> business \<Rightarrow> user option \<Rightarrow> string \<Rightarrow>
     membership option \<Rightarrow> err + 'x" where
  "deny_pos_scope ord db business user perm membership =
     ebind (require_actor_access ord db user (Some business) ''pos_core'' (Some perm) WRITE membership False)
       (\<lambda>_. Inl DoesNotExist)"

definition branch_row :: "'a core_db_scheme \<Rightarrow> id \<Rightarrow> branch option" where
  "branch_row db i = row_by br_id i (branches db)"

section \<open>Laws\<close>

lemma out_of_scope: "reorders ord \<Longrightarrow> require_actor_access ord db user b k perm act m False \<noteq> Inr c"
  using require_actor_access_Inr not_authorized_out_of_scope by fastforce

lemma require_pos_write_Inr:
  assumes "reorders ord" and "require_pos_write ord db business user perm membership branch = Inr c"
  shows "require_actor_access ord db user (Some business) ''pos_core'' (Some perm) WRITE membership True = Inr c"
    "scoped c branch"
  using assms(2)
  by (auto simp: require_pos_write_def result_simps out_of_scope[OF assms(1)] split: if_splits)

lemma deny_pos_scope_Inl: "deny_pos_scope ord db business user perm membership \<noteq> Inr x"
  by (auto simp: deny_pos_scope_def result_simps)

end
