(* ===== verification/Customer_Accounts.thy ===== *)
theory Customer_Accounts
  imports Pos_Access
begin

text \<open>
  \<^verbatim>\<open>apps/customers/services.py\<close> without its import and export: customers of a branch, their walk-in
  customer, family profiles, codes, balances and collections.  Errors carry their text without the
  form field they belong to.  The dash in the walk-in name is written as a hyphen.
\<close>

section \<open>Scope\<close>

definition deny_scope ::
    "(string list \<Rightarrow> string list) \<Rightarrow> 'a core_db_scheme \<Rightarrow> business \<Rightarrow> user option \<Rightarrow> string \<Rightarrow> string \<Rightarrow>
     membership option \<Rightarrow> err + 'x" where
  "deny_scope ord db business user key perm membership =
     ebind (require_actor_access ord db user (Some business) key (Some perm) WRITE membership False)
       (\<lambda>_. Inl DoesNotExist)"

text \<open>The branches a context may use, \<open>None\<close> for all; no membership has none.\<close>

definition context_branches :: "access_context \<Rightarrow> id list option" where
  "context_branches c = (case ctx_membership c of Some m \<Rightarrow> allowed_branch_ids m | None \<Rightarrow> Some [])"

definition branch_allowed :: "access_context \<Rightarrow> id option \<Rightarrow> bool" where
  "branch_allowed c b =
     (case context_branches c of None \<Rightarrow> True | Some ids \<Rightarrow> (case b of Some i \<Rightarrow> i \<in> set ids | None \<Rightarrow> False))"

definition customer_queryset_for_membership :: "business \<Rightarrow> membership \<Rightarrow> 'a pos_db_scheme \<Rightarrow> customer list" where
  "customer_queryset_for_membership business m db =
     filter (\<lambda>c. cu_business c = biz_id business
       \<and> (case allowed_branch_ids m of
            None \<Rightarrow> True
          | Some ids \<Rightarrow> (case cu_home_branch c of Some b \<Rightarrow> b \<in> set ids | None \<Rightarrow> False))) (customers db)"

datatype raw_id = RawMissing | RawInvalid | RawId id

definition usable_sales_branches :: "business \<Rightarrow> 'a core_db_scheme \<Rightarrow> branch list" where
  "usable_sales_branches business db =
     filter (\<lambda>b. br_business b = biz_id business \<and> br_active b \<and> br_usage b = SALES_BRANCH) (branches db)"

definition pick_branch :: "raw_id \<Rightarrow> bool \<Rightarrow> branch list \<Rightarrow> err + branch option" where
  "pick_branch raw needed bs =
     (case raw of
        RawMissing \<Rightarrow> if needed then Inl Http404 else Inr None
      | RawInvalid \<Rightarrow> Inl Http404
      | RawId i \<Rightarrow> (case find (\<lambda>b. br_id b = i) bs of Some b \<Rightarrow> Inr (Some b) | None \<Rightarrow> Inl Http404))"

definition resolve_branch_context ::
    "business \<Rightarrow> membership \<Rightarrow> raw_id \<Rightarrow> bool \<Rightarrow> 'a core_db_scheme \<Rightarrow> err + branch option" where
  "resolve_branch_context business m raw needed db =
     (let bs = usable_sales_branches business db in
      case allowed_branch_ids m of
        None \<Rightarrow> pick_branch raw needed bs
      | Some ids \<Rightarrow>
          let mine = filter (\<lambda>b. br_id b \<in> set ids) bs in
          if mine = [] then Inl Http404
          else if raw = RawMissing \<and> length mine = 1 then Inr (Some (hd mine))
          else pick_branch raw needed mine)"

section \<open>Storing a customer\<close>

definition customer_code_conflict :: "customer \<Rightarrow> 'a pos_db_scheme \<Rightarrow> bool" where
  "customer_code_conflict c db =
     list_ex (\<lambda>x. cu_business x = cu_business c \<and> cu_home_branch x = cu_home_branch c \<and> cu_code x = cu_code c
       \<and> cu_id x \<noteq> cu_id c) (customers db)"

definition walk_in_conflict :: "customer \<Rightarrow> 'a pos_db_scheme \<Rightarrow> bool" where
  "walk_in_conflict c db =
     (cu_walk_in c \<and> cu_home_branch c \<noteq> None
      \<and> list_ex (\<lambda>x. cu_walk_in x \<and> cu_business x = cu_business c \<and> cu_home_branch x = cu_home_branch c
          \<and> cu_id x \<noteq> cu_id c) (customers db))"

text \<open>\<open>save()\<close> under the unique constraints on the code and on the walk-in customer of a branch.\<close>

definition store_customer :: "customer \<Rightarrow> 'a pos_db_scheme \<Rightarrow> err + 'a pos_db_scheme" where
  "store_customer c db =
     (if customer_code_conflict c db \<or> walk_in_conflict c db then Inl IntegrityError
      else Inr (db\<lparr>customers :=
        (if cu_id c \<in> cu_id ` set (customers db) then save_row cu_id c (customers db) else customers db @ [c])\<rparr>))"

definition no_contact :: contact where
  "no_contact = \<lparr>cn_mobile = [], cn_whatsapp = [], cn_email = [], cn_address = [], cn_city = [],
     cn_country = [], cn_tax_number = [], cn_notes = []\<rparr>"

definition walk_in_code :: "branch \<Rightarrow> string" where
  "walk_in_code b = take 30 (''WALK-IN-'' @ br_code b)"

definition walk_in_name :: "branch \<Rightarrow> string" where
  "walk_in_name b = take 160 (''Walk-In Customer - '' @ br_name b)"

definition walk_in_branch :: "business \<Rightarrow> id option \<Rightarrow> 'a core_db_scheme \<Rightarrow> err + branch" where
  "walk_in_branch business b db =
     (let usable = usable_sales_branches business db in
      case b of
        None \<Rightarrow> (case usable of [x] \<Rightarrow> Inr x
          | _ \<Rightarrow> Inl (ValueError ''Select a branch before creating a Walk-In Customer.''))
      | Some i \<Rightarrow> (case find (\<lambda>x. br_id x = i) usable of
            Some x \<Rightarrow> Inr x
          | None \<Rightarrow> Inl (ValueError ''Walk-In Customer branch must be active and tenant-owned.'')))"

definition ensure_walk_in_customer ::
    "business \<Rightarrow> id option \<Rightarrow> 'a pos_db_scheme \<Rightarrow> err + (customer \<times> 'a pos_db_scheme)" where
  "ensure_walk_in_customer business b db =
     ebind (walk_in_branch business b db) (\<lambda>br.
       let fresh = \<lparr>cu_id = next_pk cu_id (customers db), cu_business = biz_id business,
             cu_home_branch = Some (br_id br), cu_code = walk_in_code br, cu_name = walk_in_name br,
             cu_contact = no_contact, cu_group = None, cu_more_options = [], cu_credit_limit = 0,
             cu_opening_balance = 0, cu_balance = 0, cu_store_credit = 0, cu_walk_in = True, cu_active = True\<rparr>
       in case find (\<lambda>c. cu_business c = biz_id business \<and> cu_home_branch c = Some (br_id br) \<and> cu_walk_in c)
                 (customers db) of
            None \<Rightarrow> ebind (store_customer fresh db) (\<lambda>db'. Inr (fresh, db'))
          | Some c \<Rightarrow>
              let c' = c\<lparr>cu_code := walk_in_code br, cu_name := walk_in_name br, cu_active := True\<rparr> in
              if c' = c then Inr (c, db)
              else ebind (store_customer c' db) (\<lambda>db'. Inr (c', db')))"

definition next_customer_code :: "business \<Rightarrow> id option \<Rightarrow> 'a pos_db_scheme \<Rightarrow> string" where
  "next_customer_code business b db =
     next_number ''CUST'' 5 (map cu_code (filter (\<lambda>c. cu_business c = biz_id business
       \<and> (b = None \<or> cu_home_branch c = b)) (customers db)))"

text \<open>The customer object a form hands over; a new one has no key.\<close>

record customer_form =
  cf_pk :: "id option"
  cf_business :: "id option"
  cf_home_branch :: id
  cf_code :: string
  cf_name :: string
  cf_contact :: contact
  cf_group :: "id option"
  cf_more_options :: "(string \<times> string) list"
  cf_credit_limit :: milli
  cf_active :: bool

definition fill_customer :: "customer_form \<Rightarrow> customer \<Rightarrow> customer" where
  "fill_customer f c =
     c\<lparr>cu_home_branch := Some (cf_home_branch f), cu_code := cf_code f, cu_name := cf_name f,
       cu_contact := cf_contact f, cu_group := cf_group f, cu_more_options := cf_more_options f,
       cu_credit_limit := cf_credit_limit f, cu_active := cf_active f\<rparr>"

definition new_customer :: "business \<Rightarrow> 'a pos_db_scheme \<Rightarrow> customer" where
  "new_customer business db =
     \<lparr>cu_id = next_pk cu_id (customers db), cu_business = biz_id business, cu_home_branch = None, cu_code = [],
      cu_name = [], cu_contact = no_contact, cu_group = None, cu_more_options = [], cu_credit_limit = 0,
      cu_opening_balance = 0, cu_balance = 0, cu_store_credit = 0, cu_walk_in = False, cu_active = True\<rparr>"

definition find_customer :: "'a pos_db_scheme \<Rightarrow> id \<Rightarrow> id \<Rightarrow> customer option" where
  "find_customer db b i = find (\<lambda>c. cu_id c = i \<and> cu_business c = b) (customers db)"

definition require_credit_change ::
    "(string list \<Rightarrow> string list) \<Rightarrow> 'a core_db_scheme \<Rightarrow> business \<Rightarrow> user option \<Rightarrow> membership option \<Rightarrow> bool \<Rightarrow>
     err + unit" where
  "require_credit_change ord db business user membership changed =
     (if changed
      then ebind (require_actor_access ord db user (Some business) ''customer_credit'' (Some ''customers.manage'')
                   WRITE membership True) (\<lambda>_. Inr ())
      else Inr ())"

text \<open>The customer row a form is saved into: a new one, or the stored one the actor may touch.\<close>

definition form_target ::
    "(string list \<Rightarrow> string list) \<Rightarrow> customer_form \<Rightarrow> business \<Rightarrow> user option \<Rightarrow> membership option \<Rightarrow>
     access_context \<Rightarrow> 'a pos_db_scheme \<Rightarrow> err + customer" where
  "form_target ord f business user membership c db =
     (case cf_pk f of
        None \<Rightarrow> ebind (require_credit_change ord db business user membership (cf_credit_limit f \<noteq> 0))
                  (\<lambda>_. Inr (new_customer business db))
      | Some i \<Rightarrow>
          (case find_customer db (biz_id business) i of
             None \<Rightarrow> deny_scope ord db business user ''pos_core'' ''customers.manage'' membership
           | Some x \<Rightarrow>
               if context_branches c \<noteq> None
                  \<and> (\<not> branch_allowed c (cu_home_branch x) \<or> cu_home_branch x \<noteq> Some (cf_home_branch f))
               then deny_scope ord db business user ''pos_core'' ''customers.manage'' (ctx_membership c)
               else ebind (require_credit_change ord db business user membership
                            (cf_credit_limit f \<noteq> cu_credit_limit x)) (\<lambda>_. Inr x)))"

definition save_customer ::
    "(string list \<Rightarrow> string list) \<Rightarrow> customer_form \<Rightarrow> business \<Rightarrow> user option \<Rightarrow> membership option \<Rightarrow>
     'a pos_db_scheme \<Rightarrow> err + 'a pos_db_scheme" where
  "save_customer ord f business user membership db =
     (let b = biz_id business; perm = ''customers.manage'' in
      ebind (require_actor_access ord db user (Some business) ''pos_core'' (Some perm) WRITE membership True) (\<lambda>c.
      if cf_business f \<noteq> None \<and> cf_business f \<noteq> Some b
      then deny_scope ord db business user ''pos_core'' perm membership
      else if \<not> list_ex (\<lambda>x. br_id x = cf_home_branch f \<and> br_business x = b \<and> br_active x) (branches db)
      then deny_scope ord db business user ''pos_core'' perm (ctx_membership c)
      else if \<not> branch_allowed c (Some (cf_home_branch f))
      then deny_scope ord db business user ''pos_core'' perm (ctx_membership c)
      else if (case cf_group f of
                 Some g \<Rightarrow> \<not> list_ex (\<lambda>x. cg_id x = g \<and> cg_business x = b) (customer_groups db) | None \<Rightarrow> False)
      then deny_scope ord db business user ''pos_core'' perm membership
      else ebind (form_target ord f business user membership c db) (\<lambda>x.
        let y = fill_customer f x in
        if customer_code_conflict y db then Inl (ValidationError ''This customer code is already in use.'')
        else store_customer y db)))"

section \<open>Family profiles\<close>

datatype option_value = OptText string | OptNull | OptNested

datatype raw_options = OptMissing | OptNotObject | Options "(string \<times> option_value) list"

definition more_option_values :: "business \<Rightarrow> customer \<Rightarrow> (string \<times> string) list" where
  "more_option_values business c =
     filter (\<lambda>(label, v). v \<noteq> [])
       (map (\<lambda>(key, label). (label, case map_of (cu_more_options c) key of Some v \<Rightarrow> py_strip v | None \<Rightarrow> []))
         (more_option_labels (settings business)))"

fun clean_option :: "string \<times> option_value \<Rightarrow> err + (string \<times> string)" where
  "clean_option (key, OptNested) =
     Inl (ValidationError (''Measurement '' @ key @ '' must be a single value.''))"
| "clean_option (key, OptNull) = Inr (key, [])"
| "clean_option (key, OptText raw) =
     (let value = py_strip raw in
      if 255 < length value then Inl (ValidationError (''Measurement '' @ key @ '' cannot exceed 255 characters.''))
      else Inr (key, value))"

definition clean_family_more_options :: "business \<Rightarrow> raw_options \<Rightarrow> err + (string \<times> string) list" where
  "clean_family_more_options business raw =
     (case raw of
        OptMissing \<Rightarrow> Inr []
      | OptNotObject \<Rightarrow> Inl (ValidationError ''Measurements must be an object.'')
      | Options xs \<Rightarrow>
          if list_all (\<lambda>(key, _). key \<in> fst ` set (more_option_labels (settings business))) xs
          then ebind (emap clean_option xs) (\<lambda>ys. Inr (filter (\<lambda>(_, value). value \<noteq> []) ys))
          else Inl (ValidationError ''Unconfigured measurement field(s)''))"

definition family_access ::
    "(string list \<Rightarrow> string list) \<Rightarrow> 'a core_db_scheme \<Rightarrow> business \<Rightarrow> user option \<Rightarrow> membership option \<Rightarrow> bool \<Rightarrow>
     err + access_context" where
  "family_access ord db business user membership scope =
     require_actor_access ord db user (Some business) ''tailoring'' (Some ''customers.manage'') WRITE membership scope"

definition canonical_family_customer ::
    "(string list \<Rightarrow> string list) \<Rightarrow> business \<Rightarrow> id \<Rightarrow> user option \<Rightarrow> membership option \<Rightarrow> 'a pos_db_scheme \<Rightarrow>
     err + (access_context \<times> customer)" where
  "canonical_family_customer ord business i user membership db =
     ebind (family_access ord db business user membership True) (\<lambda>c.
     case find_customer db (biz_id business) i of
       None \<Rightarrow> deny_scope ord db business user ''tailoring'' ''customers.manage'' (ctx_membership c)
     | Some x \<Rightarrow>
         if cu_walk_in x \<or> \<not> branch_allowed c (cu_home_branch x)
         then deny_scope ord db business user ''tailoring'' ''customers.manage'' (ctx_membership c)
         else Inr (c, x))"

definition parse_relation :: "string \<Rightarrow> family_relation option" where
  "parse_relation s =
     (let r = py_lower (py_strip s) in
      if r = ''son'' then Some SON
      else if r = ''brother'' then Some BROTHER
      else if r = ''father'' then Some FATHER
      else None)"

definition clean_family_fields ::
    "business \<Rightarrow> string \<Rightarrow> string \<Rightarrow> raw_options \<Rightarrow> err + (string \<times> family_relation \<times> (string \<times> string) list)" where
  "clean_family_fields business name relation more_options =
     (let n = py_strip name in
      if n = [] then Inl (ValidationError ''Enter the family member's name.'')
      else if 160 < length n then Inl (ValidationError ''Name cannot exceed 160 characters.'')
      else case parse_relation relation of
        None \<Rightarrow> Inl (ValidationError ''Select a valid relation.'')
      | Some r \<Rightarrow> ebind (clean_family_more_options business more_options) (\<lambda>os. Inr (n, r, os)))"

definition create_customer_family_member ::
    "(string list \<Rightarrow> string list) \<Rightarrow> business \<Rightarrow> id \<Rightarrow> id \<Rightarrow> string \<Rightarrow> string \<Rightarrow> raw_options \<Rightarrow> user option \<Rightarrow>
     membership option \<Rightarrow> 'a pos_db_scheme \<Rightarrow> err + 'a pos_db_scheme" where
  "create_customer_family_member ord business uuid i name relation more_options user membership db =
     ebind (canonical_family_customer ord business i user membership db) (\<lambda>(c, x).
     ebind (clean_family_fields business name relation more_options) (\<lambda>(n, r, os).
       Inr (log_audit ''customer_family.created'' ''customers'' (''Family profile '' @ n @ '' created.'')
         (db\<lparr>family_members := family_members db @
            [\<lparr>fm_id = next_pk fm_id (family_members db), fm_public_id = uuid, fm_business = biz_id business,
              fm_customer = cu_id x, fm_name = n, fm_relation = r, fm_more_options = os, fm_active = True\<rparr>]\<rparr>))))"

definition find_family :: "'a pos_db_scheme \<Rightarrow> id \<Rightarrow> id \<Rightarrow> id \<Rightarrow> family_member option" where
  "find_family db b customer i =
     find (\<lambda>f. fm_id f = i \<and> fm_business f = b \<and> fm_customer f = customer) (family_members db)"

definition update_customer_family_member ::
    "(string list \<Rightarrow> string list) \<Rightarrow> business \<Rightarrow> id \<Rightarrow> id \<Rightarrow> string \<Rightarrow> string \<Rightarrow> raw_options \<Rightarrow> user option \<Rightarrow>
     membership option \<Rightarrow> 'a pos_db_scheme \<Rightarrow> err + 'a pos_db_scheme" where
  "update_customer_family_member ord business i family name relation more_options user membership db =
     ebind (canonical_family_customer ord business i user membership db) (\<lambda>(c, x).
     case find_family db (biz_id business) (cu_id x) family of
       None \<Rightarrow> deny_scope ord db business user ''tailoring'' ''customers.manage'' (ctx_membership c)
     | Some f \<Rightarrow>
         ebind (clean_family_fields business name relation more_options) (\<lambda>(n, r, os).
           Inr (log_audit ''customer_family.updated'' ''customers'' (''Family profile '' @ n @ '' updated.'')
             (db\<lparr>family_members := save_row fm_id (f\<lparr>fm_name := n, fm_relation := r, fm_more_options := os\<rparr>)
                (family_members db)\<rparr>))))"

definition deactivate_customer_family_member ::
    "(string list \<Rightarrow> string list) \<Rightarrow> business \<Rightarrow> id \<Rightarrow> id \<Rightarrow> user option \<Rightarrow> membership option \<Rightarrow>
     'a pos_db_scheme \<Rightarrow> err + 'a pos_db_scheme" where
  "deactivate_customer_family_member ord business i family user membership db =
     ebind (canonical_family_customer ord business i user membership db) (\<lambda>(c, x).
     case find_family db (biz_id business) (cu_id x) family of
       None \<Rightarrow> deny_scope ord db business user ''tailoring'' ''customers.manage'' (ctx_membership c)
     | Some f \<Rightarrow>
         if fm_active f
         then Inr (log_audit ''customer_family.deactivated'' ''customers''
                (''Family profile '' @ fm_name f @ '' deactivated.'')
                (db\<lparr>family_members := save_row fm_id (f\<lparr>fm_active := False\<rparr>) (family_members db)\<rparr>))
         else Inr db)"

section \<open>Balances\<close>

definition apply_balance_change :: "id \<Rightarrow> milli \<Rightarrow> 'a pos_db_scheme \<Rightarrow> 'a pos_db_scheme" where
  "apply_balance_change i delta db =
     db\<lparr>customers := map (\<lambda>c. if cu_id c = i then c\<lparr>cu_balance := cu_balance c + delta\<rparr> else c) (customers db)\<rparr>"

definition apply_store_credit_change :: "id \<Rightarrow> milli \<Rightarrow> 'a pos_db_scheme \<Rightarrow> 'a pos_db_scheme" where
  "apply_store_credit_change i delta db =
     db\<lparr>customers := map (\<lambda>c. if cu_id c = i then c\<lparr>cu_store_credit := cu_store_credit c + delta\<rparr> else c)
          (customers db)\<rparr>"

text \<open>The branch and shift a collection is booked on.\<close>

definition collection_place ::
    "(string list \<Rightarrow> string list) \<Rightarrow> business \<Rightarrow> user option \<Rightarrow> access_context \<Rightarrow> customer \<Rightarrow> id option \<Rightarrow>
     'a pos_db_scheme \<Rightarrow> err + (id option \<times> id option)" where
  "collection_place ord business user c x shift db =
     (case shift of
        None \<Rightarrow> Inr (cu_home_branch x, None)
      | Some i \<Rightarrow>
          (case find (\<lambda>s. sh_id s = i \<and> sh_business s = biz_id business \<and> Some (sh_cashier s) = upk user
                 \<and> sh_status s = SH_OPEN) (shifts db) of
             None \<Rightarrow> deny_scope ord db business user ''customer_credit'' ''customers.payments'' (ctx_membership c)
           | Some s \<Rightarrow>
               if scoped c (branch_row db (sh_branch s)) \<and> cu_home_branch x = Some (sh_branch s)
               then Inr (Some (sh_branch s), Some i)
               else deny_scope ord db business user ''customer_credit'' ''customers.payments'' (ctx_membership c)))"

definition receipt_number :: "business \<Rightarrow> 'a pos_db_scheme \<Rightarrow> string" where
  "receipt_number business db =
     next_number ''RCV'' 6 (map cpay_number (filter (\<lambda>p. cpay_business p = biz_id business) (customer_payments db)))"

definition record_customer_payment ::
    "(string list \<Rightarrow> string list) \<Rightarrow> business \<Rightarrow> id \<Rightarrow> rat \<Rightarrow> id \<Rightarrow> user option \<Rightarrow> string \<Rightarrow> string \<Rightarrow> id option \<Rightarrow>
     membership option \<Rightarrow> 'a pos_db_scheme \<Rightarrow> err + 'a pos_db_scheme" where
  "record_customer_payment ord business i amount method user reference memo shift membership db =
     (let b = biz_id business; perm = ''customers.payments'' in
      ebind (require_actor_access ord db user (Some business) ''customer_credit'' (Some perm) WRITE membership True) (\<lambda>c.
      case (find_customer db b i,
            find (\<lambda>m. pm_id m = method \<and> pm_business m = b \<and> pm_active m) (payment_methods db)) of
        (Some x, Some m) \<Rightarrow>
          if pm_kind m = CUSTOMER_CREDIT \<or> pm_kind m = STORE_CREDIT
          then Inl (ValidationError ''Use a real payment method to collect a balance.'')
          else if \<not> branch_allowed c (cu_home_branch x)
          then deny_scope ord db business user ''customer_credit'' perm (ctx_membership c)
          else ebind (collection_place ord business user c x shift db) (\<lambda>(place, sh).
            let paid = money amount in
            if paid \<le> 0 then Inl (ValidationError ''Payment amount must be positive.'')
            else if cu_balance x < paid
            then Inl (ValidationError ''Payment exceeds the customer's outstanding balance.'')
            else Inr (log_audit ''customer.payment'' ''customers''
              (''Collected from '' @ cu_name x @ '' ('' @ receipt_number business db @ '').'')
              (db\<lparr>customer_payments := customer_payments db @
                   [\<lparr>cpay_business = b, cpay_number = receipt_number business db, cpay_customer = cu_id x,
                     cpay_branch = place, cpay_kind = COLLECTION, cpay_amount = paid, cpay_method = Some m,
                     cpay_reference = take 120 reference, cpay_notes = take 300 memo,
                     cpay_received_by = upk user, cpay_shift = sh\<rparr>],
                 customers := save_row cu_id (x\<lparr>cu_balance := cu_balance x - paid\<rparr>) (customers db)\<rparr>)))
      | _ \<Rightarrow> Inl Http404))"

section \<open>Laws\<close>

lemma deny_scope_Inl: "reorders ord \<Longrightarrow> deny_scope ord db business user key perm membership \<noteq> Inr x"
  by (auto simp: deny_scope_def result_simps)

lemma find_customer_Some:
  "find_customer db b i = Some c \<Longrightarrow> c \<in> set (customers db) \<and> cu_id c = i \<and> cu_business c = b"
  by (auto simp: find_customer_def dest: find_Some_mem)

text \<open>The balances of a customer, by key.\<close>

definition owed :: "'a pos_db_scheme \<Rightarrow> id \<Rightarrow> milli option" where
  "owed db i = map_option cu_balance (row_by cu_id i (customers db))"

definition credit_held :: "'a pos_db_scheme \<Rightarrow> id \<Rightarrow> milli option" where
  "credit_held db i = map_option cu_store_credit (row_by cu_id i (customers db))"

lemma row_by_map:
  "(\<And>x. pk (f x) = pk x) \<Longrightarrow> row_by pk i (map f xs) = map_option f (row_by pk i xs)"
  by (induction xs) (auto simp: row_by_def)

lemma row_by_map_at:
  assumes "\<And>c. cu_id (g c) = cu_id c"
  shows "row_by cu_id j (map (\<lambda>c. if cu_id c = i then g c else c) cs)
    = map_option (\<lambda>c. if j = i then g c else c) (row_by cu_id j cs)"
proof -
  have "row_by cu_id j (map (\<lambda>c. if cu_id c = i then g c else c) cs)
    = map_option (\<lambda>c. if cu_id c = i then g c else c) (row_by cu_id j cs)"
    by (rule row_by_map) (simp add: assms)
  also have "\<dots> = map_option (\<lambda>c. if j = i then g c else c) (row_by cu_id j cs)"
    by (cases "row_by cu_id j cs") (auto dest: row_by_Some)
  finally show ?thesis .
qed

lemma owed_changes [simp]:
  "owed (apply_balance_change i d db) j = (if j = i then map_option (\<lambda>x. x + d) (owed db j) else owed db j)"
  "owed (apply_store_credit_change i d db) j = owed db j"
  "credit_held (apply_store_credit_change i d db) j
     = (if j = i then map_option (\<lambda>x. x + d) (credit_held db j) else credit_held db j)"
  "credit_held (apply_balance_change i d db) j = credit_held db j"
  by (simp_all add: owed_def credit_held_def apply_balance_change_def apply_store_credit_change_def row_by_map_at
      option.map_comp comp_def if_distrib cong: if_cong)

end
