(* ===== verification/Sale_Cart.thy ===== *)
theory Sale_Cart
  imports Customer_Accounts
begin

text \<open>
  The validation of a cart in \<^verbatim>\<open>apps/sales/services.py\<close>: the fields of a line (customer fabric, meter,
  tailoring details, garment classification, price and discount), the visibility of a product in a
  branch (\<^verbatim>\<open>apps/catalog/services.py\<close>) and the step from the lines a client sends to the lines a
  sale is computed from.  An error carries its message without the form fields; a message that only
  differs by the name of a product or field is written without it.
\<close>

section \<open>What a client sends\<close>

text \<open>A meter is a decimal with its exponent, because trailing zeros count as decimal places.\<close>

datatype meter_input = MeterAbsent | MeterBlank | MeterNoNumber | MeterNotFinite | MeterValue int int

datatype family_input = NoFamily | FamilyInvalid | FamilyId id

datatype details_input = DetailsInvalid | DetailsOf "(string \<times> string) list"

record cart_input =
  li_product :: id
  li_variant :: "id option"
  li_quantity :: rat
  li_unit_price :: "rat option"
  li_discount :: "rat option"
  li_customer_fabric :: fabric_flag
  li_meter :: meter_input
  li_family :: family_input
  li_classification :: string
  li_collection :: "string option"
  li_details :: details_input

section \<open>Cleaning of single fields\<close>

definition clean_customer_supplied_fabric :: "fabric_flag \<Rightarrow> err + bool" where
  "clean_customer_supplied_fabric f =
     (case f of
        FlagMissing \<Rightarrow> Inr False
      | FlagBool b \<Rightarrow> Inr b
      | FlagInvalid \<Rightarrow> Inl (SaleError ''Customer Fabric must be true or false.''))"

definition MAX_POS_FABRIC_METER :: rat where
  "MAX_POS_FABRIC_METER = 1000"

definition MAX_FABRIC_TOTAL :: milli where
  "MAX_FABRIC_TOTAL = 99999999999999"

definition clean_fabric_meter :: "meter_input \<Rightarrow> err + milli" where
  "clean_fabric_meter m =
     (case m of
        MeterAbsent \<Rightarrow> Inl (SaleError ''Enter Meter for every tailoring garment.'')
      | MeterBlank \<Rightarrow> Inl (SaleError ''Enter Meter for every tailoring garment.'')
      | MeterNoNumber \<Rightarrow> Inl (SaleError ''Enter a valid Meter amount.'')
      | MeterNotFinite \<Rightarrow> Inl (SaleError ''Enter a valid Meter amount.'')
      | MeterValue coeff expo \<Rightarrow>
          let amount = of_int coeff * pow10 expo in
          if amount \<le> 0 then Inl (SaleError ''Meter must be greater than zero.'')
          else if MAX_POS_FABRIC_METER < amount then Inl (SaleError ''Meter cannot exceed 1000.000.'')
          else if expo < - 3 then Inl (SaleError ''Meter can have at most 3 decimal places.'')
          else Inr (qty amount))"

definition clean_actual_fabric :: "meter_input \<Rightarrow> err + milli option" where
  "clean_actual_fabric m =
     (case m of
        MeterAbsent \<Rightarrow> Inr None
      | MeterBlank \<Rightarrow> Inr None
      | MeterNoNumber \<Rightarrow> Inl (SaleError ''Enter a valid actual fabric amount.'')
      | MeterNotFinite \<Rightarrow> Inl (SaleError ''Enter a valid actual fabric amount.'')
      | MeterValue coeff expo \<Rightarrow>
          let amount = qty (of_int coeff * pow10 expo) in
          if amount < 0 then Inl (SaleError ''Actual fabric used cannot be negative.'')
          else if MAX_FABRIC_TOTAL < amount then Inl (SaleError ''Actual fabric used is too large.'')
          else Inr (Some amount))"

definition TAILORING_FIELDS :: "string list" where
  "TAILORING_FIELDS = [''design_type'', ''daraz_details'', ''vip_3d_design'', ''computer_design'',
     ''customer_notes'', ''workshop_notes'']"

definition TAILORING_DESIGN_TYPES :: "string list" where
  "TAILORING_DESIGN_TYPES = [''Daraz'', ''VIP 3D'', ''VIP 3D Design'', ''Computer Design'']"

definition TAILORING_FIELD_LIMITS :: "(string \<times> nat) list" where
  "TAILORING_FIELD_LIMITS = [(''design_type'', 50), (''daraz_details'', 200), (''vip_3d_design'', 200),
     (''computer_design'', 200), (''customer_notes'', 500), (''workshop_notes'', 500)]"

definition clean_detail ::
    "(string \<times> string) list \<Rightarrow> string \<Rightarrow> (string \<times> string) list \<Rightarrow> err + (string \<times> string) list" where
  "clean_detail raw key details =
     (let value = py_strip (case map_of raw key of Some v \<Rightarrow> v | None \<Rightarrow> []) in
      if value = [] then Inr details
      else if (case map_of TAILORING_FIELD_LIMITS key of Some n \<Rightarrow> n < length value | None \<Rightarrow> False)
      then Inl (SaleError ''Tailoring details are too long.'')
      else Inr (details @ [(key, value)]))"

definition clean_tailoring_details ::
    "(string list \<Rightarrow> string list) \<Rightarrow> details_input \<Rightarrow> err + (string \<times> string) list" where
  "clean_tailoring_details ord raw =
     (case raw of
        DetailsInvalid \<Rightarrow> Inl (SaleError ''Invalid tailoring details.'')
      | DetailsOf entries \<Rightarrow>
          ebind (efold (clean_detail entries) (ord TAILORING_FIELDS) []) (\<lambda>details.
            case map_of details ''design_type'' of
              Some d \<Rightarrow> if d \<in> set TAILORING_DESIGN_TYPES then Inr details
                        else Inl (SaleError ''Select a valid design type.'')
            | None \<Rightarrow> Inr details))"

text \<open>\<open>None\<close> is a text that is no choice of the field.\<close>

definition parse_classification :: "string \<Rightarrow> garment_classification option" where
  "parse_classification raw =
     (let c = py_lower (py_strip raw) in
      if c = [] then Some NoClass else if c = ''adult'' then Some ADULT
      else if c = ''child'' then Some CHILD else None)"

definition parse_collection :: "string option \<Rightarrow> collection_type option" where
  "parse_collection raw =
     (let c = py_lower (py_strip (case raw of Some s \<Rightarrow> s | None \<Rightarrow> [])) in
      if c = [] then Some NoCollection else if c = ''normal'' then Some NORMAL
      else if c = ''premium'' then Some PREMIUM else None)"

definition parse_priority :: "string \<Rightarrow> sale_priority option" where
  "parse_priority raw =
     (let p = (if raw = [] then ''normal'' else py_lower (py_strip raw)) in
      if p = ''normal'' then Some P_NORMAL else if p = ''high'' then Some P_HIGH
      else if p = ''urgent'' then Some P_URGENT else None)"

definition fabric_estimate :: "product \<Rightarrow> garment_classification \<Rightarrow> rat \<Rightarrow> err + milli" where
  "fabric_estimate p class quantity =
     (case (if class = ADULT then estimated_adult_fabric p else estimated_child_fabric p) of
        None \<Rightarrow> Inl (SaleError ''Configure the estimated fabric of this product before selling it.'')
      | Some per_garment \<Rightarrow>
          let estimate = qty (dmul quantity (dec per_garment)) in
          if MAX_FABRIC_TOTAL < estimate then Inl (SaleError ''Estimated fabric is too large.'')
          else Inr estimate)"

definition clean_checkout_token :: "string option \<Rightarrow> err + string option" where
  "clean_checkout_token value =
     (case value of
        None \<Rightarrow> Inr None
      | Some s \<Rightarrow> let token = py_strip s in
          if token = [] then Inr None
          else if 64 < length token then Inl (SaleError ''Invalid checkout token.'')
          else Inr (Some token))"

definition resolve_price :: "product \<Rightarrow> variant option \<Rightarrow> milli" where
  "resolve_price p v =
     (case v of Some x \<Rightarrow> if 0 < var_sale_price x then var_sale_price x else prod_sale_price p
      | None \<Rightarrow> prod_sale_price p)"

definition resolve_cost :: "product \<Rightarrow> variant option \<Rightarrow> milli" where
  "resolve_cost p v =
     (if item_average_cost p v \<noteq> 0 then item_average_cost p v else item_purchase_price p v)"

section \<open>Visibility in a branch\<close>

definition level_in_branch :: "'a core_db_scheme \<Rightarrow> id \<Rightarrow> id \<Rightarrow> stock_level \<Rightarrow> bool" where
  "level_in_branch db b branch l =
     (case row_by wh_id (lv_warehouse l) (warehouses db) of
        Some w \<Rightarrow> wh_business w = b \<and> wh_branch w = Some branch \<and> wh_active w | None \<Rightarrow> False)"

definition product_is_visible_in_branch ::
    "'a stock_db_scheme \<Rightarrow> business \<Rightarrow> product \<Rightarrow> branch \<Rightarrow> variant option \<Rightarrow> bool" where
  "product_is_visible_in_branch db business p branch v =
     (let b = biz_id business in
      if br_business branch \<noteq> b \<or> prod_business p \<noteq> b then False
      else if \<not> is_stocked p then True
      else
        let mine = filter (\<lambda>l. lv_business l = b \<and> lv_product l = prod_id p) (levels db);
            here = (case configured_shared_fabric_warehouse db b of
                Some w \<Rightarrow> if is_meter_tailoring p then filter (\<lambda>l. lv_warehouse l = wh_id w) mine
                          else filter (level_in_branch db b (br_id branch)) mine
              | None \<Rightarrow> filter (level_in_branch db b (br_id branch)) mine)
        in case v of
             Some x \<Rightarrow> var_business x = b \<and> var_product x = prod_id p
               \<and> list_ex (\<lambda>l. lv_variant l = Some (var_id x)) here
           | None \<Rightarrow> if has_variants p then list_ex (\<lambda>l. lv_variant l \<noteq> None) here else here \<noteq> [])"

section \<open>A line\<close>

definition find_product :: "'a stock_db_scheme \<Rightarrow> id \<Rightarrow> id \<Rightarrow> product option" where
  "find_product db b i = find (\<lambda>p. prod_id p = i \<and> prod_business p = b) (products db)"

definition member_may :: "membership option \<Rightarrow> string \<Rightarrow> bool" where
  "member_may m perm = (case m of Some x \<Rightarrow> has_perm x perm | None \<Rightarrow> False)"

text \<open>\<open>membership and not membership.has_perm(perm)\<close>\<close>

definition member_lacks :: "membership option \<Rightarrow> string \<Rightarrow> bool" where
  "member_lacks m perm = (case m of Some x \<Rightarrow> \<not> has_perm x perm | None \<Rightarrow> False)"

definition line_variant :: "'a stock_db_scheme \<Rightarrow> id \<Rightarrow> product \<Rightarrow> cart_input \<Rightarrow> err + variant option" where
  "line_variant db b p l =
     (case li_variant l of
        None \<Rightarrow> Inr None
      | Some i \<Rightarrow> (case find (\<lambda>v. var_id v = i \<and> var_business v = b) (variants db) of
          Some v \<Rightarrow> if var_product v = prod_id p \<and> var_active v then Inr (Some v)
                    else Inl (SaleError ''Invalid variant in cart.'')
        | None \<Rightarrow> Inl (SaleError ''Invalid variant in cart.'')))"

definition line_family :: "'a pos_db_scheme \<Rightarrow> id \<Rightarrow> customer \<Rightarrow> bool \<Rightarrow> cart_input \<Rightarrow> err + id option" where
  "line_family db b customer tailoring l =
     (case li_family l of
        FamilyId i \<Rightarrow>
          (case find (\<lambda>f. fm_public_id f = i \<and> fm_business f = b) (family_members db) of
             None \<Rightarrow> Inl (SaleError ''Select a family member belonging to this customer.'')
           | Some f \<Rightarrow>
               if fm_customer f \<noteq> cu_id customer
               then Inl (SaleError ''Select a family member belonging to this customer.'')
               else if \<not> fm_active f then Inl (SaleError ''The selected family member is inactive.'')
               else if \<not> tailoring
               then Inl (SaleError ''A family member can only be selected for a tailoring garment.'')
               else Inr (Some (fm_id f)))
      | _ \<Rightarrow> Inr None)"

definition line_price :: "product \<Rightarrow> variant option \<Rightarrow> bool \<Rightarrow> membership option \<Rightarrow> cart_input \<Rightarrow> err + (milli \<times> milli)"
where
  "line_price p v meter m l =
     (let default = (if meter then 0 else resolve_price p v);
          price = (case li_unit_price l of Some r \<Rightarrow> money r | None \<Rightarrow> default);
          discount = (case li_discount l of Some r \<Rightarrow> money r | None \<Rightarrow> 0)
      in if price < 0 then Inl (SaleError ''Price cannot be negative.'')
         else if \<not> meter \<and> 0 < prod_minimum_price p \<and> price < prod_minimum_price p
              \<and> \<not> member_may m ''sales.price_override''
         then Inl (SaleError ''The price is below the minimum sale price.'')
         else if 0 < discount \<and> (meter \<or> \<not> allow_discount p)
         then Inl (SaleError ''Discounts are not allowed on this product.'')
         else Inr (price, discount))"

text \<open>What a line says of the garment; the fabric fields are \<open>None\<close> unless their branch sets them.\<close>

record garment =
  ga_classification :: garment_classification
  ga_collection :: collection_type
  ga_estimated :: "milli option"
  ga_meter :: "milli option"

definition garment_choices ::
    "garment_classification option \<Rightarrow> collection_type option \<Rightarrow> err + (garment_classification \<times> collection_type)" where
  "garment_choices class coll =
     (case class of
        None \<Rightarrow> Inl (SaleError ''Select Adult or Child for every garment.'')
      | Some NoClass \<Rightarrow> Inl (SaleError ''Select Adult or Child for every garment.'')
      | Some c \<Rightarrow>
          (case coll of
             None \<Rightarrow> Inl (SaleError ''Select Normal or Premium for every garment.'')
           | Some NoCollection \<Rightarrow> Inl (SaleError ''Select Normal or Premium for every garment.'')
           | Some k \<Rightarrow> Inr (c, k)))"

definition meter_garment :: "product \<Rightarrow> variant option \<Rightarrow> bool \<Rightarrow> cart_input \<Rightarrow> err + garment" where
  "meter_garment p v own l =
     (if \<not> own \<and> \<not> is_stocked p
      then Inl (SaleError ''The product must track inventory before it can be sold.'')
      else if \<not> own \<and> has_variants p \<and> v = None then Inl (SaleError ''Select a fabric color.'')
      else if li_quantity l \<noteq> 1 then Inl (SaleError ''Quantity must be 1 for meter tailoring garments.'')
      else ebind (if own then Inr None else ebind (clean_fabric_meter (li_meter l)) (\<lambda>m. Inr (Some m))) (\<lambda>meter.
        ebind (garment_choices (parse_classification (li_classification l)) (parse_collection (li_collection l)))
          (\<lambda>(class, coll). Inr \<lparr>ga_classification = class, ga_collection = coll, ga_estimated = None,
             ga_meter = meter\<rparr>)))"

definition legacy_garment :: "product \<Rightarrow> bool \<Rightarrow> cart_input \<Rightarrow> err + garment" where
  "legacy_garment p own l =
     ebind (garment_choices (parse_classification (li_classification l))
             (if li_collection l = None \<and> \<not> own then Some NORMAL else parse_collection (li_collection l)))
       (\<lambda>(class, coll).
          ebind (if own then Inr None else ebind (fabric_estimate p class (li_quantity l)) (\<lambda>e. Inr (Some e)))
            (\<lambda>estimate. Inr \<lparr>ga_classification = class, ga_collection = coll, ga_estimated = estimate,
               ga_meter = None\<rparr>))"

definition plain_garment :: garment where
  "plain_garment = \<lparr>ga_classification = NoClass, ga_collection = NoCollection, ga_estimated = None, ga_meter = None\<rparr>"

definition line_garment ::
    "product \<Rightarrow> variant option \<Rightarrow> bool \<Rightarrow> bool \<Rightarrow> bool \<Rightarrow> (string \<times> string) list \<Rightarrow> cart_input \<Rightarrow> err + garment" where
  "line_garment p v own meter legacy details l =
     (if meter then meter_garment p v own l
      else if legacy then legacy_garment p own l
      else if is_tailoring_item p \<and> prod_unit p = None \<and> li_meter l \<noteq> MeterAbsent
      then Inl (SaleError ''Select the Meter unit before entering Meter.'')
      else if parse_classification (li_classification l) \<noteq> Some NoClass
              \<or> parse_collection (li_collection l) \<noteq> Some NoCollection \<or> details \<noteq> []
      then Inl (SaleError ''The product is not configured as a tailoring garment.'')
      else Inr plain_garment)"

text \<open>A validated line: what the calculation reads, and what is stored beside it.  \<open>nl_tailoring\<close>
  tells that the line took one of the two tailoring branches.\<close>

record norm_line =
  nl_cart :: cart_line
  nl_garment :: garment
  nl_tailoring :: bool
  nl_customer_fabric :: bool
  nl_details :: "(string \<times> string) list"
  nl_family :: "id option"

definition normalize_line ::
    "(string list \<Rightarrow> string list) \<Rightarrow> 'a pos_db_scheme \<Rightarrow> business \<Rightarrow> branch \<Rightarrow> customer \<Rightarrow> membership option \<Rightarrow>
     cart_input \<Rightarrow> err + norm_line" where
  "normalize_line ord db business branch customer m l =
     (let b = biz_id business; invalid = Inl (SaleError ''Invalid product in cart.'') in
      case find_product db b (li_product l) of
        None \<Rightarrow> invalid
      | Some p \<Rightarrow>
          if \<not> prod_active p \<or> prod_archived p then invalid
          else ebind (line_variant db b p l) (\<lambda>v.
            ebind (clean_customer_supplied_fabric (li_customer_fabric l)) (\<lambda>own.
            let meter = is_meter_tailoring p;
                legacy = is_legacy_tailoring p \<and> (own \<or> li_meter l = MeterAbsent);
                unassigned = own \<and> \<not> list_ex (\<lambda>x. lv_business x = b \<and> lv_product x = prod_id p) (levels db)
            in ebind (line_family db b customer (meter \<or> legacy) l) (\<lambda>family.
               if own \<and> \<not> (meter \<or> legacy)
               then Inl (SaleError ''Customer Fabric can only be used with a tailoring garment.'')
               else if \<not> product_is_visible_in_branch db business p branch v \<and> \<not> unassigned then invalid
               else if li_quantity l \<le> 0 then Inl (SaleError ''Quantity must be positive.'')
               else ebind (line_price p v meter m l) (\<lambda>(price, discount).
                 if (case prod_unit p of Some u \<Rightarrow> unit_business u \<noteq> b | None \<Rightarrow> False)
                 then Inl (SaleError ''Invalid product unit in cart.'')
                 else ebind (clean_tailoring_details ord (li_details l)) (\<lambda>details.
                 ebind (line_garment p v own meter legacy details l) (\<lambda>g.
                   Inr \<lparr>nl_cart = \<lparr>cl_product = p, cl_variant = v, cl_quantity = li_quantity l,
                          cl_unit_price = dec price, cl_discount = dec discount\<rparr>,
                        nl_garment = g, nl_tailoring = (meter \<or> legacy), nl_customer_fabric = own,
                        nl_details = details, nl_family = family\<rparr>)))))))"

end
