(* ===== verification/Checkout.thy ===== *)
theory Checkout
  imports Invoice_Numbers Sale_Cart
begin

text \<open>
  \<^verbatim>\<open>complete_sale\<close> in \<^verbatim>\<open>apps/sales/services.py\<close> with its helpers: the checks of the checkout context, the
  replay of a checkout token, the cart, discounts, payments, credit, and the records it writes (the
  sale, its items, the stock movements, the payments and the customer's balances).  A checkout names
  its objects by key.  One transaction runs at a time, so the handler of a concurrent insert with the
  same token has nothing to do; column values round half up.
\<close>

section \<open>The checkout and its context\<close>

record checkout =
  co_branch :: id
  co_warehouse :: id
  co_cashier :: "user option"
  co_customer :: id
  co_items :: "cart_input list"
  co_payments :: "id payment_input list"
  co_membership :: "membership option"
  co_register :: "id option"
  co_shift :: "id option"
  co_invoice_discount :: rat
  co_notes :: string
  co_salesperson :: "id option"
  co_delivery_date :: "int option"
  co_priority :: string
  co_token :: "string option"

record checkout_scope =
  cs_membership :: "membership option"
  cs_branch :: branch
  cs_warehouse :: warehouse
  cs_customer :: customer
  cs_register :: "cash_register option"
  cs_shift :: "shift option"

definition valid_shift :: "shift \<Rightarrow> business \<Rightarrow> branch \<Rightarrow> user option \<Rightarrow> cash_register option \<Rightarrow> bool" where
  "valid_shift sh business branch cashier register =
     (sh_business sh = biz_id business \<and> Some (sh_cashier sh) = upk cashier \<and> sh_branch sh = br_id branch
      \<and> sh_status sh = SH_OPEN
      \<and> (case register of Some r \<Rightarrow> sh_register sh = cr_id r | None \<Rightarrow> False))"

definition validate_sale_context :: "business \<Rightarrow> user option \<Rightarrow> checkout_scope \<Rightarrow> err + unit" where
  "validate_sale_context business cashier s =
     (let b = biz_id business; br = cs_branch s; w = cs_warehouse s; c = cs_customer s in
      if br_business br \<noteq> b \<or> \<not> br_active br \<or> br_usage br \<noteq> SALES_BRANCH
      then Inl (SaleError ''Invalid branch.'')
      else if wh_business w \<noteq> b \<or> \<not> wh_active w then Inl (SaleError ''Invalid warehouse.'')
      else if wh_branch w \<noteq> None \<and> wh_branch w \<noteq> Some (br_id br)
      then Inl (SaleError ''Warehouse does not belong to this branch.'')
      else if cu_business c \<noteq> b \<or> cu_home_branch c \<noteq> Some (br_id br) \<or> \<not> cu_active c
      then Inl (SaleError ''Invalid customer.'')
      else if (case cs_membership s of
                 Some m \<Rightarrow> mem_business m \<noteq> b \<or> Some (mem_user m) \<noteq> upk cashier \<or> \<not> mem_active m | None \<Rightarrow> False)
      then Inl (SaleError ''Invalid business membership.'')
      else if member_lacks (cs_membership s) ''sales.create''
      then Inl (SaleError ''You do not have permission to complete sales.'')
      else if (case cs_membership s of Some m \<Rightarrow> \<not> can_access_branch m (Some br) | None \<Rightarrow> False)
      then Inl (SaleError ''You cannot sell from this branch.'')
      else if (case cs_register s of
                 Some r \<Rightarrow> cr_business r \<noteq> b \<or> cr_branch r \<noteq> br_id br \<or> \<not> cr_active r | None \<Rightarrow> False)
      then Inl (SaleError ''Invalid or inactive register.'')
      else if (case cs_shift s of
                 Some sh \<Rightarrow> \<not> valid_shift sh business br cashier (cs_register s) | None \<Rightarrow> False)
      then Inl (SaleError ''Invalid open shift for this branch.'')
      else Inr ())"

text \<open>An object that the checkout may leave out is either absent or found in the business.\<close>

definition optional_row :: "('r \<Rightarrow> bool) \<Rightarrow> id option \<Rightarrow> (id \<Rightarrow> 'r option) \<Rightarrow> 'r option option" where
  "optional_row ok i lookup =
     (case i of None \<Rightarrow> Some None
      | Some k \<Rightarrow> (case lookup k of Some r \<Rightarrow> if ok r then Some (Some r) else None | None \<Rightarrow> None))"

definition locked_checkout_context ::
    "(string list \<Rightarrow> string list) \<Rightarrow> business \<Rightarrow> checkout \<Rightarrow> 'a pos_db_scheme \<Rightarrow> err + checkout_scope" where
  "locked_checkout_context ord business x db =
     (let b = biz_id business; cashier = co_cashier x; perm = ''sales.create'' in
      ebind (require_pos_write ord db business cashier perm (co_membership x) None) (\<lambda>c.
      let m = ctx_membership c; deny = deny_pos_scope ord db business cashier perm m in
      case find (\<lambda>br. br_id br = co_branch x \<and> br_business br = b) (branches db) of
        None \<Rightarrow> deny
      | Some br \<Rightarrow>
          ebind (require_pos_write ord db business cashier perm m (Some br)) (\<lambda>_.
          case find (\<lambda>w. wh_id w = co_warehouse x \<and> wh_business w = b) (warehouses db) of
            None \<Rightarrow> deny
          | Some w \<Rightarrow>
          (case find (\<lambda>c. cu_id c = co_customer x \<and> cu_business c = b \<and> cu_home_branch c = Some (br_id br))
                  (customers db) of
            None \<Rightarrow> deny
          | Some cu \<Rightarrow>
          (case optional_row (\<lambda>r. cr_business r = b) (co_register x) (\<lambda>i. row_by cr_id i (registers db)) of
            None \<Rightarrow> deny
          | Some register \<Rightarrow>
          (case optional_row (\<lambda>s. sh_business s = b) (co_shift x) (\<lambda>i. row_by sh_id i (shifts db)) of
            None \<Rightarrow> deny
          | Some shift \<Rightarrow>
              let s = \<lparr>cs_membership = m, cs_branch = br, cs_warehouse = w, cs_customer = cu,
                       cs_register = register, cs_shift = shift\<rparr>
              in ebind (validate_sale_context business cashier s) (\<lambda>_. Inr s)))))))"

section \<open>Replay of a checkout token\<close>

definition require_key ::
    "(string list \<Rightarrow> string list) \<Rightarrow> 'a core_db_scheme \<Rightarrow> business \<Rightarrow> user option \<Rightarrow> string \<Rightarrow> string \<Rightarrow>
     membership option \<Rightarrow> err + unit" where
  "require_key ord db business user key perm m =
     ebind (require_actor_access ord db user (Some business) key (Some perm) WRITE m True) (\<lambda>_. Inr ())"

text \<open>The access to customer credit that the payments of a sale need.\<close>

definition require_credit_kinds ::
    "(string list \<Rightarrow> string list) \<Rightarrow> 'a core_db_scheme \<Rightarrow> business \<Rightarrow> user option \<Rightarrow> membership option \<Rightarrow>
     bool \<Rightarrow> bool \<Rightarrow> err + unit" where
  "require_credit_kinds ord db business user m credit store_credit =
     (if credit then require_key ord db business user ''customer_credit'' ''sales.credit'' m
      else if store_credit then require_key ord db business user ''customer_credit'' ''sales.create'' m
      else Inr ())"

definition sale_lines :: "'a pos_db_scheme \<Rightarrow> id \<Rightarrow> sale_item list" where
  "sale_lines db s = filter (\<lambda>i. si_sale i = s) (sale_items db)"

definition sale_has_tailoring_lines :: "'a pos_db_scheme \<Rightarrow> id \<Rightarrow> bool" where
  "sale_has_tailoring_lines db s = list_ex is_tailoring_line (sale_lines db s)"

definition payment_kinds :: "'a pos_db_scheme \<Rightarrow> id \<Rightarrow> method_kind list" where
  "payment_kinds db s = map (\<lambda>p. pm_kind (sp_method p)) (filter (\<lambda>p. sp_sale p = s) (sale_payments db))"

definition find_token :: "'a pos_db_scheme \<Rightarrow> id \<Rightarrow> string \<Rightarrow> sale option" where
  "find_token db b token = find (\<lambda>s. sale_business s = b \<and> sale_checkout_token s = Some token) (sales db)"

definition validate_checkout_replay :: "sale \<Rightarrow> user option \<Rightarrow> checkout_scope \<Rightarrow> err + sale" where
  "validate_checkout_replay existing cashier s =
     (if Some (sale_cashier existing) \<noteq> upk cashier \<or> sale_branch existing \<noteq> br_id (cs_branch s)
         \<or> sale_customer existing \<noteq> cu_id (cs_customer s)
      then Inl (SaleError ''Invalid checkout token.'') else Inr existing)"

definition replay_checkout ::
    "(string list \<Rightarrow> string list) \<Rightarrow> business \<Rightarrow> user option \<Rightarrow> checkout_scope \<Rightarrow> sale \<Rightarrow> 'a pos_db_scheme \<Rightarrow> err + sale"
where
  "replay_checkout ord business cashier s existing db =
     ebind (if sale_has_tailoring_lines db (sale_id existing) \<or> sale_delivery_date existing \<noteq> None
               \<or> sale_priority existing \<noteq> P_NORMAL
            then require_key ord db business cashier ''tailoring'' ''sales.create'' (cs_membership s)
            else Inr ()) (\<lambda>_.
     ebind (require_credit_kinds ord db business cashier (cs_membership s)
             (CUSTOMER_CREDIT \<in> set (payment_kinds db (sale_id existing)))
             (STORE_CREDIT \<in> set (payment_kinds db (sale_id existing)))) (\<lambda>_.
       validate_checkout_replay existing cashier s))"

section \<open>Cart, discount, payments, credit\<close>

definition as_sale_error :: "err + 'x \<Rightarrow> err + 'x" where
  "as_sale_error r = (case r of Inl (CalculationError m) \<Rightarrow> Inl (SaleError m) | _ \<Rightarrow> r)"

definition canonical_salesperson ::
    "(string list \<Rightarrow> string list) \<Rightarrow> business \<Rightarrow> checkout \<Rightarrow> checkout_scope \<Rightarrow> 'a pos_db_scheme \<Rightarrow> err + id option" where
  "canonical_salesperson ord business x s db =
     (case co_salesperson x of
        None \<Rightarrow> Inr None
      | Some u \<Rightarrow>
          if list_ex (\<lambda>m. mem_business m = biz_id business \<and> mem_user m = u \<and> mem_active m) (memberships db)
          then Inr (Some u)
          else deny_pos_scope ord db business (co_cashier x) ''sales.create'' (cs_membership s))"

definition check_family :: "customer \<Rightarrow> cart_input \<Rightarrow> err + unit" where
  "check_family customer l =
     (if li_family l = NoFamily then Inr ()
      else if cu_walk_in customer then Inl (SaleError ''A walk-in sale cannot use a family profile.'')
      else if li_family l = FamilyInvalid then Inl (SaleError ''Select a valid family member.'')
      else Inr ())"

definition cart_tailoring :: "'a pos_db_scheme \<Rightarrow> id \<Rightarrow> cart_input list \<Rightarrow> bool" where
  "cart_tailoring db b ls =
     list_ex (\<lambda>l. case find_product db b (li_product l) of Some p \<Rightarrow> is_tailoring_item p | None \<Rightarrow> False) ls"

definition require_if ::
    "bool \<Rightarrow> err + unit \<Rightarrow> err + unit" where
  "require_if c r = (if c then r else Inr ())"

definition checkout_cart ::
    "(string list \<Rightarrow> string list) \<Rightarrow> calendar \<Rightarrow> business \<Rightarrow> checkout \<Rightarrow> checkout_scope \<Rightarrow> 'a pos_db_scheme \<Rightarrow>
     err + (norm_line list \<times> sale_priority \<times> sale_totals)" where
  "checkout_cart ord cal business x s db =
     (let b = biz_id business; m = cs_membership s;
          tailoring = require_key ord db business (co_cashier x) ''tailoring'' ''sales.create'' m in
      ebind (require_operational db business) (\<lambda>_.
      ebind (check_limit cal db business L_MONTHLY_INVOICES) (\<lambda>_.
      ebind (require (co_items x \<noteq> []) (SaleError ''Cannot complete a sale with no items.'')) (\<lambda>_.
      ebind (emap (check_family (cs_customer s)) (co_items x)) (\<lambda>_.
      ebind (require_if (cart_tailoring db b (co_items x)) tailoring) (\<lambda>_.
      case parse_priority (co_priority x) of
        None \<Rightarrow> Inl (SaleError ''Select a valid order priority.'')
      | Some priority \<Rightarrow>
          ebind (require_if (priority \<noteq> P_NORMAL \<or> co_delivery_date x \<noteq> None) tailoring) (\<lambda>_.
          ebind (emap (normalize_line ord db business (cs_branch s) (cs_customer s) m) (co_items x)) (\<lambda>ls.
          ebind (require (\<not> list_ex nl_tailoring ls \<or> co_delivery_date x \<noteq> None)
                  (SaleError ''Please select delivery date before completing the tailoring booking.'')) (\<lambda>_.
          ebind (as_sale_error (calculate_sale_totals business (map nl_cart ls)
                  (dec (money (co_invoice_discount x))) None)) (\<lambda>t.
            Inr (ls, priority, t)))))))))))"

definition check_discount :: "business \<Rightarrow> membership option \<Rightarrow> sale_totals \<Rightarrow> err + unit" where
  "check_discount business m t =
     (let discount = st_discount_total t;
          gross = st_subtotal t + st_line_discounts t;
          cap = max_discount_percent (settings business)
      in if discount \<le> 0 then Inr ()
         else if member_lacks m ''sales.discount''
         then Inl (SaleError ''You do not have permission to apply discounts.'')
         else if cap < 100 \<and> 0 < gross \<and> cap < dmul (ddiv (dec discount) (dec gross)) 100
         then Inl (SaleError ''Total discount exceeds the allowed maximum.'')
         else Inr ())"

definition locked_payment_method ::
    "(string list \<Rightarrow> string list) \<Rightarrow> business \<Rightarrow> checkout \<Rightarrow> checkout_scope \<Rightarrow> 'a pos_db_scheme \<Rightarrow>
     id payment_input \<Rightarrow> err + payment_method payment_input" where
  "locked_payment_method ord business x s db p =
     (case find (\<lambda>m. pm_id m = pi_method p \<and> pm_business m = biz_id business) (payment_methods db) of
        None \<Rightarrow> deny_pos_scope ord db business (co_cashier x) ''sales.create'' (cs_membership s)
      | Some m \<Rightarrow>
          if pm_active m
          then Inr \<lparr>pi_method = m, pi_amount = pi_amount p, pi_reference = pi_reference p\<rparr>
          else Inl (SaleError ''Invalid payment method.''))"

definition change_for :: "payment_totals \<Rightarrow> milli \<Rightarrow> err + milli" where
  "change_for pt tot =
     (if tot < pay_total pt
      then (if pay_total pt - tot \<le> cash_tendered pt then Inr (pay_total pt - tot)
            else Inl (SaleError ''Overpayment is only allowed for cash (change due).''))
      else if pay_total pt < tot
      then Inl (SaleError ''Payments do not cover the total. Use Customer Credit for the unpaid balance.'')
      else Inr 0)"

definition checkout_payments ::
    "(string list \<Rightarrow> string list) \<Rightarrow> business \<Rightarrow> checkout \<Rightarrow> checkout_scope \<Rightarrow> sale_totals \<Rightarrow> 'a pos_db_scheme \<Rightarrow>
     err + (payment_method clean_payment list \<times> payment_totals \<times> milli)" where
  "checkout_payments ord business x s t db =
     ebind (emap (locked_payment_method ord business x s db) (co_payments x)) (\<lambda>ps.
     ebind (as_sale_error (calculate_payment_totals ps pm_kind)) (\<lambda>(clean, pt).
     ebind (require_credit_kinds ord db business (co_cashier x) (cs_membership s)
             (0 < credit_amount pt) (0 < store_credit_amount pt)) (\<lambda>_.
     ebind (change_for pt (st_total t)) (\<lambda>change. Inr (clean, pt, change)))))"

definition check_credit :: "business \<Rightarrow> checkout_scope \<Rightarrow> payment_totals \<Rightarrow> err + unit" where
  "check_credit business s pt =
     (let c = cs_customer s; m = cs_membership s; credit = credit_amount pt in
      if 0 < credit \<and> cu_walk_in c \<and> require_customer_for_credit (settings business)
      then Inl (SaleError ''Credit sales require a named customer.'')
      else if 0 < credit \<and> member_lacks m ''sales.credit''
      then Inl (SaleError ''You do not have permission to make credit sales.'')
      else if 0 < credit \<and> 0 < cu_credit_limit c \<and> cu_credit_limit c < cu_balance c + credit
              \<and> \<not> member_may m ''credit.approve''
      then Inl (SaleError ''This sale would exceed the customer's credit limit.'')
      else if 0 < store_credit_amount pt \<and> cu_store_credit c < store_credit_amount pt
      then Inl (SaleError ''Customer does not have enough store credit.'')
      else Inr ())"

section \<open>The records of a sale\<close>

definition new_sale ::
    "business \<Rightarrow> checkout \<Rightarrow> checkout_scope \<Rightarrow> id \<Rightarrow> id option \<Rightarrow> string option \<Rightarrow> sale_priority \<Rightarrow> sale_totals \<Rightarrow>
     payment_totals \<Rightarrow> milli \<Rightarrow> string \<Rightarrow> 'a pos_db_scheme \<Rightarrow> sale" where
  "new_sale business x s cashier salesperson token priority t pt change number db =
     \<lparr>sale_id = next_pk sale_id (sales db), sale_business = biz_id business, sale_branch = br_id (cs_branch s),
      sale_warehouse = wh_id (cs_warehouse s), sale_register = map_option cr_id (cs_register s),
      sale_shift = map_option sh_id (cs_shift s), sale_cashier = cashier, sale_salesperson = salesperson,
      sale_customer = cu_id (cs_customer s), sale_invoice_number = number, sale_checkout_token = token,
      sale_status = S_COMPLETED, sale_priority = priority, sale_date = clock db, sale_created = clock db,
      sale_delivery_date = co_delivery_date x,
      sale_delivery_status = (if co_delivery_date x = None then NoDelivery else PENDING),
      sale_subtotal = st_subtotal t, sale_discount = st_discount_total t, sale_tax = st_tax_total t,
      sale_rounding = st_rounding t, sale_total = st_total t,
      sale_amount_paid = pay_total pt - change - credit_amount pt, sale_change_due = change,
      sale_total_cost = 0, sale_gross_profit = 0, sale_notes = co_notes x,
      sale_voided_at = None, sale_voided_by = None, sale_void_reason = []\<rparr>"

text \<open>The stock a line takes: its warehouse (none for the customer's own fabric), cost and quantity.\<close>

definition line_stock ::
    "'a stock_db_scheme \<Rightarrow> id \<Rightarrow> warehouse \<Rightarrow> norm_line \<Rightarrow> line_parts \<Rightarrow> err + (warehouse option \<times> milli \<times> rat)" where
  "line_stock db b w n parts =
     (let p = cl_product (nl_cart n) in
      if nl_customer_fabric n then Inr (None, 0, 0)
      else ebind (stock_warehouse_for_sale_product db b w p) (\<lambda>sw.
        Inr (Some sw, resolve_cost p (cl_variant (nl_cart n)),
             case ga_meter (nl_garment n) of Some m \<Rightarrow> dec m | None \<Rightarrow> lp_quantity parts)))"

definition item_label :: "product \<Rightarrow> variant option \<Rightarrow> string" where
  "item_label p v =
     take 240 (case v of Some x \<Rightarrow> prod_name p @ '' - '' @ var_name x | None \<Rightarrow> prod_name p)"

definition new_item ::
    "id \<Rightarrow> sale \<Rightarrow> norm_line \<Rightarrow> line_parts \<Rightarrow> warehouse option \<Rightarrow> milli \<Rightarrow> milli \<Rightarrow> 'a pos_db_scheme \<Rightarrow> sale_item" where
  "new_item b sale n parts sw unit_cost line_cost db =
     (let p = cl_product (nl_cart n); v = cl_variant (nl_cart n); g = nl_garment n in
      \<lparr>si_id = next_pk si_id (sale_items db), si_business = b, si_sale = sale_id sale,
       si_family_member = nl_family n, si_product = prod_id p, si_variant = map_option var_id v,
       si_warehouse = (if is_stocked p then map_option wh_id sw else None), si_name = item_label p v,
       si_sku = (case v of Some x \<Rightarrow> var_sku x | None \<Rightarrow> prod_sku p), si_quantity = qty (lp_quantity parts),
       si_unit_price = lp_unit_price parts, si_discount = lp_discount parts, si_tax_rate = lp_rate parts,
       si_tax = lp_tax parts, si_line_total = lp_total parts, si_unit_cost = unit_cost,
       si_gross_profit = lp_base parts - line_cost, si_returned = 0,
       si_classification = ga_classification g, si_collection = ga_collection g,
       si_estimated_fabric = ga_estimated g, si_actual_fabric = None,
       si_customer_fabric = nl_customer_fabric n, si_fabric_meter = ga_meter g, si_details = nl_details n\<rparr>)"

definition sale_movement :: "sale \<Rightarrow> branch \<Rightarrow> user option \<Rightarrow> milli \<Rightarrow> rat \<Rightarrow> movement_args" where
  "sale_movement sale branch cashier unit_cost quantity =
     \<lparr>ma_type = SALE, ma_quantity = - quantity, ma_unit_cost = dec unit_cost, ma_reference_type = ''Sale'',
      ma_reference_id = sale_invoice_number sale, ma_user = upk cashier,
      ma_notes = ''Originating sales branch: '' @ br_code branch, ma_enforce = True\<rparr>"

definition post_line ::
    "business \<Rightarrow> sale \<Rightarrow> checkout_scope \<Rightarrow> user option \<Rightarrow> norm_line \<times> line_parts \<Rightarrow> 'a pos_db_scheme \<times> milli \<Rightarrow>
     err + ('a pos_db_scheme \<times> milli)" where
  "post_line business sale s cashier l state =
     (case (l, state) of ((n, parts), (db, cost)) \<Rightarrow>
        let b = biz_id business; p = cl_product (nl_cart n) in
        ebind (line_stock db b (cs_warehouse s) n parts) (\<lambda>(sw, unit_cost, quantity).
        let line_cost = money (dmul (dec unit_cost) quantity);
            db1 = db\<lparr>sale_items := sale_items db @ [new_item b sale n parts sw unit_cost line_cost db]\<rparr>
        in case sw of
             Some w \<Rightarrow>
               if is_stocked p
               then ebind (record_movement business w p (cl_variant (nl_cart n))
                            (sale_movement sale (cs_branch s) cashier unit_cost quantity) db1)
                      (\<lambda>db2. Inr (db2, cost + line_cost))
               else Inr (db1, cost + line_cost)
           | None \<Rightarrow> Inr (db1, cost + line_cost)))"

text \<open>The amounts recorded: change comes off the first cash payment it finds, which is dropped when
  nothing is left of it.\<close>

fun recorded_payments :: "milli \<Rightarrow> payment_method clean_payment list \<Rightarrow> payment_method clean_payment list" where
  "recorded_payments change [] = []"
| "recorded_payments change (p # ps) =
     (if pm_kind (cp_method p) = CASH \<and> 0 < change
      then (if cp_amount p - change \<le> 0 then recorded_payments 0 ps
            else p\<lparr>cp_amount := cp_amount p - change\<rparr> # recorded_payments 0 ps)
      else p # recorded_payments change ps)"

definition new_payment ::
    "calendar \<Rightarrow> id \<Rightarrow> sale \<Rightarrow> user option \<Rightarrow> 'a core_db_scheme \<Rightarrow> payment_method clean_payment \<Rightarrow> sale_payment" where
  "new_payment cal b sale cashier db p =
     \<lparr>sp_business = b, sp_sale = sale_id sale, sp_method = cp_method p, sp_amount = cp_amount p,
      sp_shift = sale_shift sale, sp_date = business_date cal b (clock db), sp_reference = cp_reference p,
      sp_notes = [], sp_received_by = upk cashier\<rparr>"

definition settle_customer :: "id \<Rightarrow> payment_totals \<Rightarrow> 'a pos_db_scheme \<Rightarrow> 'a pos_db_scheme" where
  "settle_customer customer pt db =
     (let db1 = (if 0 < credit_amount pt then apply_balance_change customer (credit_amount pt) db else db)
      in if 0 < store_credit_amount pt
         then apply_store_credit_change customer (- store_credit_amount pt) db1 else db1)"

definition finished_sale :: "sale \<Rightarrow> sale_totals \<Rightarrow> payment_totals \<Rightarrow> milli \<Rightarrow> sale" where
  "finished_sale sale t pt cost =
     sale\<lparr>sale_total_cost := cost, sale_gross_profit := st_subtotal t - st_invoice_discount t - cost,
       sale_status := (if 0 < credit_amount pt
          then (if st_total t \<le> credit_amount pt then S_CREDIT else S_PARTIAL) else S_COMPLETED)\<rparr>"

definition post_sale ::
    "calendar \<Rightarrow> business \<Rightarrow> checkout \<Rightarrow> checkout_scope \<Rightarrow> id option \<Rightarrow> string option \<Rightarrow> norm_line list \<Rightarrow>
     sale_priority \<Rightarrow> sale_totals \<Rightarrow> payment_method clean_payment list \<Rightarrow> payment_totals \<Rightarrow> milli \<Rightarrow>
     'a pos_db_scheme \<Rightarrow> err + (sale \<times> 'a pos_db_scheme)" where
  "post_sale cal business x s salesperson token ls priority t clean pt change db =
     (case upk (co_cashier x) of
        None \<Rightarrow> Inl IntegrityError
      | Some u \<Rightarrow>
          (case next_invoice_number business (cs_branch s) db of (number, db1) \<Rightarrow>
             let sale = new_sale business x s u salesperson token priority t pt change number db1;
                 db2 = db1\<lparr>sales := sales db1 @ [sale]\<rparr>
             in ebind (efold (post_line business sale s (co_cashier x)) (zip ls (map snd (st_lines t))) (db2, 0))
                  (\<lambda>(db3, cost).
                  let done_sale = finished_sale sale t pt cost;
                      db4 = db3\<lparr>sale_payments := sale_payments db3 @
                              map (new_payment cal (biz_id business) sale (co_cashier x) db3)
                                (recorded_payments change clean)\<rparr>;
                      db5 = settle_customer (cu_id (cs_customer s)) pt db4;
                      db6 = db5\<lparr>sales := save_row sale_id done_sale (sales db5)\<rparr>
                  in Inr (done_sale, log_audit ''sale.completed'' ''sales''
                       (''Sale '' @ number @ '' completed.'') db6))))"

definition complete_sale ::
    "(string list \<Rightarrow> string list) \<Rightarrow> calendar \<Rightarrow> business \<Rightarrow> checkout \<Rightarrow> 'a pos_db_scheme \<Rightarrow>
     err + (sale \<times> 'a pos_db_scheme)" where
  "complete_sale ord cal business x db =
     ebind (locked_checkout_context ord business x db) (\<lambda>s.
     ebind (clean_checkout_token (co_token x)) (\<lambda>token.
     case Option.bind token (find_token db (biz_id business)) of
       Some existing \<Rightarrow>
         ebind (replay_checkout ord business (co_cashier x) s existing db) (\<lambda>y. Inr (y, db))
     | None \<Rightarrow>
         ebind (canonical_salesperson ord business x s db) (\<lambda>salesperson.
         ebind (checkout_cart ord cal business x s db) (\<lambda>(ls, priority, t).
         ebind (check_discount business (cs_membership s) t) (\<lambda>_.
         ebind (checkout_payments ord business x s t db) (\<lambda>(clean, pt, change).
         ebind (check_credit business s pt) (\<lambda>_.
         ebind (require (cs_shift s \<noteq> None \<or> allow_sale_without_shift (settings business))
                 (SaleError ''An open shift is required before selling.'')) (\<lambda>_.
           post_sale cal business x s salesperson token ls priority t clean pt change db))))))))"

end
