(* ===== verification/Sale_Operations.thy ===== *)
theory Sale_Operations
  imports Checkout
begin

text \<open>
  The operations on a stored sale in \<^verbatim>\<open>apps/sales/services.py\<close>: later payments, voiding, returns,
  deletion of drafts, delivery status, actual fabric, and held carts.  An operation gets the key of
  the object the caller holds and re-reads its row; \<open>business\<close> is the business of that object.  In
  texts amounts are left out.
\<close>

definition find_sale :: "'a pos_db_scheme \<Rightarrow> id \<Rightarrow> id \<Rightarrow> sale option" where
  "find_sale db b i = find (\<lambda>s. sale_id s = i \<and> sale_business s = b) (sales db)"

definition locked_sale_for_write ::
    "(string list \<Rightarrow> string list) \<Rightarrow> business \<Rightarrow> id \<Rightarrow> user option \<Rightarrow> string \<Rightarrow> membership option \<Rightarrow>
     'a pos_db_scheme \<Rightarrow> err + (sale \<times> access_context)" where
  "locked_sale_for_write ord business i user perm membership db =
     ebind (require_pos_write ord db business user perm membership None) (\<lambda>c.
     case find_sale db (biz_id business) i of
       None \<Rightarrow> deny_pos_scope ord db business user perm (ctx_membership c)
     | Some s \<Rightarrow>
         ebind (require_pos_write ord db business user perm (ctx_membership c) (branch_row db (sale_branch s)))
           (\<lambda>_. Inr (s, c)))"

definition sale_returns_of :: "'a pos_db_scheme \<Rightarrow> id \<Rightarrow> sale_return list" where
  "sale_returns_of db s = filter (\<lambda>r. sr_sale r = s) (sale_returns db)"

definition update_sale :: "sale \<Rightarrow> 'a pos_db_scheme \<Rightarrow> 'a pos_db_scheme" where
  "update_sale s db = db\<lparr>sales := save_row sale_id s (sales db)\<rparr>"

text \<open>The shift an operation is booked on: none, or an open one of the user in the sale's branch.\<close>

definition operation_shift ::
    "(string list \<Rightarrow> string list) \<Rightarrow> business \<Rightarrow> user option \<Rightarrow> string \<Rightarrow> membership option \<Rightarrow> id option \<Rightarrow>
     'a pos_db_scheme \<Rightarrow> err + shift option" where
  "operation_shift ord business user perm m i db =
     (case optional_row (\<lambda>s. sh_business s = biz_id business) i (\<lambda>k. row_by sh_id k (shifts db)) of
        None \<Rightarrow> deny_pos_scope ord db business user perm m
      | Some s \<Rightarrow> Inr s)"

definition usable_shift :: "sale \<Rightarrow> user option \<Rightarrow> shift option \<Rightarrow> bool" where
  "usable_shift s user shift =
     (case shift of
        None \<Rightarrow> True
      | Some sh \<Rightarrow> sh_business sh = sale_business s \<and> Some (sh_cashier sh) = upk user
          \<and> sh_branch sh = sale_branch s \<and> sh_status sh = SH_OPEN)"

section \<open>Later payments\<close>

datatype amount_input = AmountNotFinite | Amount rat

definition settled_sale :: "sale \<Rightarrow> milli \<Rightarrow> sale_return list \<Rightarrow> sale" where
  "settled_sale s amount rs =
     (let s1 = s\<lparr>sale_amount_paid := sale_amount_paid s + amount\<rparr> in
      if sale_status s = S_CREDIT \<or> sale_status s = S_PARTIAL
      then s1\<lparr>sale_status := (if balance s1 rs \<le> 0 then S_COMPLETED else S_PARTIAL)\<rparr> else s1)"

definition add_sale_payment ::
    "(string list \<Rightarrow> string list) \<Rightarrow> calendar \<Rightarrow> business \<Rightarrow> id \<Rightarrow> amount_input \<Rightarrow> id \<Rightarrow> user option \<Rightarrow> int option \<Rightarrow>
     string \<Rightarrow> string \<Rightarrow> id option \<Rightarrow> membership option \<Rightarrow> 'a pos_db_scheme \<Rightarrow> err + 'a pos_db_scheme" where
  "add_sale_payment ord cal business i input method user date reference memo shift membership db =
     (let b = biz_id business; perm = ''customers.payments'' in
      ebind (locked_sale_for_write ord business i user perm membership db) (\<lambda>(s, c).
      ebind (require_key ord db business user ''customer_credit'' perm (ctx_membership c)) (\<lambda>_.
      case find (\<lambda>m. pm_id m = method \<and> pm_business m = b) (payment_methods db) of
        None \<Rightarrow> deny_pos_scope ord db business user perm (ctx_membership c)
      | Some m \<Rightarrow>
          ebind (require (pm_active m) (SaleError ''Invalid payment method.'')) (\<lambda>_.
          ebind (operation_shift ord business user perm (ctx_membership c) shift db) (\<lambda>sh.
          case input of
            AmountNotFinite \<Rightarrow> Inl (SaleError ''Enter a finite payment amount.'')
          | Amount raw \<Rightarrow>
              let amount = money raw; rs = sale_returns_of db (sale_id s) in
              if amount \<le> 0 then Inl (SaleError ''Payment amount must be positive.'')
              else if sale_status s = S_VOIDED then Inl (SaleError ''Voided sales cannot receive payments.'')
              else if sale_status s = S_DRAFT then Inl (SaleError ''Draft sales cannot receive payments.'')
              else if pm_kind m = CUSTOMER_CREDIT \<or> pm_kind m = STORE_CREDIT
              then Inl (SaleError ''Use a real payment method to settle a balance.'')
              else if balance s rs < amount then Inl (SaleError ''Payment exceeds the outstanding balance.'')
              else if \<not> usable_shift s user sh
              then Inl (SaleError ''Invalid open shift for this payment.'')
              else Inr (log_audit ''sale.payment_added'' ''sales'' (''Payment received on '' @ sale_invoice_number s)
                (apply_balance_change (sale_customer s) (- amount)
                  (update_sale (settled_sale s amount rs)
                    (db\<lparr>sale_payments := sale_payments db @
                      [\<lparr>sp_business = b, sp_sale = sale_id s, sp_method = m, sp_amount = amount,
                        sp_shift = map_option sh_id sh,
                        sp_date = (case date of Some d \<Rightarrow> d | None \<Rightarrow> business_date cal b (clock db)),
                        sp_reference = take 120 reference, sp_notes = take 300 memo,
                        sp_received_by = upk user\<rparr>]\<rparr>)))))))))"

section \<open>Deleting a draft, delivery status, actual fabric\<close>

definition delete_sale ::
    "(string list \<Rightarrow> string list) \<Rightarrow> business \<Rightarrow> id \<Rightarrow> user option \<Rightarrow> membership option \<Rightarrow> 'a pos_db_scheme \<Rightarrow>
     err + 'a pos_db_scheme" where
  "delete_sale ord business i user membership db =
     ebind (locked_sale_for_write ord business i user ''sales.delete'' membership db) (\<lambda>(s, c).
     if sale_status s \<noteq> S_DRAFT
     then Inl (SaleError (''Only draft sales can be deleted. Completed sales must be ''
            @ ''voided so the invoice number and audit trail are preserved.''))
     else if list_ex (\<lambda>p. sp_sale p = sale_id s) (sale_payments db)
     then Inl (SaleError ''Sales with recorded payments cannot be deleted.'')
     else if sale_returns_of db (sale_id s) \<noteq> [] then Inl (SaleError ''Sales with returns cannot be deleted.'')
     else if sale_invoice_number s \<noteq> []
             \<and> list_ex (\<lambda>m. mv_business m = sale_business s \<and> mv_reference_type m = ''Sale''
                 \<and> mv_reference_id m = sale_invoice_number s) (movements db)
     then Inl (SaleError ''Sales with stock movements cannot be deleted - void instead.'')
     else let db1 = log_audit ''sale.deleted'' ''sales'' ''Draft sale deleted.'' db
          in Inr (db1\<lparr>sales := filter (\<lambda>x. sale_id x \<noteq> sale_id s) (sales db1),
                   sale_items := filter (\<lambda>x. si_sale x \<noteq> sale_id s) (sale_items db1)\<rparr>))"

text \<open>The text is looked up in the choices; the empty text is none.\<close>

definition parse_delivery_status :: "string \<Rightarrow> delivery_status option" where
  "parse_delivery_status s =
     (if s = ''pending'' then Some PENDING else if s = ''in_production'' then Some IN_PRODUCTION
      else if s = ''ready'' then Some READY else if s = ''delivered'' then Some DELIVERED
      else if s = ''cancelled'' then Some D_CANCELLED else None)"

definition set_delivery_status ::
    "(string list \<Rightarrow> string list) \<Rightarrow> business \<Rightarrow> id \<Rightarrow> string \<Rightarrow> user option \<Rightarrow> membership option \<Rightarrow>
     'a pos_db_scheme \<Rightarrow> err + 'a pos_db_scheme" where
  "set_delivery_status ord business i status user membership db =
     ebind (locked_sale_for_write ord business i user ''sales.create'' membership db) (\<lambda>(s, c).
     ebind (require_key ord db business user ''tailoring'' ''sales.create'' (ctx_membership c)) (\<lambda>_.
     case parse_delivery_status status of
       None \<Rightarrow> Inl (SaleError ''Invalid delivery status.'')
     | Some d \<Rightarrow>
         if sale_status s = S_VOIDED then Inl (SaleError ''Voided sales cannot change delivery status.'')
         else Inr (log_audit ''sale.delivery_status'' ''sales''
                (''Delivery status of '' @ sale_invoice_number s @ '' changed.'')
                (update_sale (s\<lparr>sale_delivery_status := d\<rparr>) db))))"

definition sale_branch_row :: "'a pos_db_scheme \<Rightarrow> id \<Rightarrow> branch option" where
  "sale_branch_row db s =
     (case row_by sale_id s (sales db) of Some x \<Rightarrow> branch_row db (sale_branch x) | None \<Rightarrow> None)"

definition update_actual_fabric ::
    "(string list \<Rightarrow> string list) \<Rightarrow> business \<Rightarrow> id \<Rightarrow> meter_input \<Rightarrow> user option \<Rightarrow> membership option \<Rightarrow>
     'a pos_db_scheme \<Rightarrow> err + 'a pos_db_scheme" where
  "update_actual_fabric ord business i fabric user membership db =
     (let perm = ''workshop.fabric_actual'' in
      ebind (require_actor_access ord db user (Some business) ''tailoring'' (Some perm) WRITE membership True) (\<lambda>c.
      case find (\<lambda>x. si_id x = i \<and> Some (si_business x) = map_option mem_business (ctx_membership c))
             (sale_items db) of
        None \<Rightarrow> Inl DoesNotExist
      | Some it \<Rightarrow>
          if \<not> scoped c (sale_branch_row db (si_sale it))
          then deny_scope ord db business user ''tailoring'' perm (ctx_membership c)
          else if \<not> is_tailoring_line it
          then Inl (SaleError ''Actual fabric can only be recorded for tailoring items.'')
          else if si_fabric_meter it \<noteq> None
          then Inl (SaleError (''Meter was recorded at POS for this garment and cannot be replaced ''
                 @ ''by workshop actual fabric.''))
          else ebind (clean_actual_fabric fabric) (\<lambda>amount.
            Inr (log_audit ''sale.fabric_actual_updated'' ''sales'' (''Actual fabric for '' @ si_name it @ '' updated.'')
              (db\<lparr>sale_items := save_row si_id (it\<lparr>si_actual_fabric := amount\<rparr>) (sale_items db)\<rparr>)))))"

section \<open>Voiding\<close>

text \<open>The warehouse, product and variant rows that a stored item names.\<close>

definition item_rows ::
    "'a pos_db_scheme \<Rightarrow> sale \<Rightarrow> sale_item \<Rightarrow> err + (warehouse \<times> product \<times> variant option)" where
  "item_rows db s it =
     (case (row_by wh_id (case si_warehouse it of Some w \<Rightarrow> w | None \<Rightarrow> sale_warehouse s) (warehouses db),
            row_by prod_id (si_product it) (products db)) of
        (Some w, Some p) \<Rightarrow>
          (case si_variant it of
             None \<Rightarrow> Inr (w, p, None)
           | Some v \<Rightarrow> (case row_by var_id v (variants db) of
               Some x \<Rightarrow> Inr (w, p, Some x) | None \<Rightarrow> Inl DoesNotExist))
      | _ \<Rightarrow> Inl DoesNotExist)"

definition return_movement :: "string \<Rightarrow> string \<Rightarrow> sale_item \<Rightarrow> milli \<Rightarrow> user option \<Rightarrow> string \<Rightarrow> movement_args" where
  "return_movement ref number it quantity user memo =
     \<lparr>ma_type = SALE_RETURN, ma_quantity = dec quantity, ma_unit_cost = dec (si_unit_cost it),
      ma_reference_type = ref, ma_reference_id = number, ma_user = upk user, ma_notes = memo, ma_enforce = True\<rparr>"

definition void_item ::
    "business \<Rightarrow> sale \<Rightarrow> user option \<Rightarrow> string \<Rightarrow> sale_item \<Rightarrow> 'a pos_db_scheme \<Rightarrow> err + 'a pos_db_scheme" where
  "void_item business s user reason it db =
     (if si_customer_fabric it then Inr db
      else ebind (item_rows db s it) (\<lambda>(w, p, v).
        if si_fabric_meter it \<noteq> None \<or> is_stocked p
        then record_movement business w p v
               (return_movement ''Void'' (sale_invoice_number s) it (inventory_quantity it) user
                 (take 300 (''Void: '' @ reason))) db
        else Inr db))"

definition store_credit_used :: "'a pos_db_scheme \<Rightarrow> id \<Rightarrow> milli" where
  "store_credit_used db s =
     (\<Sum>p \<leftarrow> filter (\<lambda>p. sp_sale p = s \<and> pm_kind (sp_method p) = STORE_CREDIT) (sale_payments db). sp_amount p)"

text \<open>A void takes the unpaid part off the balance and gives the store credit back.\<close>

definition undo_settlement :: "id \<Rightarrow> milli \<Rightarrow> milli \<Rightarrow> 'a pos_db_scheme \<Rightarrow> 'a pos_db_scheme" where
  "undo_settlement customer credit store db =
     (let db1 = (if 0 < credit then apply_balance_change customer (- credit) db else db)
      in if 0 < store then apply_store_credit_change customer store db1 else db1)"

definition void_sale ::
    "(string list \<Rightarrow> string list) \<Rightarrow> business \<Rightarrow> id \<Rightarrow> user option \<Rightarrow> string \<Rightarrow> membership option \<Rightarrow>
     'a pos_db_scheme \<Rightarrow> err + 'a pos_db_scheme" where
  "void_sale ord business i user reason membership db =
     (let perm = ''sales.void'' in
      ebind (locked_sale_for_write ord business i user perm membership db) (\<lambda>(s, c).
      if sale_status s = S_VOIDED then Inl (SaleError ''Sale is already voided.'')
      else if sale_returns_of db (sale_id s) \<noteq> [] then Inl (SaleError ''A sale with returns cannot be voided.'')
      else ebind (require_if (sale_has_tailoring_lines db (sale_id s))
                   (require_key ord db business user ''tailoring'' perm (ctx_membership c))) (\<lambda>_.
        let credit_paid = sale_total s - sale_amount_paid s; store_credit = store_credit_used db (sale_id s) in
        ebind (require_if (0 < credit_paid \<or> 0 < store_credit)
                (require_key ord db business user ''customer_credit'' perm (ctx_membership c))) (\<lambda>_.
        ebind (efold (void_item business s user reason)
                (filter (\<lambda>x. si_business x = sale_business s) (sale_lines db (sale_id s))) db) (\<lambda>db1.
          Inr (log_audit ''sale.voided'' ''sales'' (''Sale '' @ sale_invoice_number s @ '' voided: '' @ reason)
            (update_sale (s\<lparr>sale_status := S_VOIDED, sale_voided_at := Some (clock db), sale_voided_by := upk user,
               sale_void_reason := take 255 reason\<rparr>)
              (undo_settlement (sale_customer s) credit_paid store_credit db1))))))))"

section \<open>Returns\<close>

text \<open>An entry names the item object it returns; an entry without one has no key.\<close>

record return_entry =
  re_item :: "id option"
  re_quantity :: rat
  re_restock :: bool

definition find_line :: "'a pos_db_scheme \<Rightarrow> sale \<Rightarrow> id \<Rightarrow> sale_item option" where
  "find_line db s i =
     find (\<lambda>x. si_id x = i \<and> si_business x = sale_business s \<and> si_sale x = sale_id s) (sale_items db)"

definition requested_lines :: "'a pos_db_scheme \<Rightarrow> sale \<Rightarrow> return_entry list \<Rightarrow> err + sale_item list" where
  "requested_lines db s es =
     ebind (emap (\<lambda>e. case re_item e of Some i \<Rightarrow> Inr i | None \<Rightarrow> Inl (SaleError ''Invalid return item.'')) es)
       (emap (\<lambda>i. case find_line db s i of
          Some it \<Rightarrow> Inr it | None \<Rightarrow> Inl (SaleError ''Return item does not belong to this sale.'')))"

definition unit_refund :: "sale_item \<Rightarrow> milli" where
  "unit_refund it =
     (if si_quantity it = 0 then 0 else money (ddiv (dec (si_line_total it)) (dec (si_quantity it))))"

text \<open>
  The state of the loop over the entries: the database, the refund so far, and the returned quantity
  of each item object, which keeps the decimals that its column rounds away.
\<close>

type_synonym 'a return_state = "'a pos_db_scheme \<times> milli \<times> (id \<Rightarrow> rat)"

text \<open>The return row of an entry, and the quantity it has taken back of its item so far.\<close>

definition mark_returned ::
    "business \<Rightarrow> sale_return \<Rightarrow> sale_item \<Rightarrow> rat \<Rightarrow> rat \<Rightarrow> milli \<Rightarrow> bool \<Rightarrow> 'a pos_db_scheme \<Rightarrow> 'a pos_db_scheme" where
  "mark_returned business r it q returned refund back db =
     db\<lparr>return_items := return_items db @
          [\<lparr>ri_business = biz_id business, ri_return = sr_id r, ri_item = si_id it, ri_quantity = qty q,
            ri_refund_per_unit = unit_refund it, ri_line_refund = refund, ri_restocked = back\<rparr>],
        sale_items := map (\<lambda>x. if si_id x = si_id it then x\<lparr>si_returned := qty returned\<rparr> else x) (sale_items db)\<rparr>"

text \<open>The goods of an entry: the meter of its garment, or the quantity returned.\<close>

definition return_args :: "sale_return \<Rightarrow> sale_item \<Rightarrow> rat \<Rightarrow> user option \<Rightarrow> movement_args" where
  "return_args r it q user =
     (return_movement ''SaleReturn'' (sr_number r) it 0 user [])
       \<lparr>ma_quantity := (case si_fabric_meter it of Some m \<Rightarrow> dec m | None \<Rightarrow> q)\<rparr>"

definition return_line ::
    "business \<Rightarrow> sale \<Rightarrow> sale_return \<Rightarrow> bool \<Rightarrow> user option \<Rightarrow> return_entry \<times> sale_item \<Rightarrow> 'a return_state \<Rightarrow>
     err + 'a return_state" where
  "return_line business s r restock user entry state =
     (case (entry, state) of ((e, it), (db, refunded, returned)) \<Rightarrow>
        let q = re_quantity e; i = si_id it;
            refund = money (dmul (dec (unit_refund it)) q);
            back = \<not> si_customer_fabric it \<and> restock \<and> re_restock e;
            metered = si_fabric_meter it \<noteq> None
        in if q \<le> 0 then Inr state
           else if dec (si_quantity it) - returned i < q
           then Inl (SaleError ''Cannot return that many; fewer remain.'')
           else ebind (item_rows db s it) (\<lambda>(w, p, v).
             if (metered \<or> (si_customer_fabric it \<and> is_meter_tailoring p)) \<and> q \<noteq> dec (si_quantity it)
             then Inl (SaleError (''A meter tailoring garment must be fully returned to ''
                    @ ''process its refund safely.''))
             else if metered \<and> back \<and> list_ex (\<lambda>x. ri_item x = i \<and> ri_restocked x) (return_items db)
             then Inl (SaleError ''Fabric stock has already been restored for this garment.'')
             else
               let db1 = mark_returned business r it q (returned i + q) refund back db
               in ebind (if back \<and> (metered \<or> is_stocked p)
                         then record_movement business w p v (return_args r it q user) db1 else Inr db1)
                    (\<lambda>db2. Inr (db2, refunded + refund, returned(i := returned i + q)))))"

definition refund_customer :: "refund_method \<Rightarrow> id \<Rightarrow> milli \<Rightarrow> 'a pos_db_scheme \<Rightarrow> 'a pos_db_scheme" where
  "refund_customer method customer refund db =
     (case method of
        R_STORE_CREDIT \<Rightarrow> apply_store_credit_change customer refund db
      | R_CUSTOMER_ACCOUNT \<Rightarrow>
          let outstanding = (case row_by cu_id customer (customers db) of Some c \<Rightarrow> cu_balance c | None \<Rightarrow> 0);
              applied = min outstanding refund;
              db1 = (if 0 < applied then apply_balance_change customer (- applied) db else db);
              leftover = refund - applied
          in if 0 < leftover then apply_store_credit_change customer leftover db1 else db1
      | _ \<Rightarrow> db)"

definition returned_status :: "'a pos_db_scheme \<Rightarrow> id \<Rightarrow> sale_status" where
  "returned_status db s =
     (let q = (\<Sum>x \<leftarrow> sale_lines db s. si_quantity x); r = (\<Sum>x \<leftarrow> sale_lines db s. si_returned x) in
      if r \<noteq> 0 \<and> q \<noteq> 0 \<and> q \<le> r then S_RETURNED else S_PART_RETURNED)"

definition return_expired :: "business \<Rightarrow> sale \<Rightarrow> int \<Rightarrow> bool" where
  "return_expired business s now =
     (return_window_days (settings business) \<noteq> 0
      \<and> sale_date s + int (return_window_days (settings business)) * day < now)"

definition return_checks ::
    "(string list \<Rightarrow> string list) \<Rightarrow> business \<Rightarrow> sale \<Rightarrow> access_context \<Rightarrow> return_entry list \<Rightarrow> refund_method option \<Rightarrow>
     user option \<Rightarrow> id option \<Rightarrow> 'a pos_db_scheme \<Rightarrow> err + (refund_method \<times> shift option \<times> sale_item list)" where
  "return_checks ord business s c es method user shift db =
     (let perm = ''sales.refund''; m = ctx_membership c in
      case method of
        None \<Rightarrow> Inl (SaleError ''Choose a valid refund method.'')
      | Some rm \<Rightarrow>
          ebind (require_if (rm = R_STORE_CREDIT \<or> rm = R_CUSTOMER_ACCOUNT)
                  (require_key ord db business user ''customer_credit'' perm m)) (\<lambda>_.
          ebind (operation_shift ord business user perm m shift db) (\<lambda>sh.
          if es = [] then Inl (SaleError ''Select at least one item to return.'')
          else if sale_status s = S_VOIDED then Inl (SaleError ''Cannot return items from a voided sale.'')
          else if \<not> usable_shift s user sh then Inl (SaleError ''Invalid open shift for this return.'')
          else ebind (requested_lines db s es) (\<lambda>its.
            ebind (require_if (list_ex is_tailoring_line its)
                    (require_key ord db business user ''tailoring'' perm m)) (\<lambda>_.
            if return_expired business s (clock db)
            then Inl (SaleError ''The return window for this sale has expired.'')
            else Inr (rm, sh, its))))))"

definition new_return ::
    "business \<Rightarrow> sale \<Rightarrow> refund_method \<Rightarrow> user option \<Rightarrow> string \<Rightarrow> bool \<Rightarrow> shift option \<Rightarrow> 'a pos_db_scheme \<Rightarrow> sale_return"
where
  "new_return business s rm user reason restock sh db =
     \<lparr>sr_id = next_pk sr_id (sale_returns db), sr_business = biz_id business,
      sr_number = next_number ''RET'' 6 (map sr_number (filter (\<lambda>x. sr_business x = biz_id business) (sale_returns db))),
      sr_sale = sale_id s, sr_customer = sale_customer s, sr_branch = sale_branch s, sr_warehouse = sale_warehouse s,
      sr_reason = take 255 reason, sr_restock = restock, sr_processed_by = upk user, sr_refund_method = rm,
      sr_refund_amount = 0, sr_shift = map_option sh_id sh\<rparr>"

definition process_return ::
    "(string list \<Rightarrow> string list) \<Rightarrow> business \<Rightarrow> id \<Rightarrow> return_entry list \<Rightarrow> refund_method option \<Rightarrow> user option \<Rightarrow>
     string \<Rightarrow> bool \<Rightarrow> id option \<Rightarrow> membership option \<Rightarrow> 'a pos_db_scheme \<Rightarrow> err + 'a pos_db_scheme" where
  "process_return ord business i es method user reason restock shift membership db =
     ebind (locked_sale_for_write ord business i user ''sales.refund'' membership db) (\<lambda>(s, c).
     ebind (return_checks ord business s c es method user shift db) (\<lambda>(rm, sh, its).
     let r = new_return business s rm user reason restock sh db;
         db1 = db\<lparr>sale_returns := sale_returns db @ [r]\<rparr>
     in ebind (efold (return_line business s r restock user) (zip es its)
                (db1, 0, \<lambda>k. case find_line db s k of Some it \<Rightarrow> dec (si_returned it) | None \<Rightarrow> 0))
          (\<lambda>(db2, refund, _).
        if refund \<le> 0 then Inl (SaleError ''Nothing to return.'')
        else
          let db3 = db2\<lparr>sale_returns := save_row sr_id (r\<lparr>sr_refund_amount := refund\<rparr>) (sale_returns db2)\<rparr>;
              db4 = refund_customer rm (sale_customer s) refund db3
          in Inr (log_audit ''sale.returned'' ''sales'' (''Return '' @ sr_number r @ '' for invoice '' @ sale_invoice_number s)
               (update_sale (s\<lparr>sale_status := returned_status db4 (sale_id s)\<rparr>) db4)))))"

section \<open>Held carts\<close>

definition held_product :: "'a stock_db_scheme \<Rightarrow> id \<Rightarrow> held_line \<Rightarrow> product option" where
  "held_product db b l = (case hl_product l of ProductRef i \<Rightarrow> find_product db b i | _ \<Rightarrow> None)"

definition clean_held_line :: "'a stock_db_scheme \<Rightarrow> id \<Rightarrow> held_line option \<Rightarrow> err + held_line option" where
  "clean_held_line db b line =
     (case line of
        None \<Rightarrow> Inr None
      | Some l \<Rightarrow>
          ebind (clean_customer_supplied_fabric (hl_fabric l)) (\<lambda>own.
            if \<not> own then Inr (Some (l\<lparr>hl_fabric := FlagBool False\<rparr>))
            else case held_product db b l of
                Some p \<Rightarrow> if is_meter_tailoring p \<or> is_legacy_tailoring p
                          then Inr (Some (l\<lparr>hl_fabric := FlagBool True, hl_meter := None\<rparr>))
                          else Inl (SaleError ''Customer Fabric can only be used with a tailoring garment.'')
              | None \<Rightarrow> Inl (SaleError ''Customer Fabric can only be used with a tailoring garment.'')))"

definition held_lines :: "held_cart \<Rightarrow> held_line list" where
  "held_lines cart = (case hc_items cart of Some xs \<Rightarrow> map the (filter (\<lambda>x. x \<noteq> None) xs) | None \<Rightarrow> [])"

definition held_tailoring :: "'a stock_db_scheme \<Rightarrow> id \<Rightarrow> held_cart \<Rightarrow> bool" where
  "held_tailoring db b cart =
     (list_ex (\<lambda>l. case held_product db b l of Some p \<Rightarrow> is_tailoring_item p | None \<Rightarrow> False) (held_lines cart)
      \<or> hc_delivery cart
      \<or> (if hc_priority cart = [] then False else py_lower (py_strip (hc_priority cart)) \<noteq> ''normal''))"

definition hold_sale ::
    "(string list \<Rightarrow> string list) \<Rightarrow> business \<Rightarrow> id \<Rightarrow> user option \<Rightarrow> held_cart option \<Rightarrow> string \<Rightarrow> membership option \<Rightarrow>
     'a pos_db_scheme \<Rightarrow> err + 'a pos_db_scheme" where
  "hold_sale ord business branch cashier cart label membership db =
     (let b = biz_id business; perm = ''sales.create'' in
      ebind (require_pos_write ord db business cashier perm membership None) (\<lambda>c.
      let m = ctx_membership c in
      case find (\<lambda>br. br_id br = branch \<and> br_business br = b) (branches db) of
        None \<Rightarrow> deny_pos_scope ord db business cashier perm m
      | Some br \<Rightarrow>
          ebind (require_pos_write ord db business cashier perm m (Some br)) (\<lambda>_.
          if \<not> br_active br \<or> br_usage br \<noteq> SALES_BRANCH then Inl (SaleError ''Invalid branch.'')
          else case cart of
            None \<Rightarrow> Inl (SaleError ''Invalid cart.'')
          | Some k \<Rightarrow>
              if list_ex (\<lambda>l. hl_product l = BadProduct) (held_lines k)
              then Inl (SaleError ''Invalid product in cart.'')
              else ebind (case hc_items k of
                      None \<Rightarrow> Inr None | Some xs \<Rightarrow> ebind (emap (clean_held_line db b) xs) (\<lambda>ys. Inr (Some ys))) (\<lambda>its.
                let k' = k\<lparr>hc_items := its\<rparr> in
                ebind (require_if (held_tailoring db b k') (require_key ord db business cashier ''tailoring'' perm m)) (\<lambda>_.
                case upk cashier of
                  None \<Rightarrow> Inl IntegrityError
                | Some u \<Rightarrow> Inr (db\<lparr>held_sales := held_sales db @
                    [\<lparr>hs_id = next_pk hs_id (held_sales db), hs_business = b, hs_branch = br_id br, hs_cashier = u,
                      hs_label = take 120 label, hs_cart = k'\<rparr>]\<rparr>))))))"

definition delete_held_sale ::
    "(string list \<Rightarrow> string list) \<Rightarrow> business \<Rightarrow> id \<Rightarrow> user option \<Rightarrow> membership option \<Rightarrow> 'a pos_db_scheme \<Rightarrow>
     err + (bool \<times> 'a pos_db_scheme)" where
  "delete_held_sale ord business held cashier membership db =
     (let b = biz_id business; perm = ''sales.create'' in
      ebind (require_pos_write ord db business cashier perm membership None) (\<lambda>c.
      let mine = (\<lambda>h. hs_id h = held \<and> hs_business h = b \<and> Some (hs_cashier h) = upk cashier
                  \<and> branch_allowed c (Some (hs_branch h)))
      in case find mine (held_sales db) of
           None \<Rightarrow> Inr (False, db)
         | Some h \<Rightarrow>
             ebind (require_if (held_tailoring db b (hs_cart h))
                     (require_key ord db business cashier ''tailoring'' perm (ctx_membership c))) (\<lambda>_.
               Inr (True, db\<lparr>held_sales := filter (\<lambda>x. \<not> mine x) (held_sales db)\<rparr>))))"

end
