(* ===== verification/Sale_Financials.thy ===== *)
theory Sale_Financials
  imports Sales_Data
begin

text \<open>
  \<^verbatim>\<open>apps/sales/financials.py\<close>: the net figures of sales and returns.  A mapping from tender kinds to
  amounts is a function, a grouped query an association list of distinct keys.  The ORM
  expressions (proportional values computed by the database in floating point) are not modelled.
\<close>

section \<open>Tenders\<close>

type_synonym amounts = "method_kind \<Rightarrow> milli"

definition ALL_TENDER_KINDS :: "method_kind list" where
  "ALL_TENDER_KINDS = [CASH, CARD, BANK, ONLINE, CUSTOMER_CREDIT, STORE_CREDIT, OTHER]"

definition REAL_PAYMENT_KINDS :: "method_kind list" where
  "REAL_PAYMENT_KINDS = [CASH, CARD, BANK]"

definition INCOME_PAYMENT_KINDS :: "method_kind list" where
  "INCOME_PAYMENT_KINDS = REAL_PAYMENT_KINDS @ [ONLINE, OTHER]"

fun refund_to_tender_kind :: "refund_method \<Rightarrow> method_kind" where
  "refund_to_tender_kind R_CASH = CASH"
| "refund_to_tender_kind R_CARD = CARD"
| "refund_to_tender_kind R_BANK = BANK"
| "refund_to_tender_kind R_CUSTOMER_ACCOUNT = CUSTOMER_CREDIT"
| "refund_to_tender_kind R_STORE_CREDIT = STORE_CREDIT"

definition SETTLED_REFUND_METHODS :: "refund_method list" where
  "SETTLED_REFUND_METHODS = [R_CASH, R_CARD, R_BANK, R_STORE_CREDIT]"

definition blank_amounts :: amounts where
  "blank_amounts = (\<lambda>_. 0)"

record tender_summary =
  ts_gross :: amounts
  ts_refunds :: amounts
  ts_net :: amounts

definition tender_amount :: "tender_summary \<Rightarrow> method_kind \<Rightarrow> milli" where
  "tender_amount t k = ts_net t k"

definition tender_refunded :: "tender_summary \<Rightarrow> method_kind \<Rightarrow> milli" where
  "tender_refunded t k = ts_refunds t k"

definition tender_received :: "tender_summary \<Rightarrow> method_kind list \<Rightarrow> milli" where
  "tender_received t kinds = (\<Sum>k \<leftarrow> kinds. tender_amount t k)"

text \<open>\<open>values[kind] += amount\<close>, and the same over a list of rows.\<close>

definition add_amount :: "('k \<Rightarrow> milli) \<Rightarrow> 'k \<times> milli \<Rightarrow> ('k \<Rightarrow> milli)" where
  "add_amount m row = m(fst row := m (fst row) + snd row)"

definition tender_summary_from_totals ::
    "(method_kind \<times> milli) list \<Rightarrow> (refund_method \<times> milli) list \<Rightarrow> tender_summary" where
  "tender_summary_from_totals gross refunds =
     (let g = foldl add_amount blank_amounts gross;
          r = foldl (\<lambda>m row. add_amount m (refund_to_tender_kind (fst row), snd row)) blank_amounts refunds
      in \<lparr>ts_gross = g, ts_refunds = r, ts_net = (\<lambda>k. g k - r k)\<rparr>)"

text \<open>A dict filled by \<open>d[key] = d.get(key, 0) + amount\<close>, in insertion order.\<close>

fun group_add :: "('k \<times> milli) list \<Rightarrow> 'k \<Rightarrow> milli \<Rightarrow> ('k \<times> milli) list" where
  "group_add [] key amount = [(key, amount)]"
| "group_add ((k, v) # rows) key amount =
     (if k = key then (k, v + amount) # rows else (k, v) # group_add rows key amount)"

definition group_rows :: "('k \<times> milli) list \<Rightarrow> ('k \<times> milli) list \<Rightarrow> ('k \<times> milli) list" where
  "group_rows start rows = foldl (\<lambda>acc row. group_add acc (fst row) (snd row)) start rows"

definition payment_row :: "sale_payment \<Rightarrow> method_kind \<times> milli" where
  "payment_row p = (pm_kind (sp_method p), sp_amount p)"

definition refund_row :: "sale_return \<Rightarrow> refund_method \<times> milli" where
  "refund_row r = (sr_refund_method r, sr_refund_amount r)"

definition tender_summary_from_records :: "sale_payment list \<Rightarrow> sale_return list \<Rightarrow> tender_summary" where
  "tender_summary_from_records payments returns =
     tender_summary_from_totals
       (group_rows (map (\<lambda>k. (k, 0)) ALL_TENDER_KINDS) (map payment_row payments))
       (group_rows [] (map refund_row returns))"

text \<open>The database groups and sums (\<open>values(..).annotate(Sum(..))\<close>): a row per key that occurs.\<close>

definition sum_by_key :: "('k \<times> milli) list \<Rightarrow> ('k \<times> milli) list" where
  "sum_by_key rows =
     map (\<lambda>k. (k, \<Sum>row \<leftarrow> filter (\<lambda>row. fst row = k) rows. snd row)) (remdups (map fst rows))"

definition tender_summary_from_querysets :: "sale_payment list \<Rightarrow> sale_return list \<Rightarrow> tender_summary" where
  "tender_summary_from_querysets payments returns =
     tender_summary_from_totals (sum_by_key (map payment_row payments)) (sum_by_key (map refund_row returns))"

section \<open>One sale, and many\<close>

record sale_financial_summary =
  fs_gross_sales :: milli
  fs_returned :: milli
  fs_net_sales :: milli
  fs_net_paid :: milli
  fs_receivable :: milli
  fs_tenders :: tender_summary

definition financial_summary_for_sale ::
    "sale \<Rightarrow> sale_payment list \<Rightarrow> sale_return list \<Rightarrow> sale_financial_summary" where
  "financial_summary_for_sale s payments returns =
     (let tenders = tender_summary_from_records payments returns in
      if sale_status s = S_VOIDED
      then \<lparr>fs_gross_sales = sale_total s, fs_returned = 0, fs_net_sales = 0, fs_net_paid = 0,
            fs_receivable = 0,
            fs_tenders = \<lparr>ts_gross = ts_gross tenders, ts_refunds = ts_refunds tenders, ts_net = blank_amounts\<rparr>\<rparr>
      else
        let returned = (\<Sum>r \<leftarrow> returns. sr_refund_amount r);
            net_sales = sale_total s - returned;
            settled = (\<Sum>r \<leftarrow> filter (\<lambda>r. sr_refund_method r \<in> set SETTLED_REFUND_METHODS) returns.
              sr_refund_amount r);
            net_paid = sale_amount_paid s - settled
        in \<lparr>fs_gross_sales = sale_total s, fs_returned = returned, fs_net_sales = net_sales,
            fs_net_paid = net_paid, fs_receivable = max (net_sales - net_paid) 0, fs_tenders = tenders\<rparr>)"

record sales_activity =
  sa_gross_sales :: milli
  sa_returns :: milli
  sa_net_sales :: milli
  sa_gross_paid :: milli
  sa_settled_refunds :: milli
  sa_net_paid :: milli

definition valid_sale :: "sale \<Rightarrow> bool" where
  "valid_sale s = (sale_status s \<noteq> S_DRAFT \<and> sale_status s \<noteq> S_VOIDED)"

text \<open>\<open>all_returns\<close> is the table; \<open>None\<close> selects the returns of the valid sales.\<close>

definition sales_activity_summary ::
    "sale_return list \<Rightarrow> sale list \<Rightarrow> sale_return list option \<Rightarrow> sales_activity" where
  "sales_activity_summary all_returns ss returns =
     (let valid = filter valid_sale ss;
          rs = (case returns of Some rs \<Rightarrow> rs
                | None \<Rightarrow> filter (\<lambda>r. sr_sale r \<in> set (map sale_id valid)) all_returns);
          gross = (\<Sum>s \<leftarrow> valid. sale_total s);
          paid = (\<Sum>s \<leftarrow> valid. sale_amount_paid s);
          returned = (\<Sum>r \<leftarrow> rs. sr_refund_amount r);
          settled = (\<Sum>r \<leftarrow> filter (\<lambda>r. sr_refund_method r \<in> set SETTLED_REFUND_METHODS) rs. sr_refund_amount r)
      in \<lparr>sa_gross_sales = gross, sa_returns = returned, sa_net_sales = gross - returned,
          sa_gross_paid = paid, sa_settled_refunds = settled, sa_net_paid = paid - settled\<rparr>)"

section \<open>Items\<close>

record item_figures =
  ia_quantity :: milli
  ia_revenue :: milli
  ia_tax :: milli
  ia_discount :: milli
  ia_cost :: milli
  ia_profit :: milli

definition no_amounts :: item_figures where
  "no_amounts = \<lparr>ia_quantity = 0, ia_revenue = 0, ia_tax = 0, ia_discount = 0, ia_cost = 0, ia_profit = 0\<rparr>"

definition revenue_excluding_tax :: "item_figures \<Rightarrow> milli" where
  "revenue_excluding_tax a = ia_revenue a - ia_tax a"

record item_activity =
  act_booked :: item_figures
  act_returned :: item_figures
  act_net :: item_figures

text \<open>\<open>money(value * ratio)\<close> for a stored value, and the cost of the stock behind a line.\<close>

definition scaled :: "milli \<Rightarrow> rat \<Rightarrow> milli" where
  "scaled v ratio = money (dmul (dec v) ratio)"

definition scaled_cost :: "sale_item \<Rightarrow> rat \<Rightarrow> milli" where
  "scaled_cost i ratio = money (dmul (dmul (dec (si_unit_cost i)) (dec (inventory_quantity i))) ratio)"

definition amounts_at :: "sale_item \<Rightarrow> milli \<Rightarrow> milli \<Rightarrow> rat \<Rightarrow> milli \<Rightarrow> item_figures" where
  "amounts_at i quantity revenue ratio share =
     (let tax = scaled (si_tax i) ratio; cost = scaled_cost i ratio in
      \<lparr>ia_quantity = quantity, ia_revenue = revenue, ia_tax = tax,
       ia_discount = scaled (si_discount i + share) ratio, ia_cost = cost, ia_profit = revenue - tax - cost\<rparr>)"

definition item_amounts :: "sale_item \<Rightarrow> milli \<Rightarrow> milli \<Rightarrow> item_figures" where
  "item_amounts i quantity share =
     (if si_quantity i = 0 then no_amounts
      else let ratio = ddiv (dec quantity) (dec (si_quantity i))
           in amounts_at i quantity (scaled (si_line_total i) ratio) ratio share)"

text \<open>A return item comes with the sale item it refers to.\<close>

type_synonym return_line = "sale_return_item \<times> sale_item"

definition returned_item_amounts :: "return_line \<Rightarrow> milli \<Rightarrow> item_figures" where
  "returned_item_amounts line share =
     (let r = fst line; i = snd line in
      if si_quantity i = 0 then no_amounts
      else amounts_at i (ri_quantity r) (ri_line_refund r)
             (ddiv (dec (ri_quantity r)) (dec (si_quantity i))) share)"

definition sum_item_amounts :: "item_figures list \<Rightarrow> item_figures" where
  "sum_item_amounts values =
     \<lparr>ia_quantity = sum_list (map ia_quantity values), ia_revenue = sum_list (map ia_revenue values),
      ia_tax = sum_list (map ia_tax values), ia_discount = sum_list (map ia_discount values),
      ia_cost = sum_list (map ia_cost values), ia_profit = sum_list (map ia_profit values)\<rparr>"

definition subtract_item_amounts :: "item_figures \<Rightarrow> item_figures \<Rightarrow> item_figures" where
  "subtract_item_amounts a b =
     \<lparr>ia_quantity = ia_quantity a - ia_quantity b, ia_revenue = ia_revenue a - ia_revenue b,
      ia_tax = ia_tax a - ia_tax b, ia_discount = ia_discount a - ia_discount b,
      ia_cost = ia_cost a - ia_cost b, ia_profit = ia_profit a - ia_profit b\<rparr>"

section \<open>Reconstructed shares of the invoice discount\<close>

definition base_weight :: "sale_item \<Rightarrow> rat" where
  "base_weight i = dec (max (si_line_total i - si_tax i) 0)"

definition gross_weight :: "sale_item \<Rightarrow> rat" where
  "gross_weight i = max (dsub (dmul (dec (si_unit_price i)) (dec (si_quantity i))) (dec (si_discount i))) 0"

text \<open>\<open>sum(weights, ZERO)\<close>: every partial sum passes the context.\<close>

definition dsum :: "rat list \<Rightarrow> rat" where
  "dsum ws = foldl dadd 0 ws"

definition invoice_discount_of :: "sale \<Rightarrow> sale_item list \<Rightarrow> milli" where
  "invoice_discount_of s items = max (sale_discount s - (\<Sum>i \<leftarrow> items. si_discount i)) 0"

definition discount_weights :: "sale_item list \<Rightarrow> rat list" where
  "discount_weights items =
     (let ws = map base_weight items in if dsum ws \<le> 0 then map gross_weight items else ws)"

definition share_values :: "sale \<Rightarrow> sale_item list \<Rightarrow> milli list" where
  "share_values s items =
     (let d = invoice_discount_of s items; ws = discount_weights items in
      if items = [] \<or> d \<le> 0 \<or> dsum ws \<le> 0 then map (\<lambda>_. 0) items
      else allocate (proportional_part d (dsum ws)) d 0 ws)"

definition invoice_discount_shares :: "sale \<Rightarrow> sale_item list \<Rightarrow> (id \<times> milli) list" where
  "invoice_discount_shares s items = zip (map si_id items) (share_values s items)"

text \<open>\<open>shares.get(pk, ZERO)\<close>; a later entry of a dict overwrites an earlier one.\<close>

definition share_of :: "(id \<times> milli) list \<Rightarrow> id \<Rightarrow> milli" where
  "share_of shares pk = (case map_of (rev shares) pk of Some v \<Rightarrow> v | None \<Rightarrow> 0)"

definition item_financial_summary_for_sale ::
    "sale \<Rightarrow> sale_item list \<Rightarrow> return_line list option \<Rightarrow> item_activity" where
  "item_financial_summary_for_sale s items return_lines =
     (let shares = invoice_discount_shares s items;
          booked = sum_item_amounts (map (\<lambda>i. item_amounts i (si_quantity i) (share_of shares (si_id i))) items)
      in if sale_status s = S_VOIDED
         then \<lparr>act_booked = booked, act_returned = booked, act_net = no_amounts\<rparr>
         else case return_lines of
           None \<Rightarrow>
             let net = sum_item_amounts (map (\<lambda>i. item_amounts i (si_quantity i - si_returned i)
                         (share_of shares (si_id i))) items)
             in \<lparr>act_booked = booked, act_returned = subtract_item_amounts booked net, act_net = net\<rparr>
         | Some rs \<Rightarrow>
             let returned = sum_item_amounts (map (\<lambda>r. returned_item_amounts r (share_of shares (si_id (snd r)))) rs)
             in \<lparr>act_booked = booked, act_returned = returned, act_net = subtract_item_amounts booked returned\<rparr>)"

record net_values =
  nv_qty :: milli
  nv_returned :: milli
  nv_revenue :: milli
  nv_discount :: milli
  nv_tax :: milli
  nv_cost :: milli
  nv_profit :: milli

definition net_item_values :: "sale_item \<Rightarrow> return_line list option \<Rightarrow> net_values" where
  "net_item_values i return_lines =
     (case return_lines of
        Some rs \<Rightarrow>
          let returned = sum_item_amounts (map (\<lambda>r. returned_item_amounts r 0) rs);
              net = subtract_item_amounts (item_amounts i (si_quantity i) 0) returned
          in \<lparr>nv_qty = ia_quantity net, nv_returned = ia_quantity returned, nv_revenue = ia_revenue net,
              nv_discount = ia_discount net, nv_tax = ia_tax net, nv_cost = ia_cost net, nv_profit = ia_profit net\<rparr>
      | None \<Rightarrow>
          let net_quantity = si_quantity i - si_returned i in
          if si_quantity i = 0
          then \<lparr>nv_qty = 0, nv_returned = si_returned i, nv_revenue = 0, nv_discount = 0, nv_tax = 0,
                nv_cost = 0, nv_profit = 0\<rparr>
          else let ratio = ddiv (dec net_quantity) (dec (si_quantity i));
                   revenue = scaled (si_line_total i) ratio;
                   tax = scaled (si_tax i) ratio;
                   cost = scaled_cost i ratio
               in \<lparr>nv_qty = net_quantity, nv_returned = si_returned i, nv_revenue = revenue,
                   nv_discount = scaled (si_discount i) ratio, nv_tax = tax, nv_cost = cost,
                   nv_profit = revenue - tax - cost\<rparr>)"

definition net_sale_discount :: "sale \<Rightarrow> sale_item list \<Rightarrow> milli" where
  "net_sale_discount s items = ia_discount (act_net (item_financial_summary_for_sale s items None))"

text \<open>The sum of the rounded discounts of a set of return items: the items of each sale decide the
  shares of that sale.  \<open>all_items\<close> and \<open>all_sales\<close> are the tables.\<close>

definition items_of_sale :: "sale_item list \<Rightarrow> id \<Rightarrow> sale_item list" where
  "items_of_sale all_items s = sort_key si_id (filter (\<lambda>i. si_sale i = s) all_items)"

definition returned_discount :: "sale list \<Rightarrow> sale_item list \<Rightarrow> return_line \<Rightarrow> milli" where
  "returned_discount all_sales all_items line =
     (let r = fst line; i = snd line in
      if si_quantity i = 0 then 0
      else let share = (case find (\<lambda>s. sale_id s = si_sale i) all_sales of
                 Some s \<Rightarrow> share_of (invoice_discount_shares s (items_of_sale all_items (si_sale i))) (si_id i)
               | None \<Rightarrow> 0)
           in money (ddiv (dmul (dec (si_discount i + share)) (dec (ri_quantity r))) (dec (si_quantity i))))"

definition returned_discount_total ::
    "sale list \<Rightarrow> sale_item list \<Rightarrow> return_line list \<Rightarrow> milli" where
  "returned_discount_total all_sales all_items return_lines =
     (\<Sum>r \<leftarrow> return_lines. returned_discount all_sales all_items r)"

definition subtract_grouped_totals ::
    "('k \<times> milli option) list \<Rightarrow> ('k \<times> milli option) list \<Rightarrow> ('k \<times> milli) list" where
  "subtract_grouped_totals gross_rows return_rows =
     (let amount = (\<lambda>row. case snd row of Some v \<Rightarrow> v | None \<Rightarrow> 0) in
      group_rows (group_rows [] (map (\<lambda>row. (fst row, amount row)) gross_rows))
        (map (\<lambda>row. (fst row, - amount row)) return_rows))"

section \<open>Laws of grouping\<close>

text \<open>The total of the rows whose key satisfies a predicate.\<close>

definition rows_total :: "('k \<Rightarrow> bool) \<Rightarrow> ('k \<times> milli) list \<Rightarrow> milli" where
  "rows_total P rows = (\<Sum>row \<leftarrow> filter (\<lambda>row. P (fst row)) rows. snd row)"

lemma rows_total_Nil [simp]: "rows_total P [] = 0"
  by (simp add: rows_total_def)

lemma rows_total_Cons [simp]:
  "rows_total P (row # rows) = (if P (fst row) then snd row else 0) + rows_total P rows"
  by (simp add: rows_total_def)

lemma rows_total_append [simp]: "rows_total P (xs @ ys) = rows_total P xs + rows_total P ys"
  by (simp add: rows_total_def)

lemma rows_total_group_add:
  "rows_total P (group_add rows key amount) = rows_total P rows + (if P key then amount else 0)"
  by (induction rows key amount rule: group_add.induct) auto

lemma rows_total_group_rows:
  "rows_total P (group_rows start rows) = rows_total P start + rows_total P rows"
  unfolding group_rows_def
  by (induction rows arbitrary: start) (auto simp: rows_total_group_add)

lemma rows_total_by_key:
  "finite A \<Longrightarrow> fst ` set rows \<subseteq> A \<Longrightarrow>
     (\<Sum>k \<in> A. if P k then rows_total (\<lambda>j. j = k) rows else 0) = rows_total P rows"
proof (induction rows)
  case (Cons row rows)
  have "(\<Sum>k \<in> A. if P k then rows_total (\<lambda>j. j = k) (row # rows) else 0)
    = (\<Sum>k \<in> A. (if k = fst row then (if P k then snd row else 0) else 0)
        + (if P k then rows_total (\<lambda>j. j = k) rows else 0))"
    by (intro sum.cong) auto
  also have "\<dots> = (if P (fst row) then snd row else 0) + rows_total P rows"
    using Cons by (simp add: sum.distrib)
  finally show ?case by simp
qed (simp cong: if_cong)

lemma map_of_map_keys: "map_of (map (\<lambda>k. (k, f k)) ks) k = (if k \<in> set ks then Some (f k) else None)"
  by (induction ks) auto

lemma rows_total_sum_by_key: "rows_total P (sum_by_key rows) = rows_total P rows"
proof -
  let ?ks = "remdups (map fst rows)"
  have "rows_total P (sum_by_key rows) = (\<Sum>k \<leftarrow> filter P ?ks. rows_total (\<lambda>j. j = k) rows)"
    by (simp add: sum_by_key_def rows_total_def filter_map comp_def)
  also have "\<dots> = (\<Sum>k \<in> set (filter P ?ks). rows_total (\<lambda>j. j = k) rows)"
    by (rule sum_list_distinct_conv_sum_set) simp
  also have "\<dots> = (\<Sum>k \<in> fst ` set rows. if P k then rows_total (\<lambda>j. j = k) rows else 0)"
    by (simp add: sum.inter_filter Int_def[symmetric] set_filter)
  also have "\<dots> = rows_total P rows" by (intro rows_total_by_key) simp_all
  finally show ?thesis .
qed

lemma lookup_sum_by_key:
  "(case map_of (sum_by_key rows) k of Some v \<Rightarrow> v | None \<Rightarrow> 0) = rows_total (\<lambda>j. j = k) rows"
proof (cases "k \<in> fst ` set rows")
  case True
  then have "map_of (sum_by_key rows) k = Some (rows_total (\<lambda>j. j = k) rows)"
    by (simp add: sum_by_key_def map_of_map_keys rows_total_def)
  then show ?thesis by simp
next
  case False
  then have "filter (\<lambda>row. fst row = k) rows = []" by (force simp: filter_empty_conv)
  moreover have "map_of (sum_by_key rows) k = None"
    using False by (simp add: sum_by_key_def map_of_eq_None_iff image_image)
  ultimately show ?thesis by (simp add: rows_total_def)
qed

lemma foldl_add_amount: "foldl add_amount m rows k = m k + rows_total (\<lambda>j. j = k) rows"
  by (induction rows arbitrary: m) (auto simp: add_amount_def)

lemma foldl_add_mapped:
  "foldl (\<lambda>m row. add_amount m (f (fst row), snd row)) m rows k = m k + rows_total (\<lambda>j. f j = k) rows"
  by (induction rows arbitrary: m) (auto simp: add_amount_def)

lemma tender_summary_eq:
  "tender_summary_from_totals gross refunds =
     \<lparr>ts_gross = (\<lambda>k. rows_total (\<lambda>j. j = k) gross),
      ts_refunds = (\<lambda>k. rows_total (\<lambda>j. refund_to_tender_kind j = k) refunds),
      ts_net = (\<lambda>k. rows_total (\<lambda>j. j = k) gross - rows_total (\<lambda>j. refund_to_tender_kind j = k) refunds)\<rparr>"
  by (simp add: tender_summary_from_totals_def Let_def foldl_add_amount foldl_add_mapped blank_amounts_def
      fun_eq_iff)

lemma blank_total [simp]: "rows_total P (map (\<lambda>k. (k, 0)) ks) = 0"
  by (induction ks) simp_all

lemma payment_rows_total:
  "rows_total P (map payment_row ps) = (\<Sum>p \<leftarrow> filter (\<lambda>p. P (pm_kind (sp_method p))) ps. sp_amount p)"
  by (induction ps) (simp_all add: payment_row_def)

lemma refund_rows_total:
  "rows_total P (map refund_row rs) = (\<Sum>r \<leftarrow> filter (\<lambda>r. P (sr_refund_method r)) rs. sr_refund_amount r)"
  by (induction rs) (simp_all add: refund_row_def)

lemma set_ALL_TENDER_KINDS: "set ALL_TENDER_KINDS = UNIV"
  using method_kind.exhaust by (auto simp: ALL_TENDER_KINDS_def)

lemma finite_kinds: "finite (UNIV :: method_kind set)"
  using set_ALL_TENDER_KINDS by (metis List.finite_set)

lemma all_kinds_total:
  "(\<Sum>k \<leftarrow> ALL_TENDER_KINDS. rows_total (\<lambda>j. f j = k) rows) = rows_total (\<lambda>_. True) rows"
proof (induction rows)
  case (Cons row rows)
  have "(\<Sum>k \<leftarrow> ALL_TENDER_KINDS. if f (fst row) = k then v else 0) = v" for v :: milli
    by (cases "f (fst row)") (simp_all add: ALL_TENDER_KINDS_def)
  with Cons show ?case by (simp add: sum_list_addf)
qed (simp add: sum_list_0)

text \<open>C36: the tender figures of loaded records and of the grouped database query are the same, each
  kind nets the payments of that kind against the refunds that are given back through it, and
  nothing is lost between the kinds: over all of them they sum to the payments less the refunds.\<close>

theorem tender_summaries_agree:
  "tender_summary_from_querysets payments returns = tender_summary_from_records payments returns
   \<and> tender_amount (tender_summary_from_records payments returns) k =
       (\<Sum>p \<leftarrow> filter (\<lambda>p. pm_kind (sp_method p) = k) payments. sp_amount p)
       - (\<Sum>r \<leftarrow> filter (\<lambda>r. refund_to_tender_kind (sr_refund_method r) = k) returns. sr_refund_amount r)
   \<and> tender_received (tender_summary_from_records payments returns) ALL_TENDER_KINDS =
       (\<Sum>p \<leftarrow> payments. sp_amount p) - (\<Sum>r \<leftarrow> returns. sr_refund_amount r)"
  using all_kinds_total[of "\<lambda>j. j" "map payment_row payments"]
    all_kinds_total[of refund_to_tender_kind "map refund_row returns"]
  by (simp add: tender_summary_from_querysets_def tender_summary_from_records_def tender_summary_eq
      tender_received_def tender_amount_def rows_total_sum_by_key rows_total_group_rows
      payment_rows_total refund_rows_total sum_list_subtractf)

section \<open>Laws of the items\<close>

lemma scaled_zero [simp]: "scaled v 0 = 0"
  by (simp add: scaled_def dmul_def)

lemma scaled_one: "\<bar>v\<bar> < 10 ^ 28 \<Longrightarrow> scaled v 1 = v"
  by (simp add: scaled_def dmul_def ctx28_milli del: power_numeral)

lemma ddiv_self: "a \<noteq> 0 \<Longrightarrow> ddiv (dec a) (dec a) = 1"
  using ctx28_exact[of 1 0] by (simp add: ddiv_def dec_def pow10_def)

lemma ddiv_zero [simp]: "ddiv (dec 0) b = 0"
  by (simp add: ddiv_def dec_def)

lemma ratio_between:
  assumes "0 \<le> a" and "a \<le> b" and "0 < b"
  shows "0 \<le> ddiv (dec a) (dec b)" "ddiv (dec a) (dec b) \<le> 1"
proof -
  let ?x = "dec a / dec b"
  have x: "0 \<le> ?x" "?x \<le> 1" using assms by (simp_all add: dec_def)
  then have "\<bar>?x\<bar> < pow10 28" by (simp add: pow10_def)
  then show "0 \<le> ddiv (dec a) (dec b)" "ddiv (dec a) (dec b) \<le> 1"
    using ctx28_ge[of 0 0 ?x] ctx28_le[of ?x 1 0] x by (simp_all add: ddiv_def pow10_def)
qed

lemma scaled_between:
  assumes "0 \<le> v" and "v < 10 ^ 25" and "0 \<le> ratio" and "ratio \<le> 1"
  shows "0 \<le> scaled v ratio \<and> scaled v ratio \<le> v"
proof -
  let ?x = "dec v * ratio"
  have d: "0 \<le> dec v" using assms(1) by (simp add: dec_def)
  have x: "0 \<le> ?x" "?x \<le> dec v"
    using d assms(3,4) by (simp_all add: mult_left_le)
  have "(of_int v :: rat) < of_int (10 ^ 25)" using assms(2) by (simp only: of_int_less_iff)
  then have "dec v < 10 ^ 25" by (simp add: dec_def)
  then have "\<bar>?x\<bar> < pow10 (28 - 3)" using x by (simp add: pow10_def)
  then have "dec 0 \<le> ctx28 ?x" "ctx28 ?x \<le> dec v"
    using ctx28_ge[of 0 3 ?x] ctx28_le[of ?x v 3] x by (simp_all add: dec_pow10)
  then show ?thesis by (simp add: scaled_def dmul_def money_ge money_le)
qed

lemma item_amounts_none: "item_amounts i 0 share = no_amounts"
  by (simp add: item_amounts_def amounts_at_def scaled_cost_def dmul_def no_amounts_def Let_def)

text \<open>The shares of distinct items are the computed ones and sum to the invoice discount.\<close>

lemma map_of_rev_distinct: "distinct (map fst xs) \<Longrightarrow> map_of (rev xs) = map_of xs"
  by (subst map_of_inject_set) (simp_all add: rev_map[symmetric])

lemma map_of_zip_distinct:
  "distinct ks \<Longrightarrow> length vs = length ks \<Longrightarrow> map (share_of (zip ks vs)) ks = vs"
proof -
  assume d: "distinct ks" and l: "length vs = length ks"
  have "share_of (zip ks vs) (ks ! n) = vs ! n" if "n < length ks" for n
  proof -
    have "distinct (map fst (zip ks vs))" using d l by simp
    then have "map_of (rev (zip ks vs)) = map_of (zip ks vs)" by (rule map_of_rev_distinct)
    then show ?thesis using that d l by (simp add: share_of_def map_of_zip_nth)
  qed
  then show ?thesis using l by (intro nth_equalityI) simp_all
qed

lemma length_share_values [simp]: "length (share_values s items) = length items"
  by (simp add: share_values_def discount_weights_def Let_def)

lemma share_values_sum:
  "items \<noteq> [] \<Longrightarrow> 0 < dsum (discount_weights items) \<Longrightarrow>
     sum_list (share_values s items) = invoice_discount_of s items"
proof -
  assume a: "items \<noteq> []" "0 < dsum (discount_weights items)"
  then have "discount_weights items \<noteq> []" by (auto simp: discount_weights_def Let_def)
  moreover have "0 \<le> invoice_discount_of s items" by (simp add: invoice_discount_of_def)
  ultimately show ?thesis
    using a by (auto simp: share_values_def Let_def allocate_sum map_replicate_const sum_list_replicate)
qed

text \<open>A line in full: the ratio is one and every stored value comes back.\<close>

definition small :: "milli \<Rightarrow> bool" where
  "small v = (\<bar>v\<bar> < 10 ^ 25)"

lemma scaled_small: "small v \<Longrightarrow> scaled v 1 = v"
proof -
  assume "small v"
  then have "\<bar>v\<bar> < 10 ^ 25" by (simp add: small_def)
  then have "\<bar>v\<bar> < 10 ^ 28" by (rule less_trans) simp
  then show ?thesis by (rule scaled_one)
qed

lemma item_amounts_full:
  assumes "si_quantity i \<noteq> 0" and "small (si_line_total i)" and "small (si_tax i)"
    and "small (si_discount i + share)"
  shows "ia_revenue (item_amounts i (si_quantity i) share) = si_line_total i"
    "ia_tax (item_amounts i (si_quantity i) share) = si_tax i"
    "ia_discount (item_amounts i (si_quantity i) share) = si_discount i + share"
    "ia_quantity (item_amounts i (si_quantity i) share) = si_quantity i"
  using assms by (simp_all add: item_amounts_def amounts_at_def ddiv_self scaled_small Let_def)

lemma sum_list_map_cong: "(\<And>x. x \<in> set xs \<Longrightarrow> f x = g x) \<Longrightarrow> sum_list (map f xs) = sum_list (map g xs)"
  by (metis map_cong)

lemma booked_of_summary:
  "act_booked (item_financial_summary_for_sale s items rs) =
     sum_item_amounts (map (\<lambda>i. item_amounts i (si_quantity i) (share_of (invoice_discount_shares s items) (si_id i))) items)"
  by (simp add: item_financial_summary_for_sale_def Let_def split: option.splits)

text \<open>C37: the booked figures of a sale are its stored ones: revenue and tax are the sums over its
  lines, and the discount, put together again from the line discounts and the reconstructed shares
  of the invoice discount, is the discount stored on the sale.\<close>

theorem booked_items_exact:
  assumes "distinct (map si_id items)" and "items \<noteq> []" and "0 < dsum (discount_weights items)"
    and "list_all (\<lambda>i. si_quantity i \<noteq> 0 \<and> small (si_line_total i) \<and> small (si_tax i)
      \<and> small (si_discount i + share_of (invoice_discount_shares s items) (si_id i))) items"
    and "(\<Sum>i \<leftarrow> items. si_discount i) \<le> sale_discount s"
  shows "let booked = act_booked (item_financial_summary_for_sale s items return_lines) in
    ia_revenue booked = (\<Sum>i \<leftarrow> items. si_line_total i) \<and> ia_tax booked = (\<Sum>i \<leftarrow> items. si_tax i)
    \<and> ia_quantity booked = (\<Sum>i \<leftarrow> items. si_quantity i) \<and> ia_discount booked = sale_discount s"
proof -
  let ?share = "\<lambda>i. share_of (invoice_discount_shares s items) (si_id i)"
  let ?v = "\<lambda>i. item_amounts i (si_quantity i) (?share i)"
  have full: "ia_revenue (?v i) = si_line_total i" "ia_tax (?v i) = si_tax i"
    "ia_discount (?v i) = si_discount i + ?share i" "ia_quantity (?v i) = si_quantity i"
    if "i \<in> set items" for i
    using assms(4) that by (auto simp: list_all_iff intro!: item_amounts_full)
  have "map ?share items = share_values s items"
    using map_of_zip_distinct[OF assms(1), of "share_values s items"]
    by (simp add: invoice_discount_shares_def comp_def)
  then have "(\<Sum>i \<leftarrow> items. ?share i) = sale_discount s - (\<Sum>i \<leftarrow> items. si_discount i)"
    using share_values_sum[OF assms(2,3), of s] assms(5) by (simp add: invoice_discount_of_def)
  moreover have "(\<Sum>i \<leftarrow> items. ia_discount (?v i)) = (\<Sum>i \<leftarrow> items. si_discount i) + (\<Sum>i \<leftarrow> items. ?share i)"
    by (subst sum_list_map_cong[of items "\<lambda>i. ia_discount (?v i)" "\<lambda>i. si_discount i + ?share i"])
      (simp_all add: full sum_list_addf)
  moreover have "(\<Sum>i \<leftarrow> items. ia_revenue (?v i)) = (\<Sum>i \<leftarrow> items. si_line_total i)"
    "(\<Sum>i \<leftarrow> items. ia_tax (?v i)) = (\<Sum>i \<leftarrow> items. si_tax i)"
    "(\<Sum>i \<leftarrow> items. ia_quantity (?v i)) = (\<Sum>i \<leftarrow> items. si_quantity i)"
    by (intro sum_list_map_cong full; assumption)+
  ultimately show ?thesis
    by (simp add: booked_of_summary sum_item_amounts_def comp_def Let_def)
qed

lemma sum_no_amounts: "sum_item_amounts (map (\<lambda>_. no_amounts) xs) = no_amounts"
  by (simp add: sum_item_amounts_def no_amounts_def map_replicate_const sum_list_replicate)

lemma subtract_none [simp]: "subtract_item_amounts a no_amounts = a" "subtract_item_amounts a a = no_amounts"
  by (simp_all add: subtract_item_amounts_def no_amounts_def)

text \<open>A sale of which nothing was returned nets to what was booked, and a sale that was returned
  completely nets to nothing, whatever was rounded in between.\<close>

lemma returned_items_net:
  assumes "sale_status s \<noteq> S_VOIDED"
    and "list_all (\<lambda>i. si_returned i = (if all_back then si_quantity i else 0)) items"
  shows "let a = item_financial_summary_for_sale s items None in
    act_net a = (if all_back then no_amounts else act_booked a)
    \<and> act_returned a = (if all_back then act_booked a else no_amounts)"
proof -
  let ?v = "\<lambda>i q. item_amounts i q (share_of (invoice_discount_shares s items) (si_id i))"
  have "map (\<lambda>i. ?v i (si_quantity i - si_returned i)) items
    = (if all_back then map (\<lambda>_. no_amounts) items else map (\<lambda>i. ?v i (si_quantity i)) items)"
    using assms(2) by (auto simp: list_all_iff item_amounts_none)
  then show ?thesis
    using assms(1) by (simp add: item_financial_summary_for_sale_def Let_def sum_no_amounts)
qed

text \<open>The net values of a line with a partial return stay within the line: quantity, revenue,
  tax and discount lie between nothing and what was booked.\<close>

lemma net_values_bounded:
  assumes "0 \<le> si_returned i" and "si_returned i \<le> si_quantity i" and "0 < si_quantity i"
    and "list_all (\<lambda>v. 0 \<le> v \<and> v < 10 ^ 25) [si_line_total i, si_tax i, si_discount i]"
  shows "let n = net_item_values i None in
    0 \<le> nv_qty n \<and> nv_qty n \<le> si_quantity i \<and> 0 \<le> nv_revenue n \<and> nv_revenue n \<le> si_line_total i
    \<and> 0 \<le> nv_tax n \<and> nv_tax n \<le> si_tax i \<and> 0 \<le> nv_discount n \<and> nv_discount n \<le> si_discount i"
proof -
  let ?r = "ddiv (dec (si_quantity i - si_returned i)) (dec (si_quantity i))"
  have r: "0 \<le> ?r" "?r \<le> 1" using assms by (simp_all add: ratio_between)
  have s: "0 \<le> scaled v ?r \<and> scaled v ?r \<le> v" if "0 \<le> v \<and> v < 10 ^ 25" for v
    using scaled_between[of v ?r] that r by blast
  show ?thesis
    using assms s[of "si_line_total i"] s[of "si_tax i"] s[of "si_discount i"]
    by (simp add: net_item_values_def Let_def)
qed

section \<open>Witnesses\<close>

definition sample_sale_item :: sale_item where
  "sample_sale_item = \<lparr>si_id = 1, si_business = 1, si_sale = 1, si_family_member = None, si_product = 10,
     si_variant = None, si_warehouse = Some 1, si_name = ''Cloth'', si_sku = ''C1'',
     si_quantity = 3000, si_unit_price = 4000, si_discount = 0, si_tax_rate = 5, si_tax = 550,
     si_line_total = 11550, si_unit_cost = 1500, si_gross_profit = 6500, si_returned = 1000,
     si_classification = NoClass, si_collection = NoCollection, si_estimated_fabric = None,
     si_actual_fabric = None, si_customer_fabric = False, si_fabric_meter = None, si_details = []\<rparr>"

definition sample_sale :: sale where
  "sample_sale = \<lparr>sale_id = 1, sale_business = 1, sale_branch = 1, sale_warehouse = 1,
     sale_register = None, sale_shift = None, sale_cashier = 7, sale_salesperson = None, sale_customer = 4,
     sale_invoice_number = ''INV-001'', sale_checkout_token = None, sale_status = S_COMPLETED,
     sale_priority = P_NORMAL, sale_date = 50, sale_created = 50, sale_delivery_date = None, sale_delivery_status = NoDelivery, sale_subtotal = 12000,
     sale_discount = 1000, sale_tax = 550, sale_rounding = 0, sale_total = 11550,
     sale_amount_paid = 11550, sale_change_due = 0, sale_total_cost = 4500, sale_gross_profit = 6500,
     sale_notes = [], sale_voided_at = None, sale_voided_by = None, sale_void_reason = []\<rparr>"

lemma sample_shares_one: "share_of (invoice_discount_shares sample_sale [sample_sale_item]) 1 = 1000"
  by code_simp

theorem booked_items_exact_witness:
  "let booked = act_booked (item_financial_summary_for_sale sample_sale [sample_sale_item] None) in
    ia_revenue booked = 11550 \<and> ia_tax booked = 550 \<and> ia_quantity booked = 3000 \<and> ia_discount booked = 1000"
proof -
  have w: "0 < dsum (discount_weights [sample_sale_item])" by code_simp
  have f: "si_id sample_sale_item = 1" "si_quantity sample_sale_item = 3000"
    "si_line_total sample_sale_item = 11550" "si_tax sample_sale_item = 550"
    "si_discount sample_sale_item = 0" "sale_discount sample_sale = 1000"
    by (simp_all add: sample_sale_item_def sample_sale_def)
  show ?thesis
    using booked_items_exact[OF _ _ w, of sample_sale None]
    by (simp add: f sample_shares_one small_def del: One_nat_def)
qed

lemma returned_items_net_witness:
  "let a = item_financial_summary_for_sale sample_sale [sample_sale_item\<lparr>si_returned := 3000\<rparr>] None in
    act_net a = no_amounts \<and> act_returned a = act_booked a"
  using returned_items_net[of sample_sale True "[sample_sale_item\<lparr>si_returned := 3000\<rparr>]"]
  by (simp add: sample_sale_def sample_sale_item_def)

lemma net_values_bounded_witness:
  "let n = net_item_values sample_sale_item None in 0 \<le> nv_revenue n \<and> nv_revenue n \<le> 11550 \<and> nv_qty n \<le> 3000"
  using net_values_bounded[of sample_sale_item] by (simp add: sample_sale_item_def Let_def)

end
