(* ===== verification/Register_Shifts.thy ===== *)
theory Register_Shifts
  imports Pos_Access Sale_Financials
begin

text \<open>
  \<^verbatim>\<open>apps/registers/services.py\<close>: the life of cash registers and cashier shifts.  An operation gets
  the object the caller holds and re-reads its row by key; \<open>business\<close> is the business of that
  object.  A cash amount is text that is not a number, a number that is not finite, or any finite
  decimal: nothing rounds it before it is stored.  A \<^verbatim>\<open>DecimalField(14, 3)\<close> column rounds what it
  is given half up to thousandths, each column for itself, and rejects a value of more than fourteen
  digits.  Audit rows carry no object, so an assessment only has its blockers.
\<close>

datatype cash_input = NoNumber | NotFinite | Cash rat

definition cash_decimal :: "cash_input \<Rightarrow> string \<Rightarrow> err + rat" where
  "cash_decimal value label =
     (case value of
        NoNumber \<Rightarrow> Inl (ShiftError (''Enter a valid '' @ label @ ''.''))
      | NotFinite \<Rightarrow> Inl (ShiftError (''Enter a finite '' @ label @ ''.''))
      | Cash x \<Rightarrow> Inr x)"

definition column_fits :: "milli \<Rightarrow> bool" where
  "column_fits m \<longleftrightarrow> \<bar>m\<bar> < 10 ^ 14"

section \<open>Registers\<close>

definition create_default_register :: "business \<Rightarrow> branch \<Rightarrow> 'a pos_db_scheme \<Rightarrow> err + 'a pos_db_scheme" where
  "create_default_register business branch db =
     (if br_business branch \<noteq> biz_id business \<or> br_usage branch \<noteq> SALES_BRANCH
      then Inl (RegisterLifecycleError ''Registers can only be created for a Sales Branch.'')
      else if list_ex (\<lambda>r. cr_business r = biz_id business \<and> cr_code r = ''REG1'') (registers db)
      then Inr db
      else Inr (db\<lparr>registers := registers db @
             [\<lparr>cr_id = next_pk cr_id (registers db), cr_business = biz_id business, cr_name = ''Main Register'',
               cr_code = ''REG1'', cr_branch = br_id branch, cr_printer = ''80mm'', cr_active = True\<rparr>]\<rparr>))"

definition find_register :: "'a pos_db_scheme \<Rightarrow> id \<Rightarrow> id \<Rightarrow> cash_register option" where
  "find_register db b i = find (\<lambda>r. cr_id r = i \<and> cr_business r = b) (registers db)"

definition find_shift :: "'a pos_db_scheme \<Rightarrow> id \<Rightarrow> id \<Rightarrow> shift option" where
  "find_shift db b i = find (\<lambda>s. sh_id s = i \<and> sh_business s = b) (shifts db)"

definition locked_register_for_write ::
    "(string list \<Rightarrow> string list) \<Rightarrow> business \<Rightarrow> id \<Rightarrow> user option \<Rightarrow> string \<Rightarrow> membership option \<Rightarrow>
     'a pos_db_scheme \<Rightarrow> err + (cash_register \<times> access_context)" where
  "locked_register_for_write ord business register user perm membership db =
     ebind (require_pos_write ord db business user perm membership None) (\<lambda>c.
     case find_register db (biz_id business) register of
       None \<Rightarrow> deny_pos_scope ord db business user perm (ctx_membership c)
     | Some r \<Rightarrow>
         ebind (require_pos_write ord db business user perm (ctx_membership c) (branch_row db (cr_branch r)))
           (\<lambda>_. Inr (r, c)))"

definition locked_shift_for_write ::
    "(string list \<Rightarrow> string list) \<Rightarrow> business \<Rightarrow> id \<Rightarrow> user option \<Rightarrow> string \<Rightarrow> membership option \<Rightarrow>
     'a pos_db_scheme \<Rightarrow> err + (shift \<times> access_context)" where
  "locked_shift_for_write ord business i user perm membership db =
     ebind (require_pos_write ord db business user perm membership None) (\<lambda>c.
     case find_shift db (biz_id business) i of
       None \<Rightarrow> deny_pos_scope ord db business user perm (ctx_membership c)
     | Some s \<Rightarrow>
         ebind (require_pos_write ord db business user perm (ctx_membership c) (branch_row db (sh_branch s)))
           (\<lambda>_. Inr (s, c)))"

text \<open>The register object a form hands over; a new one has no key.\<close>

record register_form =
  rf_pk :: "id option"
  rf_business :: "id option"
  rf_name :: string
  rf_code :: string
  rf_branch :: id
  rf_printer :: string

text \<open>\<open>save()\<close> under the unique constraint on business and code.\<close>

definition store_register :: "cash_register \<Rightarrow> 'a pos_db_scheme \<Rightarrow> err + 'a pos_db_scheme" where
  "store_register r db =
     (if list_ex (\<lambda>x. cr_business x = cr_business r \<and> cr_code x = cr_code r \<and> cr_id x \<noteq> cr_id r) (registers db)
      then Inl IntegrityError
      else Inr (db\<lparr>registers :=
        (if cr_id r \<in> cr_id ` set (registers db) then save_row cr_id r (registers db)
         else registers db @ [r])\<rparr>))"

definition save_register ::
    "(string list \<Rightarrow> string list) \<Rightarrow> register_form \<Rightarrow> business \<Rightarrow> user option \<Rightarrow> membership option \<Rightarrow>
     'a pos_db_scheme \<Rightarrow> err + 'a pos_db_scheme" where
  "save_register ord f business user membership db =
     (let b = biz_id business; perm = ''registers.manage'' in
      ebind (require_pos_write ord db business user perm membership None) (\<lambda>c.
      if rf_business f \<noteq> None \<and> rf_business f \<noteq> Some b
      then deny_pos_scope ord db business user perm (ctx_membership c)
      else case find (\<lambda>x. br_id x = rf_branch f \<and> br_business x = b) (branches db) of
        None \<Rightarrow> deny_pos_scope ord db business user perm (ctx_membership c)
      | Some br \<Rightarrow>
          if br_usage br \<noteq> SALES_BRANCH
          then Inl (RegisterLifecycleError ''Registers can only be assigned to a Sales Branch.'')
          else ebind (require_pos_write ord db business user perm (ctx_membership c) (Some br)) (\<lambda>_.
            case rf_pk f of
              None \<Rightarrow> store_register
                \<lparr>cr_id = next_pk cr_id (registers db), cr_business = b, cr_name = rf_name f,
                 cr_code = rf_code f, cr_branch = br_id br, cr_printer = rf_printer f, cr_active = True\<rparr> db
            | Some i \<Rightarrow>
                (case find_register db b i of
                   None \<Rightarrow> deny_pos_scope ord db business user perm (ctx_membership c)
                 | Some r \<Rightarrow>
                     ebind (require_pos_write ord db business user perm (ctx_membership c)
                             (branch_row db (cr_branch r))) (\<lambda>_.
                     store_register (r\<lparr>cr_name := rf_name f, cr_code := rf_code f, cr_branch := br_id br,
                       cr_printer := rf_printer f\<rparr>) db)))))"

text \<open>A row that names a sale belongs to a register when the sale does.\<close>

definition sale_on_register :: "'a pos_db_scheme \<Rightarrow> id \<Rightarrow> id \<Rightarrow> bool" where
  "sale_on_register db register s =
     (case row_by sale_id s (sales db) of Some x \<Rightarrow> sale_register x = Some register | None \<Rightarrow> False)"

definition shift_on_register :: "'a pos_db_scheme \<Rightarrow> id \<Rightarrow> id option \<Rightarrow> bool" where
  "shift_on_register db register s =
     (case Option.bind s (\<lambda>i. row_by sh_id i (shifts db)) of
        Some x \<Rightarrow> sh_register x = register | None \<Rightarrow> False)"

definition register_blockers :: "'a pos_db_scheme \<Rightarrow> cash_register \<Rightarrow> string list" where
  "register_blockers db r =
     (let b = cr_business r; i = cr_id r in
      map fst (filter snd
        [(''shift, session, or reconciliation history'',
            list_ex (\<lambda>s. sh_business s = b \<and> sh_register s = i) (shifts db)),
         (''sale or invoice history'',
            list_ex (\<lambda>s. sale_business s = b \<and> sale_register s = Some i) (sales db)),
         (''sale payment history'',
            list_ex (\<lambda>p. sp_business p = b \<and> (sale_on_register db i (sp_sale p)
              \<or> shift_on_register db i (sp_shift p))) (sale_payments db)),
         (''return or refund history'',
            list_ex (\<lambda>x. sr_business x = b \<and> (sale_on_register db i (sr_sale x)
              \<or> shift_on_register db i (sr_shift x))) (sale_returns db)),
         (''customer payment history'',
            list_ex (\<lambda>p. cpay_business p = b \<and> shift_on_register db i (cpay_shift p)) (customer_payments db)),
         (''expense or cash movement history'',
            list_ex (\<lambda>e. ex_business e = b \<and> shift_on_register db i (ex_shift e)) (expenses db))]))"

definition register_open :: "'a pos_db_scheme \<Rightarrow> id \<Rightarrow> bool" where
  "register_open db i = list_ex (\<lambda>s. sh_register s = i \<and> sh_status s = SH_OPEN) (shifts db)"

definition register_open_in :: "'a pos_db_scheme \<Rightarrow> id \<Rightarrow> id \<Rightarrow> bool" where
  "register_open_in db b i =
     list_ex (\<lambda>s. sh_business s = b \<and> sh_register s = i \<and> sh_status s = SH_OPEN) (shifts db)"

definition archive_register ::
    "(string list \<Rightarrow> string list) \<Rightarrow> business \<Rightarrow> id \<Rightarrow> user option \<Rightarrow> membership option \<Rightarrow>
     'a pos_db_scheme \<Rightarrow> err + 'a pos_db_scheme" where
  "archive_register ord business register user membership db =
     ebind (locked_register_for_write ord business register user ''registers.manage'' membership db) (\<lambda>(r, c).
     if \<not> cr_active r then Inl (RegisterLifecycleError ''This register is already archived.'')
     else if register_open db (cr_id r)
     then Inl (RegisterLifecycleError ''Close the register's open shift before archiving it.'')
     else Inr (log_audit ''register.archived'' ''registers'' (''Register '' @ cr_code r @ '' archived.'')
            (db\<lparr>registers := save_row cr_id (r\<lparr>cr_active := False\<rparr>) (registers db)\<rparr>)))"

definition reactivate_register ::
    "(string list \<Rightarrow> string list) \<Rightarrow> calendar \<Rightarrow> business \<Rightarrow> id \<Rightarrow> user option \<Rightarrow> membership option \<Rightarrow>
     'a pos_db_scheme \<Rightarrow> err + 'a pos_db_scheme" where
  "reactivate_register ord cal business register user membership db =
     ebind (locked_register_for_write ord business register user ''registers.manage'' membership db) (\<lambda>(r, c).
     if cr_active r then Inl (RegisterLifecycleError ''This register is already active.'')
     else if (case branch_row db (cr_branch r) of
                Some br \<Rightarrow> \<not> br_active br \<or> br_usage br \<noteq> SALES_BRANCH | None \<Rightarrow> True)
     then Inl (RegisterLifecycleError ''Move this register to an active branch before reactivating it.'')
     else if list_ex (\<lambda>x. cr_business x = biz_id business \<and> py_lower (cr_code x) = py_lower (cr_code r)
                \<and> cr_active x \<and> cr_id x \<noteq> cr_id r) (registers db)
     then Inl (RegisterLifecycleError ''An active register already uses this code. Edit the code first.'')
     else ebind (check_limit cal db business L_POS_TERMINALS) (\<lambda>_.
       Inr (log_audit ''register.reactivated'' ''registers'' (''Register '' @ cr_code r @ '' reactivated.'')
            (db\<lparr>registers := save_row cr_id (r\<lparr>cr_active := True\<rparr>) (registers db)\<rparr>))))"

definition delete_register_if_safe ::
    "(string list \<Rightarrow> string list) \<Rightarrow> business \<Rightarrow> id \<Rightarrow> user option \<Rightarrow> membership option \<Rightarrow>
     'a pos_db_scheme \<Rightarrow> err + 'a pos_db_scheme" where
  "delete_register_if_safe ord business register user membership db =
     ebind (locked_register_for_write ord business register user ''registers.manage'' membership db) (\<lambda>(r, c).
     if register_blockers db r \<noteq> [] \<or> list_ex (\<lambda>s. sh_register s = cr_id r) (shifts db)
     then Inl (RegisterLifecycleError (''This register has transaction or shift history and cannot be ''
            @ ''permanently deleted. Archive it instead.''))
     else Inr (log_audit ''register.deleted'' ''registers''
            (''Unused register '' @ cr_code r @ '' ('' @ cr_name r @ '') permanently deleted.'')
            (db\<lparr>registers := filter (\<lambda>x. cr_id x \<noteq> cr_id r) (registers db)\<rparr>)))"

section \<open>Shifts\<close>

text \<open>The branch and register of a shift are usable for sales.\<close>

definition sales_branch_row :: "'a core_db_scheme \<Rightarrow> id \<Rightarrow> bool" where
  "sales_branch_row db i = (case branch_row db i of Some br \<Rightarrow> br_usage br = SALES_BRANCH | None \<Rightarrow> False)"

definition active_branch_row :: "'a core_db_scheme \<Rightarrow> id \<Rightarrow> bool" where
  "active_branch_row db i = (case branch_row db i of Some br \<Rightarrow> br_active br | None \<Rightarrow> False)"

definition register_operational :: "'a pos_db_scheme \<Rightarrow> cash_register \<Rightarrow> bool" where
  "register_operational db r =
     (cr_active r \<and> active_branch_row db (cr_branch r) \<and> sales_branch_row db (cr_branch r))"

definition register_active_row :: "'a pos_db_scheme \<Rightarrow> id \<Rightarrow> bool" where
  "register_active_row db i = (case row_by cr_id i (registers db) of Some r \<Rightarrow> cr_active r | None \<Rightarrow> False)"

text \<open>The newest open shift, of a register or else of the user.\<close>

definition get_open_shift ::
    "business \<Rightarrow> id \<Rightarrow> id option \<Rightarrow> membership option \<Rightarrow> 'a pos_db_scheme \<Rightarrow> shift option" where
  "get_open_shift business user register membership db =
     (let b = biz_id business;
          open_shifts = filter (\<lambda>s. sh_business s = b \<and> sh_status s = SH_OPEN \<and> sales_branch_row db (sh_branch s)
            \<and> (case register of Some r \<Rightarrow> sh_register s = r | None \<Rightarrow> sh_cashier s = user)) (shifts db);
          newest = (\<lambda>ss. case sort_key (\<lambda>s. - sh_opened_at s) ss of [] \<Rightarrow> None | s # _ \<Rightarrow> Some s)
      in case membership of
           None \<Rightarrow> newest open_shifts
         | Some m \<Rightarrow>
             if mem_business m \<noteq> b \<or> mem_user m \<noteq> user then None
             else newest (filter (\<lambda>s. active_branch_row db (sh_branch s) \<and> register_active_row db (sh_register s)
               \<and> (case allowed_branch_ids m of None \<Rightarrow> True | Some ids \<Rightarrow> sh_branch s \<in> set ids)) open_shifts))"

definition open_shift ::
    "(string list \<Rightarrow> string list) \<Rightarrow> business \<Rightarrow> id \<Rightarrow> user option \<Rightarrow> cash_input \<Rightarrow> string \<Rightarrow>
     membership option \<Rightarrow> 'a pos_db_scheme \<Rightarrow> err + 'a pos_db_scheme" where
  "open_shift ord business register cashier opening_cash notes membership db =
     (let b = biz_id business in
      ebind (locked_register_for_write ord business register cashier ''shifts.open'' membership db) (\<lambda>(r, c).
      if \<not> register_operational db r
      then Inl (ShiftError ''This register is archived or its branch is inactive.'')
      else if register_open_in db b (cr_id r) then Inl (ShiftError ''This register already has an open shift.'')
      else if list_ex (\<lambda>s. sh_business s = b \<and> Some (sh_cashier s) = upk cashier \<and> sh_status s = SH_OPEN) (shifts db)
      then Inl (ShiftError ''You already have an open shift on another register.'')
      else ebind (cash_decimal opening_cash ''opening cash amount'') (\<lambda>cash.
      if \<not> column_fits (money cash) then Inl DataError
      else if register_open db (cr_id r) then Inl IntegrityError
      else case upk cashier of
        None \<Rightarrow> Inl IntegrityError
      | Some u \<Rightarrow>
          Inr (log_audit ''shift.opened'' ''registers'' (''Shift opened on '' @ cr_name r)
            (db\<lparr>shifts := shifts db @
               [\<lparr>sh_id = next_pk sh_id (shifts db), sh_business = b, sh_register = cr_id r,
                 sh_branch = cr_branch r, sh_cashier = u, sh_status = SH_OPEN, sh_opened_at = clock db,
                 sh_opening_cash = money cash, sh_opening_notes = notes, sh_closed_at = None,
                 sh_expected_cash = 0, sh_actual_cash = None, sh_difference = 0,
                 sh_closing_notes = [], sh_approved_by = None, sh_reopened_count = 0\<rparr>]\<rparr>)))))"

definition shift_duration_label :: "shift \<Rightarrow> int option \<Rightarrow> int \<Rightarrow> string" where
  "shift_duration_label s now clk =
     (let stop = (case sh_closed_at s of Some t \<Rightarrow> t | None \<Rightarrow> (case now of Some t \<Rightarrow> t | None \<Rightarrow> clk));
          minutes = nat (max 0 (stop - sh_opened_at s)) div 1000000 div 60;
          hours = minutes div 60
      in if hours \<noteq> 0 then nat_str hours @ ''h '' @ nat_str (minutes mod 60) @ ''m''
         else nat_str minutes @ ''m'')"

section \<open>The cash count of a shift\<close>

record shift_figures =
  sf_gross_cash :: milli
  sf_cash :: milli
  sf_card :: milli
  sf_bank :: milli
  sf_credit :: milli
  sf_store_credit :: milli
  sf_other :: milli
  sf_collections_cash :: milli
  sf_cash_refunds :: milli
  sf_cash_expenses :: milli
  sf_expected_cash :: milli

definition counted_sale :: "'a pos_db_scheme \<Rightarrow> id \<Rightarrow> bool" where
  "counted_sale db s = (case row_by sale_id s (sales db) of Some x \<Rightarrow> valid_sale x | None \<Rightarrow> False)"

definition shift_payments :: "'a pos_db_scheme \<Rightarrow> shift \<Rightarrow> sale_payment list" where
  "shift_payments db s =
     filter (\<lambda>p. sp_business p = sh_business s \<and> sp_shift p = Some (sh_id s) \<and> counted_sale db (sp_sale p))
       (sale_payments db)"

definition shift_returns :: "'a pos_db_scheme \<Rightarrow> shift \<Rightarrow> sale_return list" where
  "shift_returns db s =
     filter (\<lambda>r. sr_business r = sh_business s \<and> sr_shift r = Some (sh_id s)) (sale_returns db)"

definition shift_collections :: "'a pos_db_scheme \<Rightarrow> shift \<Rightarrow> (method_kind option \<times> milli) list" where
  "shift_collections db s =
     sum_by_key (map (\<lambda>p. (map_option pm_kind (cpay_method p), cpay_amount p))
       (filter (\<lambda>p. cpay_business p = sh_business s \<and> cpay_shift p = Some (sh_id s) \<and> cpay_kind p = COLLECTION)
         (customer_payments db)))"

definition shift_cash_expenses :: "'a pos_db_scheme \<Rightarrow> shift \<Rightarrow> milli" where
  "shift_cash_expenses db s =
     (\<Sum>e \<leftarrow> filter (\<lambda>e. ex_business e = sh_business s \<and> ex_shift e = Some (sh_id s)
          \<and> map_option pm_kind (ex_method e) = Some CASH
          \<and> ex_status e \<noteq> EX_REJECTED \<and> ex_status e \<noteq> EX_CANCELLED) (expenses db). ex_amount e)"

definition shift_totals :: "'a pos_db_scheme \<Rightarrow> shift \<Rightarrow> shift_figures" where
  "shift_totals db s =
     (let tenders = tender_summary_from_querysets (shift_payments db s) (shift_returns db s);
          collected = (case map_of (shift_collections db s) (Some CASH) of Some v \<Rightarrow> v | None \<Rightarrow> 0);
          refunds = tender_refunded tenders CASH;
          spent = shift_cash_expenses db s;
          gross_cash = ts_gross tenders CASH
      in \<lparr>sf_gross_cash = gross_cash, sf_cash = tender_amount tenders CASH,
          sf_card = tender_amount tenders CARD, sf_bank = tender_amount tenders BANK,
          sf_credit = tender_amount tenders CUSTOMER_CREDIT,
          sf_store_credit = tender_amount tenders STORE_CREDIT,
          sf_other = tender_amount tenders OTHER + tender_amount tenders ONLINE,
          sf_collections_cash = collected, sf_cash_refunds = refunds, sf_cash_expenses = spent,
          sf_expected_cash = sh_opening_cash s + gross_cash + collected - refunds - spent\<rparr>)"

section \<open>Closing, approving, reopening\<close>

definition notify_role :: "id \<Rightarrow> string \<Rightarrow> string \<Rightarrow> 'a stock_db_scheme \<Rightarrow> 'a stock_db_scheme" where
  "notify_role b perm category db =
     db\<lparr>notifications := notifications db @
       map (\<lambda>u. \<lparr>nt_business = b, nt_recipient = u, nt_category = category, nt_product = None, nt_read = False\<rparr>)
         (role_members db b perm)\<rparr>"

definition closed_shift :: "'a pos_db_scheme \<Rightarrow> shift \<Rightarrow> rat \<Rightarrow> string \<Rightarrow> shift" where
  "closed_shift db s actual notes =
     (let expected = sf_expected_cash (shift_totals db s) in
      s\<lparr>sh_expected_cash := expected, sh_actual_cash := Some (money actual),
        sh_difference := money (dsub actual (dec expected)),
        sh_closing_notes := notes, sh_closed_at := Some (clock db), sh_status := SH_CLOSED\<rparr>)"

definition close_shift ::
    "(string list \<Rightarrow> string list) \<Rightarrow> business \<Rightarrow> id \<Rightarrow> cash_input \<Rightarrow> user option \<Rightarrow> string \<Rightarrow>
     membership option \<Rightarrow> 'a pos_db_scheme \<Rightarrow> err + 'a pos_db_scheme" where
  "close_shift ord business i actual_cash user notes membership db =
     ebind (locked_shift_for_write ord business i user ''shifts.close'' membership db) (\<lambda>(s, c).
     if Some (sh_cashier s) \<noteq> upk user
        \<and> \<not> (case ctx_membership c of Some m \<Rightarrow> has_perm m ''shifts.approve'' | None \<Rightarrow> False)
     then Inl (ShiftError ''Only the shift's cashier or a manager can close it.'')
     else if sh_status s \<noteq> SH_OPEN then Inl (ShiftError ''This shift is not open.'')
     else ebind (cash_decimal actual_cash ''actual cash amount'') (\<lambda>actual.
       let s' = closed_shift db s actual notes;
           difference = dsub actual (dec (sh_expected_cash s'));
           db' = log_audit ''shift.closed'' ''registers'' ''Shift closed.''
             (db\<lparr>shifts := save_row sh_id s' (shifts db)\<rparr>)
       in if \<not> column_fits (sh_expected_cash s') \<or> \<not> column_fits (money actual)
             \<or> \<not> column_fits (sh_difference s')
          then Inl DataError
          else Inr (if difference \<noteq> 0
                    then notify_role (biz_id business) ''shifts.approve'' ''cash_difference'' db' else db')))"

definition approve_shift ::
    "(string list \<Rightarrow> string list) \<Rightarrow> business \<Rightarrow> id \<Rightarrow> user option \<Rightarrow> membership option \<Rightarrow>
     'a pos_db_scheme \<Rightarrow> err + 'a pos_db_scheme" where
  "approve_shift ord business i user membership db =
     ebind (locked_shift_for_write ord business i user ''shifts.approve'' membership db) (\<lambda>(s, c).
     if sh_status s \<noteq> SH_CLOSED then Inl (ShiftError ''Only closed shifts can be approved.'')
     else Inr (log_audit ''shift.approved'' ''registers'' ''Shift approved.''
            (db\<lparr>shifts := save_row sh_id (s\<lparr>sh_status := SH_APPROVED, sh_approved_by := upk user\<rparr>) (shifts db)\<rparr>)))"

definition reopen_shift ::
    "(string list \<Rightarrow> string list) \<Rightarrow> business \<Rightarrow> id \<Rightarrow> user option \<Rightarrow> membership option \<Rightarrow>
     'a pos_db_scheme \<Rightarrow> err + 'a pos_db_scheme" where
  "reopen_shift ord business i user membership db =
     ebind (locked_shift_for_write ord business i user ''shifts.reopen'' membership db) (\<lambda>(s, c).
     if sh_status s = SH_OPEN then Inl (ShiftError ''Only closed shifts can be reopened.'')
     else if (case row_by cr_id (sh_register s) (registers db) of
                Some r \<Rightarrow> \<not> register_operational db r | None \<Rightarrow> True)
     then Inl (ShiftError ''Archived registers cannot be reopened for operations.'')
     else if register_open_in db (sh_business s) (sh_register s)
     then Inl (ShiftError ''The register already has another open shift.'')
     else if register_open db (sh_register s) then Inl IntegrityError
     else Inr (log_audit ''shift.reopened'' ''registers'' ''Shift reopened.''
            (db\<lparr>shifts := save_row sh_id (s\<lparr>sh_status := SH_OPEN, sh_closed_at := None,
               sh_reopened_count := Suc (sh_reopened_count s)\<rparr>) (shifts db)\<rparr>)))"

section \<open>The invariant of registers and shifts\<close>

text \<open>
  What was counted and its difference to the expected cash are rounded separately, so the stored
  difference can be one thousandth off the difference of the stored values, and no more.
\<close>

lemma money_dsub_near:
  assumes "column_fits (money x)" and "column_fits e"
  shows "\<bar>money (dsub x (dec e)) - (money x - e)\<bar> \<le> 1"
proof -
  let ?y = "1000 * x - of_int e :: rat"
  have x: "\<lfloor>1000 * x\<rfloor> \<le> money x" "money x \<le> \<lceil>1000 * x\<rceil>"
    using half_up.rnd_floor[of "1000 * x"] half_up.rnd_ceiling[of "1000 * x"] by (simp_all add: money_def)
  have "\<lfloor>1000 * x\<rfloor> < 10 ^ 14" "- (10 ^ 14) - 1 \<le> \<lfloor>1000 * x\<rfloor>" "\<bar>e\<bar> < 10 ^ 14"
    using x assms ceiling_diff_floor_le_1[of "1000 * x"] unfolding column_fits_def by linarith+
  then have "\<bar>?y\<bar> < 10 ^ 28" by (simp add: abs_less_iff floor_less_iff le_floor_iff)
  note rnd = ctx_money.rnd_floor[OF this] ctx_money.rnd_ceiling[OF this]
  have "ctx_money ?y = money (dsub x (dec e))"
    by (simp add: ctx_money_def dsub_def dec_def diff_divide_distrib)
  moreover have "\<lfloor>?y\<rfloor> = \<lfloor>1000 * x\<rfloor> - e" "\<lceil>?y\<rceil> = \<lceil>1000 * x\<rceil> - e" by simp_all
  ultimately show ?thesis using rnd x ceiling_diff_floor_le_1[of "1000 * x"] by linarith
qed

lemma money_dsub_exact:
  "column_fits m \<Longrightarrow> column_fits e \<Longrightarrow> money (dsub (dec m) (dec e)) = m - e"
proof -
  assume "column_fits m" "column_fits e"
  then have "\<bar>m - e\<bar> < 10 ^ 28" by (simp add: column_fits_def)
  from ctx28_milli[OF this] have "dsub (dec m) (dec e) = dec (m - e)"
    by (simp add: dsub_def dec_def diff_divide_distrib)
  then show ?thesis by simp
qed

definition shift_settled :: "shift \<Rightarrow> bool" where
  "shift_settled s =
     (if sh_status s = SH_OPEN then sh_closed_at s = None
      else sh_closed_at s \<noteq> None
        \<and> (case sh_actual_cash s of Some a \<Rightarrow> \<bar>sh_difference s - (a - sh_expected_cash s)\<bar> \<le> 1 | None \<Rightarrow> False))"

text \<open>
  At most one shift of a register is open, no open shift is on an archived register, and a shift
  that is not open has a time of closing and the difference of counted and expected cash, to a
  thousandth.
\<close>

definition desk_ok :: "cash_register list \<Rightarrow> shift list \<Rightarrow> bool" where
  "desk_ok rs ss =
     (distinct (map cr_id rs) \<and> distinct (map sh_id ss)
      \<and> (\<forall>s \<in> set ss. \<forall>t \<in> set ss. sh_status s = SH_OPEN \<and> sh_status t = SH_OPEN
            \<and> sh_register s = sh_register t \<longrightarrow> sh_id s = sh_id t)
      \<and> (\<forall>s \<in> set ss. sh_status s = SH_OPEN \<longrightarrow> (\<exists>r \<in> set rs. cr_id r = sh_register s \<and> cr_active r))
      \<and> (\<forall>s \<in> set ss. shift_settled s))"

definition desk_inv :: "'a pos_db_scheme \<Rightarrow> bool" where
  "desk_inv db = desk_ok (registers db) (shifts db)"

lemma desk_okE:
  assumes "desk_ok rs ss"
  shows "distinct (map cr_id rs)" "distinct (map sh_id ss)"
    "\<And>s t. s \<in> set ss \<Longrightarrow> t \<in> set ss \<Longrightarrow> sh_status s = SH_OPEN \<Longrightarrow> sh_status t = SH_OPEN \<Longrightarrow>
      sh_register s = sh_register t \<Longrightarrow> sh_id s = sh_id t"
    "\<And>s. s \<in> set ss \<Longrightarrow> sh_status s = SH_OPEN \<Longrightarrow> \<exists>r \<in> set rs. cr_id r = sh_register s \<and> cr_active r"
    "\<And>s. s \<in> set ss \<Longrightarrow> shift_settled s"
  using assms unfolding desk_ok_def by blast+

lemma same_row: "distinct (map pk xs) \<Longrightarrow> x \<in> set xs \<Longrightarrow> y \<in> set xs \<Longrightarrow> pk x = pk y \<Longrightarrow> x = y"
  by (simp add: distinct_map inj_on_def)

lemma desk_okI:
  assumes "distinct (map cr_id rs)" and "distinct (map sh_id ss)"
    and "\<And>s t. s \<in> set ss \<Longrightarrow> t \<in> set ss \<Longrightarrow> sh_status s = SH_OPEN \<Longrightarrow> sh_status t = SH_OPEN \<Longrightarrow>
      sh_register s = sh_register t \<Longrightarrow> sh_id s = sh_id t"
    and "\<And>s. s \<in> set ss \<Longrightarrow> sh_status s = SH_OPEN \<Longrightarrow> \<exists>r \<in> set rs. cr_id r = sh_register s \<and> cr_active r"
    and "\<And>s. s \<in> set ss \<Longrightarrow> shift_settled s"
  shows "desk_ok rs ss"
  unfolding desk_ok_def
  by (intro conjI ballI impI) (use assms in \<open>blast+\<close>)

text \<open>The shifts after a change are the old ones and one that is settled, and open only on an
  active register that was free.\<close>

lemma desk_change_shift:
  assumes ok: "desk_ok rs ss" and "distinct (map sh_id ss')" and "set ss' \<subseteq> insert s (set ss)"
    and s: "shift_settled s"
    and open': "sh_status s = SH_OPEN \<longrightarrow> (\<exists>r \<in> set rs. cr_id r = sh_register s \<and> cr_active r)
      \<and> \<not> list_ex (\<lambda>t. sh_register t = sh_register s \<and> sh_status t = SH_OPEN) ss"
  shows "desk_ok rs ss'"
proof (rule desk_okI)
  have mem: "x = s \<or> x \<in> set ss" if "x \<in> set ss'" for x using that assms(3) by blast
  have free: "sh_status s \<noteq> SH_OPEN" if "x \<in> set ss" "sh_status x = SH_OPEN" "sh_register x = sh_register s" for x
    using that open' unfolding list_ex_iff by blast
  show "sh_id x = sh_id y" if "x \<in> set ss'" "y \<in> set ss'" "sh_status x = SH_OPEN" "sh_status y = SH_OPEN"
    "sh_register x = sh_register y" for x y
    using mem[OF that(1)] mem[OF that(2)] that(3-5) free[of x] free[of y] desk_okE(3)[OF ok, of x y] by metis
  show "\<exists>r \<in> set rs. cr_id r = sh_register x \<and> cr_active r" if "x \<in> set ss'" "sh_status x = SH_OPEN" for x
    using mem[OF that(1)] that(2) desk_okE(4)[OF ok, of x] open' by metis
  show "shift_settled x" if "x \<in> set ss'" for x
    using mem[OF that] desk_okE(5)[OF ok, of x] s by metis
qed (rule desk_okE(1)[OF ok], rule assms(2))

lemma desk_add_shift:
  assumes "desk_ok rs ss" and "sh_id s = next_pk sh_id ss" and "shift_settled s"
    and "sh_status s = SH_OPEN \<longrightarrow> (\<exists>r \<in> set rs. cr_id r = sh_register s \<and> cr_active r)
      \<and> \<not> list_ex (\<lambda>t. sh_register t = sh_register s \<and> sh_status t = SH_OPEN) ss"
  shows "desk_ok rs (ss @ [s])"
  by (rule desk_change_shift[OF assms(1) distinct_add_row[OF desk_okE(2)[OF assms(1)] assms(2)] _ assms(3,4)])
    simp

lemma desk_save_shift:
  assumes "desk_ok rs ss" and "shift_settled s"
    and "sh_status s = SH_OPEN \<longrightarrow> (\<exists>r \<in> set rs. cr_id r = sh_register s \<and> cr_active r)
      \<and> \<not> list_ex (\<lambda>t. sh_register t = sh_register s \<and> sh_status t = SH_OPEN) ss"
  shows "desk_ok rs (save_row sh_id s ss)"
  by (rule desk_change_shift[OF assms(1) _ _ assms(2,3)])
    (use desk_okE(2)[OF assms(1)] set_save_row[of sh_id s ss] in auto)

lemma desk_registers:
  assumes ok: "desk_ok rs ss" and "distinct (map cr_id rs')"
    and keep: "\<And>s r. s \<in> set ss \<Longrightarrow> sh_status s = SH_OPEN \<Longrightarrow> r \<in> set rs \<Longrightarrow> cr_id r = sh_register s \<Longrightarrow>
      cr_active r \<Longrightarrow> \<exists>r' \<in> set rs'. cr_id r' = sh_register s \<and> cr_active r'"
  shows "desk_ok rs' ss"
proof (rule desk_okI)
  show "\<exists>r \<in> set rs'. cr_id r = sh_register s \<and> cr_active r" if "s \<in> set ss" "sh_status s = SH_OPEN" for s
    using desk_okE(4)[OF ok that] keep[OF that] by blast
qed (use desk_okE[OF ok] assms(2) in blast)+

text \<open>Saving one register keeps the others; it may only become inactive without an open shift.\<close>

lemma desk_save_register:
  assumes ok: "desk_ok rs ss" and r: "r \<in> set rs" "cr_id r' = cr_id r"
    and active: "cr_active r' \<or> \<not> list_ex (\<lambda>s. sh_register s = cr_id r \<and> sh_status s = SH_OPEN) ss"
  shows "desk_ok (save_row cr_id r' rs) ss"
proof (rule desk_registers[OF ok])
  show "distinct (map cr_id (save_row cr_id r' rs))" using desk_okE(1)[OF ok] by simp
  fix s x
  assume s: "s \<in> set ss" "sh_status s = SH_OPEN" "x \<in> set rs" "cr_id x = sh_register s" "cr_active x"
  have set: "set (save_row cr_id r' rs) = insert r' {x \<in> set rs. cr_id x \<noteq> cr_id r'}"
    using r by (intro set_save_row_eq) auto
  show "\<exists>y \<in> set (save_row cr_id r' rs). cr_id y = sh_register s \<and> cr_active y"
    using s active r(2) unfolding set by (cases "cr_id x = cr_id r") (auto simp: list_ex_iff)
qed

section \<open>Every operation keeps the invariant\<close>

lemma log_audit_pos [simp]:
  "registers (log_audit a m d db) = registers db" "shifts (log_audit a m d db) = shifts db"
  by (simp_all add: log_audit_def)

lemma notify_role_pos [simp]:
  "registers (notify_role b perm k db) = registers db" "shifts (notify_role b perm k db) = shifts db"
  by (simp_all add: notify_role_def)

lemma desk_inv_frame [simp]:
  "desk_inv (log_audit a m d db) = desk_inv db" "desk_inv (notify_role b perm k db) = desk_inv db"
  by (simp_all add: desk_inv_def)

lemma locked_shift_Inr:
  assumes "locked_shift_for_write ord business i user perm membership db = Inr (s, c)"
  shows "s \<in> set (shifts db)" "sh_id s = i" "sh_business s = biz_id business"
    "find_shift db (biz_id business) i = Some s"
  using assms
  by (auto simp: locked_shift_for_write_def find_shift_def result_simps deny_pos_scope_Inl
      dest: find_Some_mem split: option.splits)

lemma locked_register_Inr:
  assumes "locked_register_for_write ord business i user perm membership db = Inr (r, c)"
  shows "r \<in> set (registers db)" "cr_id r = i" "cr_business r = biz_id business"
  using assms
  by (auto simp: locked_register_for_write_def find_register_def result_simps deny_pos_scope_Inl
      dest: find_Some_mem split: option.splits)

lemma row_by_mem: "row_by pk i xs = Some x \<Longrightarrow> x \<in> set xs \<and> pk x = i"
  by (rule row_by_Some)

lemma open_shift_Inr:
  assumes "open_shift ord business i cashier cash notes membership db = Inr db'"
  obtains r c amount u s where
    "locked_register_for_write ord business i cashier ''shifts.open'' membership db = Inr (r, c)"
    "register_operational db r" "\<not> register_open db (cr_id r)"
    "\<not> list_ex (\<lambda>s. sh_business s = biz_id business \<and> sh_cashier s = u \<and> sh_status s = SH_OPEN) (shifts db)"
    "upk cashier = Some u" "cash = Cash amount"
    "s = \<lparr>sh_id = next_pk sh_id (shifts db), sh_business = biz_id business, sh_register = cr_id r,
      sh_branch = cr_branch r, sh_cashier = u, sh_status = SH_OPEN, sh_opened_at = clock db,
      sh_opening_cash = money amount, sh_opening_notes = notes, sh_closed_at = None, sh_expected_cash = 0,
      sh_actual_cash = None, sh_difference = 0, sh_closing_notes = [], sh_approved_by = None,
      sh_reopened_count = 0\<rparr>"
    "db' = log_audit ''shift.opened'' ''registers'' (''Shift opened on '' @ cr_name r)
      (db\<lparr>shifts := shifts db @ [s]\<rparr>)"
  using assms
  by (auto simp: open_shift_def Let_def result_simps cash_decimal_def split: if_splits option.splits cash_input.splits)

lemma open_shift_desk:
  assumes "open_shift ord business i cashier cash notes membership db = Inr db'" and "desk_inv db"
  shows "desk_inv db'"
proof -
  from assms(1) obtain r c amount u s where r: "locked_register_for_write ord business i cashier ''shifts.open'' membership db = Inr (r, c)"
    and op: "register_operational db r" "\<not> register_open db (cr_id r)"
    and s: "s = \<lparr>sh_id = next_pk sh_id (shifts db), sh_business = biz_id business, sh_register = cr_id r,
      sh_branch = cr_branch r, sh_cashier = u, sh_status = SH_OPEN, sh_opened_at = clock db,
      sh_opening_cash = money amount, sh_opening_notes = notes, sh_closed_at = None, sh_expected_cash = 0,
      sh_actual_cash = None, sh_difference = 0, sh_closing_notes = [], sh_approved_by = None,
      sh_reopened_count = 0\<rparr>"
    and db': "db' = log_audit ''shift.opened'' ''registers'' (''Shift opened on '' @ cr_name r)
      (db\<lparr>shifts := shifts db @ [s]\<rparr>)"
    by (rule open_shift_Inr)
  have "desk_ok (registers db) (shifts db @ [s])"
    using assms(2) op locked_register_Inr(1)[OF r]
    by (intro desk_add_shift) (auto simp: s desk_inv_def shift_settled_def register_open_def register_operational_def)
  then show ?thesis by (simp add: db' desk_inv_def)
qed

lemma closed_shift_settled:
  assumes "column_fits (money x)" and "column_fits (sh_expected_cash (closed_shift db s x notes))"
  shows "shift_settled (closed_shift db s x notes)"
  using money_dsub_near[OF assms] by (simp add: shift_settled_def closed_shift_def Let_def)

lemma log_audit_tables [simp]:
  "sales (log_audit a m d db) = sales db" "levels (log_audit a m d db) = levels db"
  "customers (log_audit a m d db) = customers db"
  by (simp_all add: log_audit_def)

lemma notify_role_tables [simp]:
  "sales (notify_role b perm k db) = sales db" "levels (notify_role b perm k db) = levels db"
  "customers (notify_role b perm k db) = customers db"
  by (simp_all add: notify_role_def)

lemma close_shift_Inr:
  assumes "close_shift ord business i cash user notes membership db = Inr db'"
  shows "\<exists>s c x. locked_shift_for_write ord business i user ''shifts.close'' membership db = Inr (s, c)
    \<and> sh_status s = SH_OPEN \<and> cash = Cash x
    \<and> column_fits (money x) \<and> column_fits (sh_expected_cash (closed_shift db s x notes))
    \<and> registers db' = registers db \<and> shifts db' = save_row sh_id (closed_shift db s x notes) (shifts db)
    \<and> sales db' = sales db \<and> levels db' = levels db \<and> customers db' = customers db"
proof -
  from assms obtain s c where s: "locked_shift_for_write ord business i user ''shifts.close'' membership db = Inr (s, c)"
    unfolding close_shift_def ebind_eq_Inr by auto
  from assms have op: "sh_status s = SH_OPEN" unfolding close_shift_def s ebind_Inr prod.case by (simp split: if_splits)
  from assms op obtain x where x: "cash_decimal cash ''actual cash amount'' = Inr x"
    unfolding close_shift_def s ebind_Inr prod.case by (auto simp: ebind_eq_Inr split: if_splits)
  then have cash: "cash = Cash x" by (simp add: cash_decimal_def split: cash_input.splits)
  have fits: "column_fits (money x)" "column_fits (sh_expected_cash (closed_shift db s x notes))"
    using assms unfolding close_shift_def s ebind_Inr prod.case x by (simp_all add: Let_def split: if_splits)
  have "registers db' = registers db \<and> shifts db' = save_row sh_id (closed_shift db s x notes) (shifts db)
    \<and> sales db' = sales db \<and> levels db' = levels db \<and> customers db' = customers db"
    using assms unfolding close_shift_def s ebind_Inr prod.case x Let_def by (simp split: if_splits) (auto split: if_splits)
  with s op cash fits show ?thesis by blast
qed

lemma close_shift_desk:
  assumes "close_shift ord business i cash user notes membership db = Inr db'" and "desk_inv db"
  shows "desk_inv db'"
proof -
  from assms(1) obtain s c x where s: "column_fits (money x)"
      "column_fits (sh_expected_cash (closed_shift db s x notes))"
    and db': "registers db' = registers db" "shifts db' = save_row sh_id (closed_shift db s x notes) (shifts db)"
    by (blast dest: close_shift_Inr)
  have "desk_ok (registers db) (save_row sh_id (closed_shift db s x notes) (shifts db))"
    by (rule desk_save_shift[OF _ closed_shift_settled[OF s]])
      (use assms(2) in \<open>simp_all add: desk_inv_def closed_shift_def Let_def\<close>)
  then show ?thesis by (simp add: desk_inv_def db')
qed

lemma approve_shift_desk:
  assumes "approve_shift ord business i user membership db = Inr db'" and "desk_inv db"
  shows "desk_inv db'"
proof -
  from assms(1) obtain s c where s: "locked_shift_for_write ord business i user ''shifts.approve'' membership db = Inr (s, c)"
    and closed: "sh_status s = SH_CLOSED"
    and db': "db' = log_audit ''shift.approved'' ''registers'' ''Shift approved.''
      (db\<lparr>shifts := save_row sh_id (s\<lparr>sh_status := SH_APPROVED, sh_approved_by := upk user\<rparr>) (shifts db)\<rparr>)"
    by (auto simp: approve_shift_def result_simps split: if_splits)
  have "shift_settled s"
    using assms(2) locked_shift_Inr(1)[OF s] by (auto simp: desk_inv_def dest: desk_okE(5))
  then show ?thesis
    using assms(2) closed
    by (auto simp: db' desk_inv_def shift_settled_def split: option.splits intro!: desk_save_shift)
qed

lemma reopen_shift_desk:
  assumes "reopen_shift ord business i user membership db = Inr db'" and "desk_inv db"
  shows "desk_inv db'"
proof -
  from assms(1) obtain s r where db': "db' = log_audit ''shift.reopened'' ''registers'' ''Shift reopened.''
      (db\<lparr>shifts := save_row sh_id (s\<lparr>sh_status := SH_OPEN, sh_closed_at := None,
         sh_reopened_count := Suc (sh_reopened_count s)\<rparr>) (shifts db)\<rparr>)"
    and r: "row_by cr_id (sh_register s) (registers db) = Some r" "cr_active r"
    and free: "\<not> register_open db (sh_register s)"
    by (auto simp: reopen_shift_def result_simps register_operational_def split: if_splits option.splits)
  show ?thesis
    using assms(2) free row_by_Some[OF r(1)] r(2)
    by (auto simp: db' desk_inv_def register_open_def shift_settled_def intro!: desk_save_shift)
qed

lemma archive_register_desk:
  "archive_register ord business i user membership db = Inr db' \<Longrightarrow> desk_inv db \<Longrightarrow> desk_inv db'"
  by (auto simp: archive_register_def result_simps desk_inv_def register_open_def
      dest!: locked_register_Inr(1) split: if_splits intro!: desk_save_register)

lemma reactivate_register_desk:
  "reactivate_register ord cal business i user membership db = Inr db' \<Longrightarrow> desk_inv db \<Longrightarrow> desk_inv db'"
  by (auto simp: reactivate_register_def result_simps desk_inv_def
      dest!: locked_register_Inr(1) split: if_splits option.splits intro!: desk_save_register)

lemma delete_register_desk:
  assumes "delete_register_if_safe ord business i user membership db = Inr db'" and "desk_inv db"
  shows "desk_inv db'"
proof -
  from assms(1) obtain r c where r: "locked_register_for_write ord business i user ''registers.manage'' membership db = Inr (r, c)"
    by (auto simp: delete_register_if_safe_def result_simps)
  from assms(1) have free: "\<not> list_ex (\<lambda>s. sh_register s = cr_id r) (shifts db)"
    and db': "db' = log_audit ''register.deleted'' ''registers''
      (''Unused register '' @ cr_code r @ '' ('' @ cr_name r @ '') permanently deleted.'')
      (db\<lparr>registers := filter (\<lambda>x. cr_id x \<noteq> cr_id r) (registers db)\<rparr>)"
    by (auto simp: delete_register_if_safe_def r result_simps split: if_splits)
  have ok: "desk_ok (registers db) (shifts db)" using assms(2) by (simp add: desk_inv_def)
  have "desk_ok (filter (\<lambda>x. cr_id x \<noteq> cr_id r) (registers db)) (shifts db)"
  proof (rule desk_registers[OF ok])
    show "distinct (map cr_id (filter (\<lambda>x. cr_id x \<noteq> cr_id r) (registers db)))"
      by (rule distinct_map_filter[OF desk_okE(1)[OF ok]])
    show "\<exists>y \<in> set (filter (\<lambda>x. cr_id x \<noteq> cr_id r) (registers db)). cr_id y = sh_register s \<and> cr_active y"
      if "s \<in> set (shifts db)" "x \<in> set (registers db)" "cr_id x = sh_register s" "cr_active x" for s x
      using that free by (intro bexI[of _ x]) (auto simp: list_ex_iff)
  qed
  then show ?thesis by (simp add: db' desk_inv_def)
qed

lemma store_register_desk:
  assumes "store_register r db = Inr db'" and "desk_inv db"
    and "\<And>x. x \<in> set (registers db) \<Longrightarrow> cr_id x = cr_id r \<Longrightarrow> cr_active x \<Longrightarrow> cr_active r"
  shows "desk_inv db'"
proof -
  have ok: "desk_ok (registers db) (shifts db)" using assms(2) by (simp add: desk_inv_def)
  have db': "db' = db\<lparr>registers := (if cr_id r \<in> cr_id ` set (registers db) then save_row cr_id r (registers db)
      else registers db @ [r])\<rparr>"
    using assms(1) by (auto simp: store_register_def split: if_splits)
  have "desk_ok (if cr_id r \<in> cr_id ` set (registers db) then save_row cr_id r (registers db)
      else registers db @ [r]) (shifts db)"
  proof (rule desk_registers[OF ok])
    fix s x
    assume x: "x \<in> set (registers db)" "cr_id x = sh_register s" "cr_active x"
    show "\<exists>y \<in> set (if cr_id r \<in> cr_id ` set (registers db) then save_row cr_id r (registers db)
        else registers db @ [r]). cr_id y = sh_register s \<and> cr_active y"
      using x assms(3)[of x] set_save_row_eq[of cr_id r "registers db"] by (cases "cr_id x = cr_id r") auto
  qed (use desk_okE(1)[OF ok] in auto)
  then show ?thesis by (simp add: db' desk_inv_def)
qed

lemma save_register_desk:
  assumes "save_register ord f business user membership db = Inr db'" and "desk_inv db"
  shows "desk_inv db'"
proof -
  have distinct: "distinct (map cr_id (registers db))" using assms(2) by (auto simp: desk_inv_def dest: desk_okE(1))
  have "\<exists>r. store_register r db = Inr db' \<and> (cr_id r \<notin> cr_id ` set (registers db)
      \<or> (\<exists>x \<in> set (registers db). cr_id x = cr_id r \<and> cr_active x = cr_active r))"
    using assms(1) next_pk_fresh[of cr_id "registers db"]
    by (fastforce simp: save_register_def Let_def result_simps deny_pos_scope_Inl find_register_def
        dest!: find_Some_mem split: if_splits option.splits)
  then obtain r where r: "store_register r db = Inr db'" "cr_id r \<notin> cr_id ` set (registers db)
      \<or> (\<exists>x \<in> set (registers db). cr_id x = cr_id r \<and> cr_active x = cr_active r)" by blast
  show ?thesis
  proof (rule store_register_desk[OF r(1) assms(2)])
    fix x
    assume x: "x \<in> set (registers db)" "cr_id x = cr_id r" "cr_active x"
    then have "cr_id r \<in> cr_id ` set (registers db)" by (metis imageI)
    then obtain y where y: "y \<in> set (registers db)" "cr_id y = cr_id r" "cr_active y = cr_active r"
      using r(2) by blast
    have "x = y" using same_row[OF distinct x(1) y(1)] x(2) y(2) by simp
    then show "cr_active r" using x(3) y(3) by simp
  qed
qed

section \<open>Runs of operations\<close>

inductive desk_run ::
    "(string list \<Rightarrow> string list) \<Rightarrow> calendar \<Rightarrow> 'a pos_db_scheme \<Rightarrow> 'a pos_db_scheme \<Rightarrow> bool"
  for ord cal db where
  start: "desk_run ord cal db db"
| opened: "desk_run ord cal db u \<Longrightarrow> open_shift ord b i w cash n m u = Inr v \<Longrightarrow> desk_run ord cal db v"
| closed: "desk_run ord cal db u \<Longrightarrow> close_shift ord b i cash w n m u = Inr v \<Longrightarrow> desk_run ord cal db v"
| approved: "desk_run ord cal db u \<Longrightarrow> approve_shift ord b i w m u = Inr v \<Longrightarrow> desk_run ord cal db v"
| reopened: "desk_run ord cal db u \<Longrightarrow> reopen_shift ord b i w m u = Inr v \<Longrightarrow> desk_run ord cal db v"
| saved: "desk_run ord cal db u \<Longrightarrow> save_register ord f b w m u = Inr v \<Longrightarrow> desk_run ord cal db v"
| archived: "desk_run ord cal db u \<Longrightarrow> archive_register ord b i w m u = Inr v \<Longrightarrow> desk_run ord cal db v"
| reactivated: "desk_run ord cal db u \<Longrightarrow> reactivate_register ord cal b i w m u = Inr v \<Longrightarrow> desk_run ord cal db v"
| deleted: "desk_run ord cal db u \<Longrightarrow> delete_register_if_safe ord b i w m u = Inr v \<Longrightarrow> desk_run ord cal db v"

lemmas desk_steps = open_shift_desk close_shift_desk approve_shift_desk reopen_shift_desk
  save_register_desk archive_register_desk reactivate_register_desk delete_register_desk

lemma desk_run_inv: "desk_run ord cal db v \<Longrightarrow> desk_inv db \<Longrightarrow> desk_inv v"
  by (induction rule: desk_run.induct) (auto intro: desk_steps)

text \<open>C29: whatever sequence of operations opens, closes, approves and reopens shifts and saves,
  archives, reactivates and deletes registers: a register never has two open shifts, an archived or
  deleted register never has an open one, and every shift that is not open has a closing time, a
  counted amount and the difference of what was counted and what was expected, to the thousandth
  that rounding the two columns separately can make.\<close>

theorem desk_run_invariant:
  assumes "desk_run ord cal db v" and "desk_inv db"
  shows "distinct (map sh_id (shifts v))
    \<and> (\<forall>s \<in> set (shifts v). \<forall>t \<in> set (shifts v). sh_status s = SH_OPEN \<and> sh_status t = SH_OPEN
        \<and> sh_register s = sh_register t \<longrightarrow> s = t)
    \<and> (\<forall>s \<in> set (shifts v). sh_status s = SH_OPEN \<longrightarrow> register_active_row v (sh_register s))
    \<and> (\<forall>s \<in> set (shifts v). sh_status s \<noteq> SH_OPEN \<longrightarrow> sh_closed_at s \<noteq> None
        \<and> (\<exists>a. sh_actual_cash s = Some a \<and> \<bar>sh_difference s - (a - sh_expected_cash s)\<bar> \<le> 1))"
proof -
  have ok: "desk_ok (registers v) (shifts v)"
    using desk_run_inv[OF assms] by (simp add: desk_inv_def)
  note e = desk_okE[OF ok]
  have "register_active_row v (sh_register s)" if s: "s \<in> set (shifts v)" "sh_status s = SH_OPEN" for s
  proof -
    obtain r where r: "r \<in> set (registers v)" "cr_id r = sh_register s" "cr_active r"
      using e(4)[OF s] by blast
    obtain x where x: "row_by cr_id (sh_register s) (registers v) = Some x"
      using imageI[OF r(1), of cr_id] r(2)
      by (cases "row_by cr_id (sh_register s) (registers v)") (auto simp: row_by_None)
    then have "x = r" using row_by_Some[OF x] r same_row[OF e(1)] by simp
    then show ?thesis using x r(3) by (simp add: register_active_row_def)
  qed
  moreover have "s = t" if "s \<in> set (shifts v)" "t \<in> set (shifts v)" "sh_status s = SH_OPEN"
    "sh_status t = SH_OPEN" "sh_register s = sh_register t" for s t
    using same_row[OF e(2) that(1,2)] e(3)[OF that] by simp
  moreover have "sh_closed_at s \<noteq> None
      \<and> (\<exists>a. sh_actual_cash s = Some a \<and> \<bar>sh_difference s - (a - sh_expected_cash s)\<bar> \<le> 1)"
    if "s \<in> set (shifts v)" "sh_status s \<noteq> SH_OPEN" for s
    using e(5)[OF that(1)] that(2) by (auto simp: shift_settled_def split: option.splits)
  ultimately show ?thesis using e(2) by blast
qed

text \<open>C30: closing an open shift stores what was counted, rounded half up to the thousandths of its
  column, and as expected cash the opening float, the
  cash payments of the shift's sales that are not voided, and the cash collected on accounts, less the
  cash refunded and the cash spent; the difference is the counted amount as entered minus the expected
  cash, rounded on its own: it is exact when the count has at most three decimals and otherwise at most
  a thousandth off the difference of the stored columns.  Of the sales, stock, customers and shifts
  nothing but this shift changes.\<close>

theorem close_shift_figures:
  assumes "close_shift ord business i (Cash x) user notes membership db = Inr db'"
  shows "\<exists>s s'. find_shift db (biz_id business) i = Some s \<and> shifts db' = save_row sh_id s' (shifts db)
    \<and> sh_id s' = sh_id s \<and> sh_status s = SH_OPEN \<and> sh_status s' = SH_CLOSED
    \<and> sh_actual_cash s' = Some (money x) \<and> sh_difference s' = money (dsub x (dec (sh_expected_cash s')))
    \<and> \<bar>sh_difference s' - (money x - sh_expected_cash s')\<bar> \<le> 1
    \<and> (\<forall>m. x = dec m \<longrightarrow> sh_actual_cash s' = Some m \<and> sh_difference s' = m - sh_expected_cash s')
    \<and> sh_expected_cash s' = sh_opening_cash s
        + (\<Sum>p \<leftarrow> filter (\<lambda>p. pm_kind (sp_method p) = CASH) (shift_payments db s). sp_amount p)
        + rows_total (\<lambda>k. k = Some CASH) (map (\<lambda>p. (map_option pm_kind (cpay_method p), cpay_amount p))
            (filter (\<lambda>p. cpay_business p = sh_business s \<and> cpay_shift p = Some (sh_id s) \<and> cpay_kind p = COLLECTION)
              (customer_payments db)))
        - (\<Sum>r \<leftarrow> filter (\<lambda>r. refund_to_tender_kind (sr_refund_method r) = CASH) (shift_returns db s). sr_refund_amount r)
        - shift_cash_expenses db s
    \<and> sales db' = sales db \<and> levels db' = levels db \<and> customers db' = customers db"
proof -
  from assms obtain s c where s: "locked_shift_for_write ord business i user ''shifts.close'' membership db = Inr (s, c)"
    and op: "sh_status s = SH_OPEN"
    and fits: "column_fits (money x)" "column_fits (sh_expected_cash (closed_shift db s x notes))"
    and db': "shifts db' = save_row sh_id (closed_shift db s x notes) (shifts db)"
      "sales db' = sales db" "levels db' = levels db" "customers db' = customers db"
    using close_shift_Inr[OF assms] by blast
  note near = money_dsub_near[OF fits]
  have exact: "money (dsub x (dec (sh_expected_cash (closed_shift db s x notes))))
      = m - sh_expected_cash (closed_shift db s x notes)" if "x = dec m" for m
    using money_dsub_exact[OF _ fits(2)] fits(1) that by simp
  have "(case map_of (shift_collections db s) (Some CASH) of Some v \<Rightarrow> v | None \<Rightarrow> 0)
    = rows_total (\<lambda>k. k = Some CASH) (map (\<lambda>p. (map_option pm_kind (cpay_method p), cpay_amount p))
        (filter (\<lambda>p. cpay_business p = sh_business s \<and> cpay_shift p = Some (sh_id s) \<and> cpay_kind p = COLLECTION)
          (customer_payments db)))"
    unfolding shift_collections_def by (rule lookup_sum_by_key)
  then have "sf_expected_cash (shift_totals db s) = sh_opening_cash s
        + (\<Sum>p \<leftarrow> filter (\<lambda>p. pm_kind (sp_method p) = CASH) (shift_payments db s). sp_amount p)
        + rows_total (\<lambda>k. k = Some CASH) (map (\<lambda>p. (map_option pm_kind (cpay_method p), cpay_amount p))
            (filter (\<lambda>p. cpay_business p = sh_business s \<and> cpay_shift p = Some (sh_id s) \<and> cpay_kind p = COLLECTION)
              (customer_payments db)))
        - (\<Sum>r \<leftarrow> filter (\<lambda>r. refund_to_tender_kind (sr_refund_method r) = CASH) (shift_returns db s). sr_refund_amount r)
        - shift_cash_expenses db s"
    by (simp add: shift_totals_def Let_def tender_summary_from_querysets_def tender_summary_eq
        tender_refunded_def rows_total_sum_by_key payment_rows_total refund_rows_total)
  then show ?thesis
    using locked_shift_Inr(4)[OF s] op db' near exact
    by (intro exI[of _ s] exI[of _ "closed_shift db s x notes"]) (simp add: closed_shift_def Let_def)
qed

section \<open>Witnesses\<close>

definition sample_register :: cash_register where
  "sample_register = \<lparr>cr_id = 1, cr_business = 1, cr_name = ''Main'', cr_code = ''REG1'', cr_branch = 1,
     cr_printer = ''80mm'', cr_active = True\<rparr>"

definition sample_cash :: payment_method where
  "sample_cash = \<lparr>pm_id = 1, pm_business = 1, pm_name = ''Cash'', pm_kind = CASH, pm_active = True\<rparr>"

definition sample_customer :: customer where
  "sample_customer = \<lparr>cu_id = 4, cu_business = 1, cu_home_branch = Some 1, cu_code = ''C4'', cu_name = ''Ann'',
     cu_contact = \<lparr>cn_mobile = [], cn_whatsapp = [], cn_email = [], cn_address = [], cn_city = [], cn_country = [],
       cn_tax_number = [], cn_notes = []\<rparr>,
     cu_group = None, cu_more_options = [], cu_credit_limit = 0, cu_opening_balance = 0, cu_balance = 0, cu_store_credit = 0,
     cu_walk_in = False, cu_active = True\<rparr>"

definition sample_pos :: pos_db where
  "sample_pos = workflow_db.extend sample_workflows
     \<lparr>customer_groups = [], customers = [sample_customer], family_members = [], customer_payments = [],
      payment_methods = [sample_cash], sales = [], sale_items = [], sale_payments = [],
      sale_returns = [], return_items = [], invoice_sequences = [], held_sales = [],
      registers = [sample_register], shifts = [], expenses = [], suppliers = []\<rparr>"

definition sample_calendar :: calendar where
  "sample_calendar = \<lparr>utc_month = (\<lambda>_. (2026, 1)), local_month = (\<lambda>_. (2026, 1)), business_date = (\<lambda>_ t. t div day)\<rparr>"

definition sample_open :: "err + pos_db" where
  "sample_open = open_shift (\<lambda>xs. xs) sample_business 1 (Some sample_user) (Cash 5) [] None sample_pos"

definition sample_closed :: "err + pos_db" where
  "sample_closed = ebind sample_open
     (close_shift (\<lambda>xs. xs) sample_business 1 (Cash (9 / 2)) (Some sample_user) [] None)"

lemma sample_desk: "desk_inv sample_pos"
  by (simp add: desk_inv_def desk_ok_def sample_pos_def workflow_db.extend_def)

lemma sample_closed_ok:
  "case sample_closed of Inl _ \<Rightarrow> False
   | Inr v \<Rightarrow> map sh_status (shifts v) = [SH_CLOSED] \<and> map sh_difference (shifts v) = [- 500]"
  by code_simp

lemma sample_closed_run:
  obtains u v where "sample_open = Inr u" "sample_closed = Inr v"
    "close_shift (\<lambda>xs. xs) sample_business 1 (Cash (9 / 2)) (Some sample_user) [] None u = Inr v"
    "map sh_status (shifts v) = [SH_CLOSED]" "map sh_difference (shifts v) = [- 500]"
proof -
  obtain v where v: "sample_closed = Inr v" "map sh_status (shifts v) = [SH_CLOSED]"
    "map sh_difference (shifts v) = [- 500]"
    using sample_closed_ok by (auto simp del: map_eq_Cons_conv split: sum.splits)
  from v(1) obtain u where "sample_open = Inr u"
    "close_shift (\<lambda>xs. xs) sample_business 1 (Cash (9 / 2)) (Some sample_user) [] None u = Inr v"
    unfolding sample_closed_def result_simps by blast
  then show thesis by (rule that[OF _ v(1) _ v(2,3)])
qed

theorem desk_run_invariant_witness:
  "\<exists>v. sample_closed = Inr v \<and> map sh_status (shifts v) = [SH_CLOSED] \<and> distinct (map sh_id (shifts v))"
proof -
  obtain u v where u: "sample_open = Inr u" and v: "sample_closed = Inr v"
    and close: "close_shift (\<lambda>xs. xs) sample_business 1 (Cash (9 / 2)) (Some sample_user) [] None u = Inr v"
    and status: "map sh_status (shifts v) = [SH_CLOSED]"
    by (rule sample_closed_run)
  have "desk_run (\<lambda>xs. xs) sample_calendar sample_pos u"
    by (rule desk_run.opened[OF desk_run.start u[unfolded sample_open_def]])
  then have "desk_run (\<lambda>xs. xs) sample_calendar sample_pos v" by (rule desk_run.closed[OF _ close])
  from desk_run_invariant[OF this sample_desk] have "distinct (map sh_id (shifts v))" by (rule conjunct1)
  then show ?thesis using v status by (intro exI[of _ v] conjI)
qed

lemma sample_money: "money (9 / 2) = 4500"
  using money_dec[of 4500] by (simp add: dec_def)

theorem close_shift_figures_witness:
  "\<exists>v s'. sample_closed = Inr v \<and> s' \<in> set (shifts v) \<and> sh_actual_cash s' = Some 4500 \<and> sh_status s' = SH_CLOSED"
proof -
  obtain u v where uv: "sample_closed = Inr v"
    "close_shift (\<lambda>xs. xs) sample_business 1 (Cash (9 / 2)) (Some sample_user) [] None u = Inr v"
    by (rule sample_closed_run)
  from close_shift_figures[OF uv(2), unfolded sample_money] obtain s s' where s: "find_shift u (biz_id sample_business) 1 = Some s"
    "shifts v = save_row sh_id s' (shifts u)" "sh_id s' = sh_id s" "sh_actual_cash s' = Some 4500"
    "sh_status s' = SH_CLOSED"
    by blast
  have "s \<in> set (shifts u)" using s(1) by (auto simp: find_shift_def dest: find_Some_mem)
  then have "s' \<in> set (shifts v)" using s(2,3) set_save_row_eq[of sh_id s' "shifts u"] by auto
  then show ?thesis using uv(1) s(4,5) by blast
qed

end
