(* ===== verification/Checkout_Laws.thy ===== *)
theory Checkout_Laws
  imports Checkout Register_Shifts
begin

text \<open>
  What a completed sale does to the database: the money it settles, the stock it takes and the
  rows it adds, and that a repeated checkout token changes nothing.
\<close>

section \<open>Access depends on the core tables only\<close>

lemma truncate_fields [simp]:
  "clock (core_db.truncate db) = clock db" "memberships (core_db.truncate db) = memberships db"
  "subscriptions (core_db.truncate db) = subscriptions db" "expiry_mode (core_db.truncate db) = expiry_mode db"
  "branches (core_db.truncate db) = branches db" "warehouses (core_db.truncate db) = warehouses db"
  by (simp_all add: core_db.defs)

lemma subscription_core:
  "subscription_of (core_db.truncate db) b = subscription_of db b"
  "load_subscription (core_db.truncate db) rq bus = load_subscription db rq bus"
  "subscription_mode (core_db.truncate db) s = subscription_mode db s"
  unfolding subscription_of_def load_subscription_def subscription_mode_def truncate_fields by (rule refl)+

lemma context_core: "context_for ord (core_db.truncate db) b m s = context_for ord db b m s"
  unfolding context_for_def subscription_core by (rule refl)

lemma access_core:
  "require_actor_access ord (core_db.truncate db) user business key perm action m scope
     = require_actor_access ord db user business key perm action m scope"
  unfolding require_actor_access_def evaluate_actor_access_def resolve_actor_membership_def
    matching_memberships_def evaluate_access_def get_access_context_def compute_context_def context_core
    subscription_core truncate_fields
  by (rule refl)

lemma truncate_updates [simp]:
  "core_db.truncate (db\<lparr>sales := ss\<rparr>) = core_db.truncate db" "core_db.truncate (db\<lparr>sale_items := its\<rparr>) = core_db.truncate db"
  "core_db.truncate (db\<lparr>sale_payments := ps\<rparr>) = core_db.truncate db" "core_db.truncate (db\<lparr>customers := cs\<rparr>) = core_db.truncate db"
  by (simp_all add: core_db.defs)

lemma access_same_core:
  "core_db.truncate db' = core_db.truncate db \<Longrightarrow>
     require_actor_access ord db' user business key perm action m scope
       = require_actor_access ord db user business key perm action m scope"
  by (metis access_core)

section \<open>Payments\<close>

lemma recorded_zero: "recorded_payments 0 ps = ps"
  by (induction ps) simp_all

lemma recorded_same:
  "\<lbrakk>\<forall>p \<in> set ps. 0 < cp_amount p; 0 \<le> change\<rbrakk> \<Longrightarrow>
     (\<Sum>p \<leftarrow> ps. cp_amount p) - change \<le> (\<Sum>p \<leftarrow> recorded_payments change ps. cp_amount p)"
  by (induction change ps rule: recorded_payments.induct) (auto simp: recorded_zero)

lemma recorded_kind:
  "k \<noteq> CASH \<Longrightarrow> filter (\<lambda>p. pm_kind (cp_method p) = k) (recorded_payments change ps)
     = filter (\<lambda>p. pm_kind (cp_method p) = k) ps"
  by (induction change ps rule: recorded_payments.induct) (auto simp: recorded_zero)

lemma recorded_not_cash:
  "filter (\<lambda>p. pm_kind (cp_method p) \<noteq> CASH) (recorded_payments change ps) = filter (\<lambda>p. pm_kind (cp_method p) \<noteq> CASH) ps"
  by (induction change ps rule: recorded_payments.induct) (auto simp: recorded_zero)

definition is_cash :: "payment_method clean_payment \<Rightarrow> bool" where
  "is_cash p = (pm_kind (cp_method p) = CASH)"

lemma recorded_single_cash:
  "\<lbrakk>length (filter is_cash ps) \<le> 1; 0 \<le> change; change \<le> (\<Sum>p \<leftarrow> filter is_cash ps. cp_amount p)\<rbrakk> \<Longrightarrow>
     (\<Sum>p \<leftarrow> recorded_payments change ps. cp_amount p) = (\<Sum>p \<leftarrow> ps. cp_amount p) - change"
proof (induction change ps rule: recorded_payments.induct)
  case (2 change p ps)
  show ?case
  proof (cases "is_cash p \<and> 0 < change")
    case True
    then have "filter is_cash ps = []" using 2(4) by simp
    then have "change \<le> cp_amount p" using 2(6) True by simp
    then show ?thesis using True by (auto simp: is_cash_def recorded_zero)
  next
    case False
    then have ih: "change \<le> (\<Sum>p \<leftarrow> filter is_cash ps. cp_amount p)
        \<Longrightarrow> (\<Sum>p \<leftarrow> recorded_payments change ps. cp_amount p) = (\<Sum>p \<leftarrow> ps. cp_amount p) - change"
      using 2 by (auto simp: is_cash_def split: if_splits)
    have keep: "recorded_payments change (p # ps) = p # recorded_payments change ps"
      using False by (auto simp: is_cash_def)
    show ?thesis
    proof (cases "is_cash p")
      case True
      then have "change = 0" using False 2(5) by simp
      then show ?thesis by (simp add: recorded_zero)
    next
      case nocash: False
      then show ?thesis using ih 2(6) unfolding keep by simp
    qed
  qed
qed simp

section \<open>A line\<close>

text \<open>The stock that a stored item holds, at the keys in \<open>P\<close>.\<close>

definition taken :: "(stock_key \<Rightarrow> bool) \<Rightarrow> sale_item \<Rightarrow> milli" where
  "taken P it =
     (case si_warehouse it of
        Some w \<Rightarrow> if P (si_business it, w, si_product it, si_variant it) then inventory_quantity it else 0
      | None \<Rightarrow> 0)"

definition taken_by :: "(stock_key \<Rightarrow> bool) \<Rightarrow> sale_item list \<Rightarrow> milli" where
  "taken_by P its = (\<Sum>it \<leftarrow> its. taken P it)"

declare qty_minus [simp]

lemma line_stock_Inr:
  assumes "line_stock db b w n parts = Inr (sw, unit_cost, quantity)"
  shows "(sw = None) = nl_customer_fabric n"
    "\<not> nl_customer_fabric n \<Longrightarrow>
       quantity = (case ga_meter (nl_garment n) of Some m \<Rightarrow> dec m | None \<Rightarrow> lp_quantity parts)"
  using assms by (auto simp: line_stock_def Let_def result_simps split: if_splits)

lemma line_stock_place:
  assumes "line_stock db b w n parts = Inr (found, unit_cost, quantity)" and "found = Some sw"
  shows "stock_warehouse_for_sale_product db b w (cl_product (nl_cart n)) = Inr sw"
  using assms by (auto simp: line_stock_def Let_def result_simps split: if_splits)

text \<open>Everything but levels, movements, notifications and items is left alone by a line.\<close>

definition same_but_stock :: "'a pos_db_scheme \<Rightarrow> 'a pos_db_scheme \<Rightarrow> bool" where
  "same_but_stock db db' =
     (\<exists>ls ms ns its. db' = db\<lparr>levels := ls, movements := ms, notifications := ns, sale_items := its\<rparr>)"

lemma same_but_stock_refl: "same_but_stock db db"
  unfolding same_but_stock_def
  by (intro exI[of _ "levels db"] exI[of _ "movements db"] exI[of _ "notifications db"] exI[of _ "sale_items db"]) simp

lemma same_but_stock_trans: "same_but_stock a b \<Longrightarrow> same_but_stock b c \<Longrightarrow> same_but_stock a c"
  by (force simp: same_but_stock_def)

lemma same_but_stock_items: "same_but_stock db (db\<lparr>sale_items := its\<rparr>)"
  unfolding same_but_stock_def
  by (intro exI[of _ "levels db"] exI[of _ "movements db"] exI[of _ "notifications db"] exI[of _ its]) simp

text \<open>Only opening and purchase movements touch a cost, so a sale and its return leave the catalog alone.\<close>

lemma movement_catalog:
  assumes "record_movement business w p v a db = Inr db'" and "ma_type a \<noteq> OPENING" and "ma_type a \<noteq> PURCHASE"
  shows "products db' = products db \<and> variants db' = variants db"
proof -
  obtain p' v' q n where "db' = write_movement business w p' v' a q n db"
    using record_movement_elim[OF assms(1)] by metis
  then show ?thesis using assms(2,3) by (simp add: write_movement_def low_stock_alert_def Let_def)
qed

lemma same_but_stock_move:
  fixes db :: "'a pos_db_scheme"
  assumes "record_movement business w p v a db = Inr db'" and "ma_type a \<noteq> OPENING" and "ma_type a \<noteq> PURCHASE"
  shows "same_but_stock db db' \<and> sale_items db' = sale_items db"
proof -
  obtain ps vs ls ms ns where "db' = db\<lparr>products := ps, variants := vs, levels := ls, movements := ms,
    notifications := ns\<rparr>"
    using record_movement_frame[OF assms(1)] by blast
  with movement_catalog[OF assms] have "db' = db\<lparr>levels := ls, movements := ms, notifications := ns\<rparr>" by simp
  then show ?thesis unfolding same_but_stock_def
    by (intro conjI exI[of _ ls] exI[of _ ms] exI[of _ ns] exI[of _ "sale_items db"]) simp_all
qed

lemma same_but_stockD:
  assumes "same_but_stock db db'"
  shows "core_db.truncate db' = core_db.truncate db" "clock db' = clock db" "customers db' = customers db"
    "sales db' = sales db" "sale_payments db' = sale_payments db" "payment_methods db' = payment_methods db"
    "registers db' = registers db" "shifts db' = shifts db" "sale_returns db' = sale_returns db"
    "return_items db' = return_items db" "invoice_sequences db' = invoice_sequences db"
    "family_members db' = family_members db" "settings_rows db' = settings_rows db"
    "branches db' = branches db" "warehouses db' = warehouses db" "memberships db' = memberships db"
    "subscriptions db' = subscriptions db" "held_sales db' = held_sales db" "customer_payments db' = customer_payments db"
    "products db' = products db" "variants db' = variants db"
  using assms by (auto simp: same_but_stock_def core_db.defs)

definition tailored :: "norm_line \<Rightarrow> bool" where
  "tailored n =
     (nl_customer_fabric n \<or> ga_meter (nl_garment n) \<noteq> None \<or> ga_estimated (nl_garment n) \<noteq> None
      \<or> ga_classification (nl_garment n) \<noteq> NoClass \<or> ga_collection (nl_garment n) \<noteq> NoCollection
      \<or> nl_details n \<noteq> [])"

text \<open>Where the stock of a product sold from a warehouse is taken.\<close>

definition stock_place :: "'a stock_db_scheme \<Rightarrow> id \<Rightarrow> warehouse \<Rightarrow> product \<Rightarrow> id option" where
  "stock_place db b w p =
     (case stock_warehouse_for_sale_product db b w p of Inr sw \<Rightarrow> Some (wh_id sw) | Inl _ \<Rightarrow> None)"

lemma stock_place_cong:
  assumes "settings_rows db' = settings_rows db" and "branches db' = branches db" and "warehouses db' = warehouses db"
  shows "stock_place db' = stock_place db"
proof (intro ext)
  show "stock_place db' b w p = stock_place db b w p" for b w p
    unfolding stock_place_def stock_warehouse_for_sale_product_def configured_shared_fabric_warehouse_def assms
    by (rule refl)
qed

text \<open>The stored item of a computed line; \<open>place\<close> tells where the stock of a product is taken.\<close>

definition item_matches :: "(product \<Rightarrow> id option) \<Rightarrow> id \<Rightarrow> id \<Rightarrow> norm_line \<times> line_parts \<Rightarrow> sale_item \<Rightarrow> bool" where
  "item_matches place b s l it =
     (case l of (n, parts) \<Rightarrow>
        si_business it = b \<and> si_sale it = s \<and> si_returned it = 0
        \<and> si_product it = prod_id (cl_product (nl_cart n))
        \<and> si_variant it = map_option var_id (cl_variant (nl_cart n))
        \<and> si_unit_price it = lp_unit_price parts \<and> si_discount it = lp_discount parts
        \<and> si_quantity it = qty (lp_quantity parts) \<and> si_line_total it = lp_total parts
        \<and> si_customer_fabric it = nl_customer_fabric n \<and> si_fabric_meter it = ga_meter (nl_garment n)
        \<and> (si_warehouse it \<noteq> None \<longleftrightarrow> \<not> nl_customer_fabric n \<and> is_stocked (cl_product (nl_cart n)))
        \<and> (nl_customer_fabric n \<or> \<not> is_stocked (cl_product (nl_cart n))
            \<or> si_warehouse it = place (cl_product (nl_cart n)))
        \<and> (is_tailoring_line it \<longrightarrow> tailored n))"

lemma post_line_effect:
  fixes db db' :: "'a pos_db_scheme"
  assumes "post_line business sale s cashier (n, parts) (db, cost) = Inr (db', cost')" and "stock_inv db"
  obtains it where "stock_inv db'" "same_but_stock db db'" "sale_items db' = sale_items db @ [it]"
    "item_matches (stock_place db (biz_id business) (cs_warehouse s)) (biz_id business) (sale_id sale) (n, parts) it" "si_id it = next_pk si_id (sale_items db)"
    "\<And>P. held_stock P db' = held_stock P db - taken P it"
proof -
  let ?p = "cl_product (nl_cart n)" and ?v = "cl_variant (nl_cart n)"
  from assms(1) obtain sw unit_cost quantity where ls:
    "line_stock db (biz_id business) (cs_warehouse s) n parts = Inr (sw, unit_cost, quantity)"
    by (auto simp: post_line_def Let_def result_simps)
  define it where "it = new_item (biz_id business) sale n parts sw unit_cost (money (dmul (dec unit_cost) quantity)) db"
  define db1 where "db1 = db\<lparr>sale_items := sale_items db @ [it]\<rparr>"
  note st = line_stock_Inr[OF ls]
  have inv1: "stock_inv db1" using assms(2) by (simp add: db1_def stock_inv_def)
  have held1: "held_stock P db1 = held_stock P db" for P by (simp add: db1_def held_stock_def)
  have same1: "same_but_stock db db1" unfolding db1_def by (rule same_but_stock_items)
  have fields: "item_matches (stock_place db (biz_id business) (cs_warehouse s)) (biz_id business) (sale_id sale) (n, parts) it" "si_id it = next_pk si_id (sale_items db)"
    using st(1) line_stock_place[OF ls]
    by (auto simp: stock_place_def item_matches_def it_def new_item_def Let_def tailored_def is_tailoring_line_def has_tailoring_details_def)
  have eq: "post_line business sale s cashier (n, parts) (db, cost)
    = (case sw of
         Some w \<Rightarrow> if is_stocked ?p
           then ebind (record_movement business w ?p ?v
                  (sale_movement sale (cs_branch s) cashier unit_cost quantity) db1)
                  (\<lambda>db2. Inr (db2, cost + money (dmul (dec unit_cost) quantity)))
           else Inr (db1, cost + money (dmul (dec unit_cost) quantity))
       | None \<Rightarrow> Inr (db1, cost + money (dmul (dec unit_cost) quantity)))"
    by (cases sw) (simp_all add: post_line_def ls Let_def db1_def it_def)
  have plain: "taken P it = 0" if "sw = None \<or> \<not> is_stocked ?p" for P
    using that by (auto simp: taken_def it_def new_item_def Let_def)
  consider (moved) w where "sw = Some w" "is_stocked ?p"
      "record_movement business w ?p ?v (sale_movement sale (cs_branch s) cashier unit_cost quantity) db1 = Inr db'"
    | (still) "db' = db1" "sw = None \<or> \<not> is_stocked ?p"
    using assms(1) unfolding eq by (auto simp: result_simps split: option.splits if_splits)
  then have "stock_inv db' \<and> same_but_stock db db' \<and> sale_items db' = sale_items db @ [it]
    \<and> (\<forall>P. held_stock P db' = held_stock P db - taken P it)"
  proof cases
    case moved
    have own: "\<not> nl_customer_fabric n" using st(1) moved(1) by simp
    have kind: "ma_type (sale_movement sale (cs_branch s) cashier unit_cost quantity) = SALE"
      by (simp add: sale_movement_def)
    have "qty quantity = inventory_quantity it"
      using st(2)[OF own] own by (auto simp: inventory_quantity_def it_def new_item_def Let_def split: option.splits)
    moreover have "movement_key business w ?p ?v = (si_business it, wh_id w, si_product it, si_variant it)"
      "si_warehouse it = Some (wh_id w)"
      using moved(1,2) by (simp_all add: movement_key_def it_def new_item_def Let_def)
    ultimately have "held_stock P db' = held_stock P db - taken P it" for P
      using record_movement_held[OF moved(3), of P] inv1 held1[of P]
      by (simp add: stock_inv_def taken_def sale_movement_def)
    moreover have "same_but_stock db1 db'" "sale_items db' = sale_items db1"
      using same_but_stock_move[OF moved(3)] kind by simp_all
    ultimately show ?thesis
      using record_movement_inv[OF moved(3) inv1] same_but_stock_trans[OF same1] by (simp add: db1_def)
  next
    case still
    then show ?thesis using inv1 held1 same1 plain by (simp add: db1_def)
  qed
  then show thesis using fields by (intro that[of it]) simp_all
qed

text \<open>What the stored items of matched lines show, column by column.\<close>

lemma matched_columns:
  assumes "list_all2 (item_matches place b s) (zip ls ps) its" and "length ps = length ls"
  shows "map si_product its = map (\<lambda>n. prod_id (cl_product (nl_cart n))) ls"
    "map si_quantity its = map (\<lambda>p. qty (lp_quantity p)) ps"
    "\<forall>it \<in> set its. si_sale it = s \<and> si_business it = b \<and> si_returned it = 0"
    "list_ex is_tailoring_line its \<Longrightarrow> list_ex tailored ls"
proof -
  have "map si_product its = map (\<lambda>l. prod_id (cl_product (nl_cart (fst l)))) (zip ls ps)
    \<and> map si_quantity its = map (\<lambda>l. qty (lp_quantity (snd l))) (zip ls ps)
    \<and> (\<forall>it \<in> set its. si_sale it = s \<and> si_business it = b \<and> si_returned it = 0)
    \<and> (list_ex is_tailoring_line its \<longrightarrow> list_ex (\<lambda>l. tailored (fst l)) (zip ls ps))"
    using assms(1) by (induction rule: list_all2_induct) (auto simp: item_matches_def)
  moreover have "map (\<lambda>l. f (fst l)) (zip ls ps) = map f ls" "map (\<lambda>l. g (snd l)) (zip ls ps) = map g ps"
    for f :: "norm_line \<Rightarrow> id" and g :: "line_parts \<Rightarrow> milli"
    using assms(2) by (induction ls ps rule: list_induct2') auto
  moreover have "list_ex (\<lambda>l. tailored (fst l)) (zip ls ps) \<Longrightarrow> list_ex tailored ls"
    by (auto simp: list_ex_iff dest: set_zip_leftD)
  ultimately show "map si_product its = map (\<lambda>n. prod_id (cl_product (nl_cart n))) ls"
    "map si_quantity its = map (\<lambda>p. qty (lp_quantity p)) ps"
    "\<forall>it \<in> set its. si_sale it = s \<and> si_business it = b \<and> si_returned it = 0"
    "list_ex is_tailoring_line its \<Longrightarrow> list_ex tailored ls"
    by auto
qed

text \<open>All lines of a sale.\<close>

lemma post_lines_effect:
  fixes db db' :: "'a pos_db_scheme"
  assumes "efold (post_line business sale s cashier) ls (db, cost) = Inr (db', cost')" and "stock_inv db"
  shows "stock_inv db' \<and> same_but_stock db db' \<and>
    (\<exists>its. sale_items db' = sale_items db @ its
       \<and> list_all2 (item_matches (stock_place db (biz_id business) (cs_warehouse s)) (biz_id business) (sale_id sale)) ls its
       \<and> (distinct (map si_id (sale_items db)) \<longrightarrow> distinct (map si_id (sale_items db')))
       \<and> (\<forall>P. held_stock P db' = held_stock P db - taken_by P its))"
  using assms
proof (induction ls arbitrary: db cost)
  case Nil
  then show ?case using same_but_stock_refl by (auto simp: taken_by_def intro!: exI[of _ "[]"])
next
  case (Cons l ls)
  obtain n parts where l: "l = (n, parts)" by (cases l)
  from Cons.prems(1) obtain u c where step: "post_line business sale s cashier (n, parts) (db, cost) = Inr (u, c)"
    and rest: "efold (post_line business sale s cashier) ls (u, c) = Inr (db', cost')"
    by (auto simp: result_simps l)
  obtain it where it: "stock_inv u" "same_but_stock db u" "sale_items u = sale_items db @ [it]"
    "item_matches (stock_place db (biz_id business) (cs_warehouse s)) (biz_id business) (sale_id sale) (n, parts) it" "si_id it = next_pk si_id (sale_items db)"
    "\<And>P. held_stock P u = held_stock P db - taken P it"
    using post_line_effect[OF step Cons.prems(2)] by metis
  have place: "stock_place u = stock_place db"
    using same_but_stockD[OF it(2)] by (intro stock_place_cong) simp_all
  obtain its where its: "stock_inv db'" "same_but_stock u db'" "sale_items db' = sale_items u @ its"
    "list_all2 (item_matches (stock_place db (biz_id business) (cs_warehouse s)) (biz_id business) (sale_id sale)) ls its"
    "distinct (map si_id (sale_items u)) \<longrightarrow> distinct (map si_id (sale_items db'))"
    "\<forall>P. held_stock P db' = held_stock P u - taken_by P its"
    using Cons.IH[OF rest it(1)] unfolding place by blast
  show ?case
  proof (intro conjI exI[of _ "it # its"])
    show "same_but_stock db db'" by (rule same_but_stock_trans[OF it(2) its(2)])
    show "distinct (map si_id (sale_items db)) \<longrightarrow> distinct (map si_id (sale_items db'))"
      using its(5) distinct_add_row[of si_id "sale_items db" it] it(3,5) by simp
    show "\<forall>P. held_stock P db' = held_stock P db - taken_by P (it # its)"
      using its(6) it(6) by (simp add: taken_by_def)
  qed (use it its l in simp_all)
qed

section \<open>A new sale\<close>

lemma find_token_mem: "find_token db b t = Some y \<Longrightarrow> y \<in> set (sales db) \<and> sale_business y = b \<and> sale_checkout_token y = Some t"
  by (auto simp: find_token_def dest: find_Some_mem)

lemma replay_result: "replay_checkout ord business cashier s y db = Inr z \<Longrightarrow> z = y"
  by (auto simp: replay_checkout_def validate_checkout_replay_def result_simps split: if_splits)

lemma complete_sale_new:
  assumes "complete_sale ord cal business x db = Inr (y, db')" and "y \<notin> set (sales db)"
  obtains s token salesperson ls priority t clean pt change where
    "locked_checkout_context ord business x db = Inr s" "clean_checkout_token (co_token x) = Inr token"
    "Option.bind token (find_token db (biz_id business)) = None"
    "checkout_cart ord cal business x s db = Inr (ls, priority, t)"
    "check_discount business (cs_membership s) t = Inr ()"
    "checkout_payments ord business x s t db = Inr (clean, pt, change)"
    "check_credit business s pt = Inr ()"
    "post_sale cal business x s salesperson token ls priority t clean pt change db = Inr (y, db')"
proof -
  from assms(1) obtain s token where a: "locked_checkout_context ord business x db = Inr s"
    "clean_checkout_token (co_token x) = Inr token"
    and rest: "(case Option.bind token (find_token db (biz_id business)) of
       Some existing \<Rightarrow>
         ebind (replay_checkout ord business (co_cashier x) s existing db) (\<lambda>y. Inr (y, db))
     | None \<Rightarrow>
         ebind (canonical_salesperson ord business x s db) (\<lambda>salesperson.
         ebind (checkout_cart ord cal business x s db) (\<lambda>(ls, priority, t).
         ebind (check_discount business (cs_membership s) t) (\<lambda>_.
         ebind (checkout_payments ord business x s t db) (\<lambda>(clean, pt, change).
         ebind (check_credit business s pt) (\<lambda>_.
         ebind (require (cs_shift s \<noteq> None \<or> allow_sale_without_shift (settings business))
                 (SaleError ''An open shift is required before selling.'')) (\<lambda>_.
           post_sale cal business x s salesperson token ls priority t clean pt change db))))))) = Inr (y, db')"
    unfolding complete_sale_def result_simps by blast
  have none: "Option.bind token (find_token db (biz_id business)) = None"
  proof (rule ccontr)
    assume "Option.bind token (find_token db (biz_id business)) \<noteq> None"
    then obtain e t where "token = Some t" "find_token db (biz_id business) t = Some e" by (cases token) auto
    then show False using rest assms(2) by (auto simp: result_simps dest!: replay_result find_token_mem)
  qed
  from rest[unfolded none option.case] obtain salesperson ls priority t clean pt change where
    "checkout_cart ord cal business x s db = Inr (ls, priority, t)"
    "check_discount business (cs_membership s) t = Inr ()"
    "checkout_payments ord business x s t db = Inr (clean, pt, change)"
    "check_credit business s pt = Inr ()"
    "post_sale cal business x s salesperson token ls priority t clean pt change db = Inr (y, db')"
    by (auto simp: result_simps)
  then show thesis by (rule that[OF a none])
qed

text \<open>The payments of an accepted checkout.\<close>

definition kind_total :: "method_kind \<Rightarrow> payment_method clean_payment list \<Rightarrow> milli" where
  "kind_total k ps = (\<Sum>p \<leftarrow> filter (\<lambda>p. pm_kind (cp_method p) = k) ps. cp_amount p)"

lemma as_sale_error_Inr [simp]: "as_sale_error r = Inr a \<longleftrightarrow> r = Inr a"
  by (cases r) (auto simp: as_sale_error_def split: err.splits)

lemma paid_with_clean: "paid_with pm_kind k ps = kind_total k (map clean_payment_of ps)"
  by (simp add: paid_with_def kind_total_def clean_payment_of_def filter_map comp_def)

text \<open>
  What a checkout offers: the methods of its payments, looked up in the business, and their amounts,
  rounded to the column.
\<close>

definition payment_offered ::
    "'a pos_db_scheme \<Rightarrow> id \<Rightarrow> id payment_input \<Rightarrow> payment_method clean_payment \<Rightarrow> bool" where
  "payment_offered db b i q \<longleftrightarrow>
     pm_id (cp_method q) = pi_method i \<and> cp_method q \<in> set (payment_methods db)
     \<and> pm_business (cp_method q) = b \<and> pm_active (cp_method q)
     \<and> cp_amount q = money (pi_amount i) \<and> 0 < cp_amount q \<and> cp_reference q = pi_reference i"

lemma locked_payment_offered:
  assumes "locked_payment_method ord business x s db i = Inr p" and "0 < money (pi_amount p)"
  shows "payment_offered db (biz_id business) i (clean_payment_of p)"
  using assms
  by (auto simp: locked_payment_method_def payment_offered_def clean_payment_of_def deny_pos_scope_Inl
      dest!: find_Some_mem split: option.splits if_splits)

lemma checkout_payments_offered:
  assumes "checkout_payments ord business x s t db = Inr (clean, pt, change)"
  shows "list_all2 (payment_offered db (biz_id business)) (co_payments x) clean"
proof -
  from assms obtain ps where found: "emap (locked_payment_method ord business x s db) (co_payments x) = Inr ps"
    and ps: "calculate_payment_totals ps pm_kind = Inr (clean, pt)"
    by (auto simp: checkout_payments_def result_simps)
  then have "\<forall>p \<in> set ps. 0 < money (pi_amount p)" and clean: "clean = map clean_payment_of ps"
    by (auto simp: calculate_payment_totals_def add_payments_exact list_ex_iff not_le split: if_splits)
  with emap_list_all2[OF found]
  have "list_all2 (\<lambda>i p. payment_offered db (biz_id business) i (clean_payment_of p)) (co_payments x) ps"
    unfolding list_all2_conv_all_nth by (metis locked_payment_offered nth_mem)
  then show ?thesis by (simp add: clean list_all2_map2)
qed

lemma checkout_payments_Inr:
  assumes "checkout_payments ord business x s t db = Inr (clean, pt, change)"
  shows "\<forall>p \<in> set clean. 0 < cp_amount p" "pay_total pt = (\<Sum>p \<leftarrow> clean. cp_amount p)"
    "credit_amount pt = kind_total CUSTOMER_CREDIT clean" "store_credit_amount pt = kind_total STORE_CREDIT clean"
    "0 \<le> change" "pay_total pt - change = st_total t" "change \<le> kind_total CASH clean"
    "require_credit_kinds ord db business (co_cashier x) (cs_membership s)
       (0 < credit_amount pt) (0 < store_credit_amount pt) = Inr ()"
proof -
  from assms obtain ps where ps: "calculate_payment_totals ps pm_kind = Inr (clean, pt)"
    and change: "change_for pt (st_total t) = Inr change"
    and req: "require_credit_kinds ord db business (co_cashier x) (cs_membership s)
       (0 < credit_amount pt) (0 < store_credit_amount pt) = Inr ()"
    by (auto simp: checkout_payments_def result_simps)
  then have pos: "\<not> list_ex (\<lambda>p. money (pi_amount p) \<le> 0) ps"
    and clean: "clean = map clean_payment_of ps"
    and pt: "pt = \<lparr>pay_total = \<Sum>p \<leftarrow> ps. money (pi_amount p), credit_amount = paid_with pm_kind CUSTOMER_CREDIT ps,
         store_credit_amount = paid_with pm_kind STORE_CREDIT ps, cash_tendered = paid_with pm_kind CASH ps\<rparr>"
    by (auto simp: calculate_payment_totals_def add_payments_exact split: if_splits)
  show amounts: "\<forall>p \<in> set clean. 0 < cp_amount p"
    using pos by (auto simp: clean clean_payment_of_def list_ex_iff)
  show "pay_total pt = (\<Sum>p \<leftarrow> clean. cp_amount p)" by (simp add: pt clean clean_payment_of_def comp_def)
  show "credit_amount pt = kind_total CUSTOMER_CREDIT clean" "store_credit_amount pt = kind_total STORE_CREDIT clean"
    by (simp_all add: pt clean paid_with_clean)
  have "0 \<le> kind_total CASH clean"
    unfolding kind_total_def using amounts by (intro sum_list_nonneg) auto
  moreover have "cash_tendered pt = kind_total CASH clean" by (simp add: pt clean paid_with_clean)
  ultimately show "0 \<le> change" "pay_total pt - change = st_total t" "change \<le> kind_total CASH clean"
    using change by (auto simp: change_for_def split: if_splits)
  show "require_credit_kinds ord db business (co_cashier x) (cs_membership s)
       (0 < credit_amount pt) (0 < store_credit_amount pt) = Inr ()" by (rule req)
qed

lemma kinds_disjoint:
  assumes "\<forall>p \<in> set ps. 0 < cp_amount p" and "j \<noteq> k"
  shows "kind_total j ps + kind_total k ps \<le> (\<Sum>p \<leftarrow> ps. cp_amount p)" "0 \<le> kind_total k ps"
    "(0 < kind_total k ps) = (k \<in> set (map (\<lambda>p. pm_kind (cp_method p)) ps))"
  using assms
proof (induction ps)
  case (Cons p ps)
  {
    case 1 then show ?case using Cons by (auto simp: kind_total_def)
  next
    case 2 then show ?case using Cons by (auto simp: kind_total_def)
  next
    case 3
    have "0 \<le> kind_total k ps" using Cons 3 by simp
    then show ?case using Cons 3 by (auto simp: kind_total_def)
  }
qed (simp_all add: kind_total_def)

lemma save_last_row: "pk r = next_pk pk rs \<Longrightarrow> pk r' = pk r \<Longrightarrow> save_row pk r' (rs @ [r]) = rs @ [r']"
  using save_row_absent[of pk r' rs] next_pk_fresh[of pk rs] by (simp add: save_row_def)

lemma settle_customer_frame:
  "customers (settle_customer c pt db) = customers (settle_customer c pt db0)"
  if "customers db = customers db0" for db db0 :: "'a pos_db_scheme"
  using that by (simp add: settle_customer_def apply_balance_change_def apply_store_credit_change_def Let_def)

lemma settle_customer_fields [simp]:
  "core_db.truncate (settle_customer c pt db) = core_db.truncate db" "sales (settle_customer c pt db) = sales db"
  "sale_items (settle_customer c pt db) = sale_items db" "sale_payments (settle_customer c pt db) = sale_payments db"
  "levels (settle_customer c pt db) = levels db" "movements (settle_customer c pt db) = movements db"
  "settings_rows (settle_customer c pt db) = settings_rows db" "payment_methods (settle_customer c pt db) = payment_methods db"
  "registers (settle_customer c pt db) = registers db" "shifts (settle_customer c pt db) = shifts db"
  "sale_returns (settle_customer c pt db) = sale_returns db" "return_items (settle_customer c pt db) = return_items db"
  "family_members (settle_customer c pt db) = family_members db" "clock (settle_customer c pt db) = clock db"
  "customer_payments (settle_customer c pt db) = customer_payments db" "products (settle_customer c pt db) = products db"
  "invoice_sequences (settle_customer c pt db) = invoice_sequences db" "variants (settle_customer c pt db) = variants db"
  by (simp_all add: settle_customer_def apply_balance_change_def apply_store_credit_change_def Let_def core_db.defs)

lemma log_audit_rest [simp]:
  "core_db.truncate (log_audit a m d db) = core_db.truncate db" "settings_rows (log_audit a m d db) = settings_rows db"
  "products (log_audit a m d db) = products db" "variants (log_audit a m d db) = variants db"
  by (simp_all add: log_audit_def core_db.defs)

lemma log_audit_sales [simp]:
  fixes db :: "'a pos_db_scheme"
  shows "sales (log_audit a m d db) = sales db" "sale_items (log_audit a m d db) = sale_items db"
  "sale_payments (log_audit a m d db) = sale_payments db" "customers (log_audit a m d db) = customers db"
  "payment_methods (log_audit a m d db) = payment_methods db" "registers (log_audit a m d db) = registers db"
  "shifts (log_audit a m d db) = shifts db" "sale_returns (log_audit a m d db) = sale_returns db"
  "return_items (log_audit a m d db) = return_items db" "family_members (log_audit a m d db) = family_members db"
  "customer_payments (log_audit a m d db) = customer_payments db"
  "invoice_sequences (log_audit a m d db) = invoice_sequences db"
  by (simp_all add: log_audit_def)

text \<open>The rows of the other components, which no sale touches.\<close>

definition same_rest :: "'a pos_db_scheme \<Rightarrow> 'a pos_db_scheme \<Rightarrow> bool" where
  "same_rest db db' =
     (core_db.truncate db' = core_db.truncate db \<and> settings_rows db' = settings_rows db
      \<and> payment_methods db' = payment_methods db \<and> registers db' = registers db \<and> shifts db' = shifts db
      \<and> sale_returns db' = sale_returns db \<and> return_items db' = return_items db
      \<and> family_members db' = family_members db \<and> customer_payments db' = customer_payments db
      \<and> products db' = products db \<and> variants db' = variants db)"

lemma same_but_stock_rest: "same_but_stock db db' \<Longrightarrow> same_rest db db'"
  by (simp add: same_rest_def same_but_stockD)

lemma same_rest_trans: "same_rest a b \<Longrightarrow> same_rest b c \<Longrightarrow> same_rest a c"
  by (simp add: same_rest_def)

lemma post_sale_effect:
  fixes db db' :: "'a pos_db_scheme"
  assumes "post_sale cal business x s salesperson token ls priority t clean pt change db = Inr (y, db')"
    and "stock_inv db"
  obtains u cost its where "upk (co_cashier x) = Some u"
    "y = finished_sale (new_sale business x s u salesperson token priority t pt change
           (fst (next_invoice_number business (cs_branch s) db)) db) t pt cost"
    "sales db' = sales db @ [y]" "sale_items db' = sale_items db @ its"
    "list_all2 (item_matches (stock_place db (biz_id business) (cs_warehouse s)) (biz_id business) (sale_id y)) (zip ls (map snd (st_lines t))) its"
    "distinct (map si_id (sale_items db)) \<longrightarrow> distinct (map si_id (sale_items db'))"
    "\<forall>P. held_stock P db' = held_stock P db - taken_by P its" "stock_inv db'"
    "sale_payments db' = sale_payments db @ map (new_payment cal (biz_id business) y (co_cashier x) db)
        (recorded_payments change clean)"
    "customers db' = customers (settle_customer (cu_id (cs_customer s)) pt db)" "same_rest db db'"
    "invoice_sequences db' = invoice_sequences (snd (next_invoice_number business (cs_branch s) db))"
proof -
  obtain number dbn where num: "next_invoice_number business (cs_branch s) db = (number, dbn)"
    by (cases "next_invoice_number business (cs_branch s) db")
  obtain qs where qs: "dbn = db\<lparr>invoice_sequences := qs\<rparr>" using next_invoice_number_frame[OF num] by blast
  from assms(1) obtain u where u: "upk (co_cashier x) = Some u"
    by (auto simp: post_sale_def split: option.splits)
  define sale where "sale = new_sale business x s u salesperson token priority t pt change number dbn"
  define db2 where "db2 = dbn\<lparr>sales := sales dbn @ [sale]\<rparr>"
  from assms(1) obtain db3 cost where
    fold: "efold (post_line business sale s (co_cashier x)) (zip ls (map snd (st_lines t))) (db2, 0) = Inr (db3, cost)"
    and y: "y = finished_sale sale t pt cost"
    and db': "db' = log_audit ''sale.completed'' ''sales'' (''Sale '' @ number @ '' completed.'')
       ((settle_customer (cu_id (cs_customer s)) pt (db3\<lparr>sale_payments := sale_payments db3 @
            map (new_payment cal (biz_id business) sale (co_cashier x) db3) (recorded_payments change clean)\<rparr>))
          \<lparr>sales := save_row sale_id y (sales db3)\<rparr>)"
    by (auto simp: post_sale_def u num Let_def result_simps sale_def db2_def)
  have new: "sale = new_sale business x s u salesperson token priority t pt change number db"
    by (simp add: sale_def new_sale_def qs)
  have key: "sale_id sale = next_pk sale_id (sales db)" "sale_id y = sale_id sale" "sale_shift y = sale_shift sale"
    by (simp_all add: new new_sale_def y finished_sale_def)
  have inv2: "stock_inv db2" using assms(2) by (simp add: db2_def qs stock_inv_def)
  have place: "stock_place db2 = stock_place db" by (rule stock_place_cong) (simp_all add: db2_def qs)
  from post_lines_effect[OF fold inv2] obtain its where e: "stock_inv db3" "same_but_stock db2 db3"
    "sale_items db3 = sale_items db2 @ its"
    "list_all2 (item_matches (stock_place db (biz_id business) (cs_warehouse s)) (biz_id business) (sale_id sale)) (zip ls (map snd (st_lines t))) its"
    "distinct (map si_id (sale_items db2)) \<longrightarrow> distinct (map si_id (sale_items db3))"
    "\<forall>P. held_stock P db3 = held_stock P db2 - taken_by P its"
    unfolding place by blast
  note d = same_but_stockD[OF e(2)]
  have base: "sales db2 = sales db @ [sale]" "sale_items db2 = sale_items db" "sale_payments db2 = sale_payments db"
    "customers db2 = customers db" "clock db2 = clock db" "held_stock P db2 = held_stock P db" for P
    by (simp_all add: db2_def qs held_stock_def)
  have rest2: "same_rest db db2" by (simp add: same_rest_def db2_def qs core_db.defs)
  have items: "sale_items db' = sale_items db3" by (simp add: db')
  have stock: "levels db' = levels db3" "movements db' = movements db3" by (simp_all add: db')
  have pay: "new_payment cal (biz_id business) sale (co_cashier x) db3 = new_payment cal (biz_id business) y (co_cashier x) db"
    by (simp add: fun_eq_iff new_payment_def key d(2) base)
  show thesis
  proof (rule that[OF u])
    show "y = finished_sale (new_sale business x s u salesperson token priority t pt change
           (fst (next_invoice_number business (cs_branch s) db)) db) t pt cost"
      by (simp add: num y new)
    show "sales db' = sales db @ [y]"
      using save_last_row[of sale_id sale "sales db" y] key by (simp add: db' d(4) base)
    show "sale_items db' = sale_items db @ its" using e(3) by (simp add: items base)
    show "list_all2 (item_matches (stock_place db (biz_id business) (cs_warehouse s)) (biz_id business) (sale_id y)) (zip ls (map snd (st_lines t))) its"
      using e(4) key by simp
    show "distinct (map si_id (sale_items db)) \<longrightarrow> distinct (map si_id (sale_items db'))"
      using e(5) by (simp add: items base)
    show "\<forall>P. held_stock P db' = held_stock P db - taken_by P its"
      using e(6) held_stock_cong[OF stock(1)] by (simp add: base)
    show "stock_inv db'" using e(1) stock_inv_cong[OF stock] by simp
    show "sale_payments db' = sale_payments db @ map (new_payment cal (biz_id business) y (co_cashier x) db)
        (recorded_payments change clean)"
      by (simp add: db' d(5) base pay)
    show "customers db' = customers (settle_customer (cu_id (cs_customer s)) pt db)"
      using settle_customer_frame[of "db3\<lparr>sale_payments := sale_payments db3 @
            map (new_payment cal (biz_id business) sale (co_cashier x) db3) (recorded_payments change clean)\<rparr>" db]
      by (simp add: db' d(3) base)
    have "same_rest db3 db'" by (simp add: same_rest_def db')
    then show "same_rest db db'"
      using same_rest_trans[OF rest2] same_rest_trans[OF same_but_stock_rest[OF e(2)]] by blast
    show "invoice_sequences db' = invoice_sequences (snd (next_invoice_number business (cs_branch s) db))"
      by (simp add: db' d(11) db2_def num)
  qed
qed

text \<open>The lines of the totals are those of the cart, in order.\<close>

lemma emap_length: "emap f xs = Inr ys \<Longrightarrow> length ys = length xs"
  using emap_list_all2 list_all2_lengthD by force

lemma emap_all: "emap f xs = Inr ys \<Longrightarrow> (\<And>x y. f x = Inr y \<Longrightarrow> Q y) \<Longrightarrow> \<forall>y \<in> set ys. Q y"
  by (induction xs arbitrary: ys) (auto simp: result_simps)

lemma totals_lines:
  assumes "calculate_sale_totals b items d precision = Inr t"
  shows "map fst (st_lines t) = items" "map (lp_quantity \<circ> snd) (st_lines t) = map cl_quantity items"
proof -
  from assms obtain firsts shares where e:
    "list_all2 (\<lambda>l i. first_pass_line b l = Inr i) items firsts"
    "allocate_discount (map lp_base_before firsts) d = Inr shares"
    "emap (second_pass_line b) (zip (zip items firsts) shares) = Inr (st_lines t)"
    by (rule calculate_sale_totals_Inr)
  have len: "length shares = length items"
    using allocate_discount_Inr(1)[OF e(2)] list_all2_lengthD[OF e(1)] by simp
  show fst: "map fst (st_lines t) = items" using second_pass_lines[OF e(1) len e(3)] by blast
  have "lp_quantity (snd y) = cl_quantity (fst y)" if "second_pass_line b x = Inr y" for x y
    using that by (auto simp: second_pass_line_def compute_line_def Let_def result_simps split: prod.splits if_splits)
  then have "\<forall>y \<in> set (st_lines t). lp_quantity (snd y) = cl_quantity (fst y)"
    by (rule emap_all[OF e(3)])
  then have "map (lp_quantity \<circ> snd) (st_lines t) = map cl_quantity (map fst (st_lines t))" by simp
  then show "map (lp_quantity \<circ> snd) (st_lines t) = map cl_quantity items" by (simp only: fst)
qed

lemma totals_amounts:
  assumes "calculate_sale_totals b items d precision = Inr t"
  shows "\<forall>y \<in> set (st_lines t). lp_quantity (snd y) = cl_quantity (fst y)
    \<and> lp_unit_price (snd y) = money (cl_unit_price (fst y)) \<and> lp_discount (snd y) = money (cl_discount (fst y))"
proof -
  from assms obtain zs where "emap (second_pass_line b) zs = Inr (st_lines t)"
    by (rule calculate_sale_totals_Inr)
  then show ?thesis
    by (rule emap_all) (auto simp: second_pass_line_def compute_line_def Let_def result_simps split: prod.splits if_splits)
qed

lemma normalize_line_Inr:
  assumes "normalize_line ord db business branch customer m l = Inr n"
  shows "prod_id (cl_product (nl_cart n)) = li_product l" "cl_quantity (nl_cart n) = li_quantity l"
    "0 < li_quantity l"
  using assms
  by (auto simp: normalize_line_def Let_def result_simps find_product_def dest!: find_Some_mem
      split: option.splits if_splits)

text \<open>
  What is stored for a line of the cart: the product and the variant it names (rows of the business),
  its quantity, its price (the one sent, or the default of the product and variant) and discount
  rounded to the column, whether the fabric is the customer's, the meter of a tailoring garment, and
  the warehouse whose stock it takes.
\<close>

definition default_price :: "product \<Rightarrow> variant option \<Rightarrow> milli" where
  "default_price p v =
     (if is_meter_tailoring p then 0
      else case v of Some x \<Rightarrow> if 0 < var_sale_price x then var_sale_price x else prod_sale_price p
        | None \<Rightarrow> prod_sale_price p)"

definition line_stored :: "'a pos_db_scheme \<Rightarrow> id \<Rightarrow> warehouse \<Rightarrow> cart_input \<Rightarrow> sale_item \<Rightarrow> bool" where
  "line_stored db b w l it \<longleftrightarrow>
     (\<exists>p v. let own = (li_customer_fabric l = FlagBool True) in
        p \<in> set (products db) \<and> prod_id p = li_product l \<and> prod_business p = b \<and> prod_active p
        \<and> map_option var_id v = li_variant l
        \<and> (\<forall>u. v = Some u \<longrightarrow> u \<in> set (variants db) \<and> var_product u = prod_id p \<and> var_business u = b)
        \<and> 0 < li_quantity l
        \<and> si_product it = li_product l \<and> si_variant it = li_variant l \<and> si_quantity it = qty (li_quantity l)
        \<and> si_unit_price it = (case li_unit_price l of Some r \<Rightarrow> money r | None \<Rightarrow> default_price p v)
        \<and> si_discount it = (case li_discount l of Some r \<Rightarrow> money r | None \<Rightarrow> 0)
        \<and> si_customer_fabric it = own
        \<and> (if is_meter_tailoring p \<and> \<not> own
            then \<exists>m. clean_fabric_meter (li_meter l) = Inr m \<and> si_fabric_meter it = Some m
            else si_fabric_meter it = None)
        \<and> si_warehouse it = (if own \<or> \<not> is_stocked p then None else stock_place db b w p))"

lemma line_garment_meter:
  assumes "line_garment p v own meter legacy details l = Inr g"
  shows "if meter \<and> \<not> own then \<exists>m. clean_fabric_meter (li_meter l) = Inr m \<and> ga_meter g = Some m
    else ga_meter g = None"
  using assms
  by (auto simp: line_garment_def meter_garment_def legacy_garment_def plain_garment_def result_simps
      split: if_splits prod.splits)

lemma line_price_values:
  assumes "line_price p v meter m l = Inr (price, discount)"
  shows "price = (case li_unit_price l of Some r \<Rightarrow> money r | None \<Rightarrow> if meter then 0 else resolve_price p v)"
    "discount = (case li_discount l of Some r \<Rightarrow> money r | None \<Rightarrow> 0)"
  using assms by (auto simp: line_price_def Let_def split: if_splits)

lemma line_variant_row:
  assumes "line_variant db b p l = Inr v"
  shows "map_option var_id v = li_variant l"
    "v = Some u \<Longrightarrow> u \<in> set (variants db) \<and> var_product u = prod_id p \<and> var_business u = b"
proof -
  consider "li_variant l = None" "v = None"
    | i x where "li_variant l = Some i" "v = Some x" "find (\<lambda>v. var_id v = i \<and> var_business v = b) (variants db) = Some x"
        "var_product x = prod_id p"
  proof (cases "li_variant l")
    case None
    then show thesis using assms that(1) by (simp add: line_variant_def)
  next
    case (Some i)
    then obtain x where "find (\<lambda>v. var_id v = i \<and> var_business v = b) (variants db) = Some x"
      "var_product x = prod_id p" "Some x = v"
      using assms
      by (cases "find (\<lambda>v. var_id v = i \<and> var_business v = b) (variants db)") (auto simp: line_variant_def split: if_splits)
    then show thesis using that(2)[OF Some, of x] by blast
  qed
  then show "map_option var_id v = li_variant l"
    "v = Some u \<Longrightarrow> u \<in> set (variants db) \<and> var_product u = prod_id p \<and> var_business u = b"
    by (cases; auto dest!: find_Some_mem)+
qed

lemma normalize_line_parts:
  assumes "normalize_line ord db business branch customer m l = Inr n"
  shows "\<exists>p v price discount g details own.
    find_product db (biz_id business) (li_product l) = Some p \<and> prod_active p
    \<and> line_variant db (biz_id business) p l = Inr v
    \<and> clean_customer_supplied_fabric (li_customer_fabric l) = Inr own
    \<and> line_price p v (is_meter_tailoring p) m l = Inr (price, discount)
    \<and> line_garment p v own (is_meter_tailoring p) (is_legacy_tailoring p \<and> (own \<or> li_meter l = MeterAbsent)) details l = Inr g
    \<and> nl_cart n = \<lparr>cl_product = p, cl_variant = v, cl_quantity = li_quantity l,
         cl_unit_price = dec price, cl_discount = dec discount\<rparr>
    \<and> nl_garment n = g \<and> nl_customer_fabric n = own"
  using assms
  by (auto simp: normalize_line_def Let_def result_simps split: option.splits if_splits)

lemma matched_line_stored:
  assumes "normalize_line ord db business branch customer m l = Inr n"
    and "item_matches (stock_place db (biz_id business) w) (biz_id business) s (n, parts) it"
    and "lp_quantity parts = cl_quantity (nl_cart n)" and "lp_unit_price parts = money (cl_unit_price (nl_cart n))"
    and "lp_discount parts = money (cl_discount (nl_cart n))"
  shows "line_stored db (biz_id business) w l it"
proof -
  from normalize_line_parts[OF assms(1)] obtain p v price discount g details own where
    p: "find_product db (biz_id business) (li_product l) = Some p" "prod_active p"
    and v: "line_variant db (biz_id business) p l = Inr v"
    and own: "clean_customer_supplied_fabric (li_customer_fabric l) = Inr own"
    and price: "line_price p v (is_meter_tailoring p) m l = Inr (price, discount)"
    and g: "line_garment p v own (is_meter_tailoring p) (is_legacy_tailoring p \<and> (own \<or> li_meter l = MeterAbsent)) details l = Inr g"
    and n: "nl_cart n = \<lparr>cl_product = p, cl_variant = v, cl_quantity = li_quantity l,
         cl_unit_price = dec price, cl_discount = dec discount\<rparr>" "nl_garment n = g" "nl_customer_fabric n = own"
    by blast
  have flag: "own = (li_customer_fabric l = FlagBool True)"
    using own by (auto simp: clean_customer_supplied_fabric_def split: fabric_flag.splits)
  have row: "p \<in> set (products db)" "prod_id p = li_product l" "prod_business p = biz_id business"
    using p(1) by (auto simp: find_product_def dest!: find_Some_mem)
  have default: "default_price p v = (if is_meter_tailoring p then 0 else resolve_price p v)"
    by (simp add: default_price_def resolve_price_def)
  note it = assms(2)[unfolded item_matches_def prod.case n cart_line.simps]
  have place: "si_warehouse it = (if own \<or> \<not> is_stocked p then None else stock_place db (biz_id business) w p)"
    using it by auto
  show ?thesis
    unfolding line_stored_def Let_def flag[symmetric]
  proof (intro exI[of _ p] exI[of _ v] conjI)
    show "\<forall>u. v = Some u \<longrightarrow> u \<in> set (variants db) \<and> var_product u = prod_id p \<and> var_business u = biz_id business"
      using line_variant_row(2)[OF v] by blast
    show "si_unit_price it = (case li_unit_price l of Some r \<Rightarrow> money r | None \<Rightarrow> default_price p v)"
      using it assms(4) line_price_values(1)[OF price] by (simp add: n default split: option.split)
    show "si_discount it = (case li_discount l of Some r \<Rightarrow> money r | None \<Rightarrow> 0)"
      using it assms(5) line_price_values(2)[OF price] by (simp add: n)
    show "if is_meter_tailoring p \<and> \<not> own
        then \<exists>m. clean_fabric_meter (li_meter l) = Inr m \<and> si_fabric_meter it = Some m
        else si_fabric_meter it = None"
      using it line_garment_meter[OF g] by simp
  qed (use row p(2) it assms(3) place n line_variant_row(1)[OF v] normalize_line_Inr(3)[OF assms(1)] in simp_all)
qed

lemma checkout_cart_Inr:
  assumes "checkout_cart ord cal business x s db = Inr (ls, priority, t)"
  shows "co_items x \<noteq> []" "emap (normalize_line ord db business (cs_branch s) (cs_customer s) (cs_membership s)) (co_items x) = Inr ls"
    "parse_priority (co_priority x) = Some priority"
    "calculate_sale_totals business (map nl_cart ls) (dec (money (co_invoice_discount x))) None = Inr t"
    "list_ex nl_tailoring ls \<Longrightarrow> co_delivery_date x \<noteq> None"
    "cart_tailoring db (biz_id business) (co_items x) \<or> priority \<noteq> P_NORMAL \<or> co_delivery_date x \<noteq> None \<Longrightarrow>
       require_key ord db business (co_cashier x) ''tailoring'' ''sales.create'' (cs_membership s) = Inr ()"
  using assms
  by (auto simp: checkout_cart_def Let_def result_simps require_if_def split: option.splits if_splits)

lemma settle_customer_balances:
  "\<lbrakk>0 \<le> credit_amount pt; 0 \<le> store_credit_amount pt\<rbrakk> \<Longrightarrow>
     owed (settle_customer c pt db) i = (if i = c then map_option (\<lambda>b. b + credit_amount pt) (owed db i) else owed db i)"
  "\<lbrakk>0 \<le> credit_amount pt; 0 \<le> store_credit_amount pt\<rbrakk> \<Longrightarrow>
     credit_held (settle_customer c pt db) i
       = (if i = c then map_option (\<lambda>h. h - store_credit_amount pt) (credit_held db i) else credit_held db i)"
proof -
  have zero: "map_option (\<lambda>b. b + 0) v = v" "map_option (\<lambda>b. b - 0) v = v" for v :: "milli option"
    by (cases v; simp)+
  show "\<lbrakk>0 \<le> credit_amount pt; 0 \<le> store_credit_amount pt\<rbrakk> \<Longrightarrow>
     owed (settle_customer c pt db) i = (if i = c then map_option (\<lambda>b. b + credit_amount pt) (owed db i) else owed db i)"
    by (cases "credit_amount pt = 0") (auto simp: settle_customer_def Let_def zero option.map_ident)
  show "\<lbrakk>0 \<le> credit_amount pt; 0 \<le> store_credit_amount pt\<rbrakk> \<Longrightarrow>
     credit_held (settle_customer c pt db) i
       = (if i = c then map_option (\<lambda>h. h - store_credit_amount pt) (credit_held db i) else credit_held db i)"
    by (cases "store_credit_amount pt = 0") (auto simp: settle_customer_def Let_def zero option.map_ident)
qed

text \<open>The rows a checkout context holds.\<close>

lemma optional_row_Some:
  "optional_row ok i lookup = Some r \<Longrightarrow>
     (case i of None \<Rightarrow> r = None | Some k \<Rightarrow> \<exists>x. r = Some x \<and> lookup k = Some x \<and> ok x)"
  by (auto simp: optional_row_def split: option.splits if_splits)

lemma deny_case:
  "((case v of None \<Rightarrow> deny_pos_scope ord db business user perm m | Some a \<Rightarrow> f a) = Inr r)
     = (\<exists>a. v = Some a \<and> f a = Inr r)"
  by (cases v) (simp_all add: deny_pos_scope_Inl)

lemma locked_checkout_context_Inr:
  assumes "locked_checkout_context ord business x db = Inr s"
  obtains c c' br w cu register sh where
    "require_pos_write ord db business (co_cashier x) ''sales.create'' (co_membership x) None = Inr c"
    "find (\<lambda>br. br_id br = co_branch x \<and> br_business br = biz_id business) (branches db) = Some br"
    "require_pos_write ord db business (co_cashier x) ''sales.create'' (ctx_membership c) (Some br) = Inr c'"
    "find (\<lambda>w. wh_id w = co_warehouse x \<and> wh_business w = biz_id business) (warehouses db) = Some w"
    "find (\<lambda>c. cu_id c = co_customer x \<and> cu_business c = biz_id business \<and> cu_home_branch c = Some (br_id br))
       (customers db) = Some cu"
    "optional_row (\<lambda>r. cr_business r = biz_id business) (co_register x) (\<lambda>i. row_by cr_id i (registers db)) = Some register"
    "optional_row (\<lambda>s. sh_business s = biz_id business) (co_shift x) (\<lambda>i. row_by sh_id i (shifts db)) = Some sh"
    "s = \<lparr>cs_membership = ctx_membership c, cs_branch = br, cs_warehouse = w, cs_customer = cu,
          cs_register = register, cs_shift = sh\<rparr>"
    "validate_sale_context business (co_cashier x) s = Inr ()"
  using assms
  by (auto simp: locked_checkout_context_def Let_def result_simps deny_case)

lemma find_row_by:
  "distinct (map pk rs) \<Longrightarrow> find (\<lambda>r. pk r = i \<and> Q r) rs = Some r \<Longrightarrow> row_by pk (pk r) rs = Some r"
  by (induction rs) (auto simp: row_by_def split: if_splits dest!: find_Some_mem)

lemma context_customer:
  assumes "locked_checkout_context ord business x db = Inr s" and "distinct (map cu_id (customers db))"
  shows "row_by cu_id (cu_id (cs_customer s)) (customers db) = Some (cs_customer s)"
proof -
  obtain br :: branch where "find (\<lambda>c. cu_id c = co_customer x \<and> cu_business c = biz_id business
      \<and> cu_home_branch c = Some (br_id br)) (customers db) = Some (cs_customer s)"
    by (rule locked_checkout_context_Inr[OF assms(1)]) simp
  then show ?thesis using find_row_by[OF assms(2)] by simp
qed

lemma context_customer_key:
  assumes "locked_checkout_context ord business x db = Inr s"
  shows "cu_id (cs_customer s) = co_customer x" "cs_warehouse s \<in> set (warehouses db)" "wh_id (cs_warehouse s) = co_warehouse x"
  by (rule locked_checkout_context_Inr[OF assms]; auto dest!: find_Some_mem)+

section \<open>A repeated checkout\<close>

lemma require_pos_write_core:
  assumes "core_db.truncate db' = core_db.truncate db"
  shows "require_pos_write ord db' business user perm m br = require_pos_write ord db business user perm m br"
  unfolding require_pos_write_def access_same_core[OF assms] by (rule refl)

lemma require_key_core:
  assumes "core_db.truncate db' = core_db.truncate db"
  shows "require_key ord db' business user key perm m = require_key ord db business user key perm m"
  unfolding require_key_def access_same_core[OF assms] by (rule refl)

lemma find_map_row: "(\<And>r. Q (f r) = Q r) \<Longrightarrow> find Q (map f rs) = map_option f (find Q rs)"
  by (induction rs) auto

lemma settle_customer_map:
  "\<exists>f. customers (settle_customer c pt db) = map f (customers db)
     \<and> (\<forall>r. cu_id (f r) = cu_id r \<and> cu_business (f r) = cu_business r \<and> cu_home_branch (f r) = cu_home_branch r
          \<and> cu_active (f r) = cu_active r)"
proof -
  define g where "g = (\<lambda>r :: customer. if 0 < credit_amount pt \<and> cu_id r = c then r\<lparr>cu_balance := cu_balance r + credit_amount pt\<rparr> else r)"
  define h where "h = (\<lambda>r :: customer. if 0 < store_credit_amount pt \<and> cu_id r = c
     then r\<lparr>cu_store_credit := cu_store_credit r + - store_credit_amount pt\<rparr> else r)"
  have "customers (settle_customer c pt db) = map (h \<circ> g) (customers db)"
    by (cases "0 < credit_amount pt"; cases "0 < store_credit_amount pt")
      (simp_all add: settle_customer_def apply_balance_change_def apply_store_credit_change_def Let_def g_def h_def comp_def)
  moreover have "cu_id ((h \<circ> g) r) = cu_id r \<and> cu_business ((h \<circ> g) r) = cu_business r
      \<and> cu_home_branch ((h \<circ> g) r) = cu_home_branch r \<and> cu_active ((h \<circ> g) r) = cu_active r" for r
    by (simp add: g_def h_def)
  ultimately show ?thesis by blast
qed

lemma line_garment_plain:
  "line_garment p v own False False details l = Inr g \<Longrightarrow> g = plain_garment \<and> details = []"
  by (simp add: line_garment_def split: if_splits)

lemma normalize_tailored:
  assumes "normalize_line ord db business branch customer m l = Inr n" and "tailored n"
  shows "nl_tailoring n"
proof (rule ccontr)
  assume "\<not> nl_tailoring n"
  then show False
    using assms unfolding normalize_line_def Let_def
    by (cases "find_product db (biz_id business) (li_product l)")
      (auto simp: result_simps tailored_def plain_garment_def dest!: line_garment_plain split: if_splits)
qed

lemma context_again:
  fixes db db' :: "'a pos_db_scheme"
  assumes "locked_checkout_context ord business x db = Inr s"
    and "customers db' = customers (settle_customer (cu_id (cs_customer s)) pt db)" and "same_rest db db'"
  shows "\<exists>s'. locked_checkout_context ord business x db' = Inr s' \<and> cs_membership s' = cs_membership s
    \<and> cs_branch s' = cs_branch s \<and> cu_id (cs_customer s') = cu_id (cs_customer s)"
proof -
  obtain f where f: "customers db' = map f (customers db)"
    "\<And>r. cu_id (f r) = cu_id r \<and> cu_business (f r) = cu_business r \<and> cu_home_branch (f r) = cu_home_branch r
       \<and> cu_active (f r) = cu_active r"
    using settle_customer_map assms(2) by metis
  have core: "core_db.truncate db' = core_db.truncate db" using assms(3) by (simp add: same_rest_def)
  have same: "registers db' = registers db" "shifts db' = shifts db" using assms(3) by (simp_all add: same_rest_def)
  have tables: "branches db' = branches db" "warehouses db' = warehouses db"
    using core by (simp_all add: core_db.defs)
  have cust: "find (\<lambda>c. cu_id c = i \<and> cu_business c = b \<and> cu_home_branch c = h) (customers db')
    = map_option f (find (\<lambda>c. cu_id c = i \<and> cu_business c = b \<and> cu_home_branch c = h) (customers db))" for i b h
    unfolding f(1) by (rule find_map_row) (simp add: f(2))
  from assms(1) obtain c c' br w cu register sh where e:
    "require_pos_write ord db business (co_cashier x) ''sales.create'' (co_membership x) None = Inr c"
    "find (\<lambda>br. br_id br = co_branch x \<and> br_business br = biz_id business) (branches db) = Some br"
    "require_pos_write ord db business (co_cashier x) ''sales.create'' (ctx_membership c) (Some br) = Inr c'"
    "find (\<lambda>w. wh_id w = co_warehouse x \<and> wh_business w = biz_id business) (warehouses db) = Some w"
    "find (\<lambda>c. cu_id c = co_customer x \<and> cu_business c = biz_id business \<and> cu_home_branch c = Some (br_id br))
       (customers db) = Some cu"
    "optional_row (\<lambda>r. cr_business r = biz_id business) (co_register x) (\<lambda>i. row_by cr_id i (registers db)) = Some register"
    "optional_row (\<lambda>s. sh_business s = biz_id business) (co_shift x) (\<lambda>i. row_by sh_id i (shifts db)) = Some sh"
    "s = \<lparr>cs_membership = ctx_membership c, cs_branch = br, cs_warehouse = w, cs_customer = cu,
          cs_register = register, cs_shift = sh\<rparr>"
    "validate_sale_context business (co_cashier x) s = Inr ()"
    by (rule locked_checkout_context_Inr)
  define s' where "s' = s\<lparr>cs_customer := f cu\<rparr>"
  have "validate_sale_context business (co_cashier x) s' = validate_sale_context business (co_cashier x) s"
    unfolding validate_sale_context_def s'_def e(8) Let_def checkout_scope.simps by (simp only: f(2))
  then have "locked_checkout_context ord business x db' = Inr s'"
    using e(1-7,9)
    by (simp add: locked_checkout_context_def Let_def require_pos_write_core[OF core] tables cust same s'_def e(8))
  then show ?thesis using f(2)[of cu] by (auto simp: s'_def e(8))
qed

section \<open>Properties\<close>

text \<open>C2: a new sale balances to the thousandth.  Of the payments offered, in order, each with its
  method and its positive amount rounded to the column, credit and store credit are the sums of those
  kinds: what is paid now is not negative and together with the credit makes up the total, and the
  offered amounts the total and the change.  Exactly the credit is added to what the customer of the
  checkout owes, exactly the store credit (which the customer had) is taken from the store credit, and no
  other customer changes.  The payments stored for the sale are, but for cash, exactly those offered;
  with cash they cover the total, and make up exactly the total when at most one of the offered payments
  is cash.\<close>

theorem complete_sale_accounts:
  fixes db db' :: "'a pos_db_scheme"
  assumes "complete_sale ord cal business x db = Inr (y, db')" and "y \<notin> set (sales db)" and "stock_inv db"
    and "distinct (map cu_id (customers db))"
  shows "\<exists>clean credit store. sales db' = sales db @ [y] \<and> sale_customer y = co_customer x
    \<and> list_all2 (payment_offered db (biz_id business)) (co_payments x) clean
    \<and> 0 \<le> sale_amount_paid y \<and> 0 \<le> sale_change_due y \<and> sale_amount_paid y + credit = sale_total y
    \<and> credit = kind_total CUSTOMER_CREDIT clean \<and> store = kind_total STORE_CREDIT clean
    \<and> (\<Sum>p \<leftarrow> clean. cp_amount p) = sale_total y + sale_change_due y
    \<and> (\<forall>i. owed db' i = (if i = sale_customer y then map_option (\<lambda>b. b + credit) (owed db i) else owed db i))
    \<and> (\<forall>i. credit_held db' i =
          (if i = sale_customer y then map_option (\<lambda>h. h - store) (credit_held db i) else credit_held db i))
    \<and> (\<exists>h. credit_held db (sale_customer y) = Some h \<and> (0 < store \<longrightarrow> store \<le> h))
    \<and> (\<exists>rows. sale_payments db' = sale_payments db @ rows
        \<and> (\<forall>r \<in> set rows. sp_sale r = sale_id y \<and> sp_business r = biz_id business \<and> sp_shift r = sale_shift y)
        \<and> map (\<lambda>r. (sp_method r, sp_amount r)) (filter (\<lambda>r. pm_kind (sp_method r) \<noteq> CASH) rows)
            = map (\<lambda>q. (cp_method q, cp_amount q)) (filter (\<lambda>q. \<not> is_cash q) clean)
        \<and> sale_total y \<le> (\<Sum>r \<leftarrow> rows. sp_amount r)
        \<and> (length (filter is_cash clean) \<le> 1 \<longrightarrow> (\<Sum>r \<leftarrow> rows. sp_amount r) = sale_total y))"
proof -
  from complete_sale_new[OF assms(1,2)] obtain s token salesperson ls priority t clean pt change where
    ctx: "locked_checkout_context ord business x db = Inr s"
    and pay: "checkout_payments ord business x s t db = Inr (clean, pt, change)"
    and credit: "check_credit business s pt = Inr ()"
    and post: "post_sale cal business x s salesperson token ls priority t clean pt change db = Inr (y, db')"
    by metis
  note p = checkout_payments_Inr[OF pay]
  from post_sale_effect[OF post assms(3)] obtain u cost where
    y: "y = finished_sale (new_sale business x s u salesperson token priority t pt change
           (fst (next_invoice_number business (cs_branch s) db)) db) t pt cost"
    and e: "sales db' = sales db @ [y]"
      "sale_payments db' = sale_payments db @ map (new_payment cal (biz_id business) y (co_cashier x) db)
        (recorded_payments change clean)"
      "customers db' = customers (settle_customer (cu_id (cs_customer s)) pt db)"
    by metis
  have f: "sale_customer y = cu_id (cs_customer s)" "sale_total y = st_total t" "sale_change_due y = change"
    "sale_amount_paid y = pay_total pt - change - credit_amount pt"
    by (simp_all add: y finished_sale_def new_sale_def)
  have row: "row_by cu_id (cu_id (cs_customer s)) (customers db) = Some (cs_customer s)"
    using context_customer[OF ctx assms(4)] .
  have kinds: "kind_total CASH clean + kind_total CUSTOMER_CREDIT clean \<le> pay_total pt"
    "0 \<le> kind_total CUSTOMER_CREDIT clean" "0 \<le> kind_total STORE_CREDIT clean"
    using kinds_disjoint[OF p(1), of CASH CUSTOMER_CREDIT] kinds_disjoint(2)[OF p(1), of CASH STORE_CREDIT] p(2) by simp_all
  have given: "0 \<le> credit_amount pt" "0 \<le> store_credit_amount pt" using kinds p(3,4) by simp_all
  have cash: "kind_total CASH clean = (\<Sum>q \<leftarrow> filter is_cash clean. cp_amount q)"
    unfolding kind_total_def is_cash_def ..
  have amounts: "(\<Sum>r \<leftarrow> map (new_payment cal (biz_id business) y (co_cashier x) db) ps. sp_amount r)
    = (\<Sum>q \<leftarrow> ps. cp_amount q)" for ps
    by (simp add: comp_def new_payment_def)
  have bal: "owed db' i = owed (settle_customer (cu_id (cs_customer s)) pt db) i"
    "credit_held db' i = credit_held (settle_customer (cu_id (cs_customer s)) pt db) i" for i
    using e(3) by (simp_all add: owed_def credit_held_def)
  show ?thesis
  proof (intro exI conjI)
    show "sales db' = sales db @ [y]" by (rule e(1))
    show "sale_customer y = co_customer x" using context_customer_key[OF ctx] f(1) by simp
    show "list_all2 (payment_offered db (biz_id business)) (co_payments x) clean"
      by (rule checkout_payments_offered[OF pay])
    show "0 \<le> sale_amount_paid y" "0 \<le> sale_change_due y" "sale_amount_paid y + credit_amount pt = sale_total y"
      "(\<Sum>q \<leftarrow> clean. cp_amount q) = sale_total y + sale_change_due y"
      using p(2-7) kinds by (simp_all add: f)
    show "credit_amount pt = kind_total CUSTOMER_CREDIT clean" "store_credit_amount pt = kind_total STORE_CREDIT clean"
      by (rule p)+
    show "\<forall>i. owed db' i = (if i = sale_customer y then map_option (\<lambda>b. b + credit_amount pt) (owed db i) else owed db i)"
      "\<forall>i. credit_held db' i = (if i = sale_customer y
          then map_option (\<lambda>h. h - store_credit_amount pt) (credit_held db i) else credit_held db i)"
      unfolding bal f(1) settle_customer_balances[OF given] by simp_all
    show "credit_held db (sale_customer y) = Some (cu_store_credit (cs_customer s))"
      by (simp add: credit_held_def f row)
    show "0 < store_credit_amount pt \<longrightarrow> store_credit_amount pt \<le> cu_store_credit (cs_customer s)"
      using credit by (auto simp: check_credit_def Let_def split: if_splits)
    show "sale_payments db' = sale_payments db @ map (new_payment cal (biz_id business) y (co_cashier x) db)
        (recorded_payments change clean)" by (rule e(2))
    show "\<forall>r \<in> set (map (new_payment cal (biz_id business) y (co_cashier x) db) (recorded_payments change clean)).
        sp_sale r = sale_id y \<and> sp_business r = biz_id business \<and> sp_shift r = sale_shift y"
      by (auto simp: new_payment_def)
    show "map (\<lambda>r. (sp_method r, sp_amount r)) (filter (\<lambda>r. pm_kind (sp_method r) \<noteq> CASH)
          (map (new_payment cal (biz_id business) y (co_cashier x) db) (recorded_payments change clean)))
        = map (\<lambda>q. (cp_method q, cp_amount q)) (filter (\<lambda>q. \<not> is_cash q) clean)"
      by (simp add: filter_map comp_def new_payment_def is_cash_def recorded_not_cash)
    show "sale_total y \<le> (\<Sum>r \<leftarrow> map (new_payment cal (biz_id business) y (co_cashier x) db)
        (recorded_payments change clean). sp_amount r)"
      unfolding amounts using recorded_same[OF p(1,5)] p(2,6) by (simp add: f)
    show "length (filter is_cash clean) \<le> 1 \<longrightarrow> (\<Sum>r \<leftarrow> map (new_payment cal (biz_id business) y (co_cashier x) db)
        (recorded_payments change clean). sp_amount r) = sale_total y"
      unfolding amounts using recorded_single_cash[OF _ p(5)] p(2,6,7) cash by (simp add: f)
  qed
qed

text \<open>C3: the items a new sale stores are the lines of the cart, in order: each with a positive quantity
  entered, the product, variant, price, discount, fabric and meter of its line and the warehouse its
  stock comes from (the predicate line_stored); the sale takes from stock, at every set of keys, exactly the inventory
  quantity of those items there (the meter of a tailoring garment, otherwise the quantity sold, nothing
  for the customer's own fabric or goods without stock), and the ledger invariant holds after it.\<close>

theorem complete_sale_stock:
  fixes db db' :: "'a pos_db_scheme"
  assumes "complete_sale ord cal business x db = Inr (y, db')" and "y \<notin> set (sales db)" and "stock_inv db"
  shows "stock_inv db' \<and> (\<exists>its w. sale_items db' = sale_items db @ its \<and> its \<noteq> []
    \<and> w \<in> set (warehouses db) \<and> wh_id w = co_warehouse x
    \<and> list_all2 (line_stored db (biz_id business) w) (co_items x) its
    \<and> (\<forall>it \<in> set its. si_sale it = sale_id y \<and> si_business it = biz_id business \<and> si_returned it = 0)
    \<and> (\<forall>P. held_stock P db' = held_stock P db - taken_by P its))"
proof -
  from complete_sale_new[OF assms(1,2)] obtain s token salesperson ls priority t clean pt change where
    ctx: "locked_checkout_context ord business x db = Inr s"
    and cart: "checkout_cart ord cal business x s db = Inr (ls, priority, t)"
    and post: "post_sale cal business x s salesperson token ls priority t clean pt change db = Inr (y, db')"
    by metis
  note c = checkout_cart_Inr[OF cart] and lines = totals_lines[OF checkout_cart_Inr(4)[OF cart]]
  let ?place = "stock_place db (biz_id business) (cs_warehouse s)"
  from post_sale_effect[OF post assms(3)] obtain its where e: "sale_items db' = sale_items db @ its"
    "list_all2 (item_matches ?place (biz_id business) (sale_id y)) (zip ls (map snd (st_lines t))) its"
    "\<forall>P. held_stock P db' = held_stock P db - taken_by P its" "stock_inv db'"
    by metis
  have len: "length (st_lines t) = length ls" using arg_cong[OF lines(1), of length] by simp
  then have "length (map snd (st_lines t)) = length ls" by simp
  note m = matched_columns[OF e(2) this]
  note norm = emap_list_all2[OF c(2)]
  have stored: "list_all2 (line_stored db (biz_id business) (cs_warehouse s)) (co_items x) its"
  proof (rule list_all2_all_nthI)
    show n: "length (co_items x) = length its" using list_all2_lengthD[OF norm] list_all2_lengthD[OF e(2)] len by simp
    fix k assume k: "k < length (co_items x)"
    then have k': "k < length ls" "k < length (st_lines t)" using list_all2_lengthD[OF norm] len by simp_all
    have fst: "fst (st_lines t ! k) = nl_cart (ls ! k)"
      using arg_cong[OF lines(1), of "\<lambda>zs. zs ! k"] k' by simp
    show "line_stored db (biz_id business) (cs_warehouse s) (co_items x ! k) (its ! k)"
      using matched_line_stored[OF list_all2_nthD[OF norm k], of "cs_warehouse s" "sale_id y" "snd (st_lines t ! k)" "its ! k"]
        list_all2_nthD[OF e(2), of k] totals_amounts[OF c(4)] k' fst nth_mem[OF k'(2)] len by fastforce
  qed
  have "its \<noteq> []" using list_all2_lengthD[OF stored] c(1) by auto
  then show ?thesis using e(1,3,4) m(3) stored context_customer_key(2,3)[OF ctx] by blast
qed

text \<open>C4: a checkout token makes the checkout idempotent: once a checkout with a token has succeeded,
  sending the same checkout again returns the same sale and changes nothing at all, whatever it did
  to stock, balances and numbers the first time.\<close>

theorem checkout_idempotent:
  fixes db db' :: "'a pos_db_scheme"
  assumes "complete_sale ord cal business x db = Inr (y, db')" and "y \<notin> set (sales db)" and "stock_inv db"
    and "clean_checkout_token (co_token x) = Inr (Some token)"
    and "\<forall>i \<in> set (sale_items db). si_sale i \<in> sale_id ` set (sales db)"
    and "\<forall>p \<in> set (sale_payments db). sp_sale p \<in> sale_id ` set (sales db)"
  shows "complete_sale ord cal business x db' = Inr (y, db')"
proof -
  from complete_sale_new[OF assms(1,2)] obtain s tok salesperson ls priority t clean pt change where
    ctx: "locked_checkout_context ord business x db = Inr s"
    and tok: "clean_checkout_token (co_token x) = Inr tok" "Option.bind tok (find_token db (biz_id business)) = None"
    and cart: "checkout_cart ord cal business x s db = Inr (ls, priority, t)"
    and pay: "checkout_payments ord business x s t db = Inr (clean, pt, change)"
    and post: "post_sale cal business x s salesperson tok ls priority t clean pt change db = Inr (y, db')"
    by metis
  have token: "tok = Some token" using tok(1) assms(4) by simp
  note p = checkout_payments_Inr[OF pay] and c = checkout_cart_Inr[OF cart]
  from post_sale_effect[OF post assms(3)] obtain u cost its where u: "upk (co_cashier x) = Some u"
    and y: "y = finished_sale (new_sale business x s u salesperson tok priority t pt change
           (fst (next_invoice_number business (cs_branch s) db)) db) t pt cost"
    and e: "sales db' = sales db @ [y]" "sale_items db' = sale_items db @ its"
      "list_all2 (item_matches (stock_place db (biz_id business) (cs_warehouse s)) (biz_id business) (sale_id y)) (zip ls (map snd (st_lines t))) its"
      "sale_payments db' = sale_payments db @ map (new_payment cal (biz_id business) y (co_cashier x) db)
        (recorded_payments change clean)"
      "customers db' = customers (settle_customer (cu_id (cs_customer s)) pt db)" "same_rest db db'"
    by metis
  have "length (map snd (st_lines t)) = length ls" using arg_cong[OF totals_lines(1)[OF c(4)], of length] by simp
  note m = matched_columns[OF e(3) this]
  have f: "sale_id y = next_pk sale_id (sales db)" "sale_business y = biz_id business" "sale_checkout_token y = Some token"
    "sale_cashier y = u" "sale_branch y = br_id (cs_branch s)" "sale_customer y = cu_id (cs_customer s)"
    "sale_delivery_date y = co_delivery_date x" "sale_priority y = priority"
    by (simp_all add: y finished_sale_def new_sale_def token)
  have fresh: "sale_id y \<notin> sale_id ` set (sales db)" unfolding f(1) by (rule next_pk_fresh)
  obtain s' where s': "locked_checkout_context ord business x db' = Inr s'" "cs_membership s' = cs_membership s"
    "cs_branch s' = cs_branch s" "cu_id (cs_customer s') = cu_id (cs_customer s)"
    using context_again[OF ctx e(5,6)] by blast
  have core: "core_db.truncate db' = core_db.truncate db" using e(6) by (simp add: same_rest_def)
  have found: "find_token db' (biz_id business) token = Some y"
    using tok(2) f(2,3) by (simp add: find_token_def e(1) find_append token)
  have lines: "sale_lines db' (sale_id y) = its"
  proof -
    have "filter (\<lambda>i. si_sale i = sale_id y) (sale_items db) = []"
      by (intro filter_False) (use assms(5) fresh in metis)
    moreover have "filter (\<lambda>i. si_sale i = sale_id y) its = its" using m(3) by (simp add: filter_id_conv)
    ultimately show ?thesis by (simp add: sale_lines_def e(2))
  qed
  have kinds: "payment_kinds db' (sale_id y) = map (\<lambda>p. pm_kind (cp_method p)) (recorded_payments change clean)"
  proof -
    have "filter (\<lambda>p. sp_sale p = sale_id y) (sale_payments db) = []"
      by (intro filter_False) (use assms(6) fresh in metis)
    then show ?thesis by (simp add: payment_kinds_def e(4) new_payment_def filter_map comp_def)
  qed
  have in_recorded: "k \<in> set (payment_kinds db' (sale_id y)) \<longleftrightarrow> 0 < kind_total k clean" if "k \<noteq> CASH" for k
  proof -
    have mem: "k \<in> set (map (\<lambda>p. pm_kind (cp_method p)) qs) \<longleftrightarrow> filter (\<lambda>p. pm_kind (cp_method p) = k) qs \<noteq> []" for qs
      by (auto simp: filter_empty_conv)
    show ?thesis
      unfolding kinds kinds_disjoint(3)[OF p(1) that[symmetric]] mem recorded_kind[OF that] by (rule refl)
  qed
  have tailoring: "require_key ord db business (co_cashier x) ''tailoring'' ''sales.create'' (cs_membership s) = Inr ()"
    if "list_ex is_tailoring_line its \<or> co_delivery_date x \<noteq> None \<or> priority \<noteq> P_NORMAL"
  proof -
    have "list_ex nl_tailoring ls" if tl: "list_ex is_tailoring_line its"
    proof -
      obtain n where n: "n \<in> set ls" "tailored n" using m(4)[OF tl] by (auto simp: list_ex_iff)
      have "\<forall>n \<in> set ls. tailored n \<longrightarrow> nl_tailoring n"
        by (rule emap_all[OF c(2)]) (blast dest: normalize_tailored)
      then show ?thesis using n by (auto simp: list_ex_iff)
    qed
    then show ?thesis using that c(5,6) by blast
  qed
  have "(if list_ex is_tailoring_line its \<or> co_delivery_date x \<noteq> None \<or> priority \<noteq> P_NORMAL
      then require_key ord db business (co_cashier x) ''tailoring'' ''sales.create'' (cs_membership s) else Inr ()) = Inr ()"
    using tailoring by simp
  moreover have "require_credit_kinds ord db' business (co_cashier x) (cs_membership s)
      (0 < kind_total CUSTOMER_CREDIT clean) (0 < kind_total STORE_CREDIT clean) = Inr ()"
    using p(8) unfolding require_credit_kinds_def require_key_core[OF core] p(3,4) .
  moreover have "validate_checkout_replay y (co_cashier x) s' = Inr y"
    by (simp add: validate_checkout_replay_def f(4-6) s' u)
  ultimately have "replay_checkout ord business (co_cashier x) s' y db' = Inr y"
    unfolding replay_checkout_def sale_has_tailoring_lines_def lines f(7,8) s'(2) require_key_core[OF core]
      in_recorded[of CUSTOMER_CREDIT, simplified] in_recorded[of STORE_CREDIT, simplified]
    by simp
  then show ?thesis by (simp add: complete_sale_def s'(1) assms(4) found)
qed

section \<open>Witnesses\<close>

definition sample_account :: payment_method where
  "sample_account = \<lparr>pm_id = 2, pm_business = 1, pm_name = ''Customer Credit'', pm_kind = CUSTOMER_CREDIT,
     pm_active = True\<rparr>"

definition sample_shift :: shift where
  "sample_shift = \<lparr>sh_id = 1, sh_business = 1, sh_register = 1, sh_branch = 1, sh_cashier = 7, sh_status = SH_OPEN,
     sh_opened_at = 0, sh_opening_cash = 5000, sh_opening_notes = [], sh_closed_at = None, sh_expected_cash = 0,
     sh_actual_cash = None, sh_difference = 0, sh_closing_notes = [], sh_approved_by = None, sh_reopened_count = 0\<rparr>"

definition sample_shop :: pos_db where
  "sample_shop = sample_pos\<lparr>payment_methods := [sample_cash, sample_account], shifts := [sample_shift]\<rparr>"

definition sample_line :: cart_input where
  "sample_line = \<lparr>li_product = 10, li_variant = None, li_quantity = 2, li_unit_price = None, li_discount = None,
     li_customer_fabric = FlagMissing, li_meter = MeterAbsent, li_family = NoFamily, li_classification = [],
     li_collection = None, li_details = DetailsOf []\<rparr>"

definition sample_checkout :: checkout where
  "sample_checkout = \<lparr>co_branch = 1, co_warehouse = 1, co_cashier = Some sample_user, co_customer = 4,
     co_items = [sample_line],
     co_payments = [\<lparr>pi_method = 1, pi_amount = 6, pi_reference = []\<rparr>,
       \<lparr>pi_method = 2, pi_amount = 17 / 5, pi_reference = []\<rparr>],
     co_membership = None, co_register = Some 1, co_shift = Some 1, co_invoice_discount = 0, co_notes = [],
     co_salesperson = None, co_delivery_date = None, co_priority = ''normal'', co_token = Some ''tok''\<rparr>"

definition sample_scope :: checkout_scope where
  "sample_scope = \<lparr>cs_membership = Some (hd (memberships sample_core)), cs_branch = hd (branches sample_core),
     cs_warehouse = hd (warehouses sample_core), cs_customer = sample_customer, cs_register = Some sample_register,
     cs_shift = Some sample_shift\<rparr>"

definition sample_norm :: norm_line where
  "sample_norm = \<lparr>nl_cart = sample_cart_line 2 4, nl_garment = plain_garment, nl_tailoring = False,
     nl_customer_fabric = False, nl_details = [], nl_family = None\<rparr>"

definition shop_totals :: sale_totals where
  "shop_totals = \<lparr>st_lines = [(sample_cart_line 2 4, sample_parts 2 4000 8000 0 400)], st_subtotal = 8000,
     st_line_discounts = 0, st_invoice_discount = 0, st_discount_total = 0, st_tax_total = 400,
     st_raw_total = 8400, st_total = 8400, st_rounding = 0\<rparr>"

definition shop_paid :: "payment_method clean_payment list" where
  "shop_paid = [\<lparr>cp_method = sample_cash, cp_amount = 6000, cp_reference = []\<rparr>,
     \<lparr>cp_method = sample_account, cp_amount = 3400, cp_reference = []\<rparr>]"

definition shop_payments :: payment_totals where
  "shop_payments = \<lparr>pay_total = 9400, credit_amount = 3400, store_credit_amount = 0, cash_tendered = 6000\<rparr>"

lemma shop_context: "locked_checkout_context (\<lambda>xs. xs) sample_business sample_checkout sample_shop = Inr sample_scope"
  by code_simp

lemma shop_line:
  "normalize_line (\<lambda>xs. xs) sample_shop sample_business (cs_branch sample_scope) (cs_customer sample_scope)
     (cs_membership sample_scope) sample_line = Inr sample_norm"
  by code_simp

lemma shop_lines_total: "calculate_sale_totals sample_business [nl_cart sample_norm] (dec (money 0)) None = Inr shop_totals"
  by code_simp

lemma shop_limits: "require_operational sample_shop sample_business = Inr (hd (subscriptions sample_core))"
  "check_limit sample_calendar sample_shop sample_business L_MONTHLY_INVOICES = Inr ()"
  "cart_tailoring sample_shop 1 [sample_line] = False" "check_family (cs_customer sample_scope) sample_line = Inr ()"
  "parse_priority ''normal'' = Some P_NORMAL"
  by code_simp+

lemma shop_cart:
  "checkout_cart (\<lambda>xs. xs) sample_calendar sample_business sample_checkout sample_scope sample_shop
     = Inr ([sample_norm], P_NORMAL, shop_totals)"
proof -
  have x: "co_items sample_checkout = [sample_line]" "co_priority sample_checkout = ''normal''"
    "co_delivery_date sample_checkout = None" "co_invoice_discount sample_checkout = 0" "biz_id sample_business = 1"
    "nl_tailoring sample_norm = False"
    by (simp_all add: sample_checkout_def sample_business_def sample_norm_def)
  show ?thesis
    by (simp add: checkout_cart_def Let_def x shop_limits[simplified] shop_line shop_lines_total[simplified]
        require_if_def result_simps)
qed

lemma shop_settled:
  "check_discount sample_business (cs_membership sample_scope) shop_totals = Inr ()"
  "checkout_payments (\<lambda>xs. xs) sample_business sample_checkout sample_scope shop_totals sample_shop
     = Inr (shop_paid, shop_payments, 1000)"
  "check_credit sample_business sample_scope shop_payments = Inr ()"
  "clean_checkout_token (co_token sample_checkout) = Inr (Some ''tok'')"
  by code_simp+

definition shop_post :: "err + (sale \<times> pos_db)" where
  "shop_post = post_sale sample_calendar sample_business sample_checkout sample_scope None (Some ''tok'') [sample_norm]
     P_NORMAL shop_totals shop_paid shop_payments 1000 sample_shop"

lemma shop_checkout:
  "complete_sale (\<lambda>xs. xs) sample_calendar sample_business sample_checkout sample_shop = shop_post"
proof -
  have "find_token sample_shop (biz_id sample_business) ''tok'' = None" by code_simp
  moreover have "canonical_salesperson (\<lambda>xs. xs) sample_business sample_checkout sample_scope sample_shop = Inr None"
    by (simp add: canonical_salesperson_def sample_checkout_def)
  moreover have "cs_shift sample_scope \<noteq> None" by (simp add: sample_scope_def)
  ultimately show ?thesis
    by (simp add: complete_sale_def shop_context shop_settled shop_cart shop_post_def)
qed

lemma shop_posted: "case shop_post of Inl _ \<Rightarrow> False | Inr (y, v) \<Rightarrow> map lv_quantity (levels v) = [3000]"
  by code_simp

lemma shop_result:
  obtains y v where "complete_sale (\<lambda>xs. xs) sample_calendar sample_business sample_checkout sample_shop = Inr (y, v)"
    "map lv_quantity (levels v) = [3000]"
proof -
  obtain y v where "shop_post = Inr (y, v)" "map lv_quantity (levels v) = [3000]"
    using shop_posted by (auto simp del: map_eq_Cons_conv split: sum.splits)
  then show thesis using that shop_checkout by simp
qed

lemma sample_shop_tables:
  "sales sample_shop = []" "sale_items sample_shop = []" "sale_payments sample_shop = []"
  "distinct (map cu_id (customers sample_shop))" "stock_inv sample_shop"
  using sample_stock_inv
  by (simp_all add: sample_shop_def sample_pos_def sample_workflows_def stock_inv_def workflow_db.extend_def stock_db.extend_def)

theorem complete_sale_accounts_witness:
  "\<exists>y v. complete_sale (\<lambda>xs. xs) sample_calendar sample_business sample_checkout sample_shop = Inr (y, v)
     \<and> sales v = [y] \<and> 0 \<le> sale_amount_paid y"
proof -
  obtain y v where v: "complete_sale (\<lambda>xs. xs) sample_calendar sample_business sample_checkout sample_shop = Inr (y, v)"
    by (rule shop_result)
  have "y \<notin> set (sales sample_shop)" by (simp add: sample_shop_tables)
  from complete_sale_accounts[OF v this sample_shop_tables(5,4)] v show ?thesis
    by (auto simp: sample_shop_tables(1))
qed

theorem complete_sale_stock_witness:
  "\<exists>y v it. complete_sale (\<lambda>xs. xs) sample_calendar sample_business sample_checkout sample_shop = Inr (y, v)
     \<and> sale_items v = [it] \<and> si_product it = 10 \<and> si_quantity it = qty 2 \<and> stock_inv v"
proof -
  obtain y v where v: "complete_sale (\<lambda>xs. xs) sample_calendar sample_business sample_checkout sample_shop = Inr (y, v)"
    by (rule shop_result)
  have "y \<notin> set (sales sample_shop)" by (simp add: sample_shop_tables)
  from complete_sale_stock[OF v this sample_shop_tables(5)] obtain its w where
    its: "sale_items v = its" "list_all2 (line_stored sample_shop (biz_id sample_business) w) [sample_line] its" "stock_inv v"
    by (auto simp: sample_shop_tables sample_checkout_def)
  then obtain it where "its = [it]" "line_stored sample_shop (biz_id sample_business) w sample_line it"
    by (auto simp: list_all2_Cons1)
  then have "si_product it = 10 \<and> si_quantity it = qty 2"
    by (auto simp: line_stored_def sample_line_def Let_def)
  then show ?thesis using v its \<open>its = [it]\<close> by blast
qed

theorem checkout_idempotent_witness:
  "\<exists>y v. complete_sale (\<lambda>xs. xs) sample_calendar sample_business sample_checkout sample_shop = Inr (y, v)
     \<and> complete_sale (\<lambda>xs. xs) sample_calendar sample_business sample_checkout v = Inr (y, v)
     \<and> map lv_quantity (levels v) = [3000]"
proof -
  obtain y v where v: "complete_sale (\<lambda>xs. xs) sample_calendar sample_business sample_checkout sample_shop = Inr (y, v)"
    "map lv_quantity (levels v) = [3000]"
    by (rule shop_result)
  have "y \<notin> set (sales sample_shop)" by (simp add: sample_shop_tables)
  from checkout_idempotent[OF v(1) this sample_shop_tables(5) shop_settled(4)] v show ?thesis
    by (simp add: sample_shop_tables)
qed

end
