(* ===== verification/Sale_Operation_Laws.thy ===== *)
theory Sale_Operation_Laws
  imports Sale_Operations Checkout_Laws
begin

text \<open>
  What the later operations do to a stored sale: voiding takes a checkout back, and no sequence of
  operations breaks the books of the sales.
\<close>

section \<open>Voiding an item\<close>

text \<open>A stored item whose warehouse agrees with the stock behaviour of its product.\<close>

definition stock_matches :: "'a stock_db_scheme \<Rightarrow> sale_item \<Rightarrow> bool" where
  "stock_matches db it =
     (case row_by prod_id (si_product it) (products db) of
        None \<Rightarrow> True
      | Some p \<Rightarrow> (si_warehouse it \<noteq> None \<longleftrightarrow> \<not> si_customer_fabric it \<and> is_stocked p)
          \<and> (\<not> si_customer_fabric it \<longrightarrow> si_fabric_meter it \<noteq> None \<longrightarrow> is_stocked p))"

lemma row_by_key: "row_by pk i rs = Some r \<Longrightarrow> pk r = i \<and> r \<in> set rs"
  by (auto simp: row_by_def dest: find_Some_mem)

lemma item_rows_keys:
  assumes "item_rows db s it = Inr (w, p, v)"
  shows "wh_id w = (case si_warehouse it of Some i \<Rightarrow> i | None \<Rightarrow> sale_warehouse s)"
    "row_by prod_id (si_product it) (products db) = Some p" "prod_id p = si_product it"
    "map_option var_id v = si_variant it"
proof -
  have wh: "row_by wh_id (case si_warehouse it of Some w \<Rightarrow> w | None \<Rightarrow> sale_warehouse s) (warehouses db) = Some w"
    and prod: "row_by prod_id (si_product it) (products db) = Some p"
    and var: "(case si_variant it of None \<Rightarrow> v = None | Some k \<Rightarrow> \<exists>x. v = Some x \<and> row_by var_id k (variants db) = Some x)"
    using assms by (simp_all add: item_rows_def split: option.splits) (metis option.exhaust)+
  show "wh_id w = (case si_warehouse it of Some i \<Rightarrow> i | None \<Rightarrow> sale_warehouse s)" using row_by_key[OF wh] by simp
  show "row_by prod_id (si_product it) (products db) = Some p" "prod_id p = si_product it"
    using prod row_by_key[OF prod] by simp_all
  show "map_option var_id v = si_variant it"
  proof (cases "si_variant it")
    case (Some k)
    then obtain x where "v = Some x" "row_by var_id k (variants db) = Some x" using var by auto
    then show ?thesis using Some by (simp add: row_by_key)
  qed (use var in simp)
qed

lemma void_item_effect:
  fixes db db' :: "'a pos_db_scheme"
  assumes "void_item business s user reason it db = Inr db'" and "stock_inv db" and "stock_matches db it"
    and "si_business it = biz_id business"
  shows "stock_inv db' \<and> same_but_stock db db' \<and> sale_items db' = sale_items db
    \<and> (\<forall>P. held_stock P db' = held_stock P db + taken P it)"
proof (cases "si_customer_fabric it")
  case True
  have "si_warehouse it = None \<or> (\<forall>p. row_by prod_id (si_product it) (products db) \<noteq> Some p)"
    using assms(3) True by (auto simp: stock_matches_def split: option.splits)
  moreover have "taken P it = 0" for P using True by (simp add: taken_def inventory_quantity_def split: option.splits)
  ultimately show ?thesis using assms(1,2) True same_but_stock_refl by (simp add: void_item_def)
next
  case own: False
  from assms(1) own obtain w p v where rows: "item_rows db s it = Inr (w, p, v)"
    and move: "(if si_fabric_meter it \<noteq> None \<or> is_stocked p
        then record_movement business w p v
               (return_movement ''Void'' (sale_invoice_number s) it (inventory_quantity it) user
                 (take 300 (''Void: '' @ reason))) db
        else Inr db) = Inr db'"
    unfolding void_item_def by (auto simp: result_simps)
  note k = item_rows_keys[OF rows]
  have st: "si_warehouse it \<noteq> None \<longleftrightarrow> is_stocked p" "si_fabric_meter it \<noteq> None \<longrightarrow> is_stocked p"
    using assms(3) own k(2) by (simp_all add: stock_matches_def)
  show ?thesis
  proof (cases "is_stocked p")
    case True
    let ?a = "return_movement ''Void'' (sale_invoice_number s) it (inventory_quantity it) user
      (take 300 (''Void: '' @ reason))"
    have rec: "record_movement business w p v ?a db = Inr db'" using move True by simp
    have key: "movement_key business w p v = (si_business it, wh_id w, si_product it, si_variant it)"
      "si_warehouse it = Some (wh_id w)"
      using k st(1) True assms(4) by (auto simp: movement_key_def)
    have "held_stock P db' = held_stock P db + taken P it" for P
      using record_movement_held[OF rec, of P] assms(2) key
      by (simp add: stock_inv_def taken_def return_movement_def)
    moreover have "ma_type ?a = SALE_RETURN" by (simp add: return_movement_def)
    ultimately show ?thesis
      using record_movement_inv[OF rec assms(2)] same_but_stock_move[OF rec] by simp
  next
    case False
    then have "taken P it = 0" for P using st by (simp add: taken_def)
    then show ?thesis using move False st(2) assms(2) same_but_stock_refl by auto
  qed
qed

lemma stock_matches_same: "same_but_stock db db' \<Longrightarrow> stock_matches db' it = stock_matches db it"
  by (simp add: stock_matches_def same_but_stockD)

lemma void_items_effect:
  fixes db db' :: "'a pos_db_scheme"
  assumes "efold (void_item business s user reason) its db = Inr db'" and "stock_inv db"
    and "\<forall>it \<in> set its. stock_matches db it \<and> si_business it = biz_id business"
  shows "stock_inv db' \<and> same_but_stock db db' \<and> sale_items db' = sale_items db
    \<and> (\<forall>P. held_stock P db' = held_stock P db + taken_by P its)"
  using assms
proof (induction its arbitrary: db)
  case Nil
  then show ?case using same_but_stock_refl by (simp add: taken_by_def)
next
  case (Cons it its)
  from Cons.prems(1) obtain u where u: "void_item business s user reason it db = Inr u"
    "efold (void_item business s user reason) its u = Inr db'"
    by (auto simp: result_simps)
  have step: "stock_inv u" "same_but_stock db u" "sale_items u = sale_items db"
    "\<forall>P. held_stock P u = held_stock P db + taken P it"
    using void_item_effect[OF u(1) Cons.prems(2)] Cons.prems(3) by auto
  have "\<forall>it \<in> set its. stock_matches u it \<and> si_business it = biz_id business"
    using Cons.prems(3) stock_matches_same[OF step(2)] by simp
  from Cons.IH[OF u(2) step(1) this] show ?case
    using step same_but_stock_trans[OF step(2)] by (simp add: taken_by_def)
qed

text \<open>The result of a void, stage by stage.\<close>

lemma void_sale_Inr:
  fixes db db' :: "'a pos_db_scheme"
  assumes "void_sale ord business i user reason m db = Inr db'"
  obtains s db1 where "find_sale db (biz_id business) i = Some s" "sale_status s \<noteq> S_VOIDED"
    "sale_returns_of db (sale_id s) = []"
    "efold (void_item business s user reason)
       (filter (\<lambda>x. si_business x = sale_business s) (sale_lines db (sale_id s))) db = Inr db1"
    "db' = log_audit ''sale.voided'' ''sales'' (''Sale '' @ sale_invoice_number s @ '' voided: '' @ reason)
           (update_sale (s\<lparr>sale_status := S_VOIDED, sale_voided_at := Some (clock db), sale_voided_by := upk user,
              sale_void_reason := take 255 reason\<rparr>)
             (undo_settlement (sale_customer s) (sale_total s - sale_amount_paid s)
               (store_credit_used db (sale_id s)) db1))"
  using assms
  by (auto simp: void_sale_def locked_sale_for_write_def Let_def result_simps deny_case split: if_splits)

lemma undo_settlement_balances:
  assumes "0 \<le> credit" and "0 \<le> store"
  shows "owed (undo_settlement c credit store db) i = (if i = c then map_option (\<lambda>b. b - credit) (owed db i) else owed db i)"
    "credit_held (undo_settlement c credit store db) i
       = (if i = c then map_option (\<lambda>h. h + store) (credit_held db i) else credit_held db i)"
proof -
  have zero: "map_option (\<lambda>b. b - 0) v = v" "map_option (\<lambda>b. b + 0) v = v" for v :: "milli option"
    by (cases v; simp)+
  show "owed (undo_settlement c credit store db) i = (if i = c then map_option (\<lambda>b. b - credit) (owed db i) else owed db i)"
    using assms by (cases "credit = 0") (auto simp: undo_settlement_def Let_def zero option.map_ident)
  show "credit_held (undo_settlement c credit store db) i
       = (if i = c then map_option (\<lambda>h. h + store) (credit_held db i) else credit_held db i)"
    using assms by (cases "store = 0") (auto simp: undo_settlement_def Let_def zero option.map_ident)
qed

lemma undo_settlement_fields [simp]:
  "sales (undo_settlement c a b db) = sales db" "levels (undo_settlement c a b db) = levels db"
  "movements (undo_settlement c a b db) = movements db" "sale_items (undo_settlement c a b db) = sale_items db"
  "sale_payments (undo_settlement c a b db) = sale_payments db" "sale_returns (undo_settlement c a b db) = sale_returns db"
  "return_items (undo_settlement c a b db) = return_items db"
  by (simp_all add: undo_settlement_def apply_balance_change_def apply_store_credit_change_def Let_def)

lemma update_sale_fields [simp]:
  fixes db :: "'a pos_db_scheme"
  shows "sales (update_sale s db) = save_row sale_id s (sales db)" "levels (update_sale s db) = levels db"
    "movements (update_sale s db) = movements db" "sale_items (update_sale s db) = sale_items db"
    "sale_payments (update_sale s db) = sale_payments db" "customers (update_sale s db) = customers db"
    "sale_returns (update_sale s db) = sale_returns db" "return_items (update_sale s db) = return_items db"
  by (simp_all add: update_sale_def)

lemma normalize_stock:
  assumes "normalize_line ord db business branch customer m l = Inr n"
  shows "find_product db (biz_id business) (li_product l) = Some (cl_product (nl_cart n))
    \<and> (nl_customer_fabric n \<or> ga_meter (nl_garment n) = None \<or> is_stocked (cl_product (nl_cart n)))"
proof -
  have garment: "line_garment p v own meter legacy details l = Inr g \<Longrightarrow> own \<or> ga_meter g = None \<or> is_stocked p"
    for p v own meter legacy details g
    by (auto simp: line_garment_def meter_garment_def legacy_garment_def plain_garment_def result_simps
        split: if_splits prod.splits)
  show ?thesis using assms
    by (auto simp: normalize_line_def Let_def result_simps dest: garment split: option.splits if_splits)
qed

lemma matched_item:
  "list_all2 (item_matches place b s) (zip ls ps) its \<Longrightarrow> it \<in> set its \<Longrightarrow>
     \<exists>n \<in> set ls. \<exists>p. item_matches place b s (n, p) it"
proof (induction "zip ls ps" its arbitrary: ls ps rule: list_all2_induct)
  case (Cons l ls' it' its')
  then obtain n p ls1 ps1 where "ls = n # ls1" "ps = p # ps1" "l = (n, p)" "ls' = zip ls1 ps1"
    by (cases ls; cases ps) auto
  then show ?case using Cons by auto
qed simp

text \<open>The rows of a sale whose key is new.\<close>

lemma rows_of_new_sale:
  assumes "\<forall>i \<in> set (sale_items db). si_sale i \<in> sale_id ` set (sales db)"
    and "\<forall>p \<in> set (sale_payments db). sp_sale p \<in> sale_id ` set (sales db)"
    and "s \<notin> sale_id ` set (sales db)"
    and "sale_items db' = sale_items db @ its" "\<forall>it \<in> set its. si_sale it = s"
    and "sale_payments db' = sale_payments db @ ps" "\<forall>p \<in> set ps. sp_sale p = s"
  shows "sale_lines db' s = its" "filter (\<lambda>p. sp_sale p = s) (sale_payments db') = ps"
proof -
  have "filter (\<lambda>i. si_sale i = s) (sale_items db) = []" "filter (\<lambda>p. sp_sale p = s) (sale_payments db) = []"
    by (intro filter_False; use assms(1-3) in metis)+
  then show "sale_lines db' s = its" "filter (\<lambda>p. sp_sale p = s) (sale_payments db') = ps"
    using assms(4-7) by (simp_all add: sale_lines_def filter_id_conv)
qed

lemma find_sale_new:
  assumes "sales db' = sales db @ [y]" and "sale_id y = next_pk sale_id (sales db)" and "sale_business y = b"
    and "find_sale db' b (sale_id y) = Some s"
  shows "s = y"
proof -
  have "find (\<lambda>x. sale_id x = sale_id y \<and> sale_business x = b) (sales db) = None"
    using next_pk_fresh[of sale_id "sales db"] assms(2) unfolding find_None_iff by (metis imageI)
  then show ?thesis using assms(1,3,4) by (simp add: find_sale_def find_append)
qed

text \<open>C5: voiding a sale takes the checkout back: after a checkout and the void of its sale the stock
  held at every set of keys, what every customer owes and every store credit are as before the
  checkout, the ledger invariant holds, and the only sale added is the voided one.\<close>

theorem void_restores:
  fixes db db' db'' :: "'a pos_db_scheme"
  assumes "complete_sale ord cal business x db = Inr (y, db')" and "y \<notin> set (sales db)" and "stock_inv db"
    and "distinct (map prod_id (products db))"
    and "\<forall>i \<in> set (sale_items db). si_sale i \<in> sale_id ` set (sales db)"
    and "\<forall>p \<in> set (sale_payments db). sp_sale p \<in> sale_id ` set (sales db)"
    and "void_sale ord' business (sale_id y) user reason m db' = Inr db''"
  shows "stock_inv db'' \<and> (\<forall>P. held_stock P db'' = held_stock P db)
    \<and> (\<forall>i. owed db'' i = owed db i) \<and> (\<forall>i. credit_held db'' i = credit_held db i)
    \<and> sales db'' = sales db @ [y\<lparr>sale_status := S_VOIDED, sale_voided_at := Some (clock db'),
         sale_voided_by := upk user, sale_void_reason := take 255 reason\<rparr>]"
proof -
  from complete_sale_new[OF assms(1,2)] obtain s tok salesperson ls priority t clean pt change where
    cart: "checkout_cart ord cal business x s db = Inr (ls, priority, t)"
    and pay: "checkout_payments ord business x s t db = Inr (clean, pt, change)"
    and post: "post_sale cal business x s salesperson tok ls priority t clean pt change db = Inr (y, db')"
    by metis
  note c = checkout_cart_Inr[OF cart] and p = checkout_payments_Inr[OF pay]
  from post_sale_effect[OF post assms(3)] obtain u cost its where
    y: "y = finished_sale (new_sale business x s u salesperson tok priority t pt change
           (fst (next_invoice_number business (cs_branch s) db)) db) t pt cost"
    and e: "sales db' = sales db @ [y]" "sale_items db' = sale_items db @ its"
      "list_all2 (item_matches (stock_place db (biz_id business) (cs_warehouse s)) (biz_id business) (sale_id y)) (zip ls (map snd (st_lines t))) its"
      "\<forall>P. held_stock P db' = held_stock P db - taken_by P its" "stock_inv db'"
      "sale_payments db' = sale_payments db @ map (new_payment cal (biz_id business) y (co_cashier x) db)
        (recorded_payments change clean)"
      "customers db' = customers (settle_customer (cu_id (cs_customer s)) pt db)" "same_rest db db'"
    by metis
  have f: "sale_id y = next_pk sale_id (sales db)" "sale_business y = biz_id business"
    "sale_customer y = cu_id (cs_customer s)" "sale_total y - sale_amount_paid y = credit_amount pt"
    using p(6) by (simp_all add: y finished_sale_def new_sale_def)
  have fresh: "sale_id y \<notin> sale_id ` set (sales db)" unfolding f(1) by (rule next_pk_fresh)
  have "length (map snd (st_lines t)) = length ls" using arg_cong[OF totals_lines(1)[OF c(4)], of length] by simp
  note mc = matched_columns[OF e(3) this]
  have rows: "sale_lines db' (sale_id y) = its"
    "filter (\<lambda>p. sp_sale p = sale_id y) (sale_payments db')
       = map (new_payment cal (biz_id business) y (co_cashier x) db) (recorded_payments change clean)"
    using rows_of_new_sale[OF assms(5,6) fresh e(2) _ e(6)] mc(3) by (auto simp: new_payment_def)
  have given: "0 \<le> credit_amount pt" "0 \<le> store_credit_amount pt"
    using kinds_disjoint(2)[OF p(1), of CASH CUSTOMER_CREDIT] kinds_disjoint(2)[OF p(1), of CASH STORE_CREDIT]
    by (simp_all add: p(3,4))
  have "store_credit_used db' (sale_id y) = (\<Sum>p \<leftarrow> filter (\<lambda>p. pm_kind (sp_method p) = STORE_CREDIT)
      (filter (\<lambda>p. sp_sale p = sale_id y) (sale_payments db')). sp_amount p)"
    by (simp add: store_credit_used_def conj_commute)
  also have "\<dots> = kind_total STORE_CREDIT (recorded_payments change clean)"
    unfolding rows by (simp add: kind_total_def new_payment_def filter_map comp_def)
  also have "\<dots> = store_credit_amount pt" by (simp add: kind_total_def recorded_kind p(4))
  finally have used: "store_credit_used db' (sale_id y) = store_credit_amount pt" .
  have matches: "stock_matches db' it" if it: "it \<in> set its" for it
  proof -
    obtain n parts where n: "n \<in> set ls" "item_matches (stock_place db (biz_id business) (cs_warehouse s)) (biz_id business) (sale_id y) (n, parts) it"
      using matched_item[OF e(3) it] by blast
    have "\<forall>n \<in> set ls. (\<exists>i. find_product db (biz_id business) i = Some (cl_product (nl_cart n)))
      \<and> (nl_customer_fabric n \<or> ga_meter (nl_garment n) = None \<or> is_stocked (cl_product (nl_cart n)))"
      by (rule emap_all[OF c(2)]) (blast dest: normalize_stock)
    then obtain i where i: "find_product db (biz_id business) i = Some (cl_product (nl_cart n))"
      and st: "nl_customer_fabric n \<or> ga_meter (nl_garment n) = None \<or> is_stocked (cl_product (nl_cart n))"
      using n(1) by blast
    have "row_by prod_id (prod_id (cl_product (nl_cart n))) (products db') = Some (cl_product (nl_cart n))"
      using find_row_by[OF assms(4)] i e(8) by (simp add: find_product_def same_rest_def)
    then show ?thesis using n(2) st by (auto simp: stock_matches_def item_matches_def)
  qed
  obtain db1 where v: "efold (void_item business y user reason)
       (filter (\<lambda>x. si_business x = sale_business y) (sale_lines db' (sale_id y))) db' = Inr db1"
    "db'' = log_audit ''sale.voided'' ''sales'' (''Sale '' @ sale_invoice_number y @ '' voided: '' @ reason)
           (update_sale (y\<lparr>sale_status := S_VOIDED, sale_voided_at := Some (clock db'), sale_voided_by := upk user,
              sale_void_reason := take 255 reason\<rparr>)
             (undo_settlement (sale_customer y) (sale_total y - sale_amount_paid y)
               (store_credit_used db' (sale_id y)) db1))"
    by (rule void_sale_Inr[OF assms(7)]) (use find_sale_new[OF e(1) f(1,2)] in blast)
  have mine: "filter (\<lambda>x. si_business x = sale_business y) its = its"
    using mc(3) f(2) by (simp add: filter_id_conv)
  have "\<forall>it \<in> set its. stock_matches db' it \<and> si_business it = biz_id business"
    using matches mc(3) by blast
  note w = void_items_effect[OF v(1)[unfolded rows mine] e(5) this]
  have d: "same_but_stock db' db1" using w by blast
  have bal: "owed db1 i = owed (settle_customer (cu_id (cs_customer s)) pt db) i"
    "credit_held db1 i = credit_held (settle_customer (cu_id (cs_customer s)) pt db) i" for i
    using same_but_stockD(3)[OF d] e(7) by (simp_all add: owed_def credit_held_def)
  have books: "owed db'' i = owed (undo_settlement (cu_id (cs_customer s)) (credit_amount pt) (store_credit_amount pt) db1) i"
    "credit_held db'' i = credit_held (undo_settlement (cu_id (cs_customer s)) (credit_amount pt) (store_credit_amount pt) db1) i"
    for i by (simp_all add: v(2) owed_def credit_held_def used f(3,4))
  have opt: "map_option (\<lambda>b. b - k) (map_option (\<lambda>b. b + k) v) = v" "map_option (\<lambda>b. b + k) (map_option (\<lambda>b. b - k) v) = v"
    for k and v :: "milli option" by (cases v; simp)+
  have "owed db'' i = owed db i" "credit_held db'' i = credit_held db i" for i
    unfolding books undo_settlement_balances[OF given] bal settle_customer_balances[OF given] using opt by simp_all
  moreover have "levels db'' = levels db1" "movements db'' = movements db1" by (simp_all add: v(2))
  then have "stock_inv db''" "held_stock P db'' = held_stock P db" for P
    using w e(4) by (simp_all add: stock_inv_def held_stock_def)
  moreover have "sales db'' = sales db @ [y\<lparr>sale_status := S_VOIDED, sale_voided_at := Some (clock db'),
      sale_voided_by := upk user, sale_void_reason := take 255 reason\<rparr>]"
    using save_last_row[of sale_id y "sales db"] f(1) same_but_stockD(4)[OF d] e(1) by (simp add: v(2))
  ultimately show ?thesis by blast
qed

lemma shop_voided:
  "case shop_post of Inl _ \<Rightarrow> False
   | Inr (y, v) \<Rightarrow> (case void_sale (\<lambda>xs. xs) sample_business (sale_id y) (Some sample_user) ''Wrong goods'' None v of
       Inl _ \<Rightarrow> False | Inr w \<Rightarrow> map lv_quantity (levels w) = [5000])"
  by code_simp

lemma shop_sold_and_voided:
  obtains y v w where "complete_sale (\<lambda>xs. xs) sample_calendar sample_business sample_checkout sample_shop = Inr (y, v)"
    "void_sale (\<lambda>xs. xs) sample_business (sale_id y) (Some sample_user) ''Wrong goods'' None v = Inr w"
    "map lv_quantity (levels w) = [5000]"
proof -
  obtain y v where p: "shop_post = Inr (y, v)" using shop_posted by (auto split: sum.splits)
  obtain w where "void_sale (\<lambda>xs. xs) sample_business (sale_id y) (Some sample_user) ''Wrong goods'' None v = Inr w"
    "map lv_quantity (levels w) = [5000]"
    using shop_voided unfolding p sum.case prod.case
    by (cases "void_sale (\<lambda>xs. xs) sample_business (sale_id y) (Some sample_user) ''Wrong goods'' None v")
      (simp_all del: map_eq_Cons_conv)
  then show thesis using that shop_checkout p by simp
qed

theorem void_restores_witness:
  "\<exists>y v w. complete_sale (\<lambda>xs. xs) sample_calendar sample_business sample_checkout sample_shop = Inr (y, v)
     \<and> void_sale (\<lambda>xs. xs) sample_business (sale_id y) (Some sample_user) ''Wrong goods'' None v = Inr w
     \<and> owed w 4 = owed sample_shop 4 \<and> map lv_quantity (levels w) = [5000]"
proof -
  obtain y v w where v: "complete_sale (\<lambda>xs. xs) sample_calendar sample_business sample_checkout sample_shop = Inr (y, v)"
    and w: "void_sale (\<lambda>xs. xs) sample_business (sale_id y) (Some sample_user) ''Wrong goods'' None v = Inr w"
      "map lv_quantity (levels w) = [5000]"
    by (rule shop_sold_and_voided)
  have "y \<notin> set (sales sample_shop)" "distinct (map prod_id (products sample_shop))"
    by (simp add: sample_shop_tables) code_simp
  from void_restores[OF v this(1) sample_shop_tables(5) this(2) _ _ w(1)] show ?thesis
    using v w by (auto simp: sample_shop_tables)
qed

end
