(* ===== verification/Guards.thy ===== *)
theory Guards
  imports Pos_Access
begin

text \<open>
  The elimination rules of \<open>returns\<close> for services whose early return is \<open>deny_pos_scope\<close>.
\<close>

lemma guard_deny:
  "((case v of None \<Rightarrow> deny_pos_scope ord db business user perm m | Some a \<Rightarrow> f a) = Inr x)
     = (\<exists>a. v = Some a \<and> f a = Inr x)"
  "((if c then deny_pos_scope ord db business user perm m else r) = Inr x) = (\<not> c \<and> r = Inr x)"
  "((if c then r else deny_pos_scope ord db business user perm m) = Inr x) = (c \<and> r = Inr x)"
  by (cases v) (simp_all add: deny_pos_scope_Inl)

lemmas guards = returns guard_deny

end
