(* ===== verification/Sale_Runs.thy ===== *)
theory Sale_Runs
  imports Sale_Operation_Laws Guards
begin

text \<open>
  The books of the sales under every sequence of operations: checkouts, later payments, voids,
  returns, draft deletions, delivery and fabric updates, collections and held carts.
\<close>

section \<open>The books\<close>

definition invoice_key :: "sale \<Rightarrow> id \<times> string" where
  "invoice_key s = (sale_business s, sale_invoice_number s)"

definition token_keys :: "sale list \<Rightarrow> (id \<times> string) list" where
  "token_keys ss =
     map (\<lambda>s. (sale_business s, the (sale_checkout_token s))) (filter (\<lambda>s. sale_checkout_token s \<noteq> None) ss)"

definition item_bounds :: "sale_item \<Rightarrow> bool" where
  "item_bounds it = (0 \<le> si_returned it \<and> si_returned it \<le> si_quantity it)"

definition voids_final :: "sale list \<Rightarrow> sale_return list \<Rightarrow> bool" where
  "voids_final ss rs =
     list_all (\<lambda>s. sale_status s = S_VOIDED \<longrightarrow> filter (\<lambda>r. sr_sale r = sale_id s) rs = []) ss"

definition books_ok :: "sale list \<Rightarrow> sale_item list \<Rightarrow> sale_payment list \<Rightarrow> sale_return list \<Rightarrow> bool" where
  "books_ok ss its ps rs =
     (distinct (map sale_id ss) \<and> distinct (map si_id its) \<and> distinct (map invoice_key ss) \<and> distinct (token_keys ss)
      \<and> list_all item_bounds its
      \<and> set (map si_sale its) \<subseteq> set (map sale_id ss) \<and> set (map sp_sale ps) \<subseteq> set (map sale_id ss)
      \<and> voids_final ss rs)"

definition sale_books :: "'a pos_db_scheme \<Rightarrow> bool" where
  "sale_books db = (stock_inv db \<and> books_ok (sales db) (sale_items db) (sale_payments db) (sale_returns db))"

lemma token_keys_simps [simp]:
  "token_keys [] = []"
  "token_keys (s # ss) =
     (case sale_checkout_token s of None \<Rightarrow> token_keys ss | Some t \<Rightarrow> (sale_business s, t) # token_keys ss)"
  "token_keys (ss @ ts) = token_keys ss @ token_keys ts"
  by (auto simp: token_keys_def split: option.splits)

lemma books_new_sale:
  assumes "books_ok ss its ps rs" and "sale_id y = next_pk sale_id ss" and "invoice_key y \<notin> set (map invoice_key ss)"
    and "\<And>t. sale_checkout_token y = Some t \<Longrightarrow> (sale_business y, t) \<notin> set (token_keys ss)"
    and "sale_status y \<noteq> S_VOIDED" and "distinct (map si_id (its @ its'))" and "list_all item_bounds its'"
    and "set (map si_sale its') \<subseteq> {sale_id y}" and "set (map sp_sale ps') \<subseteq> {sale_id y}"
  shows "books_ok (ss @ [y]) (its @ its') (ps @ ps') rs"
proof -
  have "sale_id y \<notin> set (map sale_id ss)" using next_pk_fresh[of sale_id ss] assms(2) by simp
  moreover have "distinct (token_keys (ss @ [y]))"
    using assms(1,4) by (cases "sale_checkout_token y") (auto simp: books_ok_def)
  ultimately show ?thesis
    using assms(1,3,5-9) unfolding books_ok_def voids_final_def list_all_append map_append distinct_append set_append
    by auto
qed

text \<open>Saving the row of a sale that keeps its keys.\<close>

definition same_keys :: "sale \<Rightarrow> sale \<Rightarrow> bool" where
  "same_keys s s' =
     (sale_id s' = sale_id s \<and> sale_business s' = sale_business s \<and> sale_invoice_number s' = sale_invoice_number s
      \<and> sale_checkout_token s' = sale_checkout_token s)"

lemma token_keys_save:
  assumes "same_keys s s'" and "\<forall>x \<in> set ss. sale_id x = sale_id s \<longrightarrow> x = s"
  shows "token_keys (save_row sale_id s' ss) = token_keys ss"
  using assms(2) by (induction ss) (use assms(1) in \<open>auto simp: save_row_def same_keys_def split: option.splits\<close>)

lemma books_save_sale:
  assumes "books_ok ss its ps rs" and "s \<in> set ss" and "same_keys s s'"
    and "sale_status s' = S_VOIDED \<Longrightarrow> filter (\<lambda>r. sr_sale r = sale_id s) rs = []"
  shows "books_ok (save_row sale_id s' ss) its ps rs"
proof -
  have one: "\<forall>x \<in> set ss. sale_id x = sale_id s \<longrightarrow> x = s"
    using assms(1,2) by (metis books_ok_def distinct_map inj_onD)
  have key: "sale_id s' = sale_id s" using assms(3) by (simp add: same_keys_def)
  have "map invoice_key (save_row sale_id s' ss) = map invoice_key ss"
    using one assms(3) by (intro save_row_map_other) (auto simp: same_keys_def invoice_key_def)
  moreover have "voids_final (save_row sale_id s' ss) rs"
    using assms(1,4) key set_save_row[of sale_id s' ss] by (auto simp: books_ok_def voids_final_def list_all_iff)
  ultimately show ?thesis
    using assms(1) token_keys_save[OF assms(3) one] by (simp add: books_ok_def)
qed

lemma books_items:
  assumes "books_ok ss its ps rs" and "map si_id its' = map si_id its" and "map si_sale its' = map si_sale its"
    and "list_all item_bounds its'"
  shows "books_ok ss its' ps rs"
  using assms by (simp add: books_ok_def)

lemma books_payment:
  "\<lbrakk>books_ok ss its ps rs; map sp_sale ps' = map sp_sale ps @ [i]; i \<in> set (map sale_id ss)\<rbrakk> \<Longrightarrow> books_ok ss its ps' rs"
  by (auto simp: books_ok_def)

lemma books_returns: "books_ok ss its ps rs \<Longrightarrow> voids_final ss rs' \<Longrightarrow> books_ok ss its ps rs'"
  by (simp add: books_ok_def)

lemma token_keys_filter:
  "set (token_keys (filter Q ss)) \<subseteq> set (token_keys ss)"
  "distinct (token_keys ss) \<Longrightarrow> distinct (token_keys (filter Q ss))"
proof -
  show sub: "set (token_keys (filter Q ss)) \<subseteq> set (token_keys ss)" for ss
    by (induction ss) (auto split: option.splits)
  show "distinct (token_keys ss) \<Longrightarrow> distinct (token_keys (filter Q ss))"
    by (induction ss) (use sub in \<open>fastforce split: option.splits\<close>)+
qed

lemma books_delete:
  assumes "books_ok ss its ps rs" and "\<not> list_ex (\<lambda>p. sp_sale p = i) ps"
  shows "books_ok (filter (\<lambda>x. sale_id x \<noteq> i) ss) (filter (\<lambda>x. si_sale x \<noteq> i) its) ps rs"
proof -
  have "sp_sale p \<in> sale_id ` {x \<in> set ss. sale_id x \<noteq> i}" if "p \<in> set ps" for p
    using assms that unfolding books_ok_def list_ex_iff by (fastforce simp: image_iff)
  then show ?thesis
    using assms(1)
    by (auto simp: books_ok_def voids_final_def list_all_iff distinct_map_filter token_keys_filter(2))
qed

lemma sale_books_same:
  "\<lbrakk>sale_books db; levels db' = levels db; movements db' = movements db; sales db' = sales db;
    sale_items db' = sale_items db; sale_payments db' = sale_payments db; sale_returns db' = sale_returns db\<rbrakk> \<Longrightarrow>
   sale_books db'"
  by (simp add: sale_books_def stock_inv_def)

lemma books_members:
  assumes "sale_books db"
  shows "\<forall>i \<in> set (sale_items db). si_sale i \<in> sale_id ` set (sales db)"
    "\<forall>p \<in> set (sale_payments db). sp_sale p \<in> sale_id ` set (sales db)"
  using assms by (auto simp: sale_books_def books_ok_def)

section \<open>Steps that only touch one table\<close>

lemma guard_scope:
  assumes "reorders ord"
  shows "((if c then deny_scope ord db business user key perm m else r) = Inr x) = (\<not> c \<and> r = Inr x)"
    "((if c then r else deny_scope ord db business user key perm m) = Inr x) = (c \<and> r = Inr x)"
  by (simp_all add: deny_scope_Inl[OF assms])

lemma find_sale_Some:
  "find_sale db b i = Some s \<Longrightarrow> s \<in> set (sales db) \<and> sale_id s = i \<and> sale_business s = b"
  by (auto simp: find_sale_def dest: find_Some_mem)

lemma locked_sale_Inr:
  "locked_sale_for_write ord business i user perm m db = Inr (s, c) \<Longrightarrow> find_sale db (biz_id business) i = Some s"
  by (auto simp: locked_sale_for_write_def result_simps deny_case)

lemma sale_books_update:
  fixes db db' :: "'a pos_db_scheme"
  assumes "sale_books db" and "s \<in> set (sales db)" and "same_keys s s'"
    and "sale_status s' = S_VOIDED \<Longrightarrow> sale_returns_of db (sale_id s) = []"
    and "stock_inv db'" "sales db' = save_row sale_id s' (sales db)" "sale_items db' = sale_items db"
      "sale_payments db' = sale_payments db" "sale_returns db' = sale_returns db"
  shows "sale_books db'"
  using books_save_sale[of "sales db" "sale_items db" "sale_payments db" "sale_returns db" s s'] assms
  by (simp add: sale_books_def sale_returns_of_def)

lemma guard_amount:
  "((case v of AmountNotFinite \<Rightarrow> Inl e | Amount r \<Rightarrow> f r) = Inr x) = (\<exists>r. v = Amount r \<and> f r = Inr x)"
  by (cases v) simp_all

lemma add_payment_books:
  assumes "add_sale_payment ord cal business i input method user date reference memo shift m db = Inr db'"
    and "sale_books db"
  shows "sale_books db'"
proof -
  obtain s amount where s: "find_sale db (biz_id business) i = Some s"
    and p: "map sp_sale (sale_payments db') = map sp_sale (sale_payments db) @ [sale_id s]"
    and status: "sale_status s \<noteq> S_VOIDED"
    and db': "sales db' = save_row sale_id (settled_sale s amount (sale_returns_of db (sale_id s))) (sales db)"
      "levels db' = levels db" "movements db' = movements db" "sale_items db' = sale_items db"
      "sale_returns db' = sale_returns db"
    using assms(1) unfolding add_sale_payment_def
    by (auto simp: guards guard_amount apply_balance_change_def dest!: locked_sale_Inr)
  note mem = find_sale_Some[OF s]
  let ?s = "settled_sale s amount (sale_returns_of db (sale_id s))"
  have "books_ok (sales db) (sale_items db) (sale_payments db') (sale_returns db)"
    by (rule books_payment[OF _ p]) (use assms(2) mem in \<open>auto simp: sale_books_def\<close>)
  then have "books_ok (save_row sale_id ?s (sales db)) (sale_items db) (sale_payments db') (sale_returns db)"
  proof (rule books_save_sale)
    show "same_keys s ?s" by (simp add: same_keys_def settled_sale_def Let_def)
    show "sale_status ?s = S_VOIDED \<Longrightarrow> filter (\<lambda>r. sr_sale r = sale_id s) (sale_returns db) = []"
      using status by (auto simp: settled_sale_def Let_def split: if_splits)
  qed (use mem in simp)
  then show ?thesis using assms(2) db' by (simp add: sale_books_def stock_inv_def)
qed

lemma delivery_books:
  assumes "set_delivery_status ord business i status user m db = Inr db'" and "sale_books db"
  shows "sale_books db'"
proof -
  obtain s d where s: "find_sale db (biz_id business) i = Some s" and status: "sale_status s \<noteq> S_VOIDED"
    and db': "db' = log_audit ''sale.delivery_status'' ''sales''
                (''Delivery status of '' @ sale_invoice_number s @ '' changed.'')
                (update_sale (s\<lparr>sale_delivery_status := d\<rparr>) db)"
    using assms(1) unfolding set_delivery_status_def by (auto simp: guards dest!: locked_sale_Inr)
  show ?thesis
    by (rule sale_books_update[OF assms(2), of s "s\<lparr>sale_delivery_status := d\<rparr>"])
      (use find_sale_Some[OF s] status assms(2) in \<open>simp_all add: db' same_keys_def sale_books_def stock_inv_def\<close>)
qed

lemma save_item_bounds:
  "list_all item_bounds its \<Longrightarrow> item_bounds it \<Longrightarrow> list_all item_bounds (save_row si_id it its)"
  using set_save_row[of si_id it its] by (auto simp: list_all_iff)

lemma fabric_books:
  assumes "update_actual_fabric ord business i fabric user m db = Inr db'" and "sale_books db" and "reorders ord"
  shows "sale_books db'"
proof -
  obtain it amount where it: "it \<in> set (sale_items db)"
    and db': "db' = log_audit ''sale.fabric_actual_updated'' ''sales'' (''Actual fabric for '' @ si_name it @ '' updated.'')
              (db\<lparr>sale_items := save_row si_id (it\<lparr>si_actual_fabric := amount\<rparr>) (sale_items db)\<rparr>)"
    using assms(1) unfolding update_actual_fabric_def
    by (auto simp: guards guard_scope[OF assms(3)] dest!: find_Some_mem)
  let ?it = "it\<lparr>si_actual_fabric := amount\<rparr>"
  have ok: "books_ok (sales db) (sale_items db) (sale_payments db) (sale_returns db)"
    using assms(2) by (simp add: sale_books_def)
  have "distinct (map si_id (sale_items db))" "list_all item_bounds (sale_items db)" using ok by (auto simp: books_ok_def)
  then have "map si_sale (save_row si_id ?it (sale_items db)) = map si_sale (sale_items db)"
    using it by (intro save_row_map_other) (auto simp: distinct_map dest: inj_onD)
  moreover have "list_all item_bounds (save_row si_id ?it (sale_items db))"
    using \<open>list_all item_bounds (sale_items db)\<close> it
    by (intro save_item_bounds) (auto simp: list_all_iff item_bounds_def)
  ultimately have "books_ok (sales db) (save_row si_id ?it (sale_items db)) (sale_payments db) (sale_returns db)"
    using books_items[OF ok] by simp
  then show ?thesis using assms(2) by (simp add: sale_books_def db' stock_inv_def)
qed

lemma delete_sale_books:
  assumes "delete_sale ord business i user m db = Inr db'" and "sale_books db"
  shows "sale_books db'"
proof -
  obtain s :: sale where "\<not> list_ex (\<lambda>p. sp_sale p = sale_id s) (sale_payments db)"
    and "sales db' = filter (\<lambda>x. sale_id x \<noteq> sale_id s) (sales db)"
      "sale_items db' = filter (\<lambda>x. si_sale x \<noteq> sale_id s) (sale_items db)"
      "levels db' = levels db" "movements db' = movements db" "sale_payments db' = sale_payments db"
      "sale_returns db' = sale_returns db"
    using assms(1) unfolding delete_sale_def
    by (auto simp: guards)
  then show ?thesis
    using books_delete[of "sales db" "sale_items db" "sale_payments db" "sale_returns db" "sale_id s"] assms(2)
    by (simp add: sale_books_def stock_inv_def)
qed

lemma collection_books:
  assumes "record_customer_payment ord business i amount method user reference memo shift m db = Inr db'"
    and "sale_books db" and "reorders ord"
  shows "sale_books db'"
proof -
  obtain msg cps cs where "db' = log_audit ''customer.payment'' ''customers'' msg
      (db\<lparr>customer_payments := cps, customers := cs\<rparr>)"
    using assms(1) unfolding record_customer_payment_def
    by (auto simp: guards guard_scope[OF assms(3)] split: option.splits)
  then show ?thesis by (intro sale_books_same[OF assms(2)]) simp_all
qed

lemma held_books:
  "hold_sale ord business branch cashier cart label m db = Inr db' \<Longrightarrow> sale_books db \<Longrightarrow> sale_books db'"
  "delete_held_sale ord business held cashier m db = Inr (r, db') \<Longrightarrow> sale_books db \<Longrightarrow> sale_books db'"
proof -
  assume "hold_sale ord business branch cashier cart label m db = Inr db'" and db: "sale_books db"
  then obtain hs where "db' = db\<lparr>held_sales := hs\<rparr>"
    unfolding hold_sale_def by (auto simp: guards)
  then show "sale_books db'" by (intro sale_books_same[OF db]) simp_all
next
  assume "delete_held_sale ord business held cashier m db = Inr (r, db')" and db: "sale_books db"
  then obtain hs where "db' = db\<lparr>held_sales := hs\<rparr> \<or> db' = db"
    unfolding delete_held_sale_def by (auto simp: ebind_eq_Inr guard_let guard_done split: option.splits)
  then show "sale_books db'" by (auto intro: sale_books_same[OF db])
qed

section \<open>Voids\<close>

lemma void_item_keeps:
  fixes db db' :: "'a pos_db_scheme"
  assumes "void_item business s user reason it db = Inr db'" and "stock_inv db"
  shows "stock_inv db' \<and> same_but_stock db db' \<and> sale_items db' = sale_items db"
proof -
  have "db' = db \<or> (\<exists>w p v t. record_movement business w p v
      (return_movement ''Void'' (sale_invoice_number s) it (inventory_quantity it) user t) db = Inr db')"
    using assms(1) by (auto simp: void_item_def result_simps split: if_splits)
  then show ?thesis
  proof
    assume "db' = db"
    then show ?thesis using assms(2) same_but_stock_refl by simp
  next
    assume "\<exists>w p v t. record_movement business w p v
      (return_movement ''Void'' (sale_invoice_number s) it (inventory_quantity it) user t) db = Inr db'"
    then show ?thesis
      using record_movement_inv[OF _ assms(2)] same_but_stock_move by (fastforce simp: return_movement_def)
  qed
qed

lemma void_items_keep:
  fixes db db' :: "'a pos_db_scheme"
  shows "efold (void_item business s user reason) its db = Inr db' \<Longrightarrow> stock_inv db \<Longrightarrow>
    stock_inv db' \<and> same_but_stock db db' \<and> sale_items db' = sale_items db"
proof (induction its arbitrary: db)
  case Nil
  then show ?case using same_but_stock_refl by simp
next
  case (Cons it its)
  then obtain u where u: "void_item business s user reason it db = Inr u"
    "efold (void_item business s user reason) its u = Inr db'" by (auto simp: result_simps)
  note a = void_item_keeps[OF u(1) Cons.prems(2)]
  then show ?case using Cons.IH[OF u(2)] same_but_stock_trans[of db u db'] by simp
qed

lemma void_books:
  fixes db db' :: "'a pos_db_scheme"
  assumes "void_sale ord business i user reason m db = Inr db'" and "sale_books db"
  shows "sale_books db'"
proof -
  from void_sale_Inr[OF assms(1)] obtain s db1 where s: "find_sale db (biz_id business) i = Some s"
    "sale_returns_of db (sale_id s) = []"
    and fold: "efold (void_item business s user reason)
       (filter (\<lambda>x. si_business x = sale_business s) (sale_lines db (sale_id s))) db = Inr db1"
    and db': "db' = log_audit ''sale.voided'' ''sales'' (''Sale '' @ sale_invoice_number s @ '' voided: '' @ reason)
           (update_sale (s\<lparr>sale_status := S_VOIDED, sale_voided_at := Some (clock db), sale_voided_by := upk user,
              sale_void_reason := take 255 reason\<rparr>)
             (undo_settlement (sale_customer s) (sale_total s - sale_amount_paid s)
               (store_credit_used db (sale_id s)) db1))"
    by metis
  have "stock_inv db" using assms(2) by (simp add: sale_books_def)
  note v = void_items_keep[OF fold this]
  note d = same_but_stockD[of db db1]
  show ?thesis
    by (rule sale_books_update[OF assms(2), of s "s\<lparr>sale_status := S_VOIDED, sale_voided_at := Some (clock db),
        sale_voided_by := upk user, sale_void_reason := take 255 reason\<rparr>"])
      (use find_sale_Some[OF s(1)] s(2) v d in \<open>simp_all add: db' same_keys_def stock_inv_def\<close>)
qed

section \<open>Returns\<close>

text \<open>What stays true of the rows while the entries of a return are worked off.\<close>

definition returning :: "'a pos_db_scheme \<Rightarrow> 'a return_state \<Rightarrow> bool" where
  "returning db0 st =
     (case st of (db, _, returned) \<Rightarrow>
        stock_inv db \<and> map si_id (sale_items db) = map si_id (sale_items db0)
        \<and> map si_sale (sale_items db) = map si_sale (sale_items db0)
        \<and> map si_quantity (sale_items db) = map si_quantity (sale_items db0)
        \<and> list_all item_bounds (sale_items db) \<and> (\<forall>k. 0 \<le> returned k)
        \<and> sales db = sales db0 \<and> sale_payments db = sale_payments db0 \<and> sale_returns db = sale_returns db0)"

lemma same_quantity:
  assumes "map f ys = map f xs" and "map g ys = map g xs" and "distinct (map f xs)" and "x \<in> set xs" and "y \<in> set ys"
    and "f y = f x"
  shows "g y = g x"
  using assms
proof (induction xs arbitrary: ys)
  case (Cons a xs)
  then obtain b bs where ys: "ys = b # bs" "f b = f a" "g b = g a" "map f bs = map f xs" "map g bs = map g xs" by (cases ys) auto
  have "f ` set bs = f ` set xs" using ys(4) by (metis list.set_map)
  then show ?case using Cons ys by (metis (no_types, lifting) distinct.simps(2) imageI list.set_map list.simps(9) set_ConsD)
qed simp

lemma return_line_keeps:
  fixes db0 :: "'a pos_db_scheme"
  assumes "return_line business s r restock user (e, it) st = Inr st'" and "returning db0 st"
    and "it \<in> set (sale_items db0)" and "distinct (map si_id (sale_items db0))"
  shows "returning db0 st'"
proof (cases "re_quantity e \<le> 0")
  case True
  then show ?thesis using assms(1,2) by (simp add: return_line_def Let_def split: prod.splits)
next
  case False
  obtain db f ret where st: "st = (db, f, ret)" by (cases st)
  note k = assms(2)[unfolded st returning_def prod.case]
  let ?i = "si_id it" and ?q = "re_quantity e"
  from assms(1) False obtain w p v c refund stk db2 f' where bound: "\<not> dec (si_quantity it) - ret ?i < ?q"
    and st': "st' = (db2, f', ret(?i := ret ?i + ?q))"
    and move: "(if c then record_movement business w p v (return_args r it ?q user)
          (mark_returned business r it ?q (ret ?i + ?q) refund stk db)
        else Inr (mark_returned business r it ?q (ret ?i + ?q) refund stk db)) = Inr db2"
    unfolding return_line_def st prod.case Let_def if_not_P[OF False] guards by blast
  let ?db1 = "mark_returned business r it ?q (ret ?i + ?q) refund stk db"
  let ?its = "map (\<lambda>x. if si_id x = ?i then x\<lparr>si_returned := qty (ret ?i + ?q)\<rparr> else x) (sale_items db)"
  have db1: "stock_inv ?db1" "sale_items ?db1 = ?its" "sales ?db1 = sales db" "sale_payments ?db1 = sale_payments db"
    "sale_returns ?db1 = sale_returns db"
    using k by (simp_all add: mark_returned_def stock_inv_def)
  have after: "stock_inv db2 \<and> sale_items db2 = ?its \<and> sales db2 = sales db \<and> sale_payments db2 = sale_payments db
      \<and> sale_returns db2 = sale_returns db"
  proof (cases c)
    case True
    have "ma_type (return_args r it ?q user) = SALE_RETURN" by (simp add: return_args_def return_movement_def)
    then show ?thesis
      using move True record_movement_inv[of business w p v _ ?db1 db2] same_but_stock_move[of business w p v _ ?db1 db2]
        same_but_stockD[of ?db1 db2] db1 by simp
  next
    case False
    then show ?thesis using move db1 by simp
  qed
  have between: "0 \<le> qty (ret ?i + ?q) \<and> qty (ret ?i + ?q) \<le> si_quantity it"
    using bound False k by (intro qty_between) auto
  have "item_bounds x" if x: "x \<in> set ?its" for x
  proof -
    obtain y where y: "y \<in> set (sale_items db)" "x = (if si_id y = ?i then y\<lparr>si_returned := qty (ret ?i + ?q)\<rparr> else y)"
      using x by auto
    have "si_quantity y = si_quantity it" if "si_id y = ?i"
      using same_quantity[OF _ _ assms(4,3) y(1) that] k by blast
    then show ?thesis using y between k by (auto simp: item_bounds_def list_all_iff)
  qed
  then have "list_all item_bounds ?its" by (simp only: list_all_iff) blast
  moreover have "map si_id ?its = map si_id (sale_items db)" "map si_sale ?its = map si_sale (sale_items db)"
    "map si_quantity ?its = map si_quantity (sale_items db)" by simp_all
  moreover have "0 \<le> (ret(?i := ret ?i + ?q)) k" for k using k False by simp
  ultimately show ?thesis using k after by (simp add: st' returning_def del: map_map list.map_comp list.pred_map fun_upd_apply)
qed

lemma return_lines_keep:
  fixes db0 :: "'a pos_db_scheme"
  assumes "\<forall>it \<in> set its. it \<in> set (sale_items db0)" and "distinct (map si_id (sale_items db0))"
  shows "efold (return_line business s r restock user) (zip es its) st = Inr st' \<Longrightarrow> returning db0 st \<Longrightarrow> returning db0 st'"
  using assms(1)
proof (induction es its arbitrary: st rule: list_induct2')
  case (4 e es it its)
  from "4.prems"(1) obtain u where u: "return_line business s r restock user (e, it) st = Inr u"
    "efold (return_line business s r restock user) (zip es its) u = Inr st'"
    by (simp only: zip_Cons_Cons efold.simps ebind_eq_Inr) blast
  then show ?case using "4.IH"[OF u(2)] return_line_keeps[OF u(1) "4.prems"(2) _ assms(2)] "4.prems"(3) by simp
qed simp_all

lemma refund_customer_fields [simp]:
  "sales (refund_customer k c f db) = sales db" "levels (refund_customer k c f db) = levels db"
  "movements (refund_customer k c f db) = movements db" "sale_items (refund_customer k c f db) = sale_items db"
  "sale_payments (refund_customer k c f db) = sale_payments db" "sale_returns (refund_customer k c f db) = sale_returns db"
  by (simp_all add: refund_customer_def apply_balance_change_def apply_store_credit_change_def Let_def split: refund_method.split)

lemma requested_lines_mem:
  assumes "requested_lines db s es = Inr its"
  shows "\<forall>it \<in> set its. it \<in> set (sale_items db) \<and> si_sale it = sale_id s"
proof -
  obtain ks where "emap (\<lambda>i. case find_line db s i of
      Some it \<Rightarrow> Inr it | None \<Rightarrow> Inl (SaleError ''Return item does not belong to this sale.'')) ks = Inr its"
    using assms by (auto simp: requested_lines_def result_simps)
  then show ?thesis
    by (rule emap_all) (auto simp: find_line_def dest!: find_Some_mem split: option.splits)
qed

lemma return_checks_Inr:
  "return_checks ord business s c es k user shift db = Inr (rm, sh, its) \<Longrightarrow>
     sale_status s \<noteq> S_VOIDED \<and> es \<noteq> [] \<and> requested_lines db s es = Inr its"
  unfolding return_checks_def by (auto simp: guards)

lemma process_return_Inr:
  fixes db db' :: "'a pos_db_scheme"
  assumes "process_return ord business i es k user reason restock shift m db = Inr db'"
  obtains s rm sh its r db2 refund ret db4 where
    "find_sale db (biz_id business) i = Some s" "sale_status s \<noteq> S_VOIDED" "requested_lines db s es = Inr its"
    "r = new_return business s rm user reason restock sh db"
    "efold (return_line business s r restock user) (zip es its)
       (db\<lparr>sale_returns := sale_returns db @ [r]\<rparr>, 0,
        \<lambda>k. case find_line db s k of Some it \<Rightarrow> dec (si_returned it) | None \<Rightarrow> 0) = Inr (db2, refund, ret)"
    "0 < refund"
    "db4 = refund_customer rm (sale_customer s) refund
       (db2\<lparr>sale_returns := save_row sr_id (r\<lparr>sr_refund_amount := refund\<rparr>) (sale_returns db2)\<rparr>)"
    "db' = log_audit ''sale.returned'' ''sales'' (''Return '' @ sr_number r @ '' for invoice '' @ sale_invoice_number s)
       (update_sale (s\<lparr>sale_status := returned_status db4 (sale_id s)\<rparr>) db4)"
proof -
  from assms obtain s c where locked: "locked_sale_for_write ord business i user ''sales.refund'' m db = Inr (s, c)"
    and rest: "ebind (return_checks ord business s c es k user shift db) (\<lambda>(rm, sh, its).
     let r = new_return business s rm user reason restock sh db;
         db1 = db\<lparr>sale_returns := sale_returns db @ [r]\<rparr>
     in ebind (efold (return_line business s r restock user) (zip es its)
                (db1, 0, \<lambda>k. case find_line db s k of Some it \<Rightarrow> dec (si_returned it) | None \<Rightarrow> 0))
          (\<lambda>(db2, refund, _).
        if refund \<le> 0 then Inl (SaleError ''Nothing to return.'')
        else
          let db3 = db2\<lparr>sale_returns := save_row sr_id (r\<lparr>sr_refund_amount := refund\<rparr>) (sale_returns db2)\<rparr>;
              db4 = refund_customer rm (sale_customer s) refund db3
          in Inr (log_audit ''sale.returned'' ''sales'' (''Return '' @ sr_number r @ '' for invoice '' @ sale_invoice_number s)
               (update_sale (s\<lparr>sale_status := returned_status db4 (sale_id s)\<rparr>) db4)))) = Inr db'"
    unfolding process_return_def ebind_eq_Inr split_paired_Ex prod.case by blast
  from rest obtain rm sh its db2 refund ret where
    checks: "return_checks ord business s c es k user shift db = Inr (rm, sh, its)"
    and fold: "efold (return_line business s (new_return business s rm user reason restock sh db) restock user) (zip es its)
       (db\<lparr>sale_returns := sale_returns db @ [new_return business s rm user reason restock sh db]\<rparr>, 0,
        \<lambda>k. case find_line db s k of Some it \<Rightarrow> dec (si_returned it) | None \<Rightarrow> 0) = Inr (db2, refund, ret)"
    and "0 < refund" and
    "(let r = new_return business s rm user reason restock sh db;
          db3 = db2\<lparr>sale_returns := save_row sr_id (r\<lparr>sr_refund_amount := refund\<rparr>) (sale_returns db2)\<rparr>;
              db4 = refund_customer rm (sale_customer s) refund db3
          in log_audit ''sale.returned'' ''sales'' (''Return '' @ sr_number r @ '' for invoice '' @ sale_invoice_number s)
               (update_sale (s\<lparr>sale_status := returned_status db4 (sale_id s)\<rparr>) db4)) = db'"
    unfolding ebind_eq_Inr Let_def split_paired_Ex prod.case guard_if guard_done not_le by blast
  then show thesis
    using that[OF locked_sale_Inr[OF locked] _ _ refl fold _ refl] return_checks_Inr[OF checks]
    by (simp add: Let_def)
qed

lemma return_books:
  fixes db db' :: "'a pos_db_scheme"
  assumes "process_return ord business i es k user reason restock shift m db = Inr db'" and "sale_books db"
  shows "sale_books db'"
proof -
  from process_return_Inr[OF assms(1)] obtain s rm sh its r db2 refund ret db4 where
    s: "find_sale db (biz_id business) i = Some s" "sale_status s \<noteq> S_VOIDED" "requested_lines db s es = Inr its"
    and r: "r = new_return business s rm user reason restock sh db"
    and fold: "efold (return_line business s r restock user) (zip es its)
       (db\<lparr>sale_returns := sale_returns db @ [r]\<rparr>, 0,
        \<lambda>k. case find_line db s k of Some it \<Rightarrow> dec (si_returned it) | None \<Rightarrow> 0) = Inr (db2, refund, ret)"
    and db4: "db4 = refund_customer rm (sale_customer s) refund
       (db2\<lparr>sale_returns := save_row sr_id (r\<lparr>sr_refund_amount := refund\<rparr>) (sale_returns db2)\<rparr>)"
    and db': "db' = log_audit ''sale.returned'' ''sales'' (''Return '' @ sr_number r @ '' for invoice '' @ sale_invoice_number s)
       (update_sale (s\<lparr>sale_status := returned_status db4 (sale_id s)\<rparr>) db4)"
    by metis
  let ?db1 = "db\<lparr>sale_returns := sale_returns db @ [r]\<rparr>" and ?s = "s\<lparr>sale_status := returned_status db4 (sale_id s)\<rparr>"
  have ok: "books_ok (sales db) (sale_items db) (sale_payments db) (sale_returns db)" and inv: "stock_inv db"
    using assms(2) by (simp_all add: sale_books_def)
  have keys: "distinct (map si_id (sale_items ?db1))" "list_all item_bounds (sale_items db)"
    and one: "\<And>x. x \<in> set (sales db) \<Longrightarrow> sale_id x = sale_id s \<Longrightarrow> x = s"
    using ok find_sale_Some[OF s(1)] by (auto simp: books_ok_def distinct_map dest: inj_onD)
  have "0 \<le> (case find_line db s k of Some it \<Rightarrow> dec (si_returned it) | None \<Rightarrow> 0)" for k
    using keys(2) by (auto simp: find_line_def list_all_iff item_bounds_def dec_def dest!: find_Some_mem split: option.splits)
  then have "returning ?db1 (?db1, 0, \<lambda>k. case find_line db s k of Some it \<Rightarrow> dec (si_returned it) | None \<Rightarrow> 0)"
    using inv keys(2) by (simp add: returning_def stock_inv_def)
  from return_lines_keep[OF _ keys(1) fold this] requested_lines_mem[OF s(3)]
  have fin: "returning ?db1 (db2, refund, ret)" by simp
  have "books_ok (sales db) (sale_items db2) (sale_payments db) (sale_returns db)"
    by (rule books_items[OF ok]) (use fin in \<open>simp_all add: returning_def\<close>)
  moreover have "sale_returns db' = save_row sr_id (r\<lparr>sr_refund_amount := refund\<rparr>) (sale_returns db @ [r])"
    using fin by (simp add: db' db4 returning_def)
  then have "x \<in> set (sale_returns db') \<Longrightarrow> x \<in> set (sale_returns db) \<or> sr_sale x = sale_id s" for x
    using set_save_row[of sr_id "r\<lparr>sr_refund_amount := refund\<rparr>" "sale_returns db @ [r]"]
    by (auto simp: r new_return_def)
  then have "voids_final (sales db) (sale_returns db')"
    using ok one s(2) by (fastforce simp: books_ok_def voids_final_def list_all_iff filter_empty_conv)
  ultimately have "books_ok (sales db) (sale_items db2) (sale_payments db) (sale_returns db')"
    by (rule books_returns)
  moreover have "same_keys s ?s" "sale_status ?s \<noteq> S_VOIDED"
    by (simp_all add: same_keys_def returned_status_def Let_def)
  ultimately have "books_ok (save_row sale_id ?s (sales db)) (sale_items db2) (sale_payments db) (sale_returns db')"
    using books_save_sale find_sale_Some[OF s(1)] by blast
  then show ?thesis using fin by (simp add: sale_books_def returning_def db' db4 stock_inv_def)
qed

section \<open>Checkouts\<close>

lemma next_invoice_fresh: "fst (next_invoice_number business branch db) \<notin> set (invoice_numbers db (biz_id business))"
proof -
  obtain base c where scope: "invoice_scope business branch = (base, c)" by (cases "invoice_scope business branch")
  obtain n where "allocate_number 2 (with_separator base) (invoice_numbers db (biz_id business))
      (counter_value db (biz_id business) c) = Some n"
    "candidate (with_separator base) n \<notin> set (invoice_numbers db (biz_id business))"
    using allocate_two[of 2] by blast
  then show ?thesis by (simp add: next_invoice_number_def scope Let_def)
qed

lemma token_known:
  "(b, t) \<in> set (token_keys (sales db)) \<Longrightarrow> find_token db b t \<noteq> None"
  by (auto simp: token_keys_def find_token_def find_None_iff)

lemma complete_sale_known:
  fixes db db' :: "'a pos_db_scheme"
  assumes "complete_sale ord cal business x db = Inr (y, db')" and "y \<in> set (sales db)" and "stock_inv db"
  shows "db' = db"
proof -
  from assms(1) obtain s token where
    rest: "(case Option.bind token (find_token db (biz_id business)) of
       Some existing \<Rightarrow>
         ebind (replay_checkout ord business (co_cashier x) s existing db) (\<lambda>y. Inr (y, db))
     | None \<Rightarrow>
         ebind (canonical_salesperson ord business x s db) (\<lambda>salesperson.
         ebind (checkout_cart ord cal business x s db) (\<lambda>(ls, priority, t).
         ebind (check_discount business (cs_membership s) t) (\<lambda>_.
         ebind (checkout_payments ord business x s t db) (\<lambda>(clean, pt, change).
         ebind (check_credit business s pt) (\<lambda>_.
         ebind (require (cs_shift s \<noteq> None \<or> allow_sale_without_shift (settings business))
                 (SaleError ''An open shift is required before selling.'')) (\<lambda>_.
           post_sale cal business x s salesperson token ls priority t clean pt change db))))))) = Inr (y, db')"
    unfolding complete_sale_def result_simps by blast
  show ?thesis
  proof (cases "Option.bind token (find_token db (biz_id business))")
    case None
    then obtain salesperson ls priority t clean pt change where
      "post_sale cal business x s salesperson token ls priority t clean pt change db = Inr (y, db')"
      using rest by (auto simp: result_simps)
    from post_sale_effect[OF this assms(3)] obtain u cost where
      "y = finished_sale (new_sale business x s u salesperson token priority t pt change
           (fst (next_invoice_number business (cs_branch s) db)) db) t pt cost"
      by metis
    then have "sale_id y = next_pk sale_id (sales db)" by (simp add: finished_sale_def new_sale_def)
    then show ?thesis using assms(2) next_pk_fresh[of sale_id "sales db"] by (metis imageI)
  next
    case (Some e)
    then show ?thesis using rest by (auto simp: result_simps)
  qed
qed

lemma checkout_books:
  fixes db db' :: "'a pos_db_scheme"
  assumes "complete_sale ord cal business x db = Inr (y, db')" and "sale_books db"
  shows "sale_books db'"
proof (cases "y \<in> set (sales db)")
  case True
  then show ?thesis using complete_sale_known[OF assms(1)] assms(2) by (simp add: sale_books_def)
next
  case False
  have inv: "stock_inv db" and ok: "books_ok (sales db) (sale_items db) (sale_payments db) (sale_returns db)"
    using assms(2) by (simp_all add: sale_books_def)
  from complete_sale_new[OF assms(1) False] obtain s tok salesperson ls priority t clean pt change where
    tok: "Option.bind tok (find_token db (biz_id business)) = None"
    and cart: "checkout_cart ord cal business x s db = Inr (ls, priority, t)"
    and post: "post_sale cal business x s salesperson tok ls priority t clean pt change db = Inr (y, db')"
    by metis
  note c = checkout_cart_Inr[OF cart] and lines = totals_lines[OF checkout_cart_Inr(4)[OF cart]]
  from post_sale_effect[OF post inv] obtain u cost its where
    y: "y = finished_sale (new_sale business x s u salesperson tok priority t pt change
           (fst (next_invoice_number business (cs_branch s) db)) db) t pt cost"
    and e: "sales db' = sales db @ [y]" "sale_items db' = sale_items db @ its"
      "list_all2 (item_matches (stock_place db (biz_id business) (cs_warehouse s)) (biz_id business) (sale_id y)) (zip ls (map snd (st_lines t))) its"
      "distinct (map si_id (sale_items db)) \<longrightarrow> distinct (map si_id (sale_items db'))" "stock_inv db'"
      "sale_payments db' = sale_payments db @ map (new_payment cal (biz_id business) y (co_cashier x) db)
        (recorded_payments change clean)" "same_rest db db'"
    by metis
  have f: "sale_id y = next_pk sale_id (sales db)" "sale_business y = biz_id business" "sale_checkout_token y = tok"
    "sale_invoice_number y = fst (next_invoice_number business (cs_branch s) db)" "sale_status y \<noteq> S_VOIDED"
    by (simp_all add: y finished_sale_def new_sale_def)
  have "length (map snd (st_lines t)) = length ls" using arg_cong[OF lines(1), of length] by simp
  note m = matched_columns[OF e(3) this]
  have "\<forall>n \<in> set ls. 0 < cl_quantity (nl_cart n)"
    by (rule emap_all[OF c(2)]) (simp add: normalize_line_Inr)
  then have "\<forall>q \<in> set (map (lp_quantity \<circ> snd) (st_lines t)). 0 < q" unfolding lines(2) by simp
  then have "\<forall>k \<in> set (map si_quantity its). 0 \<le> k" unfolding m(2) by (auto simp: qty_def intro!: round_half_up_ge)
  then have bounds: "list_all item_bounds its" using m(3) by (auto simp: list_all_iff item_bounds_def)
  have "books_ok (sales db @ [y]) (sale_items db @ its) (sale_payments db @ map (new_payment cal (biz_id business) y
      (co_cashier x) db) (recorded_payments change clean)) (sale_returns db)"
  proof (rule books_new_sale[OF ok f(1) _ _ f(5) _ bounds])
    show "invoice_key y \<notin> set (map invoice_key (sales db))"
      using next_invoice_fresh[of business "cs_branch s" db] by (auto simp: invoice_key_def f invoice_numbers_def)
    show "(sale_business y, k) \<notin> set (token_keys (sales db))" if "sale_checkout_token y = Some k" for k
      using tok that token_known[of "biz_id business" k db] by (auto simp: f)
    show "distinct (map si_id (sale_items db @ its))" using e(2,4) ok by (simp add: books_ok_def)
  qed (use m(3) in \<open>auto simp: new_payment_def\<close>)
  then show ?thesis using e by (simp add: sale_books_def same_rest_def)
qed

section \<open>Runs\<close>

inductive sale_step :: "(string list \<Rightarrow> string list) \<Rightarrow> calendar \<Rightarrow> 'a pos_db_scheme \<Rightarrow> 'a pos_db_scheme \<Rightarrow> bool"
  for ord :: "string list \<Rightarrow> string list" and cal :: calendar where
  step_checkout: "complete_sale ord cal business x db = Inr (y, db') \<Longrightarrow> sale_step ord cal db db'"
| step_payment: "add_sale_payment ord cal business i input method user date reference memo shift m db = Inr db' \<Longrightarrow>
    sale_step ord cal db db'"
| step_void: "void_sale ord business i user reason m db = Inr db' \<Longrightarrow> sale_step ord cal db db'"
| step_return: "process_return ord business i es k user reason restock shift m db = Inr db' \<Longrightarrow> sale_step ord cal db db'"
| step_delete: "delete_sale ord business i user m db = Inr db' \<Longrightarrow> sale_step ord cal db db'"
| step_delivery: "set_delivery_status ord business i status user m db = Inr db' \<Longrightarrow> sale_step ord cal db db'"
| step_fabric: "update_actual_fabric ord business i fabric user m db = Inr db' \<Longrightarrow> sale_step ord cal db db'"
| step_collection: "record_customer_payment ord business i amount method user reference memo shift m db = Inr db' \<Longrightarrow>
    sale_step ord cal db db'"
| step_hold: "hold_sale ord business branch cashier cart label m db = Inr db' \<Longrightarrow> sale_step ord cal db db'"
| step_unhold: "delete_held_sale ord business held cashier m db = Inr (r, db') \<Longrightarrow> sale_step ord cal db db'"

inductive sale_run :: "(string list \<Rightarrow> string list) \<Rightarrow> calendar \<Rightarrow> 'a pos_db_scheme \<Rightarrow> 'a pos_db_scheme \<Rightarrow> bool"
  for ord :: "string list \<Rightarrow> string list" and cal :: calendar where
  run_start: "sale_run ord cal db db"
| run_step: "sale_run ord cal db u \<Longrightarrow> sale_step ord cal u db' \<Longrightarrow> sale_run ord cal db db'"

lemma sale_step_books:
  assumes "sale_step ord cal db db'" and "reorders ord" and "sale_books db"
  shows "sale_books db'"
  using assms(1)
proof cases
  case step_checkout then show ?thesis using checkout_books assms(3) by blast
next
  case step_payment then show ?thesis using add_payment_books assms(3) by blast
next
  case step_void then show ?thesis using void_books assms(3) by blast
next
  case step_return then show ?thesis using return_books assms(3) by blast
next
  case step_delete then show ?thesis using delete_sale_books assms(3) by blast
next
  case step_delivery then show ?thesis using delivery_books assms(3) by blast
next
  case step_fabric then show ?thesis using fabric_books assms(2,3) by blast
next
  case step_collection then show ?thesis using collection_books assms(2,3) by blast
next
  case step_hold then show ?thesis using held_books(1) assms(3) by blast
next
  case step_unhold then show ?thesis using held_books(2) assms(3) by blast
qed

text \<open>C6: whatever sequence of checkouts, payments, voids, returns, deletions, updates and collections
  runs, the books of the sales stay in order: the stock ledger invariant holds, no two sales of a
  business share an invoice number or a checkout token, no item has more returned than was sold,
  every item and payment belongs to a sale, and a voided sale never has a return.\<close>

theorem sale_run_invariant:
  assumes "sale_run ord cal db db'" and "reorders ord" and "sale_books db"
  shows "sale_books db'"
  using assms(1,3)
proof (induction rule: sale_run.induct)
  case (run_step db u db')
  then show ?case using sale_step_books[OF run_step.hyps(2) assms(2)] by simp
qed

theorem sale_run_invariant_witness:
  "\<exists>w. sale_run (\<lambda>xs. xs) sample_calendar sample_shop w \<and> sale_books w \<and> map lv_quantity (levels w) = [5000]"
proof -
  obtain y v w where v: "complete_sale (\<lambda>xs. xs) sample_calendar sample_business sample_checkout sample_shop = Inr (y, v)"
    and w: "void_sale (\<lambda>xs. xs) sample_business (sale_id y) (Some sample_user) ''Wrong goods'' None v = Inr w"
      "map lv_quantity (levels w) = [5000]"
    by (rule shop_sold_and_voided)
  have run: "sale_run (\<lambda>xs. xs) sample_calendar sample_shop w"
    by (rule run_step[OF run_step[OF run_start step_checkout[OF v]] step_void[OF w(1)]])
  have ord: "reorders (\<lambda>xs :: string list. xs)" by (simp add: reorders_def)
  have start: "sale_books sample_shop"
    by (simp add: sale_books_def books_ok_def voids_final_def sample_shop_tables)
  show ?thesis using run sale_run_invariant[OF run ord start] w(2) by (intro exI[of _ w] conjI)
qed

end
