(* ===== verification/Backup_Registry.thy ===== *)
theory Backup_Registry
  imports Text "HOL-Library.List_Lexorder" "HOL-Library.Char_ord" "HOL-Library.Product_Lexorder"
begin

text \<open>
  The registry of backup components (\<^verbatim>\<open>apps/backups/registry.py\<close>): the checks of a component and of
  a registry, the resolution of a scope to its components, the components of the code, and the
  discovery of the models that belong to a tenant.  Fields whose values are enumerations are typed,
  so the checks of their values hold by construction.  A recursive visit has fuel; \<open>None\<close> is the
  exhausted fuel, which \<open>acyclic_decided\<close> excludes.
\<close>

section \<open>Components\<close>

datatype backup_scope = SCOPE_POS | SCOPE_WMS | SCOPE_ALL_ENABLED

datatype product_owner = OWNER_SHARED | OWNER_POS | OWNER_WMS

datatype restore_behavior = REPLACEABLE | REFERENCE_ONLY | DEPENDENCY_ONLY | NON_RESTORABLE

datatype registry_error =
    ComponentRegistryError string
  | UnknownComponentError string
  | UnclassifiedTenantModelsError "string list"
  | ScopeResolutionError string

record component_def =
  cd_key :: string
  cd_owner :: product_owner
  cd_labels :: "string list"
  cd_required :: "string list"
  cd_export_order :: nat
  cd_import_order :: nat
  cd_behavior :: restore_behavior
  cd_media_fields :: "string list"
  cd_version :: string
  cd_scopes :: "backup_scope list"

definition check_component :: "component_def \<Rightarrow> registry_error + unit" where
  "check_component d =
     (let fail = (\<lambda>m. Inl (ComponentRegistryError m)) in
      if cd_key d = [] \<or> py_strip (cd_key d) \<noteq> cd_key d
      then fail ''Component keys must be non-empty and normalized.''
      else if length (remdups (cd_labels d)) \<noteq> length (cd_labels d)
      then fail ''Component contains duplicate model labels.''
      else if list_ex (\<lambda>l. l = [] \<or> py_strip l \<noteq> l \<or> count_list l (CHR ''.'') \<noteq> 1) (cd_labels d)
      then fail ''Component contains a non-canonical model label.''
      else if cd_version d = [] \<or> py_strip (cd_version d) \<noteq> cd_version d
      then fail ''Component has an invalid component version.''
      else if length (remdups (cd_required d)) \<noteq> length (cd_required d)
      then fail ''Component contains duplicate dependencies.''
      else if cd_key d \<in> set (cd_required d)
      then fail ''Component cannot depend on itself.''
      else Inr ())"

section \<open>Registries\<close>

text \<open>The dictionaries of a registry, as association lists in the order of insertion.\<close>

record component_registry =
  rg_definitions :: "(string \<times> component_def) list"
  rg_owners :: "(string \<times> string) list"

fun add_labels ::
    "string \<Rightarrow> string list \<Rightarrow> (string \<times> string) list \<Rightarrow> registry_error + (string \<times> string) list" where
  "add_labels k [] owners = Inr owners"
| "add_labels k (l # ls) owners =
     (if map_of owners l \<noteq> None
      then Inl (ComponentRegistryError ''Model is classified by two components.'')
      else add_labels k ls (owners @ [(l, k)]))"

definition add_definition :: "component_def \<Rightarrow> component_registry \<Rightarrow> registry_error + component_registry" where
  "add_definition d r =
     (if map_of (rg_definitions r) (cd_key d) \<noteq> None
      then Inl (ComponentRegistryError ''Duplicate component key.'')
      else ebind (add_labels (cd_key d) (cd_labels d) (rg_owners r)) (\<lambda>owners.
        Inr \<lparr>rg_definitions = rg_definitions r @ [(cd_key d, d)], rg_owners = owners\<rparr>))"

definition requires :: "(string \<times> component_def) list \<Rightarrow> string \<Rightarrow> string list" where
  "requires defs k = (case map_of defs k of Some d \<Rightarrow> cd_required d | None \<Rightarrow> [])"

text \<open>
  \<open>visit\<close> of \<open>_assert_acyclic\<close> over the sets \<open>visiting\<close> and \<open>visited\<close>, and the loop over the
  dependencies.
\<close>

type_synonym walk = "string list \<times> string list"

fun visit_component :: "nat \<Rightarrow> (string \<times> component_def) list \<Rightarrow> string \<Rightarrow> walk \<Rightarrow> (registry_error + walk) option"
  and visit_components :: "nat \<Rightarrow> (string \<times> component_def) list \<Rightarrow> string list \<Rightarrow> walk \<Rightarrow> (registry_error + walk) option"
where
  "visit_component 0 defs k w = None"
| "visit_component (Suc n) defs k (visiting, visited) =
     (if k \<in> set visited then Some (Inr (visiting, visited))
      else if k \<in> set visiting
      then Some (Inl (ComponentRegistryError ''Backup component dependencies contain a cycle.''))
      else (case visit_components n defs (requires defs k) (k # visiting, visited) of
          None \<Rightarrow> None
        | Some (Inl e) \<Rightarrow> Some (Inl e)
        | Some (Inr (visiting', visited')) \<Rightarrow> Some (Inr (removeAll k visiting', k # visited'))))"
| "visit_components n defs [] w = Some (Inr w)"
| "visit_components n defs (k # ks) w =
     (case visit_component n defs k w of
        None \<Rightarrow> None
      | Some (Inl e) \<Rightarrow> Some (Inl e)
      | Some (Inr w') \<Rightarrow> visit_components n defs ks w')"

definition assert_acyclic :: "(string \<times> component_def) list \<Rightarrow> (registry_error + walk) option" where
  "assert_acyclic defs = visit_components (Suc (Suc (length defs))) defs (map fst defs) ([], [])"

definition registry_init :: "component_def list \<Rightarrow> (registry_error + component_registry) option" where
  "registry_init definitions =
     (case efold add_definition definitions \<lparr>rg_definitions = [], rg_owners = []\<rparr> of
        Inl e \<Rightarrow> Some (Inl e)
      | Inr r \<Rightarrow>
          if list_ex (\<lambda>(k, d). list_ex (\<lambda>q. map_of (rg_definitions r) q = None) (cd_required d)) (rg_definitions r)
          then Some (Inl (ComponentRegistryError ''Unknown component dependencies.''))
          else (case assert_acyclic (rg_definitions r) of
              None \<Rightarrow> None
            | Some (Inl e) \<Rightarrow> Some (Inl e)
            | Some (Inr w) \<Rightarrow> Some (Inr r)))"

definition get_component :: "component_registry \<Rightarrow> string \<Rightarrow> registry_error + component_def" where
  "get_component r k =
     (case map_of (rg_definitions r) k of Some d \<Rightarrow> Inr d | None \<Rightarrow> Inl (UnknownComponentError k))"

definition owner_for_model :: "component_registry \<Rightarrow> string \<Rightarrow> registry_error + component_def" where
  "owner_for_model r l =
     (case map_of (rg_owners r) l of
        Some k \<Rightarrow> get_component r k
      | None \<Rightarrow> Inl (UnclassifiedTenantModelsError [l]))"

definition assert_models_classified :: "component_registry \<Rightarrow> string list \<Rightarrow> registry_error + bool" where
  "assert_models_classified r ls =
     (let unknown = filter (\<lambda>l. map_of (rg_owners r) l = None) (remdups ls)
      in if unknown \<noteq> [] then Inl (UnclassifiedTenantModelsError (sort unknown)) else Inr True)"

section \<open>Resolution of a scope\<close>

definition normalize_products :: "product_owner list \<Rightarrow> registry_error + product_owner list" where
  "normalize_products products =
     (if OWNER_SHARED \<in> set products
      then Inl (ScopeResolutionError ''Only POS and WMS are backup product entitlements.'')
      else Inr (remdups products))"

definition selected_products :: "backup_scope \<Rightarrow> product_owner list \<Rightarrow> registry_error + product_owner list" where
  "selected_products scope normalized =
     (case scope of
        SCOPE_POS \<Rightarrow> if OWNER_POS \<notin> set normalized
          then Inl (ScopeResolutionError ''POS is not enabled for this business.'') else Inr [OWNER_POS]
      | SCOPE_WMS \<Rightarrow> if OWNER_WMS \<notin> set normalized
          then Inl (ScopeResolutionError ''WMS is not enabled for this business.'') else Inr [OWNER_WMS]
      | SCOPE_ALL_ENABLED \<Rightarrow> if normalized = []
          then Inl (ScopeResolutionError ''No backup-enabled product is available for this business.'')
          else Inr normalized)"

definition resolve :: "component_registry \<Rightarrow> backup_scope \<Rightarrow> product_owner list \<Rightarrow> registry_error + component_def list"
where
  "resolve r scope products =
     ebind (normalize_products products) (\<lambda>normalized.
     ebind (selected_products scope normalized) (\<lambda>selected.
     let resolved = filter (\<lambda>d. scope \<in> set (cd_scopes d)
           \<and> (cd_owner d = OWNER_SHARED \<or> cd_owner d \<in> set selected)) (map snd (rg_definitions r));
         ks = map cd_key resolved
     in if list_ex (\<lambda>d. list_ex (\<lambda>q. q \<notin> set ks) (cd_required d)) resolved
        then Inl (ComponentRegistryError ''Component has unavailable dependencies.'')
        else Inr (sort_key (\<lambda>d. (cd_export_order d, cd_key d)) resolved)))"

section \<open>The components of the code\<close>

definition SHARED_SCOPES :: "backup_scope list" where
  "SHARED_SCOPES = [SCOPE_POS, SCOPE_WMS, SCOPE_ALL_ENABLED]"

definition POS_SCOPES :: "backup_scope list" where
  "POS_SCOPES = [SCOPE_POS, SCOPE_ALL_ENABLED]"

definition WMS_SCOPES :: "backup_scope list" where
  "WMS_SCOPES = [SCOPE_WMS, SCOPE_ALL_ENABLED]"

definition DEFAULT_COMPONENT_VERSION :: string where
  "DEFAULT_COMPONENT_VERSION = ''1.0''"

definition component ::
    "string \<Rightarrow> product_owner \<Rightarrow> nat \<Rightarrow> nat \<Rightarrow> restore_behavior \<Rightarrow> backup_scope list \<Rightarrow>
     string list \<Rightarrow> string list \<Rightarrow> string list \<Rightarrow> component_def" where
  "component k owner export_order import_order behavior scopes labels required media =
     \<lparr>cd_key = k, cd_owner = owner, cd_labels = labels, cd_required = required,
      cd_export_order = export_order, cd_import_order = import_order, cd_behavior = behavior,
      cd_media_fields = media, cd_version = DEFAULT_COMPONENT_VERSION, cd_scopes = scopes\<rparr>"

definition DEFINITIONS :: "component_def list" where
  "DEFINITIONS =
    [component ''shared.tenant_identity'' OWNER_SHARED 10 10 REFERENCE_ONLY SHARED_SCOPES
       [''tenants.Business'']
       [] [''tenants.Business.logo''],
     component ''shared.locations'' OWNER_SHARED 20 20 DEPENDENCY_ONLY SHARED_SCOPES
       [''branches.Branch'', ''branches.Warehouse'']
       [''shared.tenant_identity''] [],
     component ''shared.tenant_settings'' OWNER_SHARED 30 30 DEPENDENCY_ONLY SHARED_SCOPES
       [''tenants.BusinessSettings'']
       [''shared.tenant_identity'', ''shared.locations''] [],
     component ''shared.access_control'' OWNER_SHARED 40 40 REFERENCE_ONLY SHARED_SCOPES
       [''accounts.Role'', ''accounts.Membership'']
       [''shared.tenant_identity'', ''shared.locations''] [],
     component ''shared.subscription_control'' OWNER_SHARED 100 100 NON_RESTORABLE []
       [''subscriptions.Subscription'', ''subscriptions.SubscriptionPayment'']
       [] [],
     component ''shared.audit_evidence'' OWNER_SHARED 100 100 NON_RESTORABLE []
       [''audit.AuditLog'', ''platformadmin.SupportAccessGrant'', ''backups.BackupRecord'',
        ''backups.BackupSchedule'', ''backups.RestoreOperation'', ''backups.TenantOperationLock'',
        ''backups.BackupActivity'', ''backups.DownloadGrant'', ''backups.BackupComponent'']
       [] [],
     component ''shared.notifications'' OWNER_SHARED 100 100 NON_RESTORABLE []
       [''notifications.Notification'']
       [] [],
     component ''pos.catalog'' OWNER_POS 100 100 REPLACEABLE POS_SCOPES
       [''catalog.Category'', ''catalog.Brand'', ''catalog.Unit'', ''catalog.TaxRate'',
        ''catalog.Product'', ''catalog.ProductVariant'']
       [''shared.tenant_identity''] [''catalog.Product.image'', ''catalog.ProductVariant.image''],
     component ''pos.customers'' OWNER_POS 110 110 REPLACEABLE POS_SCOPES
       [''customers.CustomerGroup'', ''customers.Customer'', ''customers.CustomerFamilyMember'',
        ''customers.CustomerPayment'']
       [''shared.tenant_identity'', ''shared.locations''] [],
     component ''pos.suppliers'' OWNER_POS 120 120 REPLACEABLE POS_SCOPES
       [''suppliers.Supplier'', ''suppliers.SupplierPayment'']
       [''shared.tenant_identity''] [],
     component ''pos.inventory'' OWNER_POS 130 130 REPLACEABLE POS_SCOPES
       [''inventory.StockLevel'', ''inventory.StockMovement'', ''inventory.StockTransfer'',
        ''inventory.StockTransferItem'', ''inventory.StockAdjustment'',
        ''inventory.StockAdjustmentItem'', ''inventory.StockCount'', ''inventory.StockCountItem'']
       [''shared.locations'', ''pos.catalog''] [],
     component ''pos.purchases'' OWNER_POS 140 140 REPLACEABLE POS_SCOPES
       [''purchases.Purchase'', ''purchases.PurchaseItem'', ''purchases.PurchaseReturn'',
        ''purchases.PurchaseReturnItem'']
       [''pos.catalog'', ''pos.inventory'', ''pos.suppliers''] [''purchases.Purchase.attachment''],
     component ''pos.registers'' OWNER_POS 150 150 REPLACEABLE POS_SCOPES
       [''registers.CashRegister'', ''registers.Shift'']
       [''shared.locations''] [],
     component ''pos.sales'' OWNER_POS 160 160 REPLACEABLE POS_SCOPES
       [''sales.PaymentMethod'', ''sales.InvoiceSequence'', ''sales.Sale'', ''sales.SaleItem'',
        ''sales.SalePayment'', ''sales.SaleReturn'', ''sales.SaleReturnItem'']
       [''shared.locations'', ''pos.catalog'', ''pos.customers'', ''pos.inventory'', ''pos.registers''] [],
     component ''pos.transient_sales'' OWNER_POS 100 100 NON_RESTORABLE []
       [''sales.HeldSale'']
       [] [],
     component ''pos.expenses'' OWNER_POS 170 170 REPLACEABLE POS_SCOPES
       [''expenses.ExpenseCategory'', ''expenses.RecurringExpenseTemplate'', ''expenses.Expense'']
       [''shared.locations''] [''expenses.Expense.attachment''],
     component ''wms.core'' OWNER_WMS 200 200 REPLACEABLE WMS_SCOPES
       [''wms_core.WmsLocation'', ''wms_core.WmsSettings'', ''wms_core.WmsRole'',
        ''wms_core.WmsUserAccess'']
       [''shared.access_control'', ''shared.locations''] [],
     component ''wms.workforce'' OWNER_WMS 210 210 REPLACEABLE WMS_SCOPES
       [''wms_workforce.WmsEmployee'', ''wms_workforce.WmsProductionCategory'',
        ''wms_workforce.WmsEmployeeCategoryAssignment'']
       [''wms.core''] [],
     component ''wms.attendance'' OWNER_WMS 220 220 REPLACEABLE WMS_SCOPES
       [''wms_attendance.WmsAttendance'']
       [''wms.workforce''] [],
     component ''wms.production'' OWNER_WMS 240 240 REPLACEABLE WMS_SCOPES
       [''wms_production.WmsProductionEntry'', ''wms_production.WmsProductionEntryLine'']
       [''wms.workforce'', ''wms.orders''] [],
     component ''wms.orders'' OWNER_WMS 230 230 REPLACEABLE WMS_SCOPES
       [''wms_orders.WmsWorkshopOrder'', ''wms_orders.WmsWorkshopOrderStatusHistory'']
       [''wms.core'', ''wms.workforce''] [],
     component ''wms.alterations'' OWNER_WMS 250 250 REPLACEABLE WMS_SCOPES
       [''wms_alterations.WmsAlteration'']
       [''wms.orders''] [],
     component ''wms.salary'' OWNER_WMS 260 260 REPLACEABLE WMS_SCOPES
       [''wms_salary.WmsSalary'', ''wms_salary.WmsSalaryLocationSnapshot'',
        ''wms_salary.WmsSalaryDay'', ''wms_salary.WmsSalaryPieceLine'']
       [''wms.workforce'', ''wms.attendance'', ''wms.production''] []]"

definition COMPONENT_REGISTRY :: "(registry_error + component_registry) option" where
  "COMPONENT_REGISTRY = registry_init DEFINITIONS"

text \<open>The registry is built when the module is loaded; \<open>code_registry\<close> excludes the last two cases.\<close>

definition resolve_components :: "backup_scope \<Rightarrow> product_owner list \<Rightarrow> registry_error + component_def list" where
  "resolve_components scope products =
     (case COMPONENT_REGISTRY of
        Some (Inr r) \<Rightarrow> resolve r scope products
      | Some (Inl e) \<Rightarrow> Inl e
      | None \<Rightarrow> Inl (ComponentRegistryError []))"

lemma code_components_valid: "list_all (\<lambda>d. check_component d = Inr ()) DEFINITIONS"
  by code_simp

section \<open>Discovery of the tenant's models\<close>

text \<open>
  The metadata that Django keeps of a model: its label and, per field, the name, whether it is a
  many-to-one relation, and the label of the related model.
\<close>

record model_field =
  mf_name :: string
  mf_many_to_one :: bool
  mf_related :: "string option"

record model_meta =
  mm_label :: string
  mm_fields :: "model_field list"

definition related_labels :: "model_meta \<Rightarrow> string list" where
  "related_labels m = List.map_filter (\<lambda>f. if mf_many_to_one f then mf_related f else None) (mm_fields m)"

definition tenant_roots :: "model_meta list \<Rightarrow> string list" where
  "tenant_roots models = map mm_label (filter (\<lambda>m. mm_label m = ''tenants.Business''
     \<or> list_ex (\<lambda>f. mf_name f = ''business'') (mm_fields m)) models)"

text \<open>One pass of the loop: the labels found and whether there was a new one.\<close>

fun label_pass :: "model_meta list \<Rightarrow> string list \<times> bool \<Rightarrow> string list \<times> bool" where
  "label_pass [] s = s"
| "label_pass (m # ms) (labels, changed) =
     (if mm_label m \<in> set labels then label_pass ms (labels, changed)
      else if list_ex (\<lambda>l. l \<in> set labels) (related_labels m)
      then label_pass ms (mm_label m # labels, True)
      else label_pass ms (labels, changed))"

definition missing_labels :: "model_meta list \<Rightarrow> string list \<Rightarrow> string set" where
  "missing_labels models labels = mm_label ` set models - set labels"

lemma label_pass_grows:
  "label_pass ms (labels, c) = (labels', c') \<Longrightarrow> set labels \<subseteq> set labels'
     \<and> (c \<longrightarrow> c') \<and> (\<not> c \<and> c' \<longrightarrow> (\<exists>m \<in> set ms. mm_label m \<in> set labels' - set labels))"
proof (induction ms "(labels, c)" arbitrary: labels c rule: label_pass.induct)
  case 1
  then show ?case by simp
next
  case (2 m ms labels c)
  show ?case
  proof (cases "mm_label m \<notin> set labels \<and> list_ex (\<lambda>l. l \<in> set labels) (related_labels m)")
    case True
    then have "label_pass ms (mm_label m # labels, True) = (labels', c')" using 2(4) by simp
    from 2(2)[OF _ _ this] True have "set (mm_label m # labels) \<subseteq> set labels' \<and> c'" by auto
    then show ?thesis using True by auto
  next
    case False
    then have "label_pass ms (labels, c) = (labels', c')" using 2(4) by (auto split: if_splits)
    moreover have "label_pass ms (labels, c) = (labels', c') \<Longrightarrow> set labels \<subseteq> set labels'
       \<and> (c \<longrightarrow> c') \<and> (\<not> c \<and> c' \<longrightarrow> (\<exists>m \<in> set ms. mm_label m \<in> set labels' - set labels))"
      using 2(1,3) False by blast
    ultimately show ?thesis by auto
  qed
qed

function label_closure :: "model_meta list \<Rightarrow> string list \<Rightarrow> string list" where
  "label_closure models labels =
     (let pass = label_pass models (labels, False)
      in if snd pass then label_closure models (fst pass) else fst pass)"
  by pat_completeness auto
termination
proof (relation "measure (\<lambda>(models, labels). card (missing_labels models labels))", goal_cases)
  case 1
  then show ?case by simp
next
  case (2 models labels pass)
  then have pass: "label_pass models (labels, False) = (fst pass, True)" by (metis prod.collapse)
  from label_pass_grows[OF this] have "missing_labels models (fst pass) \<subset> missing_labels models labels"
    unfolding missing_labels_def by auto
  then show ?case by (simp add: psubset_card_mono missing_labels_def)
qed

declare label_closure.simps [simp del]

definition tenant_related_model_labels :: "model_meta list \<Rightarrow> string list" where
  "tenant_related_model_labels models = label_closure models (tenant_roots models)"

definition unclassified_tenant_model_labels :: "component_registry \<Rightarrow> model_meta list \<Rightarrow> string list" where
  "unclassified_tenant_model_labels r models =
     filter (\<lambda>l. map_of (rg_owners r) l = None) (tenant_related_model_labels models)"

definition check_component_registry_completeness :: "component_registry \<Rightarrow> model_meta list \<Rightarrow> string list list"
where
  "check_component_registry_completeness r models =
     (let unknown = unclassified_tenant_model_labels r models
      in if unknown = [] then [] else [sort (remdups unknown)])"

section \<open>The cycle check decides\<close>

definition needs :: "(string \<times> component_def) list \<Rightarrow> (string \<times> string) set" where
  "needs defs = {(k, q). q \<in> set (requires defs k)}"

lemma visiting_restored:
  "visit_component n defs k w = Some (Inr w') \<Longrightarrow> fst w' = fst w"
  "visit_components n defs ks w = Some (Inr w') \<Longrightarrow> fst w' = fst w"
  by (induction n defs k w and n defs ks w arbitrary: w' and w' rule: visit_component_visit_components.induct)
    (auto split: if_splits option.splits sum.splits)

lemma cycle_found:
  "visit_component n defs k w = Some (Inl e) \<Longrightarrow> \<forall>x \<in> set (fst w). (x, k) \<in> (needs defs)\<^sup>+
     \<Longrightarrow> \<exists>c. (c, c) \<in> (needs defs)\<^sup>+"
  "visit_components n defs ks w = Some (Inl e) \<Longrightarrow>
     \<forall>k \<in> set ks. \<forall>x \<in> set (fst w). (x, k) \<in> (needs defs)\<^sup>+ \<Longrightarrow> \<exists>c. (c, c) \<in> (needs defs)\<^sup>+"
proof (induction n defs k w and n defs ks w rule: visit_component_visit_components.induct)
  case (1 defs k w)
  then show ?case by simp
next
  case (2 n defs k visiting visited)
  show ?case
  proof (cases "k \<in> set visiting")
    case True
    then show ?thesis using 2(3) by auto
  next
    case False
    then have "visit_components n defs (requires defs k) (k # visiting, visited) = Some (Inl e)"
      using 2(2) by (auto split: if_splits option.splits sum.splits)
    moreover have "(x, q) \<in> (needs defs)\<^sup>+" if "q \<in> set (requires defs k)" "x \<in> set (k # visiting)" for x q
      using that 2(3) by (auto simp: needs_def intro: trancl_into_trancl)
    ultimately show ?thesis using 2(1) 2(2) False by (auto split: if_splits)
  qed
next
  case (3 n defs w)
  then show ?case by simp
next
  case (4 n defs k ks w)
  then show ?case by (auto split: option.splits sum.splits dest: visiting_restored(1))
qed

text \<open>Every component of a visited list has its dependencies further down the list.\<close>

fun ordered_down :: "(string \<times> component_def) list \<Rightarrow> string list \<Rightarrow> bool" where
  "ordered_down defs [] = True"
| "ordered_down defs (k # ks) = (set (requires defs k) \<subseteq> set ks \<and> k \<notin> set ks \<and> ordered_down defs ks)"

lemma visit_orders:
  "visit_component n defs k w = Some (Inr w') \<Longrightarrow> ordered_down defs (snd w) \<Longrightarrow> set (fst w) \<inter> set (snd w) = {}
     \<Longrightarrow> ordered_down defs (snd w') \<and> set (fst w) \<inter> set (snd w') = {} \<and> insert k (set (snd w)) \<subseteq> set (snd w')"
  "visit_components n defs ks w = Some (Inr w') \<Longrightarrow> ordered_down defs (snd w) \<Longrightarrow> set (fst w) \<inter> set (snd w) = {}
     \<Longrightarrow> ordered_down defs (snd w') \<and> set (fst w) \<inter> set (snd w') = {} \<and> set ks \<union> set (snd w) \<subseteq> set (snd w')"
proof (induction n defs k w and n defs ks w arbitrary: w' and w' rule: visit_component_visit_components.induct)
  case (1 defs k w)
  then show ?case by simp
next
  case (2 n defs k visiting visited)
  show ?case
  proof (cases "k \<in> set visited")
    case True
    then show ?thesis using 2(2,3,4) by auto
  next
    case False
    then have k: "k \<notin> set visiting" using 2(2) by (auto split: if_splits)
    obtain u where u: "visit_components n defs (requires defs k) (k # visiting, visited) = Some (Inr (k # visiting, u))"
      and w': "w' = (visiting, k # u)"
      using 2(2) False k by (auto split: option.splits sum.splits dest!: visiting_restored(2))
    have "ordered_down defs u \<and> set (k # visiting) \<inter> set u = {} \<and> set (requires defs k) \<union> set visited \<subseteq> set u"
      using 2(1)[OF False k u] 2(3,4) False by simp
    then show ?thesis using k by (auto simp: w')
  qed
next
  case (3 n defs w)
  then show ?case by simp
next
  case (4 n defs k ks w)
  then obtain u where u: "visit_component n defs k w = Some (Inr u)" "visit_components n defs ks u = Some (Inr w')"
    by (auto split: option.splits sum.splits)
  have "fst u = fst w" using u(1) by (rule visiting_restored)
  then show ?case using 4(1)[OF u(1) 4(4,5)] 4(2)[OF u(1) refl u(2)] by auto
qed

lemma ordered_down_closed: "ordered_down defs ks \<Longrightarrow> k \<in> set ks \<Longrightarrow> (k, q) \<in> (needs defs)\<^sup>* \<Longrightarrow> q \<in> set ks"
proof (rotate_tac 2, induction rule: rtrancl_induct)
  case base
  then show ?case by simp
next
  case (step y z)
  then have "y \<in> set ks" by simp
  moreover have "z \<in> set (requires defs y)" using step(2) by (simp add: needs_def)
  ultimately show ?case using step(4) by (induction ks) auto
qed

lemma ordered_down_acyclic: "ordered_down defs ks \<Longrightarrow> k \<in> set ks \<Longrightarrow> (k, k) \<notin> (needs defs)\<^sup>+"
proof (induction ks)
  case Nil
  then show ?case by simp
next
  case (Cons x ks)
  show ?case
  proof
    assume cycle: "(k, k) \<in> (needs defs)\<^sup>+"
    then obtain q where q: "(k, q) \<in> needs defs" "(q, k) \<in> (needs defs)\<^sup>*" by (meson tranclD)
    have "k = x" using Cons cycle by auto
    then have "q \<in> set ks" using q(1) Cons.prems(1) by (auto simp: needs_def)
    then have "k \<in> set ks" using ordered_down_closed[of defs ks q k] q(2) Cons.prems(1) by simp
    then show False using Cons.prems(1) \<open>k = x\<close> by simp
  qed
qed

lemma visit_returns:
  assumes known: "\<And>k. set (requires defs k) \<subseteq> K" and K: "finite K"
  shows "k \<in> K \<Longrightarrow> card (K - set (fst w)) < n \<Longrightarrow> visit_component n defs k w \<noteq> None"
    and "set ks \<subseteq> K \<Longrightarrow> card (K - set (fst w)) < n \<Longrightarrow> visit_components n defs ks w \<noteq> None"
  using known
proof (induction n defs k w and n defs ks w rule: visit_component_visit_components.induct)
  case (1 defs k w)
  then show ?case by simp
next
  case (2 n defs k visiting visited)
  show ?case
  proof (cases "k \<in> set visiting")
    case True
    then show ?thesis by simp
  next
    case False
    have "K - set (fst (k # visiting, visited)) \<subset> K - set visiting" using 2(2) False by auto
    then have "card (K - set (fst (k # visiting, visited))) < card (K - set visiting)"
      using K by (simp add: psubset_card_mono)
    then have "k \<in> set visited \<or> visit_components n defs (requires defs k) (k # visiting, visited) \<noteq> None"
      using 2(1)[OF _ False 2(4)] 2(3,4) by fastforce
    then show ?thesis by (auto split: option.splits sum.splits)
  qed
next
  case (3 n defs w)
  then show ?case by simp
next
  case (4 n defs k ks w)
  then have k: "visit_component n defs k w \<noteq> None" by simp
  show ?case
  proof (cases "\<exists>u. visit_component n defs k w = Some (Inr u)")
    case True
    then obtain u where u: "visit_component n defs k w = Some (Inr u)" ..
    have "visit_components n defs ks u \<noteq> None"
      using 4(2)[OF u refl] 4(3,4,5) visiting_restored(1)[OF u] by auto
    then show ?thesis using u by simp
  next
    case False
    then show ?thesis using k by (auto split: option.splits sum.splits)
  qed
qed

lemma acyclic_decided:
  assumes known: "\<And>k. set (requires defs k) \<subseteq> fst ` set defs"
  shows "\<exists>r. assert_acyclic defs = Some r \<and> (isl r \<longleftrightarrow> \<not> acyclic (needs defs))"
proof -
  have "card (fst ` set defs - set (fst ([] :: string list, [] :: string list))) < Suc (Suc (length defs))"
    by (metis List.finite_set card_image_le card_length diff_shunt_var dual_order.trans empty_set
        fst_conv le_imp_less_Suc less_SucI list.set(1) minus_set_fold Diff_empty)
  then obtain r where r: "assert_acyclic defs = Some r"
    using visit_returns(2)[of defs "fst ` set defs", OF known] unfolding assert_acyclic_def by fastforce
  show ?thesis
  proof (cases r)
    case (Inl e)
    then have "\<exists>c. (c, c) \<in> (needs defs)\<^sup>+"
      using cycle_found(2)[of _ defs _ "([], [])" e] r unfolding assert_acyclic_def by auto
    then show ?thesis using r Inl by (auto simp: acyclic_def)
  next
    case (Inr w)
    then have run: "visit_components (Suc (Suc (length defs))) defs (map fst defs) ([], []) = Some (Inr w)"
      using r by (simp add: assert_acyclic_def)
    have w: "ordered_down defs (snd w)" "set (map fst defs) \<subseteq> set (snd w)"
      using visit_orders(2)[OF run] by auto
    have "(k, k) \<notin> (needs defs)\<^sup>+" for k
    proof
      assume "(k, k) \<in> (needs defs)\<^sup>+"
      moreover from this obtain q where "(k, q) \<in> needs defs" by (meson tranclD)
      then have "map_of defs k \<noteq> None" by (cases "map_of defs k") (auto simp: needs_def requires_def)
      then have "k \<in> fst ` set defs" by (simp add: map_of_eq_None_iff)
      ultimately show False using ordered_down_acyclic[OF w(1)] w(2) by auto
    qed
    then show ?thesis using r Inr by (auto simp: acyclic_def)
  qed
qed

section \<open>Registries that are accepted\<close>

definition component_needs :: "component_def list \<Rightarrow> (string \<times> string) set" where
  "component_needs ds = {(cd_key d, q) |d q. d \<in> set ds \<and> q \<in> set (cd_required d)}"

definition well_formed :: "component_def list \<Rightarrow> bool" where
  "well_formed ds =
     (distinct (map cd_key ds) \<and> distinct (concat (map cd_labels ds))
      \<and> (\<forall>d \<in> set ds. set (cd_required d) \<subseteq> cd_key ` set ds) \<and> acyclic (component_needs ds))"

definition registry_of :: "component_def list \<Rightarrow> component_registry" where
  "registry_of ds = \<lparr>rg_definitions = map (\<lambda>d. (cd_key d, d)) ds,
     rg_owners = concat (map (\<lambda>d. map (\<lambda>l. (l, cd_key d)) (cd_labels d)) ds)\<rparr>"

lemma visit_error:
  "visit_component n defs k w = Some (Inl e) \<Longrightarrow>
     e = ComponentRegistryError ''Backup component dependencies contain a cycle.''"
  "visit_components n defs ks w = Some (Inl e) \<Longrightarrow>
     e = ComponentRegistryError ''Backup component dependencies contain a cycle.''"
  by (induction n defs k w and n defs ks w rule: visit_component_visit_components.induct)
    (auto split: if_splits option.splits sum.splits)

lemmas cycle_error = visit_error(2)[of "Suc (Suc (length defs))" defs "map fst defs" "([], [])" for defs, folded assert_acyclic_def]

lemma add_labels_ok:
  "distinct ls \<Longrightarrow> set ls \<inter> fst ` set owners = {} \<Longrightarrow>
     add_labels k ls owners = Inr (owners @ map (\<lambda>l. (l, k)) ls)"
proof (induction ls arbitrary: owners)
  case Nil
  then show ?case by simp
next
  case (Cons l ls)
  have "map_of owners l = None" using Cons.prems(2) by (simp add: map_of_eq_None_iff)
  moreover have "set ls \<inter> fst ` set (owners @ [(l, k)]) = {}" using Cons.prems by auto
  ultimately show ?case using Cons.IH[of "owners @ [(l, k)]"] Cons.prems(1) by simp
qed

lemma add_labels_bad:
  "\<not> (distinct ls \<and> set ls \<inter> fst ` set owners = {}) \<Longrightarrow>
     \<exists>e. add_labels k ls owners = Inl (ComponentRegistryError e)"
proof (induction ls arbitrary: owners)
  case Nil
  then show ?case by simp
next
  case (Cons l ls)
  show ?case
  proof (cases "map_of owners l")
    case None
    then have "l \<notin> fst ` set owners" by (simp add: map_of_eq_None_iff)
    then have "\<not> (distinct ls \<and> set ls \<inter> fst ` set (owners @ [(l, k)]) = {})" using Cons.prems by auto
    then show ?thesis using Cons.IH[of "owners @ [(l, k)]"] None by simp
  next
    case (Some a)
    then show ?thesis by simp
  qed
qed

lemma owned_labels: "fst ` set (rg_owners (registry_of ds)) = set (concat (map cd_labels ds))"
  by (force simp: image_iff registry_of_def)

lemma map_of_registry: "map_of (rg_definitions (registry_of ds)) q = None \<longleftrightarrow> q \<notin> cd_key ` set ds"
  by (simp add: map_of_eq_None_iff registry_of_def image_image)

definition unique_parts :: "component_def list \<Rightarrow> bool" where
  "unique_parts ds = (distinct (map cd_key ds) \<and> distinct (concat (map cd_labels ds)))"

lemma unique_parts_snoc:
  "unique_parts (old @ [d]) \<longleftrightarrow> unique_parts old \<and> cd_key d \<notin> cd_key ` set old
     \<and> distinct (cd_labels d) \<and> set (cd_labels d) \<inter> fst ` set (rg_owners (registry_of old)) = {}"
  unfolding owned_labels by (auto simp: unique_parts_def)

lemma unique_parts_append: "unique_parts (xs @ ys) \<Longrightarrow> unique_parts xs"
  by (simp add: unique_parts_def)

lemma add_definition_ok:
  "unique_parts (old @ [d]) \<Longrightarrow> add_definition d (registry_of old) = Inr (registry_of (old @ [d]))"
  using map_of_registry[of old "cd_key d"]
  by (simp add: unique_parts_snoc add_definition_def add_labels_ok) (simp add: registry_of_def)

lemma add_definition_bad:
  assumes "unique_parts old" and "\<not> unique_parts (old @ [d])"
  shows "\<exists>e. add_definition d (registry_of old) = Inl (ComponentRegistryError e)"
proof (cases "cd_key d \<in> cd_key ` set old")
  case True
  then show ?thesis using map_of_registry[of old "cd_key d"] by (auto simp: add_definition_def)
next
  case False
  then have "\<not> (distinct (cd_labels d) \<and> set (cd_labels d) \<inter> fst ` set (rg_owners (registry_of old)) = {})"
    using assms by (simp add: unique_parts_snoc)
  from add_labels_bad[OF this] obtain e where
    "add_labels (cd_key d) (cd_labels d) (rg_owners (registry_of old)) = Inl (ComponentRegistryError e)" by blast
  then show ?thesis using False map_of_registry[of old "cd_key d"] by (simp add: add_definition_def)
qed

lemma add_definitions:
  "unique_parts old \<Longrightarrow> unique_parts (old @ ds) \<Longrightarrow>
     efold add_definition ds (registry_of old) = Inr (registry_of (old @ ds))"
  "unique_parts old \<Longrightarrow> \<not> unique_parts (old @ ds) \<Longrightarrow>
     \<exists>e. efold add_definition ds (registry_of old) = Inl (ComponentRegistryError e)"
proof (induction ds arbitrary: old)
  case Nil
  { case 1 then show ?case by simp next case 2 then show ?case by simp }
next
  case (Cons d ds)
  { case 1
    then have "unique_parts (old @ [d])" using unique_parts_append[of "old @ [d]" ds] by simp
    then show ?case using Cons.IH(1)[of "old @ [d]"] 1 by (simp add: add_definition_ok)
  next
    case 2
    show ?case
    proof (cases "unique_parts (old @ [d])")
      case True
      then show ?thesis using Cons.IH(2)[of "old @ [d]"] 2 by (simp add: add_definition_ok)
    next
      case False
      from add_definition_bad[OF 2(1) this] show ?thesis by auto
    qed }
qed

lemma needs_registry:
  assumes "distinct (map cd_key ds)"
  shows "needs (rg_definitions (registry_of ds)) = component_needs ds"
proof -
  have keys: "distinct (map fst (rg_definitions (registry_of ds)))"
    using assms by (simp add: registry_of_def comp_def)
  have "map_of (rg_definitions (registry_of ds)) k = Some d \<longleftrightarrow> d \<in> set ds \<and> k = cd_key d" for k d
    unfolding map_of_eq_Some_iff[OF keys] by (auto simp: registry_of_def)
  then have "q \<in> set (requires (rg_definitions (registry_of ds)) k) \<longleftrightarrow>
      (\<exists>d \<in> set ds. k = cd_key d \<and> q \<in> set (cd_required d))" for k q
    by (auto simp: requires_def split: option.split) (metis not_None_eq option.inject)+
  then show ?thesis by (auto simp: needs_def component_needs_def)
qed

lemma requires_known:
  assumes "\<forall>d \<in> set ds. set (cd_required d) \<subseteq> cd_key ` set ds"
  shows "set (requires (rg_definitions (registry_of ds)) k) \<subseteq> fst ` set (rg_definitions (registry_of ds))"
proof (cases "map_of (rg_definitions (registry_of ds)) k")
  case None
  then show ?thesis by (simp add: requires_def)
next
  case (Some d)
  then have "d \<in> set ds" by (auto simp: registry_of_def dest: map_of_SomeD)
  then have "set (cd_required d) \<subseteq> cd_key ` set ds" using assms by blast
  then show ?thesis using Some by (simp add: requires_def registry_of_def image_image)
qed

text \<open>C18: building a component registry accepts exactly the well-formed lists of components (unique
  keys, every model in one component, known and acyclic dependencies), always ends, and keeps the
  components and the owner of each model; anything else raises a registry error.\<close>

theorem registry_accepts_well_formed:
  "\<exists>e. registry_init ds =
     Some (if well_formed ds then Inr (registry_of ds) else Inl (ComponentRegistryError e))"
proof -
  have start: "\<lparr>rg_definitions = [], rg_owners = []\<rparr> = registry_of []" "unique_parts []"
    by (simp_all add: registry_of_def unique_parts_def)
  let ?defs = "rg_definitions (registry_of ds)"
  have unknown: "list_ex (\<lambda>(k, d). list_ex (\<lambda>q. map_of ?defs q = None) (cd_required d)) ?defs
      \<longleftrightarrow> \<not> (\<forall>d \<in> set ds. set (cd_required d) \<subseteq> cd_key ` set ds)"
    unfolding map_of_registry by (auto simp: list_ex_iff registry_of_def)
  consider (parts) "\<not> unique_parts ds"
    | (known) "unique_parts ds" "\<not> (\<forall>d \<in> set ds. set (cd_required d) \<subseteq> cd_key ` set ds)"
    | (all) "unique_parts ds" "\<forall>d \<in> set ds. set (cd_required d) \<subseteq> cd_key ` set ds" by blast
  then show ?thesis
  proof cases
    case parts
    then obtain e where "efold add_definition ds (registry_of []) = Inl (ComponentRegistryError e)"
      using add_definitions(2)[of "[]" ds] start(2) by auto
    moreover have "\<not> well_formed ds" using parts unfolding well_formed_def unique_parts_def by blast
    ultimately show ?thesis by (simp add: registry_init_def start(1))
  next
    case known
    have "\<not> well_formed ds" using known(2) by (simp add: well_formed_def)
    then show ?thesis using known add_definitions(1)[of "[]" ds] start(2)
      by (simp add: registry_init_def start(1) unknown)
  next
    case all
    obtain r where r: "assert_acyclic ?defs = Some r" "isl r \<longleftrightarrow> \<not> acyclic (needs ?defs)"
      using acyclic_decided[OF requires_known[OF all(2)]] by blast
    have wf: "well_formed ds \<longleftrightarrow> \<not> isl r"
      using all r(2) needs_registry[of ds] by (simp add: well_formed_def unique_parts_def)
    show ?thesis using all wf r(1) add_definitions(1)[of "[]" ds] start(2) cycle_error[of ?defs]
      by (cases r) (simp_all add: registry_init_def start(1) unknown)
  qed
qed

section \<open>The resolution of the code's registry\<close>

text \<open>When a scope can be backed up, and which components it covers.\<close>

definition available :: "backup_scope \<Rightarrow> product_owner list \<Rightarrow> bool" where
  "available scope products =
     (OWNER_SHARED \<notin> set products \<and>
      (case scope of SCOPE_POS \<Rightarrow> OWNER_POS \<in> set products | SCOPE_WMS \<Rightarrow> OWNER_WMS \<in> set products
       | SCOPE_ALL_ENABLED \<Rightarrow> products \<noteq> []))"

definition covered :: "backup_scope \<Rightarrow> product_owner list \<Rightarrow> component_def \<Rightarrow> bool" where
  "covered scope products d =
     (scope \<in> set (cd_scopes d) \<and>
      (cd_owner d = OWNER_SHARED \<or>
       (case scope of SCOPE_POS \<Rightarrow> cd_owner d = OWNER_POS | SCOPE_WMS \<Rightarrow> cd_owner d = OWNER_WMS
        | SCOPE_ALL_ENABLED \<Rightarrow> cd_owner d \<in> set products)))"

text \<open>Every component comes after the components it depends on.\<close>

definition topological :: "component_def list \<Rightarrow> bool" where
  "topological ds = (\<forall>i < length ds. set (cd_required (ds ! i)) \<subseteq> cd_key ` set (take i ds))"

definition dependency_ok :: "component_def list \<Rightarrow> component_def \<Rightarrow> string \<Rightarrow> bool" where
  "dependency_ok ds d q =
     list_ex (\<lambda>e. cd_key e = q \<and> cd_export_order e < cd_export_order d
       \<and> list_all (\<lambda>s. s \<in> set (cd_scopes e)) (cd_scopes d) \<and> cd_owner e \<in> {OWNER_SHARED, cd_owner d}) ds"

lemma code_dependencies:
  "list_all (\<lambda>d. list_all (dependency_ok DEFINITIONS d) (cd_required d)) DEFINITIONS"
  by code_simp

lemma code_keys: "distinct (map cd_key DEFINITIONS)"
  by (simp add: DEFINITIONS_def component_def)

lemma code_labels: "distinct (concat (map cd_labels DEFINITIONS))"
  by (simp add: DEFINITIONS_def component_def)

lemma code_dependency:
  "d \<in> set DEFINITIONS \<Longrightarrow> q \<in> set (cd_required d) \<Longrightarrow>
     \<exists>e \<in> set DEFINITIONS. cd_key e = q \<and> cd_export_order e < cd_export_order d
       \<and> set (cd_scopes d) \<subseteq> set (cd_scopes e) \<and> cd_owner e \<in> {OWNER_SHARED, cd_owner d}"
  using code_dependencies by (fastforce simp: list_all_iff list_ex_iff dependency_ok_def)

lemma code_registry [code]: "COMPONENT_REGISTRY = Some (Inr (registry_of DEFINITIONS))"
proof -
  define rank where "rank k = cd_export_order (the (map_of (map (\<lambda>d. (cd_key d, d)) DEFINITIONS) k))" for k
  have rank: "rank (cd_key d) = cd_export_order d" if "d \<in> set DEFINITIONS" for d
  proof -
    have "map_of (map (\<lambda>d. (cd_key d, d)) DEFINITIONS) (cd_key d) = Some d"
      using that code_keys by (intro map_of_is_SomeI) (simp_all add: comp_def)
    then show ?thesis by (simp add: rank_def)
  qed
  have "(component_needs DEFINITIONS)\<inverse> \<subseteq> measure rank"
    using code_dependency by (fastforce simp: component_needs_def rank)
  then have "acyclic (component_needs DEFINITIONS)"
    using acyclic_subset[OF wf_acyclic[OF wf_measure]] by (metis acyclic_converse)
  moreover have "\<forall>d \<in> set DEFINITIONS. set (cd_required d) \<subseteq> cd_key ` set DEFINITIONS"
    using code_dependency by fast
  ultimately have "well_formed DEFINITIONS" using code_keys code_labels by (simp add: well_formed_def)
  then show ?thesis using registry_accepts_well_formed[of DEFINITIONS] by (simp add: COMPONENT_REGISTRY_def)
qed

lemma code_import_order: "list_all (\<lambda>d. cd_import_order d = cd_export_order d) DEFINITIONS"
  by code_simp

lemma resolve_unavailable:
  "\<not> available scope products \<Longrightarrow> \<exists>m. resolve r scope products = Inl (ScopeResolutionError m)"
  by (cases scope) (auto simp: resolve_def normalize_products_def selected_products_def available_def)

lemma resolve_available:
  "available scope products \<Longrightarrow> resolve (registry_of ds) scope products =
     (let resolved = filter (covered scope products) ds
      in if list_ex (\<lambda>d. list_ex (\<lambda>q. q \<notin> cd_key ` set resolved) (cd_required d)) resolved
         then Inl (ComponentRegistryError ''Component has unavailable dependencies.'')
         else Inr (sort_key (\<lambda>d. (cd_export_order d, cd_key d)) resolved))"
  by (cases scope)
    (simp_all add: resolve_def normalize_products_def selected_products_def available_def covered_def[abs_def]
      registry_of_def comp_def Let_def)

lemma sorted_topological:
  assumes "sorted (map f ds)" and "distinct (map cd_key ds)"
    and "\<And>d q. d \<in> set ds \<Longrightarrow> q \<in> set (cd_required d) \<Longrightarrow> \<exists>e \<in> set ds. cd_key e = q \<and> (f e :: 'a :: linorder) < f d"
  shows "topological ds"
  unfolding topological_def
proof (intro allI impI subsetI)
  fix i q assume i: "i < length ds" and q: "q \<in> set (cd_required (ds ! i))"
  from assms(3)[OF nth_mem[OF i] q] obtain j where j: "j < length ds" "cd_key (ds ! j) = q" "f (ds ! j) < f (ds ! i)"
    by (metis in_set_conv_nth)
  have "j < i"
  proof (rule ccontr)
    assume "\<not> j < i"
    then have "f (ds ! i) \<le> f (ds ! j)" using assms(1) i j(1) by (auto simp: sorted_iff_nth_mono)
    then show False using j(3) by simp
  qed
  then have "ds ! j \<in> set (take i ds)" using i by (metis in_set_conv_nth length_take min.absorb4 nth_take)
  then show "q \<in> cd_key ` set (take i ds)" using j(2) by blast
qed

lemma sorted_fst: "sorted (ps :: ('a :: linorder \<times> 'b :: linorder) list) \<Longrightarrow> sorted (map fst ps)"
  by (induction ps) (auto simp: less_eq_prod_def)

lemma covered_dependency:
  assumes "d \<in> set DEFINITIONS" and "covered scope products d" and "q \<in> set (cd_required d)"
  shows "\<exists>e \<in> set DEFINITIONS. covered scope products e \<and> cd_key e = q \<and> cd_export_order e < cd_export_order d"
proof -
  obtain e where e: "e \<in> set DEFINITIONS" "cd_key e = q" "cd_export_order e < cd_export_order d"
    "set (cd_scopes d) \<subseteq> set (cd_scopes e)" "cd_owner e \<in> {OWNER_SHARED, cd_owner d}"
    using code_dependency[OF assms(1,3)] by auto
  have "covered scope products e" using e(4,5) assms(2) by (cases scope) (auto simp: covered_def)
  then show ?thesis using e(1-3) by blast
qed

lemma code_resolution:
  assumes "available scope products"
  shows "resolve (registry_of DEFINITIONS) scope products =
     Inr (sort_key (\<lambda>d. (cd_export_order d, cd_key d)) (filter (covered scope products) DEFINITIONS))"
proof -
  let ?resolved = "filter (covered scope products) DEFINITIONS"
  have "q \<in> cd_key ` set ?resolved" if d: "d \<in> set ?resolved" and q: "q \<in> set (cd_required d)" for d q
    using covered_dependency[of d scope products q] d q by auto
  then show ?thesis using assms by (auto simp: resolve_available Let_def list_ex_iff)
qed

text \<open>The same for evaluation, without the search for missing dependencies.\<close>

lemma resolve_components_code [code]:
  "resolve_components scope products =
     (if available scope products
      then Inr (sort_key (\<lambda>d. (cd_export_order d, cd_key d)) (filter (covered scope products) DEFINITIONS))
      else resolve (registry_of DEFINITIONS) scope products)"
  by (simp add: resolve_components_def code_registry code_resolution)

text \<open>C17: for every scope and every set of products the resolution of the code's registry either says
  that the scope is not available or returns exactly the components the scope covers, each once,
  in an order where every component follows the components it depends on; the import order is the
  same order.  The error of a missing dependency never occurs.\<close>

theorem resolved_components_closed:
  "\<exists>r. COMPONENT_REGISTRY = Some (Inr r) \<and>
     (case resolve r scope products of
        Inl e \<Rightarrow> \<not> available scope products \<and> (\<exists>m. e = ScopeResolutionError m)
      | Inr ds \<Rightarrow> available scope products \<and> set ds = {d \<in> set DEFINITIONS. covered scope products d}
          \<and> distinct (map cd_key ds) \<and> topological ds \<and> sorted (map cd_import_order ds))"
proof (cases "available scope products")
  case False
  then show ?thesis using resolve_unavailable[of scope products "registry_of DEFINITIONS"]
    by (auto simp: code_registry)
next
  case True
  let ?key = "\<lambda>d. (cd_export_order d, cd_key d)"
  let ?resolved = "filter (covered scope products) DEFINITIONS"
  let ?ds = "sort_key ?key ?resolved"
  have dep: "\<exists>e \<in> set ?resolved. cd_key e = q \<and> ?key e < ?key d"
    if d: "d \<in> set ?resolved" and q: "q \<in> set (cd_required d)" for d q
    using covered_dependency[of d scope products q] d q by (auto simp: less_prod_def)
  have r: "resolve (registry_of DEFINITIONS) scope products = Inr ?ds" by (rule code_resolution[OF True])
  have distinct: "distinct (map cd_key ?ds)"
    using code_keys by (simp add: distinct_map distinct_filter inj_on_def)
  have sorted: "sorted (map ?key ?ds)" by simp
  have topo: "topological ?ds" using dep by (intro sorted_topological[OF sorted distinct]) simp
  have "map cd_import_order ?ds = map fst (map ?key ?ds)"
    using code_import_order by (simp add: list_all_iff)
  moreover have "sorted (map fst (map ?key ?ds))"
    by (rule sorted_fst[OF sorted])
  ultimately have "sorted (map cd_import_order ?ds)" by (simp only:)
  then show ?thesis using r True topo distinct by (simp add: code_registry)
qed

section \<open>Discovery of the tenant's models\<close>

definition parent_of :: "model_meta list \<Rightarrow> (string \<times> string) set" where
  "parent_of models = {(mm_label m, p) |m p. m \<in> set models \<and> p \<in> set (related_labels m)}"

definition tenant_owned :: "model_meta list \<Rightarrow> string set" where
  "tenant_owned models = {l. \<exists>r \<in> set (tenant_roots models). (l, r) \<in> (parent_of models)\<^sup>*}"

lemma label_pass_sound:
  "set ms \<subseteq> set models \<Longrightarrow> set (fst s) \<subseteq> tenant_owned models \<Longrightarrow> set (fst (label_pass ms s)) \<subseteq> tenant_owned models"
proof (induction ms s rule: label_pass.induct)
  case (1 s)
  then show ?case by simp
next
  case (2 m ms labels changed)
  have "mm_label m \<in> tenant_owned models" if "list_ex (\<lambda>l. l \<in> set labels) (related_labels m)"
  proof -
    obtain p where p: "p \<in> set labels" "p \<in> set (related_labels m)" using \<open>list_ex _ _\<close> by (auto simp: list_ex_iff)
    have "(mm_label m, p) \<in> parent_of models" using p 2(4) by (auto simp: parent_of_def)
    then show ?thesis using p(1) 2(5) by (auto simp: tenant_owned_def intro: converse_rtrancl_into_rtrancl)
  qed
  then show ?case using 2 by auto
qed

lemma label_pass_stable:
  "\<not> snd (label_pass ms (labels, c)) \<Longrightarrow> fst (label_pass ms (labels, c)) = labels \<and> \<not> c \<and>
     (\<forall>m \<in> set ms. list_ex (\<lambda>l. l \<in> set labels) (related_labels m) \<longrightarrow> mm_label m \<in> set labels)"
proof (induction ms "(labels, c)" arbitrary: labels c rule: label_pass.induct)
  case 1
  then show ?case by simp
next
  case (2 m ms labels c)
  consider (old) "mm_label m \<in> set labels"
    | (new) "mm_label m \<notin> set labels" "list_ex (\<lambda>l. l \<in> set labels) (related_labels m)"
    | (apart) "mm_label m \<notin> set labels" "\<not> list_ex (\<lambda>l. l \<in> set labels) (related_labels m)" by blast
  then show ?case
  proof cases
    case old
    then show ?thesis using 2(1) 2(4) by auto
  next
    case new
    then show ?thesis using 2(2) 2(4) by simp
  next
    case apart
    then show ?thesis using 2(3) 2(4) by auto
  qed
qed

lemma label_closure_owned:
  "set labels \<subseteq> tenant_owned models \<Longrightarrow> set (tenant_roots models) \<subseteq> set labels \<Longrightarrow>
     set (label_closure models labels) = tenant_owned models"
proof (induction models labels rule: label_closure.induct)
  case (1 models labels)
  let ?pass = "label_pass models (labels, False)"
  have sound: "set (fst ?pass) \<subseteq> tenant_owned models" using label_pass_sound[of models models "(labels, False)"] 1(2) by simp
  have grows: "set labels \<subseteq> set (fst ?pass)"
    using label_pass_grows[of models labels False "fst ?pass" "snd ?pass"] by simp
  show ?case
  proof (cases "snd ?pass")
    case True
    then show ?thesis using 1(1)[OF refl True sound] 1(3) grows
      by (subst label_closure.simps) (simp add: Let_def)
  next
    case False
    from label_pass_stable[OF this] have fix_point: "fst ?pass = labels"
      "\<And>m p. m \<in> set models \<Longrightarrow> p \<in> set labels \<Longrightarrow> p \<in> set (related_labels m) \<Longrightarrow> mm_label m \<in> set labels"
      by (auto simp: list_ex_iff)
    have "l \<in> set labels" if "(l, r) \<in> (parent_of models)\<^sup>*" "r \<in> set (tenant_roots models)" for l r
      using that(1)
    proof (induction rule: converse_rtrancl_induct)
      case base
      then show ?case using that(2) 1(3) by blast
    next
      case (step y z)
      then show ?case using fix_point(2) by (auto simp: parent_of_def)
    qed
    then have "tenant_owned models \<subseteq> set labels" by (auto simp: tenant_owned_def)
    then show ?thesis using 1(2) False fix_point(1)
      by (subst label_closure.simps) (simp add: Let_def)
  qed
qed

text \<open>C19: the repeated passes over the models find exactly the models from which a chain of many-to-one
  relations leads to a model of the tenant; when the registry classifies all of them the system check
  reports nothing, and otherwise it reports one error that lists exactly those it does not classify, each
  once and in order.\<close>

theorem completeness_check_exact:
  "set (tenant_related_model_labels models) = tenant_owned models
   \<and> check_component_registry_completeness r models
       = (let missing = tenant_owned models - fst ` set (rg_owners r)
          in if missing = {} then [] else [sorted_list_of_set missing])"
proof -
  have "set (tenant_roots models) \<subseteq> tenant_owned models" by (auto simp: tenant_owned_def)
  then have found: "set (tenant_related_model_labels models) = tenant_owned models"
    by (simp add: tenant_related_model_labels_def label_closure_owned)
  have "tenant_owned models - fst ` set (rg_owners r) = set (unclassified_tenant_model_labels r models)"
    using found by (auto simp: unclassified_tenant_model_labels_def map_of_eq_None_iff)
  then show ?thesis using found
    by (simp add: check_component_registry_completeness_def Let_def sorted_list_of_set_sort_remdups)
qed

end
