(* ===== verification/Backup_Lifecycle.thy ===== *)
theory Backup_Lifecycle
  imports Access Backup_Registry
begin

text \<open>
  The lifecycles of backups, their integrity and restores (\<^verbatim>\<open>apps/backups/enums.py\<close>,
  \<^verbatim>\<open>state_machines.py\<close>) and the services that move them (\<^verbatim>\<open>apps/backups/services.py\<close>).  A
  service re-reads the row of the object it is given; the optimistic \<open>update\<close> on the old status
  always finds that row in a sequential run.
\<close>

section \<open>Statuses and their transitions\<close>

datatype backup_status =
  BS_QUEUED | BS_PREPARING | BS_SNAPSHOTTING | BS_PACKAGING | BS_UPLOADING | BS_VERIFYING | BS_SUCCEEDED
| BS_FAILED | BS_CANCELLED | BS_DELETION_PENDING | BS_DELETED

datatype integrity_status = IS_NOT_CHECKED | IS_VERIFYING | IS_VERIFIED | IS_FAILED | IS_CORRUPTED

datatype restore_status =
  RS_QUEUED | RS_AUTHORIZING | RS_LOCKING | RS_SAFETY_BACKUP | RS_VALIDATING | RS_RESTORING | RS_VERIFYING
| RS_SUCCEEDED | RS_FAILED | RS_ROLLING_BACK | RS_ROLLED_BACK | RS_INDETERMINATE

instantiation backup_status :: enum
begin

definition enum_backup_status :: "backup_status list" where
  "enum_backup_status = [BS_QUEUED, BS_PREPARING, BS_SNAPSHOTTING, BS_PACKAGING, BS_UPLOADING, BS_VERIFYING,
     BS_SUCCEEDED, BS_FAILED, BS_CANCELLED, BS_DELETION_PENDING, BS_DELETED]"

definition enum_all_backup_status :: "(backup_status \<Rightarrow> bool) \<Rightarrow> bool" where
  "enum_all_backup_status P = list_all P enum_class.enum"

definition enum_ex_backup_status :: "(backup_status \<Rightarrow> bool) \<Rightarrow> bool" where
  "enum_ex_backup_status P = list_ex P enum_class.enum"

instance
proof
  have all: "x \<in> set (enum_class.enum :: backup_status list)" for x
    by (cases x) (simp_all add: enum_backup_status_def)
  show "(UNIV :: backup_status set) = set enum_class.enum" using all by blast
  show "distinct (enum_class.enum :: backup_status list)" by (simp add: enum_backup_status_def)
  show "enum_class.enum_all P = Ball UNIV P" "enum_class.enum_ex P = Bex UNIV P" for P :: "backup_status \<Rightarrow> bool"
    using all by (auto simp: enum_all_backup_status_def enum_ex_backup_status_def list_all_iff list_ex_iff)
qed

end

instantiation restore_status :: enum
begin

definition enum_restore_status :: "restore_status list" where
  "enum_restore_status = [RS_QUEUED, RS_AUTHORIZING, RS_LOCKING, RS_SAFETY_BACKUP, RS_VALIDATING, RS_RESTORING,
     RS_VERIFYING, RS_SUCCEEDED, RS_FAILED, RS_ROLLING_BACK, RS_ROLLED_BACK, RS_INDETERMINATE]"

definition enum_all_restore_status :: "(restore_status \<Rightarrow> bool) \<Rightarrow> bool" where
  "enum_all_restore_status P = list_all P enum_class.enum"

definition enum_ex_restore_status :: "(restore_status \<Rightarrow> bool) \<Rightarrow> bool" where
  "enum_ex_restore_status P = list_ex P enum_class.enum"

instance
proof
  have all: "x \<in> set (enum_class.enum :: restore_status list)" for x
    by (cases x) (simp_all add: enum_restore_status_def)
  show "(UNIV :: restore_status set) = set enum_class.enum" using all by blast
  show "distinct (enum_class.enum :: restore_status list)" by (simp add: enum_restore_status_def)
  show "enum_class.enum_all P = Ball UNIV P" "enum_class.enum_ex P = Bex UNIV P" for P :: "restore_status \<Rightarrow> bool"
    using all by (auto simp: enum_all_restore_status_def enum_ex_restore_status_def list_all_iff list_ex_iff)
qed

end

fun BACKUP_TRANSITIONS :: "backup_status \<Rightarrow> backup_status list" where
  "BACKUP_TRANSITIONS BS_QUEUED = [BS_PREPARING, BS_FAILED, BS_CANCELLED]"
| "BACKUP_TRANSITIONS BS_PREPARING = [BS_SNAPSHOTTING, BS_FAILED, BS_CANCELLED]"
| "BACKUP_TRANSITIONS BS_SNAPSHOTTING = [BS_PACKAGING, BS_FAILED, BS_CANCELLED]"
| "BACKUP_TRANSITIONS BS_PACKAGING = [BS_UPLOADING, BS_FAILED, BS_CANCELLED]"
| "BACKUP_TRANSITIONS BS_UPLOADING = [BS_VERIFYING, BS_FAILED, BS_CANCELLED]"
| "BACKUP_TRANSITIONS BS_VERIFYING = [BS_SUCCEEDED, BS_FAILED, BS_CANCELLED]"
| "BACKUP_TRANSITIONS BS_SUCCEEDED = [BS_DELETION_PENDING]"
| "BACKUP_TRANSITIONS BS_FAILED = [BS_DELETION_PENDING]"
| "BACKUP_TRANSITIONS BS_CANCELLED = [BS_DELETION_PENDING]"
| "BACKUP_TRANSITIONS BS_DELETION_PENDING = [BS_DELETED]"
| "BACKUP_TRANSITIONS BS_DELETED = []"

fun INTEGRITY_TRANSITIONS :: "integrity_status \<Rightarrow> integrity_status list" where
  "INTEGRITY_TRANSITIONS IS_NOT_CHECKED = [IS_VERIFYING, IS_FAILED, IS_CORRUPTED]"
| "INTEGRITY_TRANSITIONS IS_VERIFYING = [IS_VERIFIED, IS_FAILED, IS_CORRUPTED]"
| "INTEGRITY_TRANSITIONS IS_VERIFIED = [IS_CORRUPTED]"
| "INTEGRITY_TRANSITIONS IS_FAILED = [IS_VERIFYING, IS_CORRUPTED]"
| "INTEGRITY_TRANSITIONS IS_CORRUPTED = []"

fun RESTORE_TRANSITIONS :: "restore_status \<Rightarrow> restore_status list" where
  "RESTORE_TRANSITIONS RS_QUEUED = [RS_AUTHORIZING, RS_FAILED]"
| "RESTORE_TRANSITIONS RS_AUTHORIZING = [RS_LOCKING, RS_FAILED]"
| "RESTORE_TRANSITIONS RS_LOCKING = [RS_SAFETY_BACKUP, RS_FAILED]"
| "RESTORE_TRANSITIONS RS_SAFETY_BACKUP = [RS_VALIDATING, RS_FAILED]"
| "RESTORE_TRANSITIONS RS_VALIDATING = [RS_RESTORING, RS_FAILED]"
| "RESTORE_TRANSITIONS RS_RESTORING = [RS_VERIFYING, RS_FAILED, RS_ROLLING_BACK, RS_INDETERMINATE]"
| "RESTORE_TRANSITIONS RS_VERIFYING = [RS_SUCCEEDED, RS_FAILED, RS_ROLLING_BACK, RS_INDETERMINATE]"
| "RESTORE_TRANSITIONS RS_FAILED = [RS_ROLLING_BACK, RS_INDETERMINATE]"
| "RESTORE_TRANSITIONS RS_ROLLING_BACK = [RS_ROLLED_BACK, RS_INDETERMINATE]"
| "RESTORE_TRANSITIONS RS_SUCCEEDED = []"
| "RESTORE_TRANSITIONS RS_ROLLED_BACK = []"
| "RESTORE_TRANSITIONS RS_INDETERMINATE = []"

definition can_transition :: "'s \<Rightarrow> 's \<Rightarrow> ('s \<Rightarrow> 's list) \<Rightarrow> bool" where
  "can_transition current target transitions = (target \<in> set (transitions current))"

text \<open>The message names the two statuses in the code; here it names the lifecycle.\<close>

definition validate_transition :: "'s \<Rightarrow> 's \<Rightarrow> ('s \<Rightarrow> 's list) \<Rightarrow> string \<Rightarrow> err + 's" where
  "validate_transition current target transitions lifecycle =
     (if can_transition current target transitions then Inr target
      else Inl (ValidationError (''Invalid '' @ lifecycle @ '' transition.'')))"

definition validate_backup_transition :: "backup_status \<Rightarrow> backup_status \<Rightarrow> err + backup_status" where
  "validate_backup_transition current target = validate_transition current target BACKUP_TRANSITIONS ''backup''"

definition validate_integrity_transition :: "integrity_status \<Rightarrow> integrity_status \<Rightarrow> err + integrity_status" where
  "validate_integrity_transition current target =
     validate_transition current target INTEGRITY_TRANSITIONS ''integrity''"

definition validate_restore_transition :: "restore_status \<Rightarrow> restore_status \<Rightarrow> err + restore_status" where
  "validate_restore_transition current target = validate_transition current target RESTORE_TRANSITIONS ''restore''"

section \<open>Rows\<close>

datatype backup_trigger = TRIGGER_MANUAL | TRIGGER_SCHEDULED | TRIGGER_SAFETY

text \<open>
  A row of \<open>BackupRecord\<close>; \<open>bk_components\<close> are the keys of the component metadata, the four version
  fields are those of \<^verbatim>\<open>versioning.current_version_metadata\<close>.
\<close>

record version_metadata =
  vm_format :: string
  vm_application :: string
  vm_schema :: string
  vm_minimum :: string

record backup_record =
  bk_id :: id
  bk_business :: id
  bk_scope :: backup_scope
  bk_products :: "product_owner list"
  bk_components :: "string list"
  bk_trigger :: backup_trigger
  bk_local_date :: "int option"
  bk_status :: backup_status
  bk_integrity :: integrity_status
  bk_protected :: bool
  bk_pinned :: bool
  bk_retention_eligible :: bool
  bk_versions :: version_metadata
  bk_storage_backend :: string
  bk_object_key :: string
  bk_artifact_hash :: string
  bk_parent_restore :: "id option"
  bk_key :: string
  bk_system_actor :: bool
  bk_created_by :: "id option"
  bk_started_at :: "int option"
  bk_completed_at :: "int option"
  bk_verified_at :: "int option"
  bk_deleted_at :: "int option"
  bk_updated_at :: int
  bk_failure_code :: string
  bk_failure_summary :: string

record restore_operation =
  ro_id :: id
  ro_business :: id
  ro_source :: id
  ro_scope :: backup_scope
  ro_status :: restore_status
  ro_safety_backup :: "id option"
  ro_reason :: string
  ro_key :: string
  ro_requested_by :: "id option"
  ro_started_at :: "int option"
  ro_completed_at :: "int option"
  ro_updated_at :: int
  ro_failure_code :: string
  ro_failure_summary :: string
  ro_rollback_attempted :: bool
  ro_rollback_result :: string

record operation_lock =
  lk_id :: id
  lk_business :: id
  lk_kind :: string
  lk_operation :: id
  lk_token :: id
  lk_worker :: string
  lk_acquired_at :: int
  lk_expires_at :: int
  lk_heartbeat_at :: int
  lk_released_at :: "int option"
  lk_active :: bool

record backup_activity =
  ac_business :: id
  ac_event :: string
  ac_backup :: "id option"
  ac_restore :: "id option"
  ac_actor :: "id option"
  ac_reason :: string
  ac_created_at :: int

record backup_schedule =
  sc_id :: id
  sc_business :: id
  sc_enabled :: bool
  sc_timezone :: string
  sc_local_time :: int
  sc_next_run :: "int option"
  sc_last_claimed :: "int option"
  sc_last_success :: "id option"
  sc_last_failure :: "id option"
  sc_scope :: backup_scope

record backup_db = core_db +
  backups :: "backup_record list"
  restores :: "restore_operation list"
  operation_locks :: "operation_lock list"
  activities :: "backup_activity list"
  schedules :: "backup_schedule list"
  businesses :: "business list"
  summary_audit :: "(string \<times> id \<times> id) list"

text \<open>\<open>" ".join(text.split())[:limit]\<close>\<close>

fun split_words :: "string \<Rightarrow> string list" where
  "split_words [] = [[]]"
| "split_words (c # cs) =
     (if is_space c then [] # split_words cs
      else (case split_words cs of [] \<Rightarrow> [[c]] | w # ws \<Rightarrow> (c # w) # ws))"

fun join_words :: "string list \<Rightarrow> string" where
  "join_words [] = []"
| "join_words [w] = w"
| "join_words (w # ws) = w @ CHR '' '' # join_words ws"

definition sanitize_text :: "string \<Rightarrow> nat \<Rightarrow> string" where
  "sanitize_text s limit = take limit (join_words (filter (\<lambda>w. w \<noteq> []) (split_words s)))"

section \<open>Services\<close>

definition is_retention_eligible :: "backup_record \<Rightarrow> bool" where
  "is_retention_eligible b =
     (bk_status b = BS_SUCCEEDED \<and> bk_integrity b = IS_VERIFIED \<and> bk_trigger b = TRIGGER_SCHEDULED
      \<and> bk_scope b = SCOPE_ALL_ENABLED \<and> \<not> bk_pinned b \<and> \<not> bk_protected b)"

definition moved_backup :: "int \<Rightarrow> backup_status \<Rightarrow> string \<Rightarrow> string \<Rightarrow> backup_record \<Rightarrow> backup_record" where
  "moved_backup now t code summary b =
     b\<lparr>bk_status := t,
       bk_started_at := (if t = BS_PREPARING \<and> bk_started_at b = None then Some now else bk_started_at b),
       bk_completed_at := (if t \<in> {BS_SUCCEEDED, BS_FAILED, BS_CANCELLED} then Some now else bk_completed_at b),
       bk_failure_code := (if t = BS_FAILED then sanitize_text code 80 else bk_failure_code b),
       bk_failure_summary := (if t = BS_FAILED then sanitize_text summary 2000 else bk_failure_summary b),
       bk_retention_eligible :=
         (if t = BS_SUCCEEDED then is_retention_eligible (b\<lparr>bk_status := t\<rparr>)
          else if t \<in> {BS_DELETION_PENDING, BS_DELETED} then False else bk_retention_eligible b),
       bk_deleted_at := (if t = BS_DELETED then Some now else bk_deleted_at b),
       bk_updated_at := now\<rparr>"

definition transition_backup ::
    "id \<Rightarrow> backup_status \<Rightarrow> string \<Rightarrow> string \<Rightarrow> 'a backup_db_scheme \<Rightarrow> err + 'a backup_db_scheme" where
  "transition_backup i target code summary db =
     (case row_by bk_id i (backups db) of
        None \<Rightarrow> Inl DoesNotExist
      | Some b \<Rightarrow>
          ebind (validate_backup_transition (bk_status b) target) (\<lambda>t.
          if t = BS_SUCCEEDED \<and> bk_integrity b \<noteq> IS_VERIFIED
          then Inl (ValidationError ''A backup cannot succeed before integrity is verified.'')
          else Inr (db\<lparr>backups := save_row bk_id (moved_backup (clock db) t code summary b) (backups db)\<rparr>)))"

definition set_backup_integrity ::
    "id \<Rightarrow> integrity_status \<Rightarrow> 'a backup_db_scheme \<Rightarrow> err + 'a backup_db_scheme" where
  "set_backup_integrity i target db =
     (case row_by bk_id i (backups db) of
        None \<Rightarrow> Inl DoesNotExist
      | Some b \<Rightarrow>
          ebind (validate_integrity_transition (bk_integrity b) target) (\<lambda>t.
          Inr (db\<lparr>backups := save_row bk_id
            (b\<lparr>bk_integrity := t,
               bk_verified_at := (if t = IS_VERIFIED then Some (clock db) else bk_verified_at b),
               bk_retention_eligible := (if t \<in> {IS_FAILED, IS_CORRUPTED} then False else bk_retention_eligible b),
               bk_updated_at := clock db\<rparr>)
            (backups db)\<rparr>)))"

definition safety_backup_valid :: "restore_operation \<Rightarrow> backup_record \<Rightarrow> bool" where
  "safety_backup_valid r b =
     (bk_parent_restore b = Some (ro_id r) \<and> bk_trigger b = TRIGGER_SAFETY \<and> bk_protected b
      \<and> bk_status b = BS_SUCCEEDED \<and> bk_integrity b = IS_VERIFIED)"

definition moved_restore :: "int \<Rightarrow> restore_status \<Rightarrow> string \<Rightarrow> string \<Rightarrow> string \<Rightarrow> restore_operation \<Rightarrow> restore_operation" where
  "moved_restore now t code summary rollback r =
     r\<lparr>ro_status := t,
       ro_started_at := (if t = RS_AUTHORIZING \<and> ro_started_at r = None then Some now else ro_started_at r),
       ro_completed_at := (if t \<in> {RS_SUCCEEDED, RS_FAILED, RS_ROLLED_BACK, RS_INDETERMINATE} then Some now
          else ro_completed_at r),
       ro_failure_code := (if t \<in> {RS_FAILED, RS_INDETERMINATE} then sanitize_text code 80 else ro_failure_code r),
       ro_failure_summary := (if t \<in> {RS_FAILED, RS_INDETERMINATE} then sanitize_text summary 2000
          else ro_failure_summary r),
       ro_rollback_attempted := (t \<in> {RS_ROLLING_BACK, RS_ROLLED_BACK} \<or> ro_rollback_attempted r),
       ro_rollback_result := (if t = RS_ROLLED_BACK then sanitize_text rollback 500 else ro_rollback_result r),
       ro_updated_at := now\<rparr>"

definition transition_restore ::
    "id \<Rightarrow> restore_status \<Rightarrow> string \<Rightarrow> string \<Rightarrow> string \<Rightarrow> 'a backup_db_scheme \<Rightarrow> err + 'a backup_db_scheme" where
  "transition_restore i target code summary rollback db =
     (case row_by ro_id i (restores db) of
        None \<Rightarrow> Inl DoesNotExist
      | Some r \<Rightarrow>
          ebind (validate_restore_transition (ro_status r) target) (\<lambda>t.
          let safety = (case ro_safety_backup r of None \<Rightarrow> None | Some k \<Rightarrow> row_by bk_id k (backups db));
              sound = (case safety of Some b \<Rightarrow> bk_business b = ro_business r \<and> safety_backup_valid r b | None \<Rightarrow> False)
          in if ro_status r = RS_SAFETY_BACKUP \<and> t = RS_VALIDATING \<and> \<not> sound
             then Inl (ValidationError (''Validation cannot start without this restore's protected, ''
                    @ ''verified safety backup.''))
             else Inr (db\<lparr>restores := save_row ro_id (moved_restore (clock db) t code summary rollback r) (restores db)\<rparr>)))"

definition PRE_MUTATION :: string where
  "PRE_MUTATION = ''pre_mutation_''"

definition restart_failed_restore_before_mutation :: "id \<Rightarrow> 'a backup_db_scheme \<Rightarrow> err + 'a backup_db_scheme" where
  "restart_failed_restore_before_mutation i db =
     (case row_by ro_id i (restores db) of
        None \<Rightarrow> Inl DoesNotExist
      | Some r \<Rightarrow>
          if ro_status r \<noteq> RS_FAILED \<or> take (length PRE_MUTATION) (ro_failure_code r) \<noteq> PRE_MUTATION
             \<or> ro_rollback_attempted r
          then Inl (ValidationError ''This restore operation is not safely retryable.'')
          else Inr (db\<lparr>restores := save_row ro_id
            (r\<lparr>ro_status := RS_AUTHORIZING, ro_failure_code := [], ro_failure_summary := [],
               ro_completed_at := None, ro_updated_at := clock db\<rparr>) (restores db)\<rparr>))"

definition set_restore_safety_backup :: "id \<Rightarrow> id \<Rightarrow> 'a backup_db_scheme \<Rightarrow> err + 'a backup_db_scheme" where
  "set_restore_safety_backup i k db =
     (case (row_by ro_id i (restores db), row_by bk_id k (backups db)) of
        (Some r, Some b) \<Rightarrow>
          if bk_business b \<noteq> ro_business r
          then Inl (ValidationError ''The safety backup belongs to another business.'')
          else if \<not> safety_backup_valid r b
          then Inl (ValidationError ''Restore requires its own fresh, protected, verified safety backup.'')
          else Inr (db\<lparr>restores := save_row ro_id (r\<lparr>ro_safety_backup := Some k, ro_updated_at := clock db\<rparr>) (restores db)\<rparr>)
      | _ \<Rightarrow> Inl DoesNotExist)"

end
