(* ===== verification/Backup_Requests.thy ===== *)
theory Backup_Requests
  imports Backup_Lifecycle Numbering
begin

text \<open>
  The requests of \<^verbatim>\<open>apps/backups/services.py\<close>: entitlement of a scope, authorization, idempotency,
  pinning, activities and restore requests, with the compatibility verdict of
  \<^verbatim>\<open>apps/backups/versioning.py\<close>.  Parameters: the version metadata of the deployment (a hash of its
  migration graph), and \<open>fresh\<close>, the random key that \<^verbatim>\<open>generate_idempotency_key\<close> draws when none is
  given.  The snapshots of actors, the free-form metadata and the request data of an activity row
  are not kept.
\<close>

section \<open>Scopes\<close>

definition resolve_product_entitlements ::
    "(string list \<Rightarrow> string list) \<Rightarrow> 'a core_db_scheme \<Rightarrow> business \<Rightarrow> product_owner list" where
  "resolve_product_entitlements ord db business =
     (case subscription_of db (biz_id business) of
        None \<Rightarrow> []
      | Some s \<Rightarrow>
          let modules = effective_modules (plan_modules ord (sub_plan s))
          in (if ''pos_core'' \<in> set modules then [OWNER_POS] else [])
             @ (if ''wms'' \<in> set modules then [OWNER_WMS] else []))"

definition available_backup_scopes ::
    "(string list \<Rightarrow> string list) \<Rightarrow> 'a core_db_scheme \<Rightarrow> business \<Rightarrow> backup_scope list" where
  "available_backup_scopes ord db business =
     (let products = resolve_product_entitlements ord db business
      in (if OWNER_POS \<in> set products then [SCOPE_POS] else [])
         @ (if OWNER_WMS \<in> set products then [SCOPE_WMS] else [])
         @ (if products \<noteq> [] then [SCOPE_ALL_ENABLED] else []))"

record scope_resolution =
  sr_scope :: backup_scope
  sr_products :: "product_owner list"
  sr_components :: "component_def list"

definition resolve_requested_scope ::
    "(string list \<Rightarrow> string list) \<Rightarrow> 'a core_db_scheme \<Rightarrow> business \<Rightarrow> backup_scope \<Rightarrow> err + scope_resolution"
where
  "resolve_requested_scope ord db business scope =
     (let products = resolve_product_entitlements ord db business;
          included = (case scope of
              SCOPE_POS \<Rightarrow> [OWNER_POS]
            | SCOPE_WMS \<Rightarrow> [OWNER_WMS]
            | SCOPE_ALL_ENABLED \<Rightarrow> filter (\<lambda>p. p \<in> set products) [OWNER_POS, OWNER_WMS])
      in case resolve_components scope products of
           Inl (ScopeResolutionError m) \<Rightarrow> Inl (ScopeNotAllowed m)
         | Inl _ \<Rightarrow> Inl (ValueError ''ComponentRegistryError'')
         | Inr components \<Rightarrow> Inr \<lparr>sr_scope = scope, sr_products = included, sr_components = components\<rparr>)"

section \<open>Compatibility\<close>

datatype compatibility = COMPATIBLE | REQUIRES_UPGRADE string | INCOMPATIBLE string

definition BACKUP_FORMAT_VERSION :: string where
  "BACKUP_FORMAT_VERSION = ''1.0''"

text \<open>\<open>re.findall(r"\d+", s)\<close>\<close>

fun digit_runs :: "string \<Rightarrow> string \<Rightarrow> string list" where
  "digit_runs run [] = (if run = [] then [] else [run])"
| "digit_runs run (c # cs) =
     (if is_digit c then digit_runs (run @ [c]) cs
      else (if run = [] then [] else [run]) @ digit_runs [] cs)"

definition version_tuple :: "string \<Rightarrow> nat list" where
  "version_tuple s = (let numbers = map digits_val (take 3 (digit_runs [] s)) in if numbers = [] then [0] else numbers)"

definition assess_restore_compatibility :: "version_metadata \<Rightarrow> string \<Rightarrow> string \<Rightarrow> string \<Rightarrow> compatibility" where
  "assess_restore_compatibility current format_version minimum schema =
     (if format_version \<noteq> BACKUP_FORMAT_VERSION
      then INCOMPATIBLE ''The backup format is not supported by this application release.''
      else if version_tuple (vm_application current) < version_tuple minimum
      then INCOMPATIBLE ''The backup requires a newer application release.''
      else if schema \<noteq> vm_schema current
      then REQUIRES_UPGRADE ''The migration graph differs and requires a future compatibility adapter.''
      else COMPATIBLE)"

section \<open>Authorization\<close>

text \<open>An actor is a user with the platform attributes; the list holds what \<open>actor.has_perm\<close> grants.\<close>

record actor = user +
  actor_staff :: bool
  actor_superuser :: bool
  actor_permissions :: "string list"

definition PLATFORM_PERMISSION_FOR_ACTION :: "(string \<times> string) list" where
  "PLATFORM_PERMISSION_FOR_ACTION =
     [(''backups.view'', ''backups.platform_view_metadata''),
      (''backups.create'', ''backups.platform_manage_backups''),
      (''backups.schedule'', ''backups.platform_manage_backups''),
      (''backups.pin'', ''backups.platform_manage_backups''),
      (''backups.restore'', ''backups.platform_approve_restore'')]"

definition module_keys_for_products :: "product_owner list \<Rightarrow> string list" where
  "module_keys_for_products products =
     (if OWNER_POS \<in> set products then [''pos_core''] else [])
     @ (if OWNER_WMS \<in> set products then [''wms''] else [])"

text \<open>The lookup of an unknown action is a \<open>KeyError\<close>; every caller passes one of the five.\<close>

definition authorize ::
    "(string list \<Rightarrow> string list) \<Rightarrow> 'a core_db_scheme \<Rightarrow> actor option \<Rightarrow> business \<Rightarrow> product_owner list \<Rightarrow>
     string \<Rightarrow> bool \<Rightarrow> err + unit" where
  "authorize ord db actor business products code system_actor =
     (if system_actor then Inr ()
      else case actor of
        None \<Rightarrow> Inl (PermissionDenied ''An authenticated actor is required.'')
      | Some a \<Rightarrow>
          if \<not> is_authenticated a then Inl (PermissionDenied ''An authenticated actor is required.'')
          else if actor_staff a
          then (case map_of PLATFORM_PERMISSION_FOR_ACTION code of
              None \<Rightarrow> Inl (ValueError code)
            | Some p \<Rightarrow>
                if actor_superuser a \<or> p \<in> set (actor_permissions a) then Inr ()
                else Inl (PermissionDenied ''The platform capability is not assigned.''))
          else let ks = module_keys_for_products products in
            if ks = [] then Inl (PermissionDenied ''No entitled backup product is available.'')
            else ebind (decision_result (fst (evaluate_actor_access ord db (Some (user.truncate a)) (Some business)
                   (Keys (map KeyText ks)) (Some code) (Enum WRITE) None None True))) (\<lambda>_. Inr ()))"

section \<open>Activities\<close>

definition event_char :: "char \<Rightarrow> bool" where
  "event_char c = (let n = (of_char c :: nat) in (97 \<le> n \<and> n \<le> 122) \<or> (48 \<le> n \<and> n \<le> 57))"

text \<open>\<open>^[a-z0-9][a-z0-9._-]{0,99}$\<close>, matched in full\<close>

definition event_type_valid :: "string \<Rightarrow> bool" where
  "event_type_valid s =
     (case s of
        [] \<Rightarrow> False
      | c # cs \<Rightarrow> event_char c \<and> list_all (\<lambda>x. event_char x \<or> x \<in> set ''._-'') cs \<and> length cs \<le> 99)"

definition create_backup_activity ::
    "id \<Rightarrow> string \<Rightarrow> backup_record option \<Rightarrow> restore_operation option \<Rightarrow> id option \<Rightarrow> string \<Rightarrow>
     'a backup_db_scheme \<Rightarrow> err + 'a backup_db_scheme" where
  "create_backup_activity business event backup restore actor reason db =
     (let e = py_lower (py_strip event) in
      if \<not> event_type_valid e then Inl (ValidationError ''The backup activity event type is invalid.'')
      else if (case backup of Some b \<Rightarrow> bk_business b \<noteq> business | None \<Rightarrow> False)
      then Inl (ValidationError ''The backup belongs to another business.'')
      else if (case restore of Some r \<Rightarrow> ro_business r \<noteq> business | None \<Rightarrow> False)
      then Inl (ValidationError ''The restore operation belongs to another business.'')
      else Inr (db\<lparr>activities := activities db @
        [\<lparr>ac_business = business, ac_event = e, ac_backup = map_option bk_id backup,
          ac_restore = map_option ro_id restore, ac_actor = actor, ac_reason = sanitize_text reason 500,
          ac_created_at = clock db\<rparr>]\<rparr>))"

definition emit_summary_audit :: "string \<Rightarrow> business \<Rightarrow> id \<Rightarrow> 'a backup_db_scheme \<Rightarrow> 'a backup_db_scheme" where
  "emit_summary_audit action business i db =
     db\<lparr>summary_audit := summary_audit db @ [(action, biz_id business, i)]\<rparr>"

section \<open>Backup requests\<close>

definition normalize_idempotency_key :: "string option \<Rightarrow> string \<Rightarrow> err + string" where
  "normalize_idempotency_key key fresh =
     (let k = py_strip (case key of Some s \<Rightarrow> if s = [] then fresh else s | None \<Rightarrow> fresh)
      in if k = [] \<or> 128 < length k
         then Inl (ValidationError ''The idempotency key must contain 1 to 128 characters.'') else Inr k)"

definition validate_existing_backup_idempotency ::
    "backup_record \<Rightarrow> scope_resolution \<Rightarrow> backup_trigger \<Rightarrow> int option \<Rightarrow> restore_operation option \<Rightarrow>
     err + backup_record" where
  "validate_existing_backup_idempotency b res trigger local_date parent =
     (if bk_scope b \<noteq> sr_scope res \<or> bk_products b \<noteq> sr_products res \<or> bk_trigger b \<noteq> trigger
         \<or> bk_local_date b \<noteq> local_date \<or> bk_parent_restore b \<noteq> map_option ro_id parent
      then Inl IdempotencyConflict else Inr b)"

definition backup_by_key :: "'a backup_db_scheme \<Rightarrow> id \<Rightarrow> string \<Rightarrow> backup_record option" where
  "backup_by_key db business key = find (\<lambda>b. bk_business b = business \<and> bk_key b = key) (backups db)"

definition new_backup ::
    "'a backup_db_scheme \<Rightarrow> version_metadata \<Rightarrow> business \<Rightarrow> scope_resolution \<Rightarrow> actor option \<Rightarrow> backup_trigger \<Rightarrow>
     int option \<Rightarrow> string \<Rightarrow> restore_operation option \<Rightarrow> bool \<Rightarrow> backup_record" where
  "new_backup db versions business res actor trigger local_date key parent system_actor =
     \<lparr>bk_id = next_pk bk_id (backups db), bk_business = biz_id business, bk_scope = sr_scope res,
      bk_products = sr_products res, bk_components = map cd_key (sr_components res), bk_trigger = trigger,
      bk_local_date = local_date, bk_status = BS_QUEUED, bk_integrity = IS_NOT_CHECKED,
      bk_protected = (trigger = TRIGGER_SAFETY), bk_pinned = False, bk_retention_eligible = False,
      bk_versions = versions, bk_storage_backend = [], bk_object_key = [], bk_artifact_hash = [],
      bk_parent_restore = map_option ro_id parent, bk_key = key, bk_system_actor = system_actor,
      bk_created_by = Option.bind actor user_pk, bk_started_at = None, bk_completed_at = None,
      bk_verified_at = None, bk_deleted_at = None, bk_updated_at = clock db,
      bk_failure_code = [], bk_failure_summary = []\<rparr>"

text \<open>The checks before authorization.\<close>

definition check_backup_request ::
    "business \<Rightarrow> scope_resolution \<Rightarrow> backup_trigger \<Rightarrow> int option \<Rightarrow> restore_operation option \<Rightarrow> bool \<Rightarrow> err + unit"
where
  "check_backup_request business res trigger local_date parent system_actor =
     (let fail = (\<lambda>m. Inl (ValidationError m)) in
      if trigger = TRIGGER_SCHEDULED \<and> local_date = None
      then fail ''Scheduled backup metadata requires a local date.''
      else if trigger = TRIGGER_SCHEDULED \<and> sr_scope res \<noteq> SCOPE_ALL_ENABLED
      then fail ''Daily schedules must use ALL_ENABLED scope.''
      else if trigger \<noteq> TRIGGER_SCHEDULED \<and> local_date \<noteq> None
      then fail ''Only scheduled backups may have a scheduled local date.''
      else if trigger = TRIGGER_SAFETY \<and> parent = None
      then fail ''A safety backup must reference its restore operation.''
      else if trigger = TRIGGER_SAFETY \<and> (case parent of Some r \<Rightarrow> ro_business r \<noteq> biz_id business | None \<Rightarrow> False)
      then fail ''The restore operation belongs to another business.''
      else if system_actor \<and> trigger = TRIGGER_MANUAL
      then fail ''A manual backup request requires a human actor.''
      else Inr ())"

text \<open>
  The insertion fails on a parent that has no row; the lookup that follows the failure finds no row
  with the key either, since the first lookup found none.
\<close>

definition create_backup_request ::
    "(string list \<Rightarrow> string list) \<Rightarrow> version_metadata \<Rightarrow> string \<Rightarrow> business \<Rightarrow> backup_scope \<Rightarrow> actor option \<Rightarrow>
     backup_trigger \<Rightarrow> int option \<Rightarrow> string option \<Rightarrow> restore_operation option \<Rightarrow> bool \<Rightarrow>
     'a backup_db_scheme \<Rightarrow> err + backup_record \<times> 'a backup_db_scheme" where
  "create_backup_request ord versions fresh business scope actor trigger local_date key parent system_actor db =
     ebind (resolve_requested_scope ord db business scope) (\<lambda>res.
     ebind (check_backup_request business res trigger local_date parent system_actor) (\<lambda>_.
     ebind (authorize ord db actor business (sr_products res) ''backups.create'' system_actor) (\<lambda>_.
     ebind (normalize_idempotency_key key fresh) (\<lambda>k.
     case backup_by_key db (biz_id business) k of
       Some b \<Rightarrow> ebind (validate_existing_backup_idempotency b res trigger local_date parent) (\<lambda>b. Inr (b, db))
     | None \<Rightarrow>
         if (case parent of Some r \<Rightarrow> ro_id r \<notin> ro_id ` set (restores db) | None \<Rightarrow> False)
         then Inl IntegrityError
         else let b = new_backup db versions business res actor trigger local_date k parent system_actor
           in ebind (create_backup_activity (biz_id business) ''backup.requested'' (Some b) None
                       (Option.bind actor user_pk) [] (db\<lparr>backups := backups db @ [b]\<rparr>)) (\<lambda>db'.
              Inr (b, emit_summary_audit ''backup.requested'' business (bk_id b) db'))))))"

definition set_backup_pinned ::
    "(string list \<Rightarrow> string list) \<Rightarrow> business \<Rightarrow> backup_record \<Rightarrow> bool \<Rightarrow> actor option \<Rightarrow>
     'a backup_db_scheme \<Rightarrow> err + 'a backup_db_scheme" where
  "set_backup_pinned ord business backup pinned actor db =
     (if bk_business backup \<noteq> biz_id business
      then Inl (ValidationError ''The backup belongs to another business.'')
      else
        ebind (resolve_requested_scope ord db business (bk_scope backup)) (\<lambda>res.
        if \<not> set (bk_products backup) \<subseteq> set (sr_products res)
        then Inl (ScopeNotAllowed ''The backup contains a currently disabled product.'')
        else
          ebind (authorize ord db actor business (bk_products backup) ''backups.pin'' False) (\<lambda>_.
          case row_by bk_id (bk_id backup) (backups db) of
            None \<Rightarrow> Inl DoesNotExist
          | Some b \<Rightarrow>
              let b' = b\<lparr>bk_pinned := pinned\<rparr>;
                  current = b'\<lparr>bk_retention_eligible := is_retention_eligible b', bk_updated_at := clock db\<rparr>;
                  event = (if pinned then ''backup.pinned'' else ''backup.unpinned'')
              in ebind (create_backup_activity (biz_id business) event (Some current) None (Option.bind actor user_pk) []
                          (db\<lparr>backups := save_row bk_id current (backups db)\<rparr>)) (\<lambda>db'.
                 Inr (emit_summary_audit event business (bk_id b) db')))))"

section \<open>Restore requests\<close>

definition restore_by_key :: "'a backup_db_scheme \<Rightarrow> id \<Rightarrow> string \<Rightarrow> restore_operation option" where
  "restore_by_key db business key = find (\<lambda>r. ro_business r = business \<and> ro_key r = key) (restores db)"

definition validate_existing_restore_idempotency ::
    "restore_operation \<Rightarrow> backup_record \<Rightarrow> backup_scope \<Rightarrow> err + restore_operation" where
  "validate_existing_restore_idempotency r source scope =
     (if ro_source r \<noteq> bk_id source \<or> ro_scope r \<noteq> scope then Inl IdempotencyConflict else Inr r)"

definition new_restore ::
    "'a backup_db_scheme \<Rightarrow> business \<Rightarrow> backup_record \<Rightarrow> backup_scope \<Rightarrow> actor option \<Rightarrow> string \<Rightarrow> string \<Rightarrow>
     restore_operation" where
  "new_restore db business source scope actor reason key =
     \<lparr>ro_id = next_pk ro_id (restores db), ro_business = biz_id business, ro_source = bk_id source,
      ro_scope = scope, ro_status = RS_QUEUED, ro_safety_backup = None, ro_reason = reason, ro_key = key,
      ro_requested_by = Option.bind actor user_pk, ro_started_at = None, ro_completed_at = None,
      ro_updated_at = clock db, ro_failure_code = [], ro_failure_summary = [],
      ro_rollback_attempted = False, ro_rollback_result = []\<rparr>"

definition create_restore_request ::
    "(string list \<Rightarrow> string list) \<Rightarrow> version_metadata \<Rightarrow> string \<Rightarrow> business \<Rightarrow> backup_record \<Rightarrow> backup_scope \<Rightarrow>
     actor option \<Rightarrow> string \<Rightarrow> string option \<Rightarrow>
     'a backup_db_scheme \<Rightarrow> err + restore_operation \<times> 'a backup_db_scheme" where
  "create_restore_request ord versions fresh business source_backup scope actor reason key db =
     (if bk_business source_backup \<noteq> biz_id business
      then Inl (ValidationError ''The source backup belongs to another business.'')
      else case row_by bk_id (bk_id source_backup) (filter (\<lambda>b. bk_business b = biz_id business) (backups db)) of
        None \<Rightarrow> Inl DoesNotExist
      | Some source \<Rightarrow>
          ebind (resolve_requested_scope ord db business scope) (\<lambda>res.
          if \<not> set (sr_products res) \<subseteq> set (bk_products source)
          then Inl (ScopeNotAllowed ''The requested scope is not fully contained in the source backup.'')
          else if bk_status source \<noteq> BS_SUCCEEDED \<or> bk_integrity source \<noteq> IS_VERIFIED
          then Inl (ValidationError ''Only a verified successful backup can be restored.'')
          else
            ebind (authorize ord db actor business (sr_products res) ''backups.restore'' False) (\<lambda>_.
            let normalized_reason = sanitize_text reason 500 in
            if normalized_reason = [] then Inl (ValidationError ''A restore reason is required.'')
            else case assess_restore_compatibility versions (vm_format (bk_versions source))
                   (vm_minimum (bk_versions source)) (vm_schema (bk_versions source)) of
              REQUIRES_UPGRADE why \<Rightarrow> Inl (ValidationError why)
            | INCOMPATIBLE why \<Rightarrow> Inl (ValidationError why)
            | COMPATIBLE \<Rightarrow>
                ebind (normalize_idempotency_key key fresh) (\<lambda>k.
                case restore_by_key db (biz_id business) k of
                  Some r \<Rightarrow> ebind (validate_existing_restore_idempotency r source scope) (\<lambda>r. Inr (r, db))
                | None \<Rightarrow>
                    let r = new_restore db business source scope actor normalized_reason k
                    in ebind (create_backup_activity (biz_id business) ''restore.requested'' (Some source) (Some r)
                                (Option.bind actor user_pk) normalized_reason
                                (db\<lparr>restores := restores db @ [r]\<rparr>)) (\<lambda>db'.
                       Inr (r, emit_summary_audit ''restore.requested'' business (ro_id r) db'))))))"

end
