(* ===== verification/Backup_Runs.thy ===== *)
theory Backup_Runs
  imports Backup_Requests
begin

text \<open>
  What the services keep of the backup tables: the constraints of the database hold after every
  operation, so no service fails with an integrity error on an update; a restore changes data only
  behind its own safety backup; a request key stands for one backup; every backup can be deleted,
  within a bounded number of transitions.
\<close>

section \<open>Lifecycles end\<close>

fun backup_rank :: "backup_status \<Rightarrow> nat" where
  "backup_rank BS_QUEUED = 8"
| "backup_rank BS_PREPARING = 7"
| "backup_rank BS_SNAPSHOTTING = 6"
| "backup_rank BS_PACKAGING = 5"
| "backup_rank BS_UPLOADING = 4"
| "backup_rank BS_VERIFYING = 3"
| "backup_rank BS_SUCCEEDED = 2"
| "backup_rank BS_FAILED = 2"
| "backup_rank BS_CANCELLED = 2"
| "backup_rank BS_DELETION_PENDING = 1"
| "backup_rank BS_DELETED = 0"

definition backup_transitions :: "id \<Rightarrow> backup_status list \<Rightarrow> 'a backup_db_scheme \<Rightarrow> err + 'a backup_db_scheme" where
  "backup_transitions i path db = efold (\<lambda>t. transition_backup i t [] []) path db"

lemma backup_rank_decreases: "can_transition s t BACKUP_TRANSITIONS \<Longrightarrow> backup_rank t < backup_rank s"
  by (cases s) (auto simp: can_transition_def)

lemma moved_backup_keeps [simp]:
  "bk_id (moved_backup now t code summary b) = bk_id b"
  "bk_status (moved_backup now t code summary b) = t"
  by (simp_all add: moved_backup_def)

lemma transition_backup_result:
  "transition_backup i t code summary db = Inr db' \<longleftrightarrow>
     (\<exists>b. row_by bk_id i (backups db) = Some b \<and> can_transition (bk_status b) t BACKUP_TRANSITIONS
        \<and> (t = BS_SUCCEEDED \<longrightarrow> bk_integrity b = IS_VERIFIED)
        \<and> db' = db\<lparr>backups := save_row bk_id (moved_backup (clock db) t code summary b) (backups db)\<rparr>)"
  unfolding transition_backup_def validate_backup_transition_def validate_transition_def
  by (auto simp: returns)

lemma transition_backup_row:
  "row_by bk_id i (backups db) = Some b \<Longrightarrow> can_transition (bk_status b) t BACKUP_TRANSITIONS \<Longrightarrow>
     t \<noteq> BS_SUCCEEDED \<Longrightarrow>
     \<exists>db' b'. transition_backup i t code summary db = Inr db' \<and> row_by bk_id i (backups db') = Some b' \<and> bk_status b' = t"
proof -
  assume row: "row_by bk_id i (backups db) = Some b" and t: "can_transition (bk_status b) t BACKUP_TRANSITIONS"
    "t \<noteq> BS_SUCCEEDED"
  let ?m = "moved_backup (clock db) t code summary b"
  have "bk_id b = i" "bk_id ?m \<in> bk_id ` set (backups db)" using row_by_Some[OF row] by auto
  then have "row_by bk_id i (save_row bk_id ?m (backups db)) = Some ?m"
    using save_row_same[of bk_id ?m "backups db"] by simp
  then show ?thesis using row t by (auto simp: transition_backup_result)
qed

text \<open>C21: every sequence of successful transitions of a backup is bounded by the rank of its status.\<close>

theorem backup_lifecycle_bounded:
  assumes "row_by bk_id i (backups db) = Some b" and "backup_transitions i path db = Inr db'"
  shows "\<exists>b'. row_by bk_id i (backups db') = Some b' \<and> length path + backup_rank (bk_status b') \<le> backup_rank (bk_status b)"
  using assms
proof (induction path arbitrary: db b)
  case Nil
  then show ?case by (simp add: backup_transitions_def)
next
  case (Cons t path)
  then obtain u where u: "transition_backup i t [] [] db = Inr u" and rest: "backup_transitions i path u = Inr db'"
    by (auto simp: backup_transitions_def result_simps)
  let ?m = "moved_backup (clock db) t [] [] b"
  have "bk_id b = i" "bk_id ?m \<in> bk_id ` set (backups db)" using row_by_Some[OF Cons.prems(1)] by auto
  then have "row_by bk_id i (save_row bk_id ?m (backups db)) = Some ?m"
    using save_row_same[of bk_id ?m "backups db"] by simp
  moreover have u': "u = db\<lparr>backups := save_row bk_id ?m (backups db)\<rparr>" "can_transition (bk_status b) t BACKUP_TRANSITIONS"
    using u Cons.prems(1) by (auto simp: transition_backup_result)
  ultimately have row: "row_by bk_id i (backups u) = Some ?m" by simp
  from Cons.IH[OF row rest] backup_rank_decreases[OF u'(2)] show ?case by fastforce
qed

text \<open>C20: from every status a backup can be moved to its deletion, in at most three transitions.\<close>

theorem backup_always_deletable:
  assumes "row_by bk_id i (backups db) = Some b"
  shows "\<exists>path db' b'. length path \<le> 3 \<and> backup_transitions i path db = Inr db'
     \<and> row_by bk_id i (backups db') = Some b' \<and> bk_status b' = BS_DELETED"
proof -
  have last: "\<exists>db' b'. backup_transitions i [BS_DELETED] db = Inr db' \<and> row_by bk_id i (backups db') = Some b' \<and> bk_status b' = BS_DELETED"
    if "row_by bk_id i (backups db) = Some b" "bk_status b = BS_DELETION_PENDING" for db b
    using transition_backup_row[OF that(1), of BS_DELETED "[]" "[]"] that(2)
    by (auto simp: backup_transitions_def can_transition_def)
  have pending: "\<exists>db' b'. backup_transitions i [BS_DELETION_PENDING, BS_DELETED] db = Inr db'
      \<and> row_by bk_id i (backups db') = Some b' \<and> bk_status b' = BS_DELETED"
    if "row_by bk_id i (backups db) = Some b" "bk_status b \<in> {BS_SUCCEEDED, BS_FAILED, BS_CANCELLED}" for db b
    using transition_backup_row[OF that(1), of BS_DELETION_PENDING "[]" "[]"] that(2) last
    by (fastforce simp: backup_transitions_def can_transition_def)
  have started: "\<exists>db' b'. backup_transitions i [BS_FAILED, BS_DELETION_PENDING, BS_DELETED] db = Inr db'
      \<and> row_by bk_id i (backups db') = Some b' \<and> bk_status b' = BS_DELETED"
    if "row_by bk_id i (backups db) = Some b" "can_transition (bk_status b) BS_FAILED BACKUP_TRANSITIONS" for db b
    using transition_backup_row[OF that, of "[]" "[]"] pending
    by (fastforce simp: backup_transitions_def)
  consider "bk_status b = BS_DELETED" | "bk_status b = BS_DELETION_PENDING"
    | "bk_status b \<in> {BS_SUCCEEDED, BS_FAILED, BS_CANCELLED}"
    | "can_transition (bk_status b) BS_FAILED BACKUP_TRANSITIONS"
    by (cases "bk_status b") (auto simp: can_transition_def)
  then show ?thesis
  proof cases
    case 1
    then show ?thesis using assms by (intro exI[of _ "[]"]) (simp add: backup_transitions_def)
  next
    case 2
    then show ?thesis using last[OF assms] by (intro exI[of _ "[BS_DELETED]"]) simp
  next
    case 3
    then show ?thesis using pending[OF assms] by (intro exI[of _ "[BS_DELETION_PENDING, BS_DELETED]"]) simp
  next
    case 4
    then show ?thesis using started[OF assms] by (intro exI[of _ "[BS_FAILED, BS_DELETION_PENDING, BS_DELETED]"]) simp
  qed
qed

section \<open>The constraints of the tables\<close>

text \<open>The check constraints of \<open>BackupRecord\<close>, by name.\<close>

definition backup_constraints :: "backup_record \<Rightarrow> bool" where
  "backup_constraints b =
     ((bk_trigger b = TRIGGER_SCHEDULED \<longrightarrow> bk_local_date b \<noteq> None)
      \<and> (bk_trigger b = TRIGGER_SAFETY \<longrightarrow> bk_protected b \<and> \<not> bk_retention_eligible b \<and> bk_parent_restore b \<noteq> None)
      \<and> (bk_retention_eligible b \<longrightarrow> is_retention_eligible b)
      \<and> (bk_status b = BS_SUCCEEDED \<longrightarrow> bk_integrity b \<in> {IS_VERIFIED, IS_CORRUPTED})
      \<and> (bk_status b = BS_DELETED \<longrightarrow> bk_deleted_at b \<noteq> None))"

text \<open>The statuses in which a restore may have touched the tenant's data.\<close>

definition mutating :: "restore_status set" where
  "mutating = {RS_VALIDATING, RS_RESTORING, RS_VERIFYING, RS_SUCCEEDED}"

definition own_safety_backup :: "restore_operation \<Rightarrow> backup_record \<Rightarrow> bool" where
  "own_safety_backup r b =
     (bk_business b = ro_business r \<and> bk_parent_restore b = Some (ro_id r) \<and> bk_trigger b = TRIGGER_SAFETY
      \<and> bk_protected b \<and> bk_id b \<noteq> ro_source r)"

definition restore_constraints :: "backup_record list \<Rightarrow> restore_operation \<Rightarrow> bool" where
  "restore_constraints bs r =
     ((\<exists>s \<in> set bs. bk_id s = ro_source r \<and> bk_business s = ro_business r \<and> bk_parent_restore s \<noteq> Some (ro_id r))
      \<and> (case ro_safety_backup r of
           None \<Rightarrow> ro_status r \<notin> mutating
         | Some k \<Rightarrow> \<exists>b \<in> set bs. bk_id b = k \<and> own_safety_backup r b))"

definition tables_ok :: "backup_record list \<Rightarrow> restore_operation list \<Rightarrow> bool" where
  "tables_ok bs rs =
     (distinct (map bk_id bs) \<and> distinct (map ro_id rs)
      \<and> distinct (map (\<lambda>b. (bk_business b, bk_key b)) bs) \<and> distinct (map (\<lambda>r. (ro_business r, ro_key r)) rs)
      \<and> (\<forall>b \<in> set bs. backup_constraints b \<and> (\<forall>p. bk_parent_restore b = Some p \<longrightarrow> p \<in> ro_id ` set rs))
      \<and> (\<forall>r \<in> set rs. restore_constraints bs r))"

text \<open>What no service changes of a row.\<close>

definition same_backup :: "backup_record \<Rightarrow> backup_record \<Rightarrow> bool" where
  "same_backup a b =
     (bk_id a = bk_id b \<and> bk_business a = bk_business b \<and> bk_key a = bk_key b \<and> bk_scope a = bk_scope b
      \<and> bk_products a = bk_products b \<and> bk_trigger a = bk_trigger b \<and> bk_local_date a = bk_local_date b
      \<and> bk_parent_restore a = bk_parent_restore b \<and> bk_protected a = bk_protected b)"

definition same_restore :: "restore_operation \<Rightarrow> restore_operation \<Rightarrow> bool" where
  "same_restore a b =
     (ro_id a = ro_id b \<and> ro_business a = ro_business b \<and> ro_key a = ro_key b \<and> ro_source a = ro_source b
      \<and> ro_scope a = ro_scope b)"

lemma same_backup_refl [simp]: "same_backup b b"
  by (simp add: same_backup_def)

lemma same_backup_trans: "same_backup a b \<Longrightarrow> same_backup b c \<Longrightarrow> same_backup a c"
  by (simp add: same_backup_def)

lemma save_row_related:
  assumes "distinct (map pk rs)" and "r0 \<in> set rs" and "pk r = pk r0" and "P r0 r" and "\<And>x. P x x"
  shows "\<forall>x \<in> set rs. \<exists>y \<in> set (save_row pk r rs). P x y"
    and "\<forall>y \<in> set (save_row pk r rs). \<exists>x \<in> set rs. P x y"
proof -
  have one: "x = r0" if "x \<in> set rs" "pk x = pk r" for x
    using that assms(1-3) by (auto simp: distinct_map dest: inj_onD)
  have image: "P x (if pk x = pk r then r else x)" if "x \<in> set rs" for x
    using one[OF that] assms(4,5) by auto
  then show "\<forall>x \<in> set rs. \<exists>y \<in> set (save_row pk r rs). P x y"
    unfolding save_row_def set_map by (intro ballI bexI[OF _ imageI])
  show "\<forall>y \<in> set (save_row pk r rs). \<exists>x \<in> set rs. P x y"
  proof
    fix y assume "y \<in> set (save_row pk r rs)"
    then obtain x where x: "x \<in> set rs" "y = (if pk x = pk r then r else x)" by (auto simp: save_row_def)
    have "P x y" using image[OF x(1)] x(2) by simp
    then show "\<exists>x \<in> set rs. P x y" using x(1) by blast
  qed
qed

lemma row_unique: "distinct (map pk rs) \<Longrightarrow> x \<in> set rs \<Longrightarrow> y \<in> set rs \<Longrightarrow> pk x = pk y \<Longrightarrow> x = y"
  by (metis distinct_map inj_onD)

lemma save_row_map_same:
  assumes "distinct (map pk rs)" and "r0 \<in> set rs" and "pk r = pk r0" and "f r = f r0"
  shows "map f (save_row pk r rs) = map f rs"
proof (rule save_row_map_other)
  fix x assume "x \<in> set rs" and "pk x = pk r"
  then have "x = r0" using assms(1-3) by (auto simp: distinct_map dest: inj_onD)
  then show "f x = f r" using assms(4) by simp
qed

lemma restore_constraints_mono:
  assumes r: "restore_constraints bs r" and kept: "\<forall>x \<in> set bs. \<exists>y \<in> set bs'. same_backup x y"
  shows "restore_constraints bs' r"
proof -
  have source: "\<exists>s \<in> set bs'. bk_id s = ro_source r \<and> bk_business s = ro_business r \<and> bk_parent_restore s \<noteq> Some (ro_id r)"
  proof -
    obtain s :: backup_record where s: "s \<in> set bs" "bk_id s = ro_source r" "bk_business s = ro_business r"
      "bk_parent_restore s \<noteq> Some (ro_id r)" using r by (auto simp: restore_constraints_def)
    obtain s' where "s' \<in> set bs'" "same_backup s s'" using kept s(1) by blast
    then show ?thesis using s(2-4) by (auto simp: same_backup_def intro!: bexI[of _ s'])
  qed
  have "\<exists>b \<in> set bs'. bk_id b = k \<and> own_safety_backup r b" if k: "ro_safety_backup r = Some k" for k
  proof -
    obtain b where b: "b \<in> set bs" "bk_id b = k" "own_safety_backup r b"
      using r k by (auto simp: restore_constraints_def)
    obtain b' where b': "b' \<in> set bs'" "same_backup b b'" using kept b(1) by blast
    show ?thesis using b(2,3) b' by (auto simp: own_safety_backup_def same_backup_def intro!: bexI[of _ b'])
  qed
  then show ?thesis using source r by (auto simp: restore_constraints_def split: option.splits)
qed

lemma save_backup_ok:
  assumes ok: "tables_ok bs rs" and b: "b \<in> set bs" and same: "same_backup b b'" and new: "backup_constraints b'"
  shows "tables_ok (save_row bk_id b' bs) rs" and "\<forall>x \<in> set bs. \<exists>y \<in> set (save_row bk_id b' bs). same_backup x y"
proof -
  have ids: "distinct (map bk_id bs)" "bk_id b' = bk_id b" using ok same by (auto simp: tables_ok_def same_backup_def)
  note related = save_row_related[OF ids(1) b ids(2), of same_backup, OF same same_backup_refl]
  have keys: "map (\<lambda>b. (bk_business b, bk_key b)) (save_row bk_id b' bs) = map (\<lambda>b. (bk_business b, bk_key b)) bs"
    using same by (intro save_row_map_same[OF ids(1) b ids(2)]) (simp add: same_backup_def)
  have "set (save_row bk_id b' bs) \<subseteq> insert b' (set bs)" using set_save_row by fastforce
  moreover have "\<forall>p. bk_parent_restore b' = Some p \<longrightarrow> p \<in> ro_id ` set rs"
    using ok b same by (auto simp: tables_ok_def same_backup_def)
  ultimately have rows: "\<forall>x \<in> set (save_row bk_id b' bs). backup_constraints x \<and>
      (\<forall>p. bk_parent_restore x = Some p \<longrightarrow> p \<in> ro_id ` set rs)"
    using ok new unfolding tables_ok_def by blast
  have "\<forall>r \<in> set rs. restore_constraints (save_row bk_id b' bs) r"
    using ok related(1) restore_constraints_mono unfolding tables_ok_def by blast
  then show "tables_ok (save_row bk_id b' bs) rs" using ok rows keys by (simp add: tables_ok_def)
  show "\<forall>x \<in> set bs. \<exists>y \<in> set (save_row bk_id b' bs). same_backup x y" by (rule related(1))
qed

lemma save_restore_ok:
  assumes ok: "tables_ok bs rs" and r: "r \<in> set rs" and same: "same_restore r r'" and new: "restore_constraints bs r'"
  shows "tables_ok bs (save_row ro_id r' rs)"
proof -
  have ids: "distinct (map ro_id rs)" "ro_id r' = ro_id r" using ok same by (auto simp: tables_ok_def same_restore_def)
  have keys: "map (\<lambda>r. (ro_business r, ro_key r)) (save_row ro_id r' rs) = map (\<lambda>r. (ro_business r, ro_key r)) rs"
    using same by (intro save_row_map_same[OF ids(1) r ids(2)]) (simp add: same_restore_def)
  have "set (save_row ro_id r' rs) \<subseteq> insert r' (set rs)" using set_save_row by fastforce
  then have rows: "\<forall>x \<in> set (save_row ro_id r' rs). restore_constraints bs x"
    using ok new unfolding tables_ok_def by blast
  have "ro_id ` set (save_row ro_id r' rs) = ro_id ` set rs" by (metis map_pk_save_row list.set_map)
  then show ?thesis using ok rows keys by (simp add: tables_ok_def)
qed

section \<open>Every service keeps the constraints\<close>

text \<open>
  A run of the services in any order, by any actors, at any time; the environment changes anything
  but the two tables.
\<close>

inductive backup_step :: "(string list \<Rightarrow> string list) \<Rightarrow> 'a backup_db_scheme \<Rightarrow> 'a backup_db_scheme \<Rightarrow> bool"
  for ord where
  created: "create_backup_request ord versions fresh business scope actor trigger local_date key parent system_actor db
      = Inr (b, db') \<Longrightarrow> backup_step ord db db'"
| moved: "transition_backup i target code summary db = Inr db' \<Longrightarrow> backup_step ord db db'"
| checked: "set_backup_integrity i target db = Inr db' \<Longrightarrow> backup_step ord db db'"
| pinned: "set_backup_pinned ord business backup pinned actor db = Inr db' \<Longrightarrow> backup_step ord db db'"
| restore_created: "create_restore_request ord versions fresh business source scope actor reason key db
      = Inr (r, db') \<Longrightarrow> backup_step ord db db'"
| restore_moved: "transition_restore i rtarget code summary rollback db = Inr db' \<Longrightarrow> backup_step ord db db'"
| restarted: "restart_failed_restore_before_mutation i db = Inr db' \<Longrightarrow> backup_step ord db db'"
| safety_set: "set_restore_safety_backup i k db = Inr db' \<Longrightarrow> backup_step ord db db'"
| environment: "backups db' = backups db \<Longrightarrow> restores db' = restores db \<Longrightarrow> backup_step ord db db'"

inductive backup_run :: "(string list \<Rightarrow> string list) \<Rightarrow> 'a backup_db_scheme \<Rightarrow> 'a backup_db_scheme \<Rightarrow> bool"
  for ord where
  start: "backup_run ord db db"
| step: "backup_run ord db u \<Longrightarrow> backup_step ord u db' \<Longrightarrow> backup_run ord db db'"

text \<open>The effect of a service on the tables: rows are only added, or keep what \<open>same_backup\<close> names.\<close>

definition db_ok :: "'a backup_db_scheme \<Rightarrow> bool" where
  "db_ok db = tables_ok (backups db) (restores db)"

definition backups_kept :: "'a backup_db_scheme \<Rightarrow> 'a backup_db_scheme \<Rightarrow> bool" where
  "backups_kept db db' = (\<forall>x \<in> set (backups db). \<exists>y \<in> set (backups db'). same_backup x y)"

lemma backups_kept_refl [simp]: "backups_kept db db"
  by (auto simp: backups_kept_def intro: same_backup_refl)

lemma backups_kept_trans: "backups_kept a b \<Longrightarrow> backups_kept b c \<Longrightarrow> backups_kept a c"
  unfolding backups_kept_def by (meson same_backup_trans)

lemma saved_backup_ok:
  assumes "db_ok db" and "row_by bk_id i (backups db) = Some b" and "same_backup b b'" and "backup_constraints b'"
    and "backups db' = save_row bk_id b' (backups db)" and "restores db' = restores db"
  shows "db_ok db' \<and> backups_kept db db'"
proof -
  have b: "b \<in> set (backups db)" using row_by_Some[OF assms(2)] by simp
  show ?thesis using save_backup_ok[OF assms(1)[unfolded db_ok_def] b assms(3,4)] assms(5,6)
    by (simp add: db_ok_def backups_kept_def)
qed

lemma saved_restore_ok:
  assumes "db_ok db" and "row_by ro_id i (restores db) = Some r" and "same_restore r r'"
    and "restore_constraints (backups db) r'"
    and "restores db' = save_row ro_id r' (restores db)" and "backups db' = backups db"
  shows "db_ok db' \<and> backups_kept db db'"
proof -
  have r: "r \<in> set (restores db)" using row_by_Some[OF assms(2)] by simp
  show ?thesis using save_restore_ok[OF assms(1)[unfolded db_ok_def] r assms(3,4)] assms(5,6)
    by (simp add: db_ok_def backups_kept_def) (auto intro: same_backup_refl)
qed

lemma row_constraints: "db_ok db \<Longrightarrow> row_by bk_id i (backups db) = Some b \<Longrightarrow> backup_constraints b"
  using row_by_Some[of bk_id i "backups db" b] by (auto simp: db_ok_def tables_ok_def)

lemma row_restore_constraints:
  "db_ok db \<Longrightarrow> row_by ro_id i (restores db) = Some r \<Longrightarrow> restore_constraints (backups db) r"
  using row_by_Some[of ro_id i "restores db" r] by (auto simp: db_ok_def tables_ok_def)

lemma transition_backup_ok:
  assumes "db_ok db" and "transition_backup i t code summary db = Inr db'"
  shows "db_ok db' \<and> backups_kept db db'"
proof -
  from assms(2) obtain b where b: "row_by bk_id i (backups db) = Some b"
    "can_transition (bk_status b) t BACKUP_TRANSITIONS" "t = BS_SUCCEEDED \<longrightarrow> bk_integrity b = IS_VERIFIED"
    and db': "db' = db\<lparr>backups := save_row bk_id (moved_backup (clock db) t code summary b) (backups db)\<rparr>"
    by (auto simp: transition_backup_result)
  let ?m = "moved_backup (clock db) t code summary b"
  have "same_backup b ?m" by (simp add: same_backup_def moved_backup_def)
  moreover have "backup_constraints ?m"
    using row_constraints[OF assms(1) b(1)] b(2,3)
    by (cases "bk_status b") (auto simp: backup_constraints_def moved_backup_def is_retention_eligible_def can_transition_def)
  ultimately show ?thesis using saved_backup_ok[OF assms(1) b(1)] by (simp add: db')
qed

lemma set_backup_integrity_ok:
  assumes "db_ok db" and "set_backup_integrity i t db = Inr db'"
  shows "db_ok db' \<and> backups_kept db db'"
proof -
  from assms(2) obtain b where b: "row_by bk_id i (backups db) = Some b"
    "can_transition (bk_integrity b) t INTEGRITY_TRANSITIONS"
    and db': "db' = db\<lparr>backups := save_row bk_id (b\<lparr>bk_integrity := t,
               bk_verified_at := (if t = IS_VERIFIED then Some (clock db) else bk_verified_at b),
               bk_retention_eligible := (if t \<in> {IS_FAILED, IS_CORRUPTED} then False else bk_retention_eligible b),
               bk_updated_at := clock db\<rparr>) (backups db)\<rparr>"
    unfolding set_backup_integrity_def validate_integrity_transition_def validate_transition_def
    by (auto simp: returns)
  have "backup_constraints (b\<lparr>bk_integrity := t,
      bk_verified_at := (if t = IS_VERIFIED then Some (clock db) else bk_verified_at b),
      bk_retention_eligible := (if t \<in> {IS_FAILED, IS_CORRUPTED} then False else bk_retention_eligible b),
      bk_updated_at := clock db\<rparr>)"
    using row_constraints[OF assms(1) b(1)] b(2)
    by (cases "bk_integrity b") (auto simp: backup_constraints_def is_retention_eligible_def can_transition_def)
  then show ?thesis by (rule saved_backup_ok[OF assms(1) b(1), rotated]) (simp_all add: db' same_backup_def)
qed

lemma activity_tables:
  "create_backup_activity business event backup restore actor reason db = Inr db' \<Longrightarrow>
     backups db' = backups db \<and> restores db' = restores db"
  by (auto simp: create_backup_activity_def Let_def split: if_splits)

lemma audit_tables [simp]:
  "backups (emit_summary_audit action business i db) = backups db"
  "restores (emit_summary_audit action business i db) = restores db"
  by (simp_all add: emit_summary_audit_def)

lemma set_backup_pinned_ok:
  assumes "db_ok db" and "set_backup_pinned ord business backup pinned actor db = Inr db'"
  shows "db_ok db' \<and> backups_kept db db'"
proof -
  from assms(2) obtain b where b: "row_by bk_id (bk_id backup) (backups db) = Some b"
    and db': "backups db' = save_row bk_id (b\<lparr>bk_pinned := pinned,
         bk_retention_eligible := is_retention_eligible (b\<lparr>bk_pinned := pinned\<rparr>), bk_updated_at := clock db\<rparr>) (backups db)"
      "restores db' = restores db"
    unfolding set_backup_pinned_def Let_def by (auto simp: returns dest!: activity_tables)
  have "backup_constraints (b\<lparr>bk_pinned := pinned,
      bk_retention_eligible := is_retention_eligible (b\<lparr>bk_pinned := pinned\<rparr>), bk_updated_at := clock db\<rparr>)"
    using row_constraints[OF assms(1) b] by (auto simp: backup_constraints_def is_retention_eligible_def)
  then show ?thesis using saved_backup_ok[OF assms(1) b _ _ db'] by (simp add: same_backup_def)
qed

lemma new_backup_ok:
  assumes ok: "db_ok db" and checks: "check_backup_request business res trigger local_date parent system_actor = Inr u"
    and fresh: "backup_by_key db (biz_id business) k = None"
    and parent: "\<not> (case parent of Some r \<Rightarrow> ro_id r \<notin> ro_id ` set (restores db) | None \<Rightarrow> False)"
    and tables: "backups db' = backups db @ [new_backup db versions business res actor trigger local_date k parent system_actor]"
      "restores db' = restores db"
  shows "db_ok db' \<and> backups_kept db db'"
proof -
  let ?b = "new_backup db versions business res actor trigger local_date k parent system_actor"
  have kept: "backups_kept db db'" using tables(1) by (auto simp: backups_kept_def intro: same_backup_refl)
  have ids: "distinct (map bk_id (backups db @ [?b]))"
    using ok by (intro distinct_add_row) (simp_all add: db_ok_def tables_ok_def new_backup_def)
  have keys: "distinct (map (\<lambda>b. (bk_business b, bk_key b)) (backups db @ [?b]))"
    using ok fresh by (auto simp: db_ok_def tables_ok_def new_backup_def backup_by_key_def find_eq_None)
  have "backup_constraints ?b"
    using checks by (auto simp: check_backup_request_def backup_constraints_def new_backup_def Let_def split: if_splits)
  moreover have "\<forall>p. bk_parent_restore ?b = Some p \<longrightarrow> p \<in> ro_id ` set (restores db)"
    using parent by (auto simp: new_backup_def split: option.splits)
  moreover have "\<forall>r \<in> set (restores db). restore_constraints (backups db') r"
    using ok kept restore_constraints_mono unfolding db_ok_def tables_ok_def backups_kept_def by blast
  ultimately show ?thesis using ok ids keys kept tables by (auto simp: db_ok_def tables_ok_def)
qed

lemma create_backup_request_ok:
  assumes ok: "db_ok db"
    and run: "create_backup_request ord versions fresh business scope actor trigger local_date key parent system_actor db
      = Inr (b, db')"
  shows "db_ok db' \<and> backups_kept db db'"
proof -
  from run obtain res k u where checks: "check_backup_request business res trigger local_date parent system_actor = Inr u"
    and result: "(case backup_by_key db (biz_id business) k of
       Some b \<Rightarrow> ebind (validate_existing_backup_idempotency b res trigger local_date parent) (\<lambda>b. Inr (b, db))
     | None \<Rightarrow>
         if (case parent of Some r \<Rightarrow> ro_id r \<notin> ro_id ` set (restores db) | None \<Rightarrow> False)
         then Inl IntegrityError
         else let b = new_backup db versions business res actor trigger local_date k parent system_actor
           in ebind (create_backup_activity (biz_id business) ''backup.requested'' (Some b) None
                       (Option.bind actor user_pk) [] (db\<lparr>backups := backups db @ [b]\<rparr>)) (\<lambda>db'.
              Inr (b, emit_summary_audit ''backup.requested'' business (bk_id b) db'))) = Inr (b, db')"
    unfolding create_backup_request_def by (simp only: ebind_eq_Inr) blast
  show ?thesis
  proof (cases "backup_by_key db (biz_id business) k")
    case (Some old)
    then have "db' = db" using result by (auto simp: returns)
    then show ?thesis using ok by simp
  next
    case None
    then have "backups db' = backups db @ [new_backup db versions business res actor trigger local_date k parent system_actor]"
      "restores db' = restores db"
      "\<not> (case parent of Some r \<Rightarrow> ro_id r \<notin> ro_id ` set (restores db) | None \<Rightarrow> False)"
      using result by (auto simp: returns Let_def dest!: activity_tables)
    then show ?thesis using new_backup_ok[OF ok checks None] by blast
  qed
qed

lemma transition_restore_ok:
  assumes "db_ok db" and "transition_restore i t code summary rollback db = Inr db'"
  shows "db_ok db' \<and> backups_kept db db'"
proof -
  from assms(2) obtain r where r: "row_by ro_id i (restores db) = Some r"
    "can_transition (ro_status r) t RESTORE_TRANSITIONS"
    and sound: "ro_status r = RS_SAFETY_BACKUP \<and> t = RS_VALIDATING \<Longrightarrow> ro_safety_backup r \<noteq> None"
    and db': "db' = db\<lparr>restores := save_row ro_id (moved_restore (clock db) t code summary rollback r) (restores db)\<rparr>"
    unfolding transition_restore_def validate_restore_transition_def validate_transition_def Let_def
    by (auto simp: returns split: option.splits)
  let ?m = "moved_restore (clock db) t code summary rollback r"
  have "restore_constraints (backups db) ?m"
    using row_restore_constraints[OF assms(1) r(1)] r(2) sound
    by (cases "ro_status r")
      (auto simp: restore_constraints_def own_safety_backup_def moved_restore_def mutating_def can_transition_def
        split: option.splits)
  then show ?thesis
    by (rule saved_restore_ok[OF assms(1) r(1), rotated]) (simp_all add: db' same_restore_def moved_restore_def)
qed

lemma restart_ok:
  assumes "db_ok db" and "restart_failed_restore_before_mutation i db = Inr db'"
  shows "db_ok db' \<and> backups_kept db db'"
proof -
  from assms(2) obtain r where r: "row_by ro_id i (restores db) = Some r"
    and db': "db' = db\<lparr>restores := save_row ro_id (r\<lparr>ro_status := RS_AUTHORIZING, ro_failure_code := [],
       ro_failure_summary := [], ro_completed_at := None, ro_updated_at := clock db\<rparr>) (restores db)\<rparr>"
    unfolding restart_failed_restore_before_mutation_def by (auto simp: returns)
  have "restore_constraints (backups db) (r\<lparr>ro_status := RS_AUTHORIZING, ro_failure_code := [],
       ro_failure_summary := [], ro_completed_at := None, ro_updated_at := clock db\<rparr>)"
    using row_restore_constraints[OF assms(1) r]
    by (auto simp: restore_constraints_def own_safety_backup_def mutating_def split: option.splits)
  then show ?thesis
    by (rule saved_restore_ok[OF assms(1) r, rotated]) (simp_all add: db' same_restore_def)
qed

lemma set_restore_safety_backup_ok:
  assumes "db_ok db" and "set_restore_safety_backup i k db = Inr db'"
  shows "db_ok db' \<and> backups_kept db db'"
proof -
  from assms(2) obtain r b where r: "row_by ro_id i (restores db) = Some r" and b: "row_by bk_id k (backups db) = Some b"
    and valid: "bk_business b = ro_business r" "safety_backup_valid r b"
    and db': "db' = db\<lparr>restores := save_row ro_id (r\<lparr>ro_safety_backup := Some k, ro_updated_at := clock db\<rparr>) (restores db)\<rparr>"
    unfolding set_restore_safety_backup_def by (auto simp: returns split: option.splits)
  have b': "b \<in> set (backups db)" "bk_id b = k" using row_by_Some[OF b] by auto
  have old: "restore_constraints (backups db) r" by (rule row_restore_constraints[OF assms(1) r])
  then obtain s :: backup_record where s: "s \<in> set (backups db)" "bk_id s = ro_source r" "bk_parent_restore s \<noteq> Some (ro_id r)"
    by (auto simp: restore_constraints_def)
  have "bk_id b \<noteq> ro_source r"
  proof
    assume "bk_id b = ro_source r"
    moreover have "distinct (map bk_id (backups db))" using assms(1) by (simp add: db_ok_def tables_ok_def)
    ultimately have "b = s" using b'(1) s(1,2) by (simp add: row_unique[of bk_id])
    then show False using s(3) valid(2) by (simp add: safety_backup_valid_def)
  qed
  then have "own_safety_backup r b" using valid by (simp add: own_safety_backup_def safety_backup_valid_def)
  then have "restore_constraints (backups db) (r\<lparr>ro_safety_backup := Some k, ro_updated_at := clock db\<rparr>)"
    using old b' by (auto simp: restore_constraints_def own_safety_backup_def)
  then show ?thesis
    by (rule saved_restore_ok[OF assms(1) r, rotated]) (simp_all add: db' same_restore_def)
qed

lemma guard_compatible:
  "((case c of COMPATIBLE \<Rightarrow> r | REQUIRES_UPGRADE w \<Rightarrow> Inl (f w) | INCOMPATIBLE w \<Rightarrow> Inl (g w)) = Inr x)
     = (c = COMPATIBLE \<and> r = Inr x)"
  by (cases c) simp_all

lemma create_restore_request_ok:
  assumes ok: "db_ok db"
    and run: "create_restore_request ord versions fresh business source_backup scope actor reason key db = Inr (r, db')"
  shows "db_ok db' \<and> backups_kept db db'"
proof -
  from run obtain source k why where
    source: "row_by bk_id (bk_id source_backup) (filter (\<lambda>b. bk_business b = biz_id business) (backups db)) = Some source"
    and result: "(case restore_by_key db (biz_id business) k of
         Some r \<Rightarrow> ebind (validate_existing_restore_idempotency r source scope) (\<lambda>r. Inr (r, db))
       | None \<Rightarrow>
           let r = new_restore db business source scope actor why k
           in ebind (create_backup_activity (biz_id business) ''restore.requested'' (Some source) (Some r)
                       (Option.bind actor user_pk) why (db\<lparr>restores := restores db @ [r]\<rparr>)) (\<lambda>db'.
              Inr (r, emit_summary_audit ''restore.requested'' business (ro_id r) db'))) = Inr (r, db')"
    unfolding create_restore_request_def Let_def
    by (simp only: returns guard_compatible) blast
  have s: "source \<in> set (backups db)" "bk_business source = biz_id business"
    using row_by_Some[OF source] by auto
  show ?thesis
  proof (cases "restore_by_key db (biz_id business) k")
    case (Some old)
    then have "db' = db" using result by (auto simp: returns)
    then show ?thesis using ok by simp
  next
    case None
    let ?r = "new_restore db business source scope actor why k"
    have tables: "restores db' = restores db @ [?r]" "backups db' = backups db"
      using result None by (auto simp: returns Let_def dest!: activity_tables)
    have ids: "distinct (map ro_id (restores db @ [?r]))"
      using ok by (intro distinct_add_row) (simp_all add: db_ok_def tables_ok_def new_restore_def)
    have keys: "distinct (map (\<lambda>r. (ro_business r, ro_key r)) (restores db @ [?r]))"
      using ok None by (auto simp: db_ok_def tables_ok_def new_restore_def restore_by_key_def find_eq_None)
    have "next_pk ro_id (restores db) \<notin> ro_id ` set (restores db)" by (rule next_pk_fresh)
    then have "bk_parent_restore source \<noteq> Some (ro_id ?r)"
      using ok s(1) by (auto simp: db_ok_def tables_ok_def new_restore_def)
    then have "restore_constraints (backups db) ?r"
      using s by (auto simp: restore_constraints_def new_restore_def mutating_def)
    then show ?thesis using ok ids keys tables by (auto simp: db_ok_def tables_ok_def backups_kept_def intro: same_backup_refl)
  qed
qed

lemma environment_ok:
  "backups db' = backups db \<Longrightarrow> restores db' = restores db \<Longrightarrow> db_ok db \<Longrightarrow> db_ok db' \<and> backups_kept db db'"
  by (auto simp: db_ok_def backups_kept_def intro: same_backup_refl)

lemma backup_step_ok: "backup_step ord db db' \<Longrightarrow> db_ok db \<Longrightarrow> db_ok db' \<and> backups_kept db db'"
proof (induction rule: backup_step.induct)
  case created
  from created(2,1) show ?case by (rule create_backup_request_ok)
next
  case moved
  from moved(2,1) show ?case by (rule transition_backup_ok)
next
  case checked
  from checked(2,1) show ?case by (rule set_backup_integrity_ok)
next
  case pinned
  from pinned(2,1) show ?case by (rule set_backup_pinned_ok)
next
  case restore_created
  from restore_created(2,1) show ?case by (rule create_restore_request_ok)
next
  case restore_moved
  from restore_moved(2,1) show ?case by (rule transition_restore_ok)
next
  case restarted
  from restarted(2,1) show ?case by (rule restart_ok)
next
  case safety_set
  from safety_set(2,1) show ?case by (rule set_restore_safety_backup_ok)
next
  case environment
  then show ?case by (rule environment_ok)
qed

lemma backup_run_ok: "backup_run ord db db' \<Longrightarrow> db_ok db \<Longrightarrow> db_ok db' \<and> backups_kept db db'"
  by (induction rule: backup_run.induct) (auto dest: backup_step_ok intro: backups_kept_trans)

section \<open>Properties of every run\<close>

text \<open>C8: after any run of the backup and restore services, by any actors in any order, the tables
  satisfy the constraints of the database: keys are unique, a successful backup is verified or
  corrupted, a backup that retention may delete is a verified, unprotected, unpinned daily one, a
  deleted one has its time, every parent and source exists, and the safety backup of a restore is
  its own.\<close>

theorem backup_run_invariant:
  assumes "backup_run ord db db'" and "tables_ok (backups db) (restores db)"
  shows "tables_ok (backups db') (restores db')"
  using backup_run_ok[OF assms(1)] assms(2) by (simp add: db_ok_def)

text \<open>C9: in every run of the services from consistent tables (the empty ones, for instance) a restore
  is in a status in which data may be changed only if it has a protected safety backup, made for
  this very restore and of the same business, that is not the backup being restored.\<close>

theorem restore_behind_safety_backup:
  assumes "backup_run ord db db'" and "tables_ok (backups db) (restores db)"
    and "r \<in> set (restores db')" and "ro_status r \<in> {RS_VALIDATING, RS_RESTORING, RS_VERIFYING, RS_SUCCEEDED}"
  shows "\<exists>b \<in> set (backups db'). ro_safety_backup r = Some (bk_id b) \<and> bk_parent_restore b = Some (ro_id r)
     \<and> bk_business b = ro_business r \<and> bk_trigger b = TRIGGER_SAFETY \<and> bk_protected b \<and> bk_id b \<noteq> ro_source r"
proof -
  have "db_ok db'" using backup_run_ok[OF assms(1)] assms(2) by (simp add: db_ok_def)
  then have "restore_constraints (backups db') r" using assms(3) by (simp add: db_ok_def tables_ok_def)
  then show ?thesis using assms(4)
    by (auto simp: restore_constraints_def own_safety_backup_def mutating_def split: option.splits)
qed

lemma backup_by_key_unique:
  "db_ok db \<Longrightarrow> b \<in> set (backups db) \<Longrightarrow> backup_by_key db (bk_business b) (bk_key b) = Some b"
proof -
  assume ok: "db_ok db" and b: "b \<in> set (backups db)"
  then obtain y where y: "backup_by_key db (bk_business b) (bk_key b) = Some y"
    by (cases "backup_by_key db (bk_business b) (bk_key b)") (auto simp: backup_by_key_def find_eq_None)
  then have "y \<in> set (backups db) \<and> bk_business y = bk_business b \<and> bk_key y = bk_key b"
    using find_Some_mem[OF y[unfolded backup_by_key_def]] by simp
  then show ?thesis
    using y ok b row_unique[of "\<lambda>b. (bk_business b, bk_key b)" "backups db" y b]
    by (simp add: db_ok_def tables_ok_def)
qed

lemma requested_backup:
  assumes "create_backup_request ord versions fresh business scope actor trigger local_date (Some key) parent system_actor db
      = Inr (b, db')" and "key \<noteq> []"
  shows "b \<in> set (backups db') \<and> bk_business b = biz_id business \<and> bk_key b = py_strip key
     \<and> (\<forall>y. backup_by_key db (biz_id business) (py_strip key) = Some y \<longrightarrow> b = y \<and> db' = db)"
proof -
  from assms(1) obtain res k where k: "normalize_idempotency_key (Some key) fresh = Inr k"
    and result: "(case backup_by_key db (biz_id business) k of
       Some b \<Rightarrow> ebind (validate_existing_backup_idempotency b res trigger local_date parent) (\<lambda>b. Inr (b, db))
     | None \<Rightarrow>
         if (case parent of Some r \<Rightarrow> ro_id r \<notin> ro_id ` set (restores db) | None \<Rightarrow> False)
         then Inl IntegrityError
         else let b = new_backup db versions business res actor trigger local_date k parent system_actor
           in ebind (create_backup_activity (biz_id business) ''backup.requested'' (Some b) None
                       (Option.bind actor user_pk) [] (db\<lparr>backups := backups db @ [b]\<rparr>)) (\<lambda>db'.
              Inr (b, emit_summary_audit ''backup.requested'' business (bk_id b) db'))) = Inr (b, db')"
    unfolding create_backup_request_def by (simp only: ebind_eq_Inr) blast
  have key: "k = py_strip key" using k assms(2) by (auto simp: normalize_idempotency_key_def Let_def split: if_splits)
  show ?thesis
  proof (cases "backup_by_key db (biz_id business) k")
    case (Some y)
    then have "b = y" "db' = db" using result by (auto simp: returns validate_existing_backup_idempotency_def)
    then show ?thesis using Some key find_Some_mem[OF Some[unfolded backup_by_key_def]] by auto
  next
    case None
    then have "b = new_backup db versions business res actor trigger local_date k parent system_actor"
      "backups db' = backups db @ [b]"
      using result by (auto simp: returns Let_def dest!: activity_tables)
    then show ?thesis using None key by (simp add: new_backup_def)
  qed
qed

text \<open>C10: the key of a request stands for one backup for ever: whatever the services do in between,
  any later successful request of the business with the same key, even from another actor or with
  other arguments, returns the backup of the first request and changes nothing.\<close>

theorem backup_request_idempotent:
  assumes "tables_ok (backups db) (restores db)" and "key \<noteq> []"
    and "create_backup_request ord versions fresh business scope actor trigger local_date (Some key) parent system_actor db
      = Inr (b, db1)"
    and "backup_run ord db1 db2"
    and "create_backup_request ord versions' fresh' business scope' actor' trigger' local_date' (Some key) parent'
      system_actor' db2 = Inr (b', db3)"
  shows "db3 = db2 \<and> same_backup b b'"
proof -
  note first = requested_backup[OF assms(3,2)] and second = requested_backup[OF assms(5,2)]
  have "db_ok db1" using create_backup_request_ok[OF _ assms(3)] assms(1) by (simp add: db_ok_def)
  then have db2: "db_ok db2" "backups_kept db1 db2" using backup_run_ok[OF assms(4)] by auto
  then obtain y where y: "y \<in> set (backups db2)" "same_backup b y" using first by (auto simp: backups_kept_def)
  then have "backup_by_key db2 (biz_id business) (py_strip key) = Some y"
    using backup_by_key_unique[OF db2(1) y(1)] first by (simp add: same_backup_def)
  then show ?thesis using second y(2) by simp
qed

text \<open>A failed restore is restarted outside the declared transitions.\<close>

lemma restart_is_no_transition:
  assumes "restart_failed_restore_before_mutation i db = Inr db'"
  shows "\<exists>r r'. row_by ro_id i (restores db) = Some r \<and> row_by ro_id i (restores db') = Some r'
     \<and> ro_status r = RS_FAILED \<and> ro_status r' = RS_AUTHORIZING
     \<and> \<not> can_transition (ro_status r) (ro_status r') RESTORE_TRANSITIONS"
proof -
  from assms obtain r where r: "row_by ro_id i (restores db) = Some r" "ro_status r = RS_FAILED"
    and db': "db' = db\<lparr>restores := save_row ro_id (r\<lparr>ro_status := RS_AUTHORIZING, ro_failure_code := [],
       ro_failure_summary := [], ro_completed_at := None, ro_updated_at := clock db\<rparr>) (restores db)\<rparr>"
    unfolding restart_failed_restore_before_mutation_def by (auto simp: returns)
  let ?m = "r\<lparr>ro_status := RS_AUTHORIZING, ro_failure_code := [],
       ro_failure_summary := [], ro_completed_at := None, ro_updated_at := clock db\<rparr>"
  have "ro_id ?m = i" "ro_id ?m \<in> ro_id ` set (restores db)" using row_by_Some[OF r(1)] by auto
  then have "row_by ro_id i (restores db') = Some ?m" using save_row_same[of ro_id ?m "restores db"] by (simp add: db')
  then show ?thesis using r by (simp add: can_transition_def)
qed

section \<open>Concrete runs\<close>

definition sample_versions :: version_metadata where
  "sample_versions = \<lparr>vm_format = ''1.0'', vm_application = ''1.0.0'', vm_schema = ''s1'', vm_minimum = ''1.0.0''\<rparr>"

definition sample_backup :: backup_record where
  "sample_backup =
     \<lparr>bk_id = 1, bk_business = 1, bk_scope = SCOPE_ALL_ENABLED, bk_products = [OWNER_POS], bk_components = [],
      bk_trigger = TRIGGER_SCHEDULED, bk_local_date = Some 5, bk_status = BS_SUCCEEDED, bk_integrity = IS_VERIFIED,
      bk_protected = False, bk_pinned = False, bk_retention_eligible = True, bk_versions = sample_versions,
      bk_storage_backend = ''s3'', bk_object_key = ''k1'', bk_artifact_hash = ''h1'', bk_parent_restore = None,
      bk_key = ''day-5'', bk_system_actor = True, bk_created_by = None, bk_started_at = Some 10,
      bk_completed_at = Some 20, bk_verified_at = Some 20, bk_deleted_at = None, bk_updated_at = 20,
      bk_failure_code = [], bk_failure_summary = []\<rparr>"

definition sample_backups :: backup_db where
  "sample_backups = core_db.extend sample_core
     \<lparr>backups = [sample_backup], restores = [], operation_locks = [], activities = [], schedules = [], businesses = [sample_business], summary_audit = []\<rparr>"

definition no_backups :: backup_db where
  "no_backups = sample_backups\<lparr>backups := []\<rparr>"

definition first_success :: "(err + 'a) \<Rightarrow> 'a \<Rightarrow> 'a" where
  "first_success r d = (case r of Inr x \<Rightarrow> x | Inl _ \<Rightarrow> d)"

theorem backup_lifecycle_bounded_witness:
  "\<exists>b'. row_by bk_id 1 (backups (first_success (backup_transitions 1 [BS_DELETION_PENDING, BS_DELETED] sample_backups)
     sample_backups)) = Some b' \<and> 2 + backup_rank (bk_status b') \<le> 2"
proof -
  have "row_by bk_id 1 (backups sample_backups) = Some sample_backup" by code_simp
  moreover have "isl (backup_transitions 1 [BS_DELETION_PENDING, BS_DELETED] sample_backups) = False" by code_simp
  then have "backup_transitions 1 [BS_DELETION_PENDING, BS_DELETED] sample_backups = Inr (first_success
      (backup_transitions 1 [BS_DELETION_PENDING, BS_DELETED] sample_backups) sample_backups)"
    by (auto simp: first_success_def split: sum.splits)
  ultimately have "\<exists>b'. row_by bk_id 1 (backups (first_success (backup_transitions 1 [BS_DELETION_PENDING, BS_DELETED]
      sample_backups) sample_backups)) = Some b'
      \<and> length [BS_DELETION_PENDING, BS_DELETED] + backup_rank (bk_status b') \<le> backup_rank (bk_status sample_backup)"
    by (rule backup_lifecycle_bounded)
  then show ?thesis by (simp add: sample_backup_def)
qed

theorem backup_always_deletable_witness:
  "\<exists>path db' b'. length path \<le> 3 \<and> backup_transitions 1 path sample_backups = Inr db'
     \<and> row_by bk_id 1 (backups db') = Some b' \<and> bk_status b' = BS_DELETED"
  by (rule backup_always_deletable[of 1 sample_backups sample_backup]) code_simp

lemma sample_tables: "tables_ok (backups sample_backups) (restores sample_backups)"
  by (simp add: tables_ok_def sample_backups_def core_db.extend_def sample_backup_def backup_constraints_def
      is_retention_eligible_def)

lemma sample_run:
  "backup_run (\<lambda>xs. xs) sample_backups (first_success (set_backup_integrity 1 IS_CORRUPTED sample_backups) sample_backups)"
proof -
  have "\<not> isl (set_backup_integrity 1 IS_CORRUPTED sample_backups)" by code_simp
  then have "set_backup_integrity 1 IS_CORRUPTED sample_backups =
      Inr (first_success (set_backup_integrity 1 IS_CORRUPTED sample_backups) sample_backups)"
    by (auto simp: first_success_def split: sum.splits)
  then show ?thesis by (rule backup_run.step[OF backup_run.start backup_step.checked])
qed

theorem backup_run_invariant_witness:
  "let db' = first_success (set_backup_integrity 1 IS_CORRUPTED sample_backups) sample_backups
   in tables_ok (backups db') (restores db')"
  using backup_run_invariant[OF sample_run sample_tables] by (simp add: Let_def)


text \<open>A restore that waits for its safety backup, and the run that starts it.\<close>

definition sample_restore :: restore_operation where
  "sample_restore =
     \<lparr>ro_id = 1, ro_business = 1, ro_source = 1, ro_scope = SCOPE_POS, ro_status = RS_SAFETY_BACKUP,
      ro_safety_backup = None, ro_reason = ''disk failure'', ro_key = ''r1'', ro_requested_by = Some 7,
      ro_started_at = Some 100, ro_completed_at = None, ro_updated_at = 100, ro_failure_code = [],
      ro_failure_summary = [], ro_rollback_attempted = False, ro_rollback_result = []\<rparr>"

definition waiting :: backup_db where
  "waiting = sample_backups\<lparr>
     backups := [sample_backup, sample_backup\<lparr>bk_id := 2, bk_key := ''r1-safety'', bk_trigger := TRIGGER_SAFETY,
       bk_local_date := None, bk_protected := True, bk_retention_eligible := False, bk_parent_restore := Some 1\<rparr>],
     restores := [sample_restore]\<rparr>"

definition restore_script :: "backup_db \<Rightarrow> err + backup_db" where
  "restore_script db =
     ebind (set_restore_safety_backup 1 2 db) (\<lambda>u. ebind (transition_restore 1 RS_VALIDATING [] [] [] u)
       (transition_restore 1 RS_RESTORING [] [] []))"

definition restoring :: backup_db where
  "restoring = first_success (restore_script waiting) waiting"

lemma restoring_run: "backup_run (\<lambda>xs. xs) waiting restoring"
proof -
  have "\<not> isl (restore_script waiting)" by code_simp
  then have "restore_script waiting = Inr restoring"
    by (auto simp: restoring_def first_success_def split: sum.splits)
  then obtain u v where "set_restore_safety_backup 1 2 waiting = Inr u" "transition_restore 1 RS_VALIDATING [] [] [] u = Inr v"
    "transition_restore 1 RS_RESTORING [] [] [] v = Inr restoring"
    by (auto simp: restore_script_def result_simps)
  then show ?thesis by (meson backup_run.intros backup_step.intros)
qed

theorem restore_behind_safety_backup_witness:
  "list_all (\<lambda>r. ro_status r = RS_RESTORING) (restores restoring) \<and> restores restoring \<noteq> []
   \<and> (\<exists>b \<in> set (backups restoring). ro_safety_backup (hd (restores restoring)) = Some (bk_id b))"
proof -
  have now: "list_all (\<lambda>r. ro_status r = RS_RESTORING) (restores restoring) \<and> restores restoring \<noteq> []"
    by code_simp
  then have r: "hd (restores restoring) \<in> set (restores restoring)"
    "ro_status (hd (restores restoring)) \<in> {RS_VALIDATING, RS_RESTORING, RS_VERIFYING, RS_SUCCEEDED}"
    by (simp_all add: list_all_iff)
  have "tables_ok (backups waiting) (restores waiting)"
    by (simp add: tables_ok_def waiting_def sample_restore_def sample_backup_def backup_constraints_def
        is_retention_eligible_def restore_constraints_def mutating_def)
  from restore_behind_safety_backup[OF restoring_run this r] show ?thesis using now by blast
qed

definition daily_request :: "backup_db \<Rightarrow> err + backup_record \<times> backup_db" where
  "daily_request =
     create_backup_request (\<lambda>xs. xs) sample_versions ''f'' sample_business SCOPE_ALL_ENABLED None TRIGGER_SCHEDULED (Some 5)
       (Some ''day-5'') None True"

theorem backup_request_idempotent_witness:
  "\<exists>b b' db'. daily_request sample_backups = Inr (b, sample_backups)
     \<and> daily_request (first_success (set_backup_integrity 1 IS_CORRUPTED sample_backups) sample_backups) = Inr (b', db')
     \<and> same_backup b b'"
proof -
  let ?db2 = "first_success (set_backup_integrity 1 IS_CORRUPTED sample_backups) sample_backups"
  have "\<not> isl (daily_request sample_backups)" "\<not> isl (daily_request ?db2)" by code_simp+
  then obtain b db1 b' db' where r: "daily_request sample_backups = Inr (b, db1)" "daily_request ?db2 = Inr (b', db')"
    by (cases "daily_request sample_backups"; cases "daily_request ?db2") auto
  have "backup_by_key sample_backups (biz_id sample_business) (py_strip ''day-5'') = Some sample_backup" by code_simp
  then have db1: "db1 = sample_backups" using requested_backup[OF r(1)[unfolded daily_request_def]] by simp
  have run: "backup_run (\<lambda>xs. xs) db1 ?db2" unfolding db1 by (rule sample_run)
  from backup_request_idempotent[OF sample_tables _ r(1)[unfolded daily_request_def] run r(2)[unfolded daily_request_def]]
  show ?thesis using r db1 by simp
qed

end
