(* ===== verification/Operation_Locks.thy ===== *)
theory Operation_Locks
  imports Backup_Runs
begin

text \<open>
  The exclusive operation lock of a tenant (\<^verbatim>\<open>apps/backups/services.py\<close>, \<^verbatim>\<open>TenantOperationLock\<close> of
  \<^verbatim>\<open>models.py\<close>): a lease with a secret token.  The conditional unique constraint on the active rows of
  a business is the check of the insertion.  The locale \<open>lease_protocol\<close> states what a holder relies
  on; it is interpreted on the services.  \<open>now\<close> is the caller's clock.
\<close>

section \<open>Services\<close>

definition second :: int where
  "second = 1000000"

definition lease_valid :: "int \<Rightarrow> bool" where
  "lease_valid lease_seconds = (1 \<le> lease_seconds \<and> lease_seconds \<le> 86400)"

definition expire_locks :: "id \<Rightarrow> int \<Rightarrow> operation_lock list \<Rightarrow> operation_lock list" where
  "expire_locks business now =
     map (\<lambda>l. if lk_business l = business \<and> lk_active l \<and> lk_expires_at l \<le> now
              then l\<lparr>lk_active := False, lk_released_at := Some now\<rparr> else l)"

definition active_lock :: "operation_lock list \<Rightarrow> id \<Rightarrow> bool" where
  "active_lock ls business = list_ex (\<lambda>l. lk_business l = business \<and> lk_active l) ls"

text \<open>A failed insertion rolls the release of the expired lock back, too.\<close>

definition acquire_tenant_operation_lock ::
    "id \<Rightarrow> string \<Rightarrow> id \<Rightarrow> string \<Rightarrow> int \<Rightarrow> id \<Rightarrow> int \<Rightarrow> 'a backup_db_scheme \<Rightarrow> err + operation_lock \<times> 'a backup_db_scheme"
where
  "acquire_tenant_operation_lock business kind operation worker lease_seconds token now db =
     (if \<not> lease_valid lease_seconds
      then Inl (ValidationError ''The operation lock lease must be 1 to 86400 seconds.'')
      else
        let ls = expire_locks business now (operation_locks db) in
        if active_lock ls business then Inl TenantOperationLocked
        else if token \<in> lk_token ` set ls then Inl IntegrityError
        else let l = \<lparr>lk_id = next_pk lk_id ls, lk_business = business, lk_kind = kind, lk_operation = operation,
                lk_token = token, lk_worker = sanitize_text worker 255, lk_acquired_at = now,
                lk_expires_at = now + lease_seconds * second, lk_heartbeat_at = now, lk_released_at = None,
                lk_active = True\<rparr>
          in Inr (l, db\<lparr>operation_locks := ls @ [l]\<rparr>))"

text \<open>
  The compare-and-swap updates report whether they changed a row.  With a clock that runs backwards a
  heartbeat may violate the constraint that a lease ends after its acquisition.
\<close>

definition lock_matches :: "id \<Rightarrow> id \<Rightarrow> operation_lock \<Rightarrow> bool" where
  "lock_matches i token l = (lk_id l = i \<and> lk_token l = token \<and> lk_active l)"

definition heartbeat_tenant_operation_lock ::
    "id \<Rightarrow> id \<Rightarrow> int \<Rightarrow> int \<Rightarrow> 'a backup_db_scheme \<Rightarrow> err + bool \<times> 'a backup_db_scheme" where
  "heartbeat_tenant_operation_lock i token lease_seconds now db =
     (if \<not> lease_valid lease_seconds
      then Inl (ValidationError ''The operation lock lease must be 1 to 86400 seconds.'')
      else let hit = (\<lambda>l. lock_matches i token l \<and> now < lk_expires_at l)
        in if list_ex (\<lambda>l. hit l \<and> now + lease_seconds * second \<le> lk_acquired_at l) (operation_locks db)
           then Inl IntegrityError
           else Inr (length (filter hit (operation_locks db)) = 1,
             db\<lparr>operation_locks := map (\<lambda>l. if hit l
               then l\<lparr>lk_heartbeat_at := now, lk_expires_at := now + lease_seconds * second\<rparr> else l) (operation_locks db)\<rparr>))"

definition release_tenant_operation_lock ::
    "id \<Rightarrow> id \<Rightarrow> int \<Rightarrow> 'a backup_db_scheme \<Rightarrow> bool \<times> 'a backup_db_scheme" where
  "release_tenant_operation_lock i token now db =
     (length (filter (lock_matches i token) (operation_locks db)) = 1,
      db\<lparr>operation_locks := map (\<lambda>l. if lock_matches i token l
        then l\<lparr>lk_active := False, lk_released_at := Some now\<rparr> else l) (operation_locks db)\<rparr>)"

section \<open>Workers\<close>

text \<open>The calls of the workers, in any order; a call that raises changes nothing.\<close>

datatype lock_call =
    Acquire id string id string int id int
  | Heartbeat id id int int
  | Release id id int

fun perform :: "lock_call \<Rightarrow> 'a backup_db_scheme \<Rightarrow> 'a backup_db_scheme" where
  "perform (Acquire business kind operation worker lease token now) db =
     (case acquire_tenant_operation_lock business kind operation worker lease token now db of
        Inr (l, db') \<Rightarrow> db' | Inl e \<Rightarrow> db)"
| "perform (Heartbeat i token lease now) db =
     (case heartbeat_tenant_operation_lock i token lease now db of Inr (hit, db') \<Rightarrow> db' | Inl e \<Rightarrow> db)"
| "perform (Release i token now) db = snd (release_tenant_operation_lock i token now db)"

definition holds :: "'a backup_db_scheme \<Rightarrow> id \<Rightarrow> id \<Rightarrow> int \<Rightarrow> bool" where
  "holds db business token expiry =
     list_ex (\<lambda>l. lk_business l = business \<and> lk_token l = token \<and> lk_active l \<and> lk_expires_at l = expiry)
       (operation_locks db)"

text \<open>A call of another worker: it does not know the token, and it happens before the expiry.\<close>

fun foreign :: "id \<Rightarrow> id \<Rightarrow> int \<Rightarrow> lock_call \<Rightarrow> bool" where
  "foreign business token expiry (Acquire b kind operation worker lease tok now) = (b = business \<longrightarrow> now < expiry)"
| "foreign business token expiry (Heartbeat i tok lease now) = (tok \<noteq> token)"
| "foreign business token expiry (Release i tok now) = (tok \<noteq> token)"

locale lease_protocol =
  fixes held :: "'s \<Rightarrow> 'k \<Rightarrow> 't \<Rightarrow> int \<Rightarrow> bool"
    and act :: "'c \<Rightarrow> 's \<Rightarrow> 's"
    and by_other :: "'k \<Rightarrow> 't \<Rightarrow> int \<Rightarrow> 'c \<Rightarrow> bool"
    and free :: "'s \<Rightarrow> 'k \<Rightarrow> int \<Rightarrow> bool"
  assumes act_keeps: "by_other k t e c \<Longrightarrow> held s k t e \<Longrightarrow> held (act c s) k t e"
    and held_not_free: "held s k t e \<Longrightarrow> now < e \<Longrightarrow> \<not> free s k now"
begin

lemma held_through: "list_all (by_other k t e) cs \<Longrightarrow> held s k t e \<Longrightarrow> held (fold act cs s) k t e"
  by (induction cs arbitrary: s) (simp_all add: act_keeps)

lemma never_free:
  "list_all (by_other k t e) cs \<Longrightarrow> held s k t e \<Longrightarrow> now < e \<Longrightarrow> \<not> free (fold act cs s) k now"
  using held_through held_not_free by blast

end

text \<open>Whether an acquisition with a valid lease and an unused token succeeds.\<close>

definition lock_free :: "'a backup_db_scheme \<Rightarrow> id \<Rightarrow> int \<Rightarrow> bool" where
  "lock_free db business now = (\<not> active_lock (expire_locks business now (operation_locks db)) business)"

lemma active_after_expiry:
  "active_lock (expire_locks business now ls) b \<longleftrightarrow>
     (\<exists>l \<in> set ls. lk_business l = b \<and> lk_active l \<and> (b = business \<longrightarrow> now < lk_expires_at l))"
  by (auto simp: active_lock_def expire_locks_def list_ex_iff)

lemma tokens_expire [simp]: "lk_token ` set (expire_locks business now ls) = lk_token ` set ls"
  unfolding expire_locks_def set_map image_image by (rule image_cong) simp_all

lemma acquire_exact:
  "acquire_tenant_operation_lock business kind operation worker lease token now db =
     (if \<not> lease_valid lease then Inl (ValidationError ''The operation lock lease must be 1 to 86400 seconds.'')
      else if \<not> lock_free db business now then Inl TenantOperationLocked
      else if token \<in> lk_token ` set (operation_locks db) then Inl IntegrityError
      else (let ls = expire_locks business now (operation_locks db);
            l = \<lparr>lk_id = next_pk lk_id ls, lk_business = business, lk_kind = kind, lk_operation = operation,
                lk_token = token, lk_worker = sanitize_text worker 255, lk_acquired_at = now,
                lk_expires_at = now + lease * second, lk_heartbeat_at = now, lk_released_at = None,
                lk_active = True\<rparr>
          in Inr (l, db\<lparr>operation_locks := ls @ [l]\<rparr>)))"
  by (simp add: acquire_tenant_operation_lock_def lock_free_def Let_def)

lemma holds_iff:
  "holds db b t e \<longleftrightarrow> (\<exists>l \<in> set (operation_locks db). lk_business l = b \<and> lk_token l = t \<and> lk_active l \<and> lk_expires_at l = e)"
  by (auto simp: holds_def list_ex_iff)

lemma holds_mapped:
  "holds db b t e \<Longrightarrow>
     (\<And>l. lk_business l = b \<Longrightarrow> lk_token l = t \<Longrightarrow> lk_active l \<Longrightarrow> lk_expires_at l = e \<Longrightarrow> f l = l) \<Longrightarrow>
     set (map f (operation_locks db)) \<subseteq> set (operation_locks db') \<Longrightarrow> holds db' b t e"
  unfolding holds_iff set_map by (metis image_eqI subset_eq)

lemma foreign_keeps: "foreign b t e c \<Longrightarrow> holds db b t e \<Longrightarrow> holds (perform c db) b t e"
proof (induction c db rule: perform.induct)
  case (1 business kind operation worker lease token now db)
  show ?case
  proof (cases "acquire_tenant_operation_lock business kind operation worker lease token now db")
    case (Inl e)
    then show ?thesis using 1 by simp
  next
    case (Inr r)
    then obtain l where r: "r = (l, db\<lparr>operation_locks := expire_locks business now (operation_locks db) @ [l]\<rparr>)"
      by (auto simp: acquire_exact Let_def split: if_splits)
    show ?thesis using 1 Inr r
      by (auto simp: expire_locks_def intro!: holds_mapped[OF 1(2), where f = "\<lambda>l. if lk_business l = business \<and>
          lk_active l \<and> lk_expires_at l \<le> now then l\<lparr>lk_active := False, lk_released_at := Some now\<rparr> else l"])
  qed
next
  case (2 i token lease now db)
  then show ?case
    by (cases "lease_valid lease")
      (auto simp: heartbeat_tenant_operation_lock_def Let_def lock_matches_def
        intro!: holds_mapped[OF 2(2), where f = "\<lambda>l. if lock_matches i token l \<and> now < lk_expires_at l
          then l\<lparr>lk_heartbeat_at := now, lk_expires_at := now + lease * second\<rparr> else l"])
next
  case (3 i token now db)
  then show ?case
    by (auto simp: release_tenant_operation_lock_def lock_matches_def
        intro!: holds_mapped[OF 3(2), where f = "\<lambda>l. if lock_matches i token l
          then l\<lparr>lk_active := False, lk_released_at := Some now\<rparr> else l"])
qed

interpretation lease: lease_protocol holds perform foreign lock_free
proof
  show "foreign k t e c \<Longrightarrow> holds s k t e \<Longrightarrow> holds (perform c s) k t e"
    for k t e c and s :: "'a backup_db_scheme" by (rule foreign_keeps)
  show "holds s k t e \<Longrightarrow> now < e \<Longrightarrow> \<not> lock_free s k now" for k t e now and s :: "'a backup_db_scheme"
    by (auto simp: lock_free_def active_after_expiry holds_iff)
qed

text \<open>C11: while a worker's lease runs, no sequence of calls by workers that do not know its token ends
  or extends the lease or obtains the lock of the business: every attempt is refused as locked.\<close>

theorem lease_excludes_others:
  assumes "holds db business token expiry" and "list_all (foreign business token expiry) calls" and "now < expiry"
    and "1 \<le> lease" and "lease \<le> 86400"
  shows "holds (fold perform calls db) business token expiry \<and>
     acquire_tenant_operation_lock business kind operation worker lease tok now (fold perform calls db) = Inl TenantOperationLocked"
  using lease.held_through[OF assms(2,1)] lease.never_free[OF assms(2,1,3)] assms(4,5)
  by (simp add: acquire_exact lease_valid_def)

section \<open>The table of locks\<close>

definition locks_ok :: "operation_lock list \<Rightarrow> bool" where
  "locks_ok ls =
     (distinct (map lk_id ls) \<and> distinct (map lk_token ls)
      \<and> (\<forall>a \<in> set ls. \<forall>b \<in> set ls. lk_active a \<and> lk_active b \<and> lk_business a = lk_business b \<longrightarrow> a = b)
      \<and> (\<forall>l \<in> set ls. lk_acquired_at l < lk_expires_at l \<and> (lk_active l \<longrightarrow> lk_released_at l = None)))"

lemma locks_ok_map:
  assumes ok: "locks_ok ls"
    and f: "\<And>l. l \<in> set ls \<Longrightarrow> lk_id (f l) = lk_id l \<and> lk_token (f l) = lk_token l \<and> lk_business (f l) = lk_business l
        \<and> (lk_active (f l) \<longrightarrow> lk_active l \<and> lk_released_at (f l) = lk_released_at l)
        \<and> lk_acquired_at (f l) < lk_expires_at (f l)"
  shows "locks_ok (map f ls)"
proof -
  have "map lk_id (map f ls) = map lk_id ls" "map lk_token (map f ls) = map lk_token ls" using f by auto
  moreover have "f a = f b" if "a \<in> set ls" "b \<in> set ls" "lk_active (f a)" "lk_active (f b)"
    "lk_business (f a) = lk_business (f b)" for a b
  proof -
    have "a = b" using that f[OF that(1)] f[OF that(2)] ok unfolding locks_ok_def by metis
    then show ?thesis by simp
  qed
  ultimately show ?thesis using ok f unfolding locks_ok_def by (simp only: set_map ball_simps) metis
qed

lemma acquire_locks_ok:
  assumes ok: "locks_ok (operation_locks db)"
    and run: "acquire_tenant_operation_lock business kind operation worker lease token now db = Inr (l, db')"
  shows "locks_ok (operation_locks db')"
proof -
  let ?ls = "expire_locks business now (operation_locks db)"
  have expired: "locks_ok ?ls" unfolding expire_locks_def
    by (rule locks_ok_map[OF ok]) (use ok in \<open>auto simp: locks_ok_def\<close>)
  from run have new: "operation_locks db' = ?ls @ [l]" "lk_id l = next_pk lk_id ?ls" "lk_business l = business"
      "lk_token l \<notin> lk_token ` set ?ls" "lk_active l" "lk_released_at l = None" "lk_acquired_at l < lk_expires_at l"
    and free: "\<not> active_lock ?ls business"
    by (auto simp: acquire_exact lock_free_def lease_valid_def second_def Let_def split: if_splits)
  have "distinct (map lk_id (?ls @ [l]))"
    using expired new(2) by (intro distinct_add_row) (simp_all add: locks_ok_def)
  moreover have "\<forall>a \<in> set ?ls. lk_active a \<longrightarrow> lk_business a \<noteq> business"
    using free by (auto simp: active_lock_def list_ex_iff)
  ultimately show ?thesis using expired new by (auto simp: locks_ok_def)
qed

lemma perform_locks_ok: "locks_ok (operation_locks db) \<Longrightarrow> locks_ok (operation_locks (perform c db))"
proof (induction c db rule: perform.induct)
  case (1 business kind operation worker lease token now db)
  then show ?case by (auto split: sum.splits intro: acquire_locks_ok)
next
  case (2 i token lease now db)
  let ?hit = "\<lambda>l. lock_matches i token l \<and> now < lk_expires_at l"
  have "locks_ok (map (\<lambda>l. if ?hit l then l\<lparr>lk_heartbeat_at := now, lk_expires_at := now + lease * second\<rparr> else l)
      (operation_locks db))"
    if "\<not> list_ex (\<lambda>l. ?hit l \<and> now + lease * second \<le> lk_acquired_at l) (operation_locks db)"
    by (rule locks_ok_map[OF 2]) (use 2 that in \<open>auto simp: locks_ok_def list_ex_iff not_le\<close>)
  then show ?case using 2 by (auto simp: heartbeat_tenant_operation_lock_def Let_def)
next
  case (3 i token now db)
  have "locks_ok (map (\<lambda>l. if lock_matches i token l then l\<lparr>lk_active := False, lk_released_at := Some now\<rparr> else l)
      (operation_locks db))"
    by (rule locks_ok_map[OF 3]) (use 3 in \<open>auto simp: locks_ok_def lock_matches_def\<close>)
  then show ?case by (simp add: release_tenant_operation_lock_def)
qed

lemma performed_locks_ok: "locks_ok (operation_locks db) \<Longrightarrow> locks_ok (operation_locks (fold perform calls db))"
  by (induction calls arbitrary: db) (simp_all add: perform_locks_ok)

text \<open>C12: whatever the workers call, with whatever clocks, a business has at most one active lock, and
  a worker obtains the lock exactly when no active lease of the business runs any more: the lock of
  a crashed worker blocks the business for its lease only.\<close>

theorem lock_exclusive_and_recovered:
  assumes "locks_ok (operation_locks db)" and "1 \<le> lease" and "lease \<le> 86400"
    and "token \<notin> lk_token ` set (operation_locks (fold perform calls db))"
  shows "(case acquire_tenant_operation_lock business kind operation worker lease token now (fold perform calls db) of
       Inr (l, db') \<Rightarrow> filter (\<lambda>l. lk_business l = business \<and> lk_active l) (operation_locks db') = [l]
         \<and> holds db' business token (now + lease * second)
         \<and> (\<forall>t e. holds (fold perform calls db) business t e \<longrightarrow> e \<le> now)
     | Inl err \<Rightarrow> err = TenantOperationLocked \<and> (\<exists>!t. \<exists>e. now < e \<and> holds (fold perform calls db) business t e))"
proof -
  let ?db = "fold perform calls db"
  have ok: "locks_ok (operation_locks ?db)" by (rule performed_locks_ok[OF assms(1)])
  show ?thesis
  proof (cases "lock_free ?db business now")
    case True
    then have none: "filter (\<lambda>l. lk_business l = business \<and> lk_active l) (expire_locks business now (operation_locks ?db)) = []"
      by (auto simp: lock_free_def active_lock_def list_ex_iff filter_empty_conv)
    have "\<forall>t e. holds ?db business t e \<longrightarrow> e \<le> now"
      using True by (auto simp: lock_free_def active_after_expiry holds_iff not_less)
    then show ?thesis using True none assms(2-4) by (simp add: acquire_exact lease_valid_def Let_def holds_iff)
  next
    case False
    then obtain l where l: "l \<in> set (operation_locks ?db)" "lk_business l = business" "lk_active l" "now < lk_expires_at l"
      by (auto simp: lock_free_def active_after_expiry)
    have "lk_token l = t" if "holds ?db business t e" for t e
      using that ok l(1-3) unfolding holds_iff locks_ok_def by metis
    moreover have "holds ?db business (lk_token l) (lk_expires_at l)" using l by (auto simp: holds_iff)
    ultimately have "\<exists>!t. \<exists>e. now < e \<and> holds ?db business t e" using l(4) by metis
    then show ?thesis using False assms(2,3) by (simp add: acquire_exact lease_valid_def)
  qed
qed

section \<open>A worker that crashes\<close>

definition crashed :: backup_db where
  "crashed = perform (Acquire 1 ''BACKUP'' 8 ''worker-a'' 300 11 1000) no_backups"

theorem lease_excludes_others_witness:
  "acquire_tenant_operation_lock 1 ''RESTORE'' 9 ''worker-b'' 300 12 300000999
     (fold perform [Heartbeat 1 12 300 5000, Release 1 13 6000, Acquire 1 ''RESTORE'' 9 ''worker-b'' 300 12 7000] crashed)
   = Inl TenantOperationLocked"
proof -
  have "holds crashed 1 11 300001000" by code_simp
  then show ?thesis by (rule conjunct2[OF lease_excludes_others]) simp_all
qed

theorem lock_exclusive_and_recovered_witness:
  "\<exists>l db'. acquire_tenant_operation_lock 1 ''RESTORE'' 9 ''worker-b'' 300 12 300001000
     (fold perform [Release 1 13 6000] crashed) = Inr (l, db')
     \<and> filter (\<lambda>l. lk_business l = 1 \<and> lk_active l) (operation_locks db') = [l]"
proof -
  let ?r = "acquire_tenant_operation_lock 1 ''RESTORE'' 9 ''worker-b'' 300 12 300001000 (fold perform [Release 1 13 6000] crashed)"
  have "locks_ok (operation_locks no_backups)"
    by (simp add: locks_ok_def no_backups_def sample_backups_def core_db.extend_def)
  then have ok: "locks_ok (operation_locks crashed)" unfolding crashed_def by (rule perform_locks_ok)
  have "\<not> isl ?r" by code_simp
  then obtain l db' where r: "?r = Inr (l, db')" by (cases ?r) auto
  have "12 \<notin> lk_token ` set (operation_locks (fold perform [Release 1 13 6000] crashed))" by code_simp
  from lock_exclusive_and_recovered[OF ok _ _ this, where lease = 300 and business = 1 and kind = "''RESTORE''"
      and operation = 9 and worker = "''worker-b''" and now = 300001000]
  show ?thesis using r by simp
qed

end
