(* ===== verification/Backup_Dispatch.thy ===== *)
theory Backup_Dispatch
  imports Operation_Locks
begin

text \<open>
  The hand-over of queued backups and restores to the message broker (\<^verbatim>\<open>apps/backups/dispatch.py\<close>)
  and its reconciliation (\<^verbatim>\<open>apps/backups/reconciliation.py\<close>).  The append-only activities are the
  journal.  The broker is a parameter: \<open>accepts n\<close> says whether it takes the message of attempt \<open>n\<close>
  of a batch.  Beside the tables the state lists the messages the publisher was called with, taken or
  not (\<open>published\<close>); a key stands for the public identifier of its row.  A setting is \<open>None\<close> when it is missing or no integer.
\<close>

section \<open>Dispatch\<close>

definition DEFAULT_IMMEDIATE_ATTEMPTS :: int where
  "DEFAULT_IMMEDIATE_ATTEMPTS = 3"

definition DEFAULT_TOTAL_ATTEMPTS :: int where
  "DEFAULT_TOTAL_ATTEMPTS = 12"

record dispatch_settings =
  max_immediate :: "int option"
  max_total :: "int option"

record dispatch_outcome =
  confirmed :: bool
  attempts :: nat
  redispatch :: bool

definition bounded_setting :: "int option \<Rightarrow> int \<Rightarrow> int \<Rightarrow> int \<Rightarrow> int" where
  "bounded_setting v dflt minimum maximum =
     (case v of None \<Rightarrow> dflt | Some n \<Rightarrow> if minimum \<le> n \<and> n \<le> maximum then n else dflt)"

definition total_limit :: "dispatch_settings \<Rightarrow> int" where
  "total_limit cfg = bounded_setting (max_total cfg) DEFAULT_TOTAL_ATTEMPTS 3 100"

datatype operation = OfBackup backup_record | OfRestore restore_operation

text \<open>The identifiers of the operation and of its business.\<close>

datatype message = BackupMessage id id | RestoreMessage id id

definition message_of :: "operation \<Rightarrow> message" where
  "message_of op =
     (case op of OfBackup b \<Rightarrow> BackupMessage (bk_id b) (bk_business b)
      | OfRestore r \<Rightarrow> RestoreMessage (ro_id r) (ro_business r))"

record dispatch_db = backup_db +
  published :: "message list"

definition publish :: "operation \<Rightarrow> 'a dispatch_db_scheme \<Rightarrow> 'a dispatch_db_scheme" where
  "publish op db = db\<lparr>published := published db @ [message_of op]\<rparr>"

definition create_activity :: "operation \<Rightarrow> string \<Rightarrow> 'a backup_db_scheme \<Rightarrow> err + 'a backup_db_scheme" where
  "create_activity op event db =
     (case op of
        OfBackup b \<Rightarrow> create_backup_activity (bk_business b) event (Some b) None (bk_created_by b) [] db
      | OfRestore r \<Rightarrow>
          (case row_by bk_id (ro_source r) (backups db) of
             None \<Rightarrow> Inl DoesNotExist
           | Some s \<Rightarrow> create_backup_activity (ro_business r) event (Some s) (Some r) (ro_requested_by r) [] db))"

definition concerns :: "operation \<Rightarrow> backup_activity \<Rightarrow> bool" where
  "concerns op a = (case op of OfBackup b \<Rightarrow> ac_backup a = Some (bk_id b) | OfRestore r \<Rightarrow> ac_restore a = Some (ro_id r))"

definition event_count :: "operation \<Rightarrow> string \<Rightarrow> 'a backup_db_scheme \<Rightarrow> nat" where
  "event_count op event db = length (filter (\<lambda>a. concerns op a \<and> ac_event a = event) (activities db))"

definition has_event :: "operation \<Rightarrow> string list \<Rightarrow> 'a backup_db_scheme \<Rightarrow> bool" where
  "has_event op events db = list_ex (\<lambda>a. concerns op a \<and> ac_event a \<in> set events) (activities db)"

definition record_backup_dispatch_intent :: "backup_record \<Rightarrow> 'a backup_db_scheme \<Rightarrow> err + 'a backup_db_scheme" where
  "record_backup_dispatch_intent b db =
     (if bk_status b \<noteq> BS_QUEUED then Inl (ValueError ''Only an exact queued backup can record dispatch intent.'')
      else if has_event (OfBackup b) [''backup.dispatch_requested''] db then Inr db
      else create_activity (OfBackup b) ''backup.dispatch_requested'' db)"

record dispatch_events =
  ev_attempted :: string
  ev_confirmed :: string
  ev_failed :: string
  ev_redispatched :: string

text \<open>
  The loop over the attempts of a batch; \<open>attempt\<close> is the number of the next one, \<open>left\<close> how many
  remain.  Activities that precede an exception stay stored; \<open>create_activity_backup\<close> shows that
  none occurs for a backup.
\<close>

fun attempt_loop ::
    "(nat \<Rightarrow> bool) \<Rightarrow> dispatch_events \<Rightarrow> operation \<Rightarrow> bool \<Rightarrow> nat \<Rightarrow> nat \<Rightarrow> 'a dispatch_db_scheme \<Rightarrow>
     err + dispatch_outcome \<times> 'a dispatch_db_scheme" where
  "attempt_loop accepts ev op again attempt 0 db =
     ebind (create_activity op (ev_failed ev) db) (\<lambda>db.
     Inr (\<lparr>confirmed = False, attempts = attempt - 1, redispatch = again\<rparr>, db))"
| "attempt_loop accepts ev op again attempt (Suc left) db =
     ebind (create_activity op (ev_attempted ev) db) (\<lambda>db.
     let db = publish op db in
     if accepts attempt
     then ebind (create_activity op (ev_confirmed ev) db) (\<lambda>db.
          ebind (if again then create_activity op (ev_redispatched ev) db else Inr db) (\<lambda>db.
          Inr (\<lparr>confirmed = True, attempts = attempt, redispatch = again\<rparr>, db)))
     else attempt_loop accepts ev op again (Suc attempt) left db)"

definition dispatch_operation ::
    "dispatch_settings \<Rightarrow> (nat \<Rightarrow> bool) \<Rightarrow> dispatch_events \<Rightarrow> operation \<Rightarrow> bool \<Rightarrow> 'a dispatch_db_scheme \<Rightarrow>
     err + dispatch_outcome \<times> 'a dispatch_db_scheme" where
  "dispatch_operation cfg accepts ev op again db =
     (let immediate = bounded_setting (max_immediate cfg) DEFAULT_IMMEDIATE_ATTEMPTS 1 3;
          prior = int (event_count op (ev_attempted ev) db);
          limit = min immediate (max 0 (total_limit cfg - prior))
      in if limit = 0 then Inr (\<lparr>confirmed = False, attempts = 0, redispatch = again\<rparr>, db)
         else attempt_loop accepts ev op again 1 (nat limit) db)"

definition backup_events :: dispatch_events where
  "backup_events = \<lparr>ev_attempted = ''backup.dispatch_attempted'', ev_confirmed = ''backup.dispatch_confirmed'',
     ev_failed = ''backup.dispatch_failed'', ev_redispatched = ''backup.redispatched''\<rparr>"

definition restore_events :: dispatch_events where
  "restore_events = \<lparr>ev_attempted = ''restore.dispatch_attempted'', ev_confirmed = ''restore.dispatch_confirmed'',
     ev_failed = ''restore.dispatch_failed'', ev_redispatched = ''restore.redispatched''\<rparr>"

definition dispatch_backup ::
    "dispatch_settings \<Rightarrow> (nat \<Rightarrow> bool) \<Rightarrow> backup_record \<Rightarrow> bool \<Rightarrow> 'a dispatch_db_scheme \<Rightarrow>
     err + dispatch_outcome \<times> 'a dispatch_db_scheme" where
  "dispatch_backup cfg accepts b again db =
     (if bk_status b \<noteq> BS_QUEUED then Inr (\<lparr>confirmed = False, attempts = 0, redispatch = again\<rparr>, db)
      else dispatch_operation cfg accepts backup_events (OfBackup b) again db)"

definition dispatch_restore ::
    "dispatch_settings \<Rightarrow> (nat \<Rightarrow> bool) \<Rightarrow> restore_operation \<Rightarrow> bool \<Rightarrow> 'a dispatch_db_scheme \<Rightarrow>
     err + dispatch_outcome \<times> 'a dispatch_db_scheme" where
  "dispatch_restore cfg accepts r again db =
     (if ro_status r \<noteq> RS_QUEUED then Inr (\<lparr>confirmed = False, attempts = 0, redispatch = again\<rparr>, db)
      else dispatch_operation cfg accepts restore_events (OfRestore r) again db)"

section \<open>Eligibility\<close>

definition attempt_budget_available :: "dispatch_settings \<Rightarrow> operation \<Rightarrow> string \<Rightarrow> 'a backup_db_scheme \<Rightarrow> bool" where
  "attempt_budget_available cfg op event db = (int (event_count op event db) < total_limit cfg)"

definition lock_of_operation :: "id \<Rightarrow> id \<Rightarrow> 'a backup_db_scheme \<Rightarrow> bool" where
  "lock_of_operation business operation db =
     list_ex (\<lambda>l. lk_business l = business \<and> lk_operation l = operation \<and> lk_active l) (operation_locks db)"

definition backup_dispatch_eligible :: "dispatch_settings \<Rightarrow> backup_record \<Rightarrow> 'a backup_db_scheme \<Rightarrow> bool" where
  "backup_dispatch_eligible cfg b db =
     (bk_status b = BS_QUEUED \<and> bk_trigger b \<noteq> TRIGGER_SAFETY \<and> bk_started_at b = None
      \<and> bk_storage_backend b = [] \<and> bk_object_key b = [] \<and> bk_artifact_hash b = []
      \<and> has_event (OfBackup b) [''backup.dispatch_requested''] db
      \<and> \<not> has_event (OfBackup b) [''backup.dispatch_confirmed'', ''backup.execution_started'', ''backup.completed'',
            ''backup.failed''] db
      \<and> \<not> lock_of_operation (bk_business b) (bk_id b) db
      \<and> attempt_budget_available cfg (OfBackup b) ''backup.dispatch_attempted'' db)"

definition restore_dispatch_eligible :: "dispatch_settings \<Rightarrow> restore_operation \<Rightarrow> 'a backup_db_scheme \<Rightarrow> bool" where
  "restore_dispatch_eligible cfg r db =
     (ro_status r = RS_QUEUED \<and> ro_started_at r = None \<and> ro_safety_backup r = None \<and> \<not> ro_rollback_attempted r
      \<and> has_event (OfRestore r) [''restore.queued''] db
      \<and> \<not> has_event (OfRestore r) [''restore.dispatch_confirmed'', ''restore.worker_started'', ''restore.started'',
            ''restore.mutation_started'', ''restore.completed'', ''restore.failed'', ''restore.recovery_required''] db
      \<and> \<not> lock_of_operation (ro_business r) (ro_id r) db
      \<and> attempt_budget_available cfg (OfRestore r) ''restore.dispatch_attempted'' db)"

definition lock_backup_for_redispatch :: "dispatch_settings \<Rightarrow> id \<Rightarrow> 'a backup_db_scheme \<Rightarrow> backup_record option" where
  "lock_backup_for_redispatch cfg i db =
     (case row_by bk_id i (backups db) of
        Some b \<Rightarrow> if backup_dispatch_eligible cfg b db then Some b else None
      | None \<Rightarrow> None)"

definition lock_restore_for_redispatch :: "dispatch_settings \<Rightarrow> id \<Rightarrow> 'a backup_db_scheme \<Rightarrow> restore_operation option" where
  "lock_restore_for_redispatch cfg i db =
     (case row_by ro_id i (restores db) of
        Some r \<Rightarrow> if restore_dispatch_eligible cfg r db then Some r else None
      | None \<Rightarrow> None)"

section \<open>Reconciliation\<close>

record reconciliation =
  examined_count :: nat
  eligible_count :: nat
  confirmed_count :: nat
  failed_count :: nat

text \<open>
  The activities are stored in the order of their keys; the sort by time is stable.  The query's
  \<open>distinct\<close> applies to the columns it is ordered by as well, so it drops nothing.
\<close>

definition candidate_ids :: "string \<Rightarrow> (backup_activity \<Rightarrow> id option) \<Rightarrow> int \<Rightarrow> int \<Rightarrow> 'a backup_db_scheme \<Rightarrow> err + id list"
where
  "candidate_ids event relation cutoff limit db =
     (if \<not> (1 \<le> limit \<and> limit \<le> 1000) then Inl (ValueError ''limit must be between 1 and 1000.'')
      else Inr (take (nat limit) (List.map_filter relation
        (sort_key ac_created_at (filter (\<lambda>a. ac_event a = event \<and> ac_created_at a \<le> cutoff) (activities db))))))"

fun redispatch_backups ::
    "dispatch_settings \<Rightarrow> (id \<Rightarrow> nat \<Rightarrow> bool) \<Rightarrow> id list \<Rightarrow> reconciliation \<Rightarrow> 'a dispatch_db_scheme \<Rightarrow>
     err + reconciliation \<times> 'a dispatch_db_scheme" where
  "redispatch_backups cfg accepts [] res db = Inr (res, db)"
| "redispatch_backups cfg accepts (i # is) res db =
     (case lock_backup_for_redispatch cfg i db of
        None \<Rightarrow> redispatch_backups cfg accepts is res db
      | Some b \<Rightarrow>
          ebind (dispatch_backup cfg (accepts i) b True db) (\<lambda>(outcome, db).
          redispatch_backups cfg accepts is
            (res\<lparr>eligible_count := eligible_count res + 1,
                 confirmed_count := confirmed_count res + (if confirmed outcome then 1 else 0),
                 failed_count := failed_count res + (if confirmed outcome then 0 else 1)\<rparr>) db))"

definition dispatch_cutoff :: "int option \<Rightarrow> int option \<Rightarrow> int \<Rightarrow> int" where
  "dispatch_cutoff delay_setting eligible_before now =
     (case eligible_before of
        Some t \<Rightarrow> t
      | None \<Rightarrow> now - bounded_setting delay_setting 300 60 86400 * second)"

definition reconcile_queued_backup_dispatches ::
    "dispatch_settings \<Rightarrow> int option \<Rightarrow> (id \<Rightarrow> nat \<Rightarrow> bool) \<Rightarrow> int \<Rightarrow> int option \<Rightarrow> int \<Rightarrow> 'a dispatch_db_scheme \<Rightarrow>
     err + reconciliation \<times> 'a dispatch_db_scheme" where
  "reconcile_queued_backup_dispatches cfg delay accepts now eligible_before limit db =
     ebind (candidate_ids ''backup.dispatch_requested'' ac_backup (dispatch_cutoff delay eligible_before now) limit db) (\<lambda>is.
     redispatch_backups cfg accepts is
       \<lparr>examined_count = length is, eligible_count = 0, confirmed_count = 0, failed_count = 0\<rparr> db)"

fun redispatch_restores ::
    "dispatch_settings \<Rightarrow> (id \<Rightarrow> nat \<Rightarrow> bool) \<Rightarrow> id list \<Rightarrow> reconciliation \<Rightarrow> 'a dispatch_db_scheme \<Rightarrow>
     err + reconciliation \<times> 'a dispatch_db_scheme" where
  "redispatch_restores cfg accepts [] res db = Inr (res, db)"
| "redispatch_restores cfg accepts (i # is) res db =
     (case lock_restore_for_redispatch cfg i db of
        None \<Rightarrow> redispatch_restores cfg accepts is res db
      | Some r \<Rightarrow>
          ebind (dispatch_restore cfg (accepts i) r True db) (\<lambda>(outcome, db).
          redispatch_restores cfg accepts is
            (res\<lparr>eligible_count := eligible_count res + 1,
                 confirmed_count := confirmed_count res + (if confirmed outcome then 1 else 0),
                 failed_count := failed_count res + (if confirmed outcome then 0 else 1)\<rparr>) db))"

definition reconcile_queued_restore_dispatches ::
    "dispatch_settings \<Rightarrow> int option \<Rightarrow> (id \<Rightarrow> nat \<Rightarrow> bool) \<Rightarrow> int \<Rightarrow> int option \<Rightarrow> int \<Rightarrow> 'a dispatch_db_scheme \<Rightarrow>
     err + reconciliation \<times> 'a dispatch_db_scheme" where
  "reconcile_queued_restore_dispatches cfg delay accepts now eligible_before limit db =
     ebind (candidate_ids ''restore.queued'' ac_restore (dispatch_cutoff delay eligible_before now) limit db) (\<lambda>is.
     redispatch_restores cfg accepts is
       \<lparr>examined_count = length is, eligible_count = 0, confirmed_count = 0, failed_count = 0\<rparr> db)"

datatype stale_category =
    STALE_QUEUED | STALE_PRE_DURABLE | AMBIGUOUS_PROVIDER_STAGE | DURABLE_OBJECT_VERIFIED_PENDING_DB | TERMINAL

definition classify_backup_operation :: "backup_record \<Rightarrow> stale_category" where
  "classify_backup_operation b =
     (if bk_status b = BS_QUEUED then STALE_QUEUED
      else if bk_status b \<in> {BS_PREPARING, BS_SNAPSHOTTING, BS_PACKAGING} then STALE_PRE_DURABLE
      else if bk_status b = BS_UPLOADING then AMBIGUOUS_PROVIDER_STAGE
      else if bk_status b = BS_VERIFYING
      then (if bk_storage_backend b \<noteq> [] \<and> bk_object_key b \<noteq> [] \<and> bk_artifact_hash b \<noteq> []
            then DURABLE_OBJECT_VERIFIED_PENDING_DB else AMBIGUOUS_PROVIDER_STAGE)
      else if bk_status b \<in> {BS_SUCCEEDED, BS_FAILED, BS_CANCELLED, BS_DELETION_PENDING, BS_DELETED} then TERMINAL
      else AMBIGUOUS_PROVIDER_STAGE)"

definition reconcile_stale_backup_operations ::
    "int option \<Rightarrow> int option \<Rightarrow> int \<Rightarrow> 'a backup_db_scheme \<Rightarrow> (id \<times> stale_category) list" where
  "reconcile_stale_backup_operations threshold_setting stale_before now db =
     (let cutoff = (case stale_before of
            Some t \<Rightarrow> t
          | None \<Rightarrow> now - bounded_setting threshold_setting 21600 300 604800 * second)
      in filter (\<lambda>c. snd c \<noteq> TERMINAL)
           (map (\<lambda>b. (bk_id b, classify_backup_operation b)) (filter (\<lambda>b. bk_updated_at b \<le> cutoff) (backups db))))"

section \<open>Laws\<close>

text \<open>What a dispatch leaves alone, and how far the attempts may go.\<close>

lemma create_activity_effect:
  "create_activity op event db = Inr db' \<Longrightarrow> event_type_valid event \<Longrightarrow> py_lower (py_strip event) = event \<Longrightarrow>
     \<exists>a. activities db' = activities db @ [a] \<and> concerns op a \<and> ac_event a = event \<and> backups db' = backups db
       \<and> restores db' = restores db \<and> operation_locks db' = operation_locks db
       \<and> (\<forall>b. ac_backup a = Some b \<longrightarrow> (case op of OfBackup x \<Rightarrow> b = bk_id x | OfRestore r \<Rightarrow> b = ro_source r))
       \<and> (case op of OfBackup x \<Rightarrow> ac_restore a = None | OfRestore r \<Rightarrow> True)"
  by (cases op)
    (auto simp: create_activity_def create_backup_activity_def concerns_def Let_def dest: row_by_Some
      split: if_splits option.splits)

lemma create_activity_backup:
  "event_type_valid event \<Longrightarrow> py_lower (py_strip event) = event \<Longrightarrow> \<exists>db'. create_activity (OfBackup b) event db = Inr db'"
  by (simp add: create_activity_def create_backup_activity_def)

definition events_valid :: "dispatch_events \<Rightarrow> bool" where
  "events_valid ev =
     (list_all (\<lambda>e. event_type_valid e \<and> py_lower (py_strip e) = e)
        [ev_attempted ev, ev_confirmed ev, ev_failed ev, ev_redispatched ev]
      \<and> distinct [ev_attempted ev, ev_confirmed ev, ev_failed ev, ev_redispatched ev])"

lemma code_events: "events_valid backup_events" "events_valid restore_events"
  by code_simp+

text \<open>What a series of dispatches adds to the journal of an operation.\<close>

lemma create_activity_published:
  "create_activity op e db = Inr db' \<Longrightarrow> published db' = published db"
  by (cases op) (auto simp: create_activity_def create_backup_activity_def Let_def split: if_splits option.splits)

lemma publish_tables [simp]:
  "activities (publish op db) = activities db" "backups (publish op db) = backups db"
  "restores (publish op db) = restores db" "operation_locks (publish op db) = operation_locks db"
  "published (publish op db) = published db @ [message_of op]"
  by (simp_all add: publish_def)

lemma event_count_publish [simp]: "event_count op' e (publish op db) = event_count op' e db"
  by (simp add: event_count_def)

definition journal_step :: "operation \<Rightarrow> dispatch_events \<Rightarrow> 'a backup_db_scheme \<Rightarrow> 'a backup_db_scheme \<Rightarrow> bool" where
  "journal_step op ev db db' =
     (\<exists>new. activities db' = activities db @ new
        \<and> (\<forall>a \<in> set new. ac_event a \<in> {ev_attempted ev, ev_confirmed ev, ev_failed ev, ev_redispatched ev} \<and> concerns op a
             \<and> (case op of OfBackup x \<Rightarrow> ac_restore a = None | OfRestore r \<Rightarrow> True))
        \<and> backups db' = backups db \<and> restores db' = restores db \<and> operation_locks db' = operation_locks db)"

lemma journal_refl [simp]: "journal_step op ev db db"
  by (simp add: journal_step_def)

lemma journal_publish [simp]: "journal_step op ev db (publish op' db') = journal_step op ev db db'"
  by (simp add: journal_step_def)

lemma journal_trans: "journal_step op ev a b \<Longrightarrow> journal_step op ev b c \<Longrightarrow> journal_step op ev a c"
  unfolding journal_step_def by (fastforce split: operation.splits)

lemma journal_activity:
  assumes "create_activity op e db = Inr db'" and "events_valid ev"
    and "e \<in> {ev_attempted ev, ev_confirmed ev, ev_failed ev, ev_redispatched ev}"
  shows "journal_step op ev db db' \<and> event_count op e' db' = event_count op e' db + (if e' = e then 1 else 0)"
proof -
  have "event_type_valid e" "py_lower (py_strip e) = e" using assms(2,3) by (auto simp: events_valid_def)
  from create_activity_effect[OF assms(1) this] obtain a where "activities db' = activities db @ [a]" "concerns op a"
    "ac_event a = e" "backups db' = backups db" "restores db' = restores db" "operation_locks db' = operation_locks db"
    "case op of OfBackup x \<Rightarrow> ac_restore a = None | OfRestore r \<Rightarrow> True" by blast
  then show ?thesis using assms(3) by (auto simp: journal_step_def event_count_def)
qed

lemma events_distinct:
  "events_valid ev \<Longrightarrow> ev_attempted ev \<noteq> ev_confirmed ev \<and> ev_attempted ev \<noteq> ev_failed ev \<and> ev_attempted ev \<noteq> ev_redispatched ev
     \<and> ev_confirmed ev \<noteq> ev_failed ev \<and> ev_confirmed ev \<noteq> ev_redispatched ev"
  by (simp add: events_valid_def)

lemma attempt_loop_effect:
  "attempt_loop accepts ev op again n left db = Inr (out, db') \<Longrightarrow> events_valid ev \<Longrightarrow>
     journal_step op ev db db'
     \<and> (\<exists>k \<le> left. event_count op (ev_attempted ev) db' = event_count op (ev_attempted ev) db + k
          \<and> published db' = published db @ replicate k (message_of op))
     \<and> (confirmed out \<longrightarrow> 0 < event_count op (ev_confirmed ev) db') \<and> (0 < left \<and> accepts n \<longrightarrow> confirmed out)"
proof (induction accepts ev op again n left db rule: attempt_loop.induct)
  case (1 accepts ev op again n db)
  then obtain u where u: "create_activity op (ev_failed ev) db = Inr u" and out: "\<not> confirmed out" "db' = u"
    by (auto simp: ebind_eq_Inr)
  show ?case
    using journal_activity[OF u 1(2), of "ev_attempted ev"] create_activity_published[OF u] events_distinct[OF 1(2)] out
    by simp
next
  case (2 accepts ev op again n left db)
  from 2(2) obtain t where t: "create_activity op (ev_attempted ev) db = Inr t"
    and rest: "(if accepts n
       then ebind (create_activity op (ev_confirmed ev) (publish op t)) (\<lambda>db.
          ebind (if again then create_activity op (ev_redispatched ev) db else Inr db) (\<lambda>db.
          Inr (\<lparr>confirmed = True, attempts = n, redispatch = again\<rparr>, db)))
       else attempt_loop accepts ev op again (Suc n) left (publish op t)) = Inr (out, db')"
    unfolding attempt_loop.simps ebind_eq_Inr Let_def by blast
  let ?u = "publish op t"
  note apart = events_distinct[OF 2(3)]
  have first: "journal_step op ev db ?u" "event_count op (ev_attempted ev) ?u = Suc (event_count op (ev_attempted ev) db)"
    "published ?u = published db @ [message_of op]"
    using journal_activity[OF t 2(3), of "ev_attempted ev"] create_activity_published[OF t] by simp_all
  show ?case
  proof (cases "accepts n")
    case True
    from rest[unfolded if_P[OF True]] obtain v where v: "create_activity op (ev_confirmed ev) ?u = Inr v"
      and w: "(if again then create_activity op (ev_redispatched ev) v else Inr v) = Inr db'" and out: "confirmed out"
      unfolding ebind_eq_Inr by (auto split del: if_split)
    have second: "journal_step op ev ?u v" "event_count op (ev_attempted ev) v = event_count op (ev_attempted ev) ?u"
      "0 < event_count op (ev_confirmed ev) v" "published v = published ?u"
      using journal_activity[OF v 2(3), of "ev_attempted ev"] journal_activity[OF v 2(3), of "ev_confirmed ev"] apart
        create_activity_published[OF v] by simp_all
    have third: "journal_step op ev v db' \<and> event_count op (ev_attempted ev) db' = event_count op (ev_attempted ev) v
        \<and> event_count op (ev_confirmed ev) db' = event_count op (ev_confirmed ev) v \<and> published db' = published v"
    proof (cases again)
      case True
      with w have r: "create_activity op (ev_redispatched ev) v = Inr db'" by simp
      from journal_activity[OF r 2(3), of "ev_attempted ev"] journal_activity[OF r 2(3), of "ev_confirmed ev"]
        create_activity_published[OF r]
      show ?thesis using apart by simp
    next
      case False
      then show ?thesis using w by simp
    qed
    have "journal_step op ev db db'" by (rule journal_trans[OF journal_trans[OF first(1) second(1)] conjunct1[OF third]])
    then show ?thesis using first(2,3) second(2-4) third out by (auto intro!: exI[of _ 1])
  next
    case False
    with rest have "attempt_loop accepts ev op again (Suc n) left ?u = Inr (out, db')" by simp
    with 2(1) t False 2(3) have later: "journal_step op ev ?u db'" "confirmed out \<longrightarrow> 0 < event_count op (ev_confirmed ev) db'"
      "\<exists>k \<le> left. event_count op (ev_attempted ev) db' = event_count op (ev_attempted ev) ?u + k
          \<and> published db' = published ?u @ replicate k (message_of op)"
      by blast+
    from later(3) obtain k where k: "k \<le> left" "event_count op (ev_attempted ev) db' = event_count op (ev_attempted ev) ?u + k"
      "published db' = published ?u @ replicate k (message_of op)" by blast
    have "journal_step op ev db db'" using journal_trans[OF first(1) later(1)] .
    moreover have "Suc k \<le> Suc left \<and> event_count op (ev_attempted ev) db' = event_count op (ev_attempted ev) db + Suc k
        \<and> published db' = published db @ replicate (Suc k) (message_of op)"
      using k first(2,3) by simp
    ultimately show ?thesis using later(2) False by blast
  qed
qed

definition dispatch_any ::
    "dispatch_settings \<Rightarrow> (nat \<Rightarrow> bool) \<Rightarrow> operation \<Rightarrow> bool \<Rightarrow> 'a dispatch_db_scheme \<Rightarrow>
     err + dispatch_outcome \<times> 'a dispatch_db_scheme" where
  "dispatch_any cfg accepts op again db =
     (case op of OfBackup b \<Rightarrow> dispatch_backup cfg accepts b again db | OfRestore r \<Rightarrow> dispatch_restore cfg accepts r again db)"

definition events_for :: "operation \<Rightarrow> dispatch_events" where
  "events_for op = (case op of OfBackup b \<Rightarrow> backup_events | OfRestore r \<Rightarrow> restore_events)"

text \<open>What an operation is identified by, and how often the broker was offered it.\<close>

definition op_key :: "operation \<Rightarrow> id + id" where
  "op_key op = (case op of OfBackup b \<Rightarrow> Inl (bk_id b) | OfRestore r \<Rightarrow> Inr (ro_id r))"

definition message_key :: "message \<Rightarrow> id + id" where
  "message_key m = (case m of BackupMessage i _ \<Rightarrow> Inl i | RestoreMessage i _ \<Rightarrow> Inr i)"

definition offers_made :: "operation \<Rightarrow> 'a dispatch_db_scheme \<Rightarrow> nat" where
  "offers_made op db = length (filter (\<lambda>m. message_key m = op_key op) (published db))"

lemma message_key_of [simp]: "message_key (message_of op) = op_key op"
  by (cases op) (simp_all add: message_key_def message_of_def op_key_def)

definition attempts_made :: "operation \<Rightarrow> 'a backup_db_scheme \<Rightarrow> nat" where
  "attempts_made op db = event_count op (ev_attempted (events_for op)) db"

lemma total_limit_range: "3 \<le> total_limit cfg" "total_limit cfg \<le> 100"
  by (auto simp: total_limit_def bounded_setting_def DEFAULT_TOTAL_ATTEMPTS_def split: option.splits)

lemma dispatch_operation_effect:
  assumes "dispatch_operation cfg accepts ev op again db = Inr (out, db')" and "events_valid ev"
  shows "journal_step op ev db db'
    \<and> int (event_count op (ev_attempted ev) db') \<le> max (int (event_count op (ev_attempted ev) db)) (total_limit cfg)
    \<and> (\<exists>k. event_count op (ev_attempted ev) db' = event_count op (ev_attempted ev) db + k
          \<and> published db' = published db @ replicate k (message_of op))
    \<and> (confirmed out \<longrightarrow> 0 < event_count op (ev_confirmed ev) db')
    \<and> (int (event_count op (ev_attempted ev) db) < total_limit cfg \<and> accepts 1 \<longrightarrow> confirmed out)"
proof -
  let ?prior = "int (event_count op (ev_attempted ev) db)"
  let ?imm = "bounded_setting (max_immediate cfg) DEFAULT_IMMEDIATE_ATTEMPTS 1 3"
  let ?limit = "min ?imm (max 0 (total_limit cfg - ?prior))"
  have imm: "1 \<le> ?imm" by (auto simp: bounded_setting_def DEFAULT_IMMEDIATE_ATTEMPTS_def split: option.splits)
  show ?thesis
  proof (cases "?limit = 0")
    case True
    then show ?thesis using assms(1) imm by (auto simp: dispatch_operation_def Let_def)
  next
    case False
    then have "attempt_loop accepts ev op again 1 (nat ?limit) db = Inr (out, db')"
      using assms(1) by (simp add: dispatch_operation_def Let_def)
    from attempt_loop_effect[OF this assms(2)] show ?thesis using False imm by auto
  qed
qed

lemma dispatch_any_effect:
  assumes "dispatch_any cfg accepts op again db = Inr (out, db')"
  shows "journal_step op (events_for op) db db'
    \<and> int (attempts_made op db') \<le> max (int (attempts_made op db)) (total_limit cfg)
    \<and> (\<exists>k. attempts_made op db' = attempts_made op db + k \<and> published db' = published db @ replicate k (message_of op))
    \<and> (confirmed out \<longrightarrow> 0 < event_count op (ev_confirmed (events_for op)) db')"
proof (cases op)
  case (OfBackup b)
  then show ?thesis
    using assms dispatch_operation_effect[OF _ code_events(1), of cfg accepts "OfBackup b" again db out db']
    by (auto simp: dispatch_any_def dispatch_backup_def events_for_def attempts_made_def split: if_splits)
next
  case (OfRestore r)
  then show ?thesis
    using assms dispatch_operation_effect[OF _ code_events(2), of cfg accepts "OfRestore r" again db out db']
    by (auto simp: dispatch_any_def dispatch_restore_def events_for_def attempts_made_def split: if_splits)
qed

text \<open>The journal of one operation is not touched by the dispatch of another.\<close>

lemma other_attempts:
  assumes "journal_step op (events_for op) db db'" and "op_key op \<noteq> op_key op'"
  shows "attempts_made op' db' = attempts_made op' db"
proof -
  obtain new where new: "activities db' = activities db @ new"
    "\<And>a. a \<in> set new \<Longrightarrow> ac_event a \<in> {ev_attempted (events_for op), ev_confirmed (events_for op), ev_failed (events_for op),
        ev_redispatched (events_for op)} \<and> concerns op a \<and> (case op of OfBackup x \<Rightarrow> ac_restore a = None | OfRestore r \<Rightarrow> True)"
    using assms(1) unfolding journal_step_def by blast
  have "\<not> (concerns op' a \<and> ac_event a = ev_attempted (events_for op'))" if "a \<in> set new" for a
    using new(2)[OF that] assms(2)
    by (cases op; cases op') (auto simp: concerns_def op_key_def events_for_def backup_events_def restore_events_def)
  then show ?thesis by (simp add: attempts_made_def event_count_def new(1) filter_empty_conv)
qed

lemma same_key_attempts: "op_key op = op_key op' \<Longrightarrow> attempts_made op db = attempts_made op' db"
  by (cases op; cases op') (auto simp: op_key_def attempts_made_def event_count_def concerns_def events_for_def)

text \<open>A dispatch of one operation offers that operation once for every attempt it journals, and no other.\<close>

definition dispatches ::
    "dispatch_settings \<Rightarrow> ((nat \<Rightarrow> bool) \<times> operation \<times> bool) list \<Rightarrow> 'a dispatch_db_scheme \<Rightarrow> err + 'a dispatch_db_scheme"
where
  "dispatches cfg =
     efold (\<lambda>(accepts, op, again) db. ebind (dispatch_any cfg accepts op again db) (\<lambda>r. Inr (snd r)))"

lemma dispatch_any_offers:
  assumes "dispatch_any cfg accepts op' again u = Inr (out, v)"
  shows "offers_made op v + attempts_made op u = offers_made op u + attempts_made op v
    \<and> attempts_made op u \<le> attempts_made op v
    \<and> int (attempts_made op v) \<le> max (int (attempts_made op u)) (total_limit cfg)"
proof -
  note effect = dispatch_any_effect[OF assms]
  from effect obtain k where k: "attempts_made op' v = attempts_made op' u + k"
    "published v = published u @ replicate k (message_of op')" by blast
  show ?thesis
  proof (cases "op_key op' = op_key op")
    case True
    then show ?thesis using effect k by (simp add: same_key_attempts[OF True] offers_made_def)
  next
    case False
    then show ?thesis using effect k(2) other_attempts[of op' u v op] by (simp add: offers_made_def)
  qed
qed

text \<open>C24: however often operations are dispatched or dispatched again, and whatever the broker does, a
  backup or a restore is offered to the broker at most as often as its journal leaves room under the
  configured total, which is between 3 and 100 (so at most that often in all, when nothing was offered
  before); and each offer is journaled, taken or not.\<close>

theorem dispatch_attempts_bounded:
  assumes "dispatches cfg calls db = Inr db'"
  shows "int (offers_made op db') \<le> int (offers_made op db) + max 0 (total_limit cfg - int (attempts_made op db))
    \<and> offers_made op db' - offers_made op db = attempts_made op db' - attempts_made op db
    \<and> offers_made op db \<le> offers_made op db' \<and> int (attempts_made op db') \<le> max (int (attempts_made op db)) (total_limit cfg)
    \<and> 3 \<le> total_limit cfg \<and> total_limit cfg \<le> 100"
proof -
  let ?I = "\<lambda>u. offers_made op u + attempts_made op db = offers_made op db + attempts_made op u
    \<and> attempts_made op db \<le> attempts_made op u
    \<and> int (attempts_made op u) \<le> max (int (attempts_made op db)) (total_limit cfg)"
  have "?I v" if c: "(case c of (accepts, op, again) \<Rightarrow> \<lambda>db. ebind (dispatch_any cfg accepts op again db) (\<lambda>r. Inr (snd r))) u = Inr v"
    and u: "?I u" for c u v
  proof -
    obtain accepts op' again out where run: "dispatch_any cfg accepts op' again u = Inr (out, v)"
      using c by (cases c) (auto simp: ebind_eq_Inr)
    show ?thesis using dispatch_any_offers[OF run, of op] u by linarith
  qed
  then have "?I db'" by (rule efold_invariant[OF assms[unfolded dispatches_def], where I = ?I, rotated]) (rule refl | simp)+
  then show ?thesis using total_limit_range[of cfg] by linarith
qed

section \<open>Reconciliation publishes once\<close>

lemma journal_filter:
  assumes "journal_step op (events_for op) db db'"
    and "e \<notin> {ev_attempted (events_for op), ev_confirmed (events_for op), ev_failed (events_for op), ev_redispatched (events_for op)}"
  shows "filter (\<lambda>a. ac_event a = e \<and> P a) (activities db') = filter (\<lambda>a. ac_event a = e \<and> P a) (activities db)"
proof -
  obtain new where new: "activities db' = activities db @ new"
    "\<forall>a \<in> set new. ac_event a \<in> {ev_attempted (events_for op), ev_confirmed (events_for op), ev_failed (events_for op),
        ev_redispatched (events_for op)}"
    using assms(1) unfolding journal_step_def by blast
  have "filter (\<lambda>a. ac_event a = e \<and> P a) new = []" using new(2) assms(2) by (auto simp: filter_empty_conv)
  then show ?thesis by (simp add: new(1))
qed

lemma has_event_filter:
  "has_event op [e] db = (filter (\<lambda>a. ac_event a = e \<and> concerns op a) (activities db) \<noteq> [])"
  by (auto simp: has_event_def list_ex_iff filter_empty_conv)

lemma requested_apart:
  "''backup.dispatch_requested'' \<notin> {ev_attempted (events_for op), ev_confirmed (events_for op), ev_failed (events_for op),
     ev_redispatched (events_for op)}"
  by (cases op) (simp_all add: events_for_def backup_events_def restore_events_def)

lemma ineligible_stays:
  assumes step: "journal_step op (events_for op) db db'" and none: "lock_backup_for_redispatch cfg i db = None"
  shows "lock_backup_for_redispatch cfg i db' = None"
proof -
  obtain new where new: "activities db' = activities db @ new" "backups db' = backups db" "operation_locks db' = operation_locks db"
    using step unfolding journal_step_def by blast
  have "\<not> backup_dispatch_eligible cfg b db'" if b: "\<not> backup_dispatch_eligible cfg b db" for b
  proof
    assume el: "backup_dispatch_eligible cfg b db'"
    have "has_event (OfBackup b) [''backup.dispatch_requested''] db"
      using el journal_filter[OF step requested_apart] by (simp add: backup_dispatch_eligible_def has_event_filter)
    moreover have "has_event (OfBackup b) es db'" if "has_event (OfBackup b) es db" for es
      using that by (simp add: has_event_def new(1))
    moreover have "event_count (OfBackup b) e db \<le> event_count (OfBackup b) e db'" for e
      by (simp add: event_count_def new(1))
    then have "attempt_budget_available cfg (OfBackup b) e db" if "attempt_budget_available cfg (OfBackup b) e db'" for e
      using that unfolding attempt_budget_available_def by (meson le_less_trans of_nat_le_iff)
    moreover have "lock_of_operation k i db' = lock_of_operation k i db" for k i
      by (simp add: lock_of_operation_def new(3))
    ultimately have "backup_dispatch_eligible cfg b db"
      using el unfolding backup_dispatch_eligible_def by blast
    then show False using b by simp
  qed
  then show ?thesis using none new(2) by (auto simp: lock_backup_for_redispatch_def split: option.splits if_splits)
qed

lemma confirmed_ineligible:
  "0 < event_count (OfBackup b) ''backup.dispatch_confirmed'' db \<Longrightarrow> lock_backup_for_redispatch cfg (bk_id b) db = None"
  by (auto simp: lock_backup_for_redispatch_def backup_dispatch_eligible_def has_event_def list_ex_iff event_count_def
      filter_empty_conv concerns_def split: option.split dest!: row_by_Some)

lemma redispatch_accepted:
  assumes "lock_backup_for_redispatch cfg i db = Some b" and "dispatch_backup cfg (\<lambda>n. True) b True db = Inr (out, db')"
  shows "confirmed out \<and> journal_step (OfBackup b) (events_for (OfBackup b)) db db' \<and> lock_backup_for_redispatch cfg i db' = None"
proof -
  have b: "bk_id b = i" "backup_dispatch_eligible cfg b db"
    using assms(1) by (auto simp: lock_backup_for_redispatch_def dest: row_by_Some split: option.splits if_splits)
  then have run: "dispatch_operation cfg (\<lambda>n. True) backup_events (OfBackup b) True db = Inr (out, db')"
    using assms(2) by (simp add: dispatch_backup_def backup_dispatch_eligible_def)
  have "confirmed out \<and> journal_step (OfBackup b) backup_events db db'
      \<and> 0 < event_count (OfBackup b) (ev_confirmed backup_events) db'"
    using dispatch_operation_effect[OF run code_events(1)] b(2)
    by (auto simp: backup_dispatch_eligible_def attempt_budget_available_def backup_events_def)
  then show ?thesis using confirmed_ineligible[of b db' cfg] b(1) by (simp add: events_for_def backup_events_def)
qed

lemma redispatch_loop:
  "redispatch_backups cfg (\<lambda>i n. True) is res db = Inr (res', db') \<Longrightarrow>
     failed_count res' = failed_count res \<and> examined_count res' = examined_count res
     \<and> confirmed_count res' + eligible_count res = eligible_count res' + confirmed_count res
     \<and> (\<forall>i. i \<in> set is \<or> lock_backup_for_redispatch cfg i db = None \<longrightarrow> lock_backup_for_redispatch cfg i db' = None)
     \<and> (\<forall>P. filter (\<lambda>a. ac_event a = ''backup.dispatch_requested'' \<and> P a) (activities db')
          = filter (\<lambda>a. ac_event a = ''backup.dispatch_requested'' \<and> P a) (activities db))"
proof (induction "is" arbitrary: res db)
  case Nil
  then show ?case by simp
next
  case (Cons i "is")
  show ?case
  proof (cases "lock_backup_for_redispatch cfg i db")
    case None
    then show ?thesis using Cons.IH[of res db] Cons.prems by auto
  next
    case (Some b)
    let ?next = "\<lambda>outcome. res\<lparr>eligible_count := eligible_count res + 1,
                 confirmed_count := confirmed_count res + (if confirmed outcome then 1 else 0),
                 failed_count := failed_count res + (if confirmed outcome then 0 else 1)\<rparr>"
    obtain out u where run: "dispatch_backup cfg (\<lambda>n. True) b True db = Inr (out, u)"
      and rest: "redispatch_backups cfg (\<lambda>i n. True) is (?next out) u = Inr (res', db')"
      using Cons.prems Some by (auto simp: ebind_eq_Inr)
    note step = redispatch_accepted[OF Some run]
    have same: "filter (\<lambda>a. ac_event a = ''backup.dispatch_requested'' \<and> P a) (activities u)
        = filter (\<lambda>a. ac_event a = ''backup.dispatch_requested'' \<and> P a) (activities db)" for P
      using journal_filter[OF _ requested_apart] step by blast
    have kept: "lock_backup_for_redispatch cfg j u = None" if "lock_backup_for_redispatch cfg j db = None" for j
      using ineligible_stays[OF _ that] step by blast
    show ?thesis using Cons.IH[OF rest] step same kept by auto
  qed
qed

lemma redispatch_none:
  "\<forall>i \<in> set is. lock_backup_for_redispatch cfg i db = None \<Longrightarrow> redispatch_backups cfg accepts is res db = Inr (res, db)"
  by (induction "is") simp_all

text \<open>C25: when the broker accepts every message, a reconciliation confirms every queued backup it finds
  eligible, and running it again, whatever the broker does then, publishes nothing: no backup is
  handed over twice.\<close>

theorem reconciliation_publishes_once:
  assumes "reconcile_queued_backup_dispatches cfg delay (\<lambda>i n. True) now eligible_before limit db = Inr (res, db')"
  shows "failed_count res = 0 \<and> confirmed_count res = eligible_count res
    \<and> reconcile_queued_backup_dispatches cfg delay accepts now eligible_before limit db'
        = Inr (res\<lparr>eligible_count := 0, confirmed_count := 0\<rparr>, db')"
proof -
  let ?ids = "\<lambda>db. candidate_ids ''backup.dispatch_requested'' ac_backup (dispatch_cutoff delay eligible_before now) limit db"
  obtain "is" where ids: "?ids db = Inr is"
    and run: "redispatch_backups cfg (\<lambda>i n. True) is
       \<lparr>examined_count = length is, eligible_count = 0, confirmed_count = 0, failed_count = 0\<rparr> db = Inr (res, db')"
    using assms by (auto simp: reconcile_queued_backup_dispatches_def ebind_eq_Inr)
  note loop = redispatch_loop[OF run]
  have "?ids db' = Inr is" using ids loop by (simp add: candidate_ids_def split: if_splits)
  moreover have "\<forall>i \<in> set is. lock_backup_for_redispatch cfg i db' = None" using loop by blast
  ultimately show ?thesis using loop
    by (simp add: reconcile_queued_backup_dispatches_def redispatch_none)
qed

section \<open>A broker that is down, and one that is up\<close>

definition queued_backup :: backup_record where
  "queued_backup = sample_backup\<lparr>bk_status := BS_QUEUED, bk_integrity := IS_NOT_CHECKED, bk_retention_eligible := False,
     bk_storage_backend := [], bk_object_key := [], bk_artifact_hash := [], bk_started_at := None,
     bk_completed_at := None, bk_verified_at := None\<rparr>"

definition queued_db :: dispatch_db where
  "queued_db = backup_db.extend (sample_backups\<lparr>backups := [queued_backup], clock := 100,
     activities := [\<lparr>ac_business = 1, ac_event = ''backup.dispatch_requested'', ac_backup = Some 1, ac_restore = None,
       ac_actor = None, ac_reason = [], ac_created_at = 50\<rparr>]\<rparr>) \<lparr>published = []\<rparr>"

definition no_settings :: dispatch_settings where
  "no_settings = \<lparr>max_immediate = None, max_total = None\<rparr>"

definition broker_down :: "err + dispatch_db" where
  "broker_down = dispatches no_settings (replicate 5 (\<lambda>n. False, OfBackup queued_backup, True)) queued_db"

theorem dispatch_attempts_bounded_witness:
  "\<exists>db'. broker_down = Inr db' \<and> int (offers_made (OfBackup queued_backup) db') \<le> 12"
proof -
  have "\<not> isl broker_down" by code_simp
  then obtain db' where r: "broker_down = Inr db'" by (metis sum.collapse(2))
  have "int (attempts_made (OfBackup queued_backup) queued_db) = 0" "int (offers_made (OfBackup queued_backup) queued_db) = 0"
    "total_limit no_settings = 12" by code_simp+
  then have "int (offers_made (OfBackup queued_backup) db') \<le> 12"
    using dispatch_attempts_bounded[OF r[unfolded broker_down_def], of "OfBackup queued_backup"] by simp
  then show ?thesis using r by blast
qed

theorem reconciliation_publishes_once_witness:
  "\<exists>res db'. reconcile_queued_backup_dispatches no_settings None (\<lambda>i n. True) 400000000 None 100 queued_db = Inr (res, db')
     \<and> failed_count res = 0 \<and> confirmed_count res = eligible_count res"
proof -
  let ?r = "reconcile_queued_backup_dispatches no_settings None (\<lambda>i n. True) 400000000 None 100 queued_db"
  have "\<not> isl ?r" by code_simp
  then obtain res db' where r: "?r = Inr (res, db')" by (cases ?r) auto
  show ?thesis using reconciliation_publishes_once[OF r] r by simp
qed

end
