(* ===== verification/Backup_Schedule.thy ===== *)
theory Backup_Schedule
  imports Backup_Dispatch
begin

text \<open>
  The daily schedule of a tenant (\<^verbatim>\<open>apps/backups/scheduling.py\<close>, \<open>upsert_backup_schedule\<close> of
  \<^verbatim>\<open>services.py\<close>) and the owner's manual request (\<^verbatim>\<open>owner_services.py\<close>).  Instants and wall-clock times
  are integers (microseconds; a wall-clock time counts from the same origin in local time), dates
  are days.  Parameters: \<open>zones\<close>, the time zone database; \<open>occurrence_key\<close>, the hash that makes the
  request key of an occurrence; the broker, as in \<open>Backup_Dispatch\<close>.
\<close>

section \<open>Wall-clock time\<close>

text \<open>
  A zone converts an instant to local time, and a local time to an instant (\<open>fold\<close> chooses the second
  of two).
\<close>

record time_zone =
  to_local :: "int \<Rightarrow> int"
  to_utc :: "bool \<Rightarrow> int \<Rightarrow> int"

definition minute :: int where
  "minute = 60 * second"

definition local_date :: "time_zone \<Rightarrow> int \<Rightarrow> int" where
  "local_date z instant = to_local z instant div day"

definition zone_of :: "(string \<Rightarrow> time_zone option) \<Rightarrow> string \<Rightarrow> time_zone option" where
  "zone_of zones name = (if name = [] then None else zones name)"

text \<open>\<open>None\<close> is \<open>ScheduleDispatchError\<close>.\<close>

definition valid_instants :: "time_zone \<Rightarrow> int \<Rightarrow> int list" where
  "valid_instants z candidate = filter (\<lambda>u. to_local z u = candidate) [to_utc z False candidate, to_utc z True candidate]"

definition resolve_local_daily_occurrence :: "time_zone \<Rightarrow> int \<Rightarrow> int \<Rightarrow> int option" where
  "resolve_local_daily_occurrence z date local_time =
     (let naive = date * day + local_time
      in map_option (\<lambda>m. min_list (valid_instants z (naive + int m * minute)))
           (find (\<lambda>m. valid_instants z (naive + int m * minute) \<noteq> []) [0..<181]))"

fun first_after :: "nat \<Rightarrow> time_zone \<Rightarrow> int \<Rightarrow> int \<Rightarrow> int \<Rightarrow> int option" where
  "first_after 0 z date local_time after = None"
| "first_after (Suc n) z date local_time after =
     (case resolve_local_daily_occurrence z date local_time of
        None \<Rightarrow> None
      | Some c \<Rightarrow> if after < c then Some c else first_after n z (date + 1) local_time after)"

definition next_daily_occurrence :: "(string \<Rightarrow> time_zone option) \<Rightarrow> int \<Rightarrow> string \<Rightarrow> int \<Rightarrow> int option" where
  "next_daily_occurrence zones local_time name after =
     (case zone_of zones name of
        None \<Rightarrow> None
      | Some z \<Rightarrow> first_after 3 z (local_date z after) local_time after)"

text \<open>The outer option is the error, the inner one the absence of a due occurrence.\<close>

definition latest_due_occurrence :: "(string \<Rightarrow> time_zone option) \<Rightarrow> backup_schedule \<Rightarrow> int \<Rightarrow> int option option" where
  "latest_due_occurrence zones s now =
     (case sc_next_run s of
        None \<Rightarrow> Some None
      | Some next_run \<Rightarrow>
          if now < next_run then Some None
          else case zone_of zones (sc_timezone s) of
            None \<Rightarrow> None
          | Some z \<Rightarrow>
              (case resolve_local_daily_occurrence z (local_date z now) (sc_local_time s) of
                 None \<Rightarrow> None
               | Some c \<Rightarrow>
                   if now < c
                   then (case resolve_local_daily_occurrence z (local_date z now - 1) (sc_local_time s) of
                      None \<Rightarrow> None
                    | Some c' \<Rightarrow> Some (Some (max c' next_run)))
                   else Some (Some (max c next_run))))"

section \<open>Claims\<close>

datatype claim_state =
    DISPATCHED | ALREADY_DISPATCHED | DEFERRED_ACTIVE | FUTURE | DISABLED | INELIGIBLE | INVALID | INITIALIZED

definition active_status :: "backup_status \<Rightarrow> bool" where
  "active_status s = (s \<in> {BS_QUEUED, BS_PREPARING, BS_SNAPSHOTTING, BS_PACKAGING, BS_UPLOADING, BS_VERIFYING})"

definition active_backup_exists :: "id \<Rightarrow> 'a backup_db_scheme \<Rightarrow> bool" where
  "active_backup_exists business db = list_ex (\<lambda>b. bk_business b = business \<and> active_status (bk_status b)) (backups db)"

definition schedule_is_eligible ::
    "(string list \<Rightarrow> string list) \<Rightarrow> business \<Rightarrow> backup_schedule \<Rightarrow> 'a backup_db_scheme \<Rightarrow> bool" where
  "schedule_is_eligible ord business s db =
     (if \<not> biz_active business \<or> sc_scope s \<noteq> SCOPE_ALL_ENABLED then False
      else case subscription_of db (biz_id business) of
        None \<Rightarrow> False
      | Some sub \<Rightarrow>
          if \<not> plan_active (sub_plan sub) \<or> \<not> is_operational (clock db) business sub then False
          else case resolve_requested_scope ord db business SCOPE_ALL_ENABLED of
            Inr res \<Rightarrow> sr_products res \<noteq> []
          | Inl _ \<Rightarrow> False)"

definition save_schedule :: "backup_schedule \<Rightarrow> 'a backup_db_scheme \<Rightarrow> 'a backup_db_scheme" where
  "save_schedule s db = db\<lparr>schedules := save_row sc_id s (schedules db)\<rparr>"

definition advance_schedule ::
    "(string \<Rightarrow> time_zone option) \<Rightarrow> backup_schedule \<Rightarrow> int \<Rightarrow> int option \<Rightarrow> 'a backup_db_scheme \<Rightarrow> 'a backup_db_scheme option"
where
  "advance_schedule zones s now claimed db =
     (case next_daily_occurrence zones (sc_local_time s) (sc_timezone s) now of
        None \<Rightarrow> None
      | Some n \<Rightarrow> Some (save_schedule (s\<lparr>sc_next_run := Some n,
            sc_last_claimed := (case claimed of Some c \<Rightarrow> Some c | None \<Rightarrow> sc_last_claimed s)\<rparr>) db))"

text \<open>
  The claim of one schedule under its row lock: the state, the backup to hand over after the commit,
  and the database.  An error rolls the claim back; the two places where the code catches it return
  the state unchanged.
\<close>

definition claim_due_schedule ::
    "(string list \<Rightarrow> string list) \<Rightarrow> version_metadata \<Rightarrow> (string \<Rightarrow> time_zone option) \<Rightarrow> (id \<Rightarrow> int \<Rightarrow> int \<Rightarrow> string) \<Rightarrow>
     id \<Rightarrow> int \<Rightarrow> 'a backup_db_scheme \<Rightarrow> err + (claim_state \<times> backup_record option) \<times> 'a backup_db_scheme" where
  "claim_due_schedule ord versions zones occurrence_key i now db =
     (case row_by sc_id i (schedules db) of
        None \<Rightarrow> Inr ((DISABLED, None), db)
      | Some s \<Rightarrow>
          if \<not> sc_enabled s then Inr ((DISABLED, None), db)
          else if sc_next_run s = None
          then (case advance_schedule zones s now None db of
              None \<Rightarrow> Inr ((INVALID, None), db) | Some db' \<Rightarrow> Inr ((INITIALIZED, None), db'))
          else case latest_due_occurrence zones s now of
            None \<Rightarrow> Inr ((INVALID, None), db)
          | Some None \<Rightarrow> Inr ((FUTURE, None), db)
          | Some (Some due) \<Rightarrow>
              (case row_by biz_id (sc_business s) (businesses db) of
                 None \<Rightarrow> Inl DoesNotExist
               | Some business \<Rightarrow>
                   if \<not> schedule_is_eligible ord business s db
                   then (case advance_schedule zones s now None db of
                       None \<Rightarrow> Inr ((INVALID, None), db) | Some db' \<Rightarrow> Inr ((INELIGIBLE, None), db'))
                   else if active_backup_exists (biz_id business) db then Inr ((DEFERRED_ACTIVE, None), db)
                   else case zone_of zones (sc_timezone s) of
                     None \<Rightarrow> Inl ScheduleDispatchError
                   | Some z \<Rightarrow>
                       let date = local_date z due;
                           key = occurrence_key (biz_id business) date due;
                           existing = backup_by_key db (biz_id business) key
                       in ebind (create_backup_request ord versions [] business SCOPE_ALL_ENABLED None TRIGGER_SCHEDULED
                                   (Some date) (Some key) None True db) (\<lambda>(b, db).
                          case advance_schedule zones s now (Some due) db of
                            None \<Rightarrow> Inl ScheduleDispatchError
                          | Some db' \<Rightarrow>
                              if existing \<noteq> None then Inr ((ALREADY_DISPATCHED, Some b), db')
                              else ebind (record_backup_dispatch_intent b db') (\<lambda>db'.
                                Inr ((DISPATCHED, Some b), db')))))"

text \<open>What runs after the commit of a claim.\<close>

definition publish_claim ::
    "dispatch_settings \<Rightarrow> (id \<Rightarrow> nat \<Rightarrow> bool) \<Rightarrow> claim_state \<times> backup_record option \<Rightarrow> 'a dispatch_db_scheme \<Rightarrow>
     err + 'a dispatch_db_scheme" where
  "publish_claim cfg accepts claim db =
     (case claim of
        (DISPATCHED, Some b) \<Rightarrow>
          ebind (dispatch_backup cfg (accepts (bk_id b)) b False db) (\<lambda>(outcome, db).
          if confirmed outcome
          then create_backup_activity (bk_business b) ''backup.schedule_dispatched'' (Some b) None None [] db
          else Inr db)
      | _ \<Rightarrow> Inr db)"

text \<open>
  Every claim is a transaction of its own: an exception stops the run, and what was claimed before it
  stays.  The database stands beside the result.
\<close>

fun claim_schedules ::
    "(string list \<Rightarrow> string list) \<Rightarrow> version_metadata \<Rightarrow> (string \<Rightarrow> time_zone option) \<Rightarrow> (id \<Rightarrow> int \<Rightarrow> int \<Rightarrow> string) \<Rightarrow>
     dispatch_settings \<Rightarrow> (id \<Rightarrow> nat \<Rightarrow> bool) \<Rightarrow> int \<Rightarrow> id list \<Rightarrow> 'a dispatch_db_scheme \<Rightarrow>
     (err + claim_state list) \<times> 'a dispatch_db_scheme" where
  "claim_schedules ord versions zones key cfg accepts now [] db = (Inr [], db)"
| "claim_schedules ord versions zones key cfg accepts now (i # is) db =
     (case claim_due_schedule ord versions zones key i now db of
        Inl e \<Rightarrow> (Inl e, db)
      | Inr (claim, db1) \<Rightarrow>
          (case publish_claim cfg accepts claim db1 of
             Inl e \<Rightarrow> (Inl e, db1)
           | Inr db2 \<Rightarrow>
               (case claim_schedules ord versions zones key cfg accepts now is db2 of
                  (r, db3) \<Rightarrow> (ebind r (\<lambda>states. Inr (fst claim # states)), db3))))"

definition due_schedule_ids :: "int \<Rightarrow> nat \<Rightarrow> 'a backup_db_scheme \<Rightarrow> id list" where
  "due_schedule_ids now limit db =
     (let due = take limit (sort_key (\<lambda>s. (case sc_next_run s of Some t \<Rightarrow> t | None \<Rightarrow> 0, sc_id s))
            (filter (\<lambda>s. sc_enabled s \<and> (case sc_next_run s of Some t \<Rightarrow> t \<le> now | None \<Rightarrow> False)) (schedules db)));
          fresh = take (limit - length due) (sort_key sc_id
            (filter (\<lambda>s. sc_enabled s \<and> sc_next_run s = None) (schedules db)))
      in map sc_id (due @ fresh))"

text \<open>The result holds the states of the claims; the counts of the code's result are counts in this list.\<close>

definition dispatch_due_schedules ::
    "(string list \<Rightarrow> string list) \<Rightarrow> version_metadata \<Rightarrow> (string \<Rightarrow> time_zone option) \<Rightarrow> (id \<Rightarrow> int \<Rightarrow> int \<Rightarrow> string) \<Rightarrow>
     dispatch_settings \<Rightarrow> (id \<Rightarrow> nat \<Rightarrow> bool) \<Rightarrow> int \<Rightarrow> int \<Rightarrow> 'a dispatch_db_scheme \<Rightarrow>
     (err + claim_state list) \<times> 'a dispatch_db_scheme" where
  "dispatch_due_schedules ord versions zones key cfg accepts now limit db =
     (if \<not> (1 \<le> limit \<and> limit \<le> 1000) then (Inl ScheduleDispatchError, db)
      else claim_schedules ord versions zones key cfg accepts now (due_schedule_ids now (nat limit) db) db)"

definition record_scheduled_backup_outcome :: "backup_record \<Rightarrow> 'a backup_db_scheme \<Rightarrow> bool \<times> 'a backup_db_scheme" where
  "record_scheduled_backup_outcome b db =
     (if bk_trigger b \<noteq> TRIGGER_SCHEDULED then (False, db)
      else case find (\<lambda>s. sc_business s = bk_business b) (schedules db) of
        None \<Rightarrow> (False, db)
      | Some s \<Rightarrow>
          if bk_status b = BS_SUCCEEDED then (True, save_schedule (s\<lparr>sc_last_success := Some (bk_id b)\<rparr>) db)
          else if bk_status b \<in> {BS_FAILED, BS_CANCELLED}
          then (True, save_schedule (s\<lparr>sc_last_failure := Some (bk_id b)\<rparr>) db)
          else (False, db))"

section \<open>The owner's configuration and request\<close>

definition upsert_backup_schedule ::
    "(string list \<Rightarrow> string list) \<Rightarrow> (string \<Rightarrow> time_zone option) \<Rightarrow> string \<Rightarrow> business \<Rightarrow> int \<Rightarrow> bool \<Rightarrow> actor option \<Rightarrow>
     string \<Rightarrow> backup_scope \<Rightarrow> int option \<Rightarrow> 'a backup_db_scheme \<Rightarrow> err + backup_schedule \<times> 'a backup_db_scheme" where
  "upsert_backup_schedule ord zones business_timezone business local_time enabled actor timezone scope next_run db =
     ebind (resolve_requested_scope ord db business scope) (\<lambda>res.
     if sr_scope res \<noteq> SCOPE_ALL_ENABLED
     then Inl (ValidationError ''The v1 daily schedule must use ALL_ENABLED scope.'')
     else
       ebind (authorize ord db actor business (sr_products res) ''backups.schedule'' False) (\<lambda>_.
       let tz = (if timezone \<noteq> [] then timezone else if business_timezone \<noteq> [] then business_timezone else ''UTC'')
       in if zones tz = None then Inl (ValidationError ''The schedule timezone is not recognized.'')
          else let computed = (if enabled \<and> next_run = None
                  then next_daily_occurrence zones local_time tz (clock db) else next_run)
            in if enabled \<and> computed = None
               then Inl (ValidationError ''The daily schedule time cannot be resolved safely.'')
               else
                 let old = find (\<lambda>s. sc_business s = biz_id business) (schedules db);
                     base = (case old of Some s \<Rightarrow> s
                       | None \<Rightarrow> \<lparr>sc_id = next_pk sc_id (schedules db), sc_business = biz_id business, sc_enabled = False,
                           sc_timezone = [], sc_local_time = 0, sc_next_run = None, sc_last_claimed = None,
                           sc_last_success = None, sc_last_failure = None, sc_scope = SCOPE_ALL_ENABLED\<rparr>);
                     s = base\<lparr>sc_enabled := enabled, sc_timezone := tz, sc_local_time := local_time,
                           sc_next_run := (if enabled then computed else None), sc_scope := SCOPE_ALL_ENABLED\<rparr>;
                     event = (if old = None then ''backup.schedule_created'' else ''backup.schedule_updated'');
                     stored = db\<lparr>schedules := (if old = None then schedules db @ [s] else save_row sc_id s (schedules db))\<rparr>
                 in ebind (create_backup_activity (biz_id business) event None None (Option.bind actor user_pk) [] stored) (\<lambda>db'.
                    Inr (s, emit_summary_audit event business (sc_id s) db'))))"

text \<open>
  \<open>enabled\<close> is the engine's capability, \<open>key\<close> the hashed key of the minute of the request.  The
  message that delivery is delayed leaves the queued request stored; the result has the database
  beside the outcome.
\<close>

definition request_manual_backup ::
    "(string list \<Rightarrow> string list) \<Rightarrow> version_metadata \<Rightarrow> dispatch_settings \<Rightarrow> (nat \<Rightarrow> bool) \<Rightarrow> bool \<Rightarrow> string \<Rightarrow>
     business \<Rightarrow> backup_scope \<Rightarrow> actor option \<Rightarrow> 'a dispatch_db_scheme \<Rightarrow> err + bool \<times> backup_record \<times> 'a dispatch_db_scheme"
where
  "request_manual_backup ord versions cfg accepts enabled key business scope actor db =
     (if \<not> enabled then Inl (ValueError ''Manual backup is temporarily unavailable.'')
      else
        ebind (resolve_requested_scope ord db business scope) (\<lambda>res.
        if active_backup_exists (biz_id business) db then Inl (ValueError ''A backup is already in progress.'')
        else
          ebind (create_backup_request ord versions [] business (sr_scope res) actor TRIGGER_MANUAL None (Some key) None
                   False db) (\<lambda>(b, db).
          if bk_status b \<noteq> BS_QUEUED
          then Inl (ValueError ''A recent backup request has already been handled.'')
          else
            ebind (create_backup_activity (biz_id business) ''backup.manual_requested'' (Some b) None
                     (Option.bind actor user_pk) [] db) (\<lambda>db.
            ebind (record_backup_dispatch_intent b db) (\<lambda>db.
            ebind (dispatch_backup cfg accepts b False db) (\<lambda>(outcome, db).
            Inr (confirmed outcome, b, db)))))))"

end
