(* ===== verification/Backup_Schedule_Laws.thy ===== *)
theory Backup_Schedule_Laws
  imports Backup_Schedule
begin

text \<open>
  What the daily schedule guarantees: the next run is the first occurrence after the present instant,
  and an occurrence is claimed once.
\<close>

section \<open>Occurrences\<close>

text \<open>
  An instant that the zone converts to a wall-clock time and gives for it, for one of the two values of
  \<open>fold\<close>; and the occurrence of a date: the earliest instant of the first minute, from the scheduled
  wall-clock time on and within three hours, that has one.  Nothing is assumed of the zone.
\<close>

definition shows_time :: "time_zone \<Rightarrow> int \<Rightarrow> int \<Rightarrow> bool" where
  "shows_time z wall u \<longleftrightarrow> to_local z u = wall \<and> (\<exists>fold. u = to_utc z fold wall)"

definition occurrence_of :: "time_zone \<Rightarrow> int \<Rightarrow> int \<Rightarrow> int \<Rightarrow> bool" where
  "occurrence_of z date local_time c \<longleftrightarrow>
     (\<exists>m < 181. let wall = \<lambda>m. date * day + local_time + int m * minute in
        shows_time z (wall m) c \<and> (\<forall>b. shows_time z (wall m) b \<longrightarrow> c \<le> b)
        \<and> (\<forall>m' < m. \<forall>b. \<not> shows_time z (wall m') b))"

lemma valid_instants_shows: "set (valid_instants z wall) = {u. shows_time z wall u}"
  by (auto simp: valid_instants_def shows_time_def) (metis (full_types))+

lemma min_valid:
  assumes "valid_instants z wall \<noteq> []"
  shows "min_list (valid_instants z wall) = c \<longleftrightarrow> shows_time z wall c \<and> (\<forall>b. shows_time z wall b \<longrightarrow> c \<le> b)"
proof -
  have "min_list (valid_instants z wall) = Min (set (valid_instants z wall))"
    using assms by (rule min_list_Min)
  moreover have "Min (set (valid_instants z wall)) = c
      \<longleftrightarrow> c \<in> set (valid_instants z wall) \<and> (\<forall>b \<in> set (valid_instants z wall). c \<le> b)"
    using assms by (intro Min_eq_iff) auto
  ultimately show ?thesis by (simp add: valid_instants_shows)
qed

lemma no_valid: "valid_instants z wall = [] \<longleftrightarrow> (\<forall>b. \<not> shows_time z wall b)"
  using valid_instants_shows[of z wall] by (metis Collect_empty_eq set_empty)

lemma resolve_exact: "resolve_local_daily_occurrence z date local_time = Some c \<longleftrightarrow> occurrence_of z date local_time c"
proof -
  let ?valid = "\<lambda>m. valid_instants z (date * day + local_time + int m * minute)"
  have first: "find (\<lambda>m. ?valid m \<noteq> []) [0..<181] = Some m
      \<longleftrightarrow> m < 181 \<and> ?valid m \<noteq> [] \<and> (\<forall>m' < m. ?valid m' = [])" for m
    by (auto simp: find_Some_iff)
  have least: "?valid m \<noteq> [] \<and> min_list (?valid m) = c
      \<longleftrightarrow> shows_time z (date * day + local_time + int m * minute) c
        \<and> (\<forall>b. shows_time z (date * day + local_time + int m * minute) b \<longrightarrow> c \<le> b)" for m
    using min_valid[of z "date * day + local_time + int m * minute" c]
      no_valid[of z "date * day + local_time + int m * minute"] by blast
  have "resolve_local_daily_occurrence z date local_time = Some c
      \<longleftrightarrow> (\<exists>m. find (\<lambda>m. ?valid m \<noteq> []) [0..<181] = Some m \<and> min_list (?valid m) = c)"
    by (auto simp: resolve_local_daily_occurrence_def Let_def)
  also have "\<dots> \<longleftrightarrow> occurrence_of z date local_time c"
    unfolding first occurrence_of_def Let_def conj_assoc[symmetric] least[symmetric] no_valid[symmetric] by blast
  finally show ?thesis .
qed

lemma first_after_exact:
  "first_after n z date t after = Some c \<longleftrightarrow>
     (\<exists>k < n. occurrence_of z (date + int k) t c \<and> after < c
        \<and> (\<forall>j < k. \<exists>b. occurrence_of z (date + int j) t b \<and> b \<le> after))"
proof (induction n arbitrary: date)
  case 0
  then show ?case by simp
next
  case (Suc n)
  let ?found = "\<lambda>date k. occurrence_of z (date + int k) t c \<and> after < c
        \<and> (\<forall>j < k. \<exists>b. occurrence_of z (date + int j) t b \<and> b \<le> after)"
  have later: "?found date (Suc k) \<longleftrightarrow> (\<exists>b. occurrence_of z date t b \<and> b \<le> after) \<and> ?found (date + 1) k" for k
    by (auto simp: All_less_Suc2 ac_simps)
  have split: "(\<exists>k < Suc n. ?found date k) \<longleftrightarrow> ?found date 0 \<or> (\<exists>k < n. ?found date (Suc k))"
    by (auto simp: Ex_less_Suc2)
  show ?case
  proof (cases "resolve_local_daily_occurrence z date t")
    case None
    then have "\<not> occurrence_of z date t b" for b using resolve_exact[of z date t b] by simp
    then show ?thesis using None unfolding split later by simp
  next
    case (Some b)
    then have only: "occurrence_of z date t b' \<longleftrightarrow> b' = b" for b' using resolve_exact[of z date t b'] by auto
    show ?thesis unfolding split later using Some only Suc.IH[of "date + 1"] by auto
  qed
qed

lemma first_after_above: "first_after n z date t after = Some c \<Longrightarrow> after < c"
  by (simp add: first_after_exact) blast

text \<open>C22: the next run of a schedule is found exactly when the date of the given instant or one of the two
  days after it has an occurrence behind that instant, and no day before that one lacks an occurrence; it
  is then the occurrence of the first such day, every earlier day's occurrence having passed.  The
  occurrence of a day is the scheduled wall-clock time, the first of the two instants that show it, or,
  when a clock change skips it, the first valid minute of the three hours behind it.\<close>

theorem next_occurrence_exact:
  assumes "zone_of zones name = Some z"
  shows "next_daily_occurrence zones local_time name after = Some c \<longleftrightarrow>
    (\<exists>k < 3. occurrence_of z (local_date z after + int k) local_time c \<and> after < c
       \<and> (\<forall>j < k. \<exists>b. occurrence_of z (local_date z after + int j) local_time b \<and> b \<le> after))"
  using assms by (simp add: next_daily_occurrence_def first_after_exact)

definition utc_zone :: time_zone where
  "utc_zone = \<lparr>to_local = (\<lambda>u. u), to_utc = (\<lambda>_ u. u)\<rparr>"

text \<open>A zone whose clock goes from 02:00 to 03:00: a run scheduled at 02:30 is at 03:00.\<close>

definition spring_zone :: time_zone where
  "spring_zone = \<lparr>to_local = (\<lambda>u. if u < 7200 * second then u else u + 3600 * second),
     to_utc = (\<lambda>fold w. if w < 7200 * second \<or> (w < 10800 * second \<and> \<not> fold) then w else w - 3600 * second)\<rparr>"

theorem next_occurrence_exact_witness:
  "next_daily_occurrence (\<lambda>_. Some spring_zone) (9000 * second) ''spring'' 100 = Some (7200 * second)"
proof -
  have zone: "zone_of (\<lambda>_. Some spring_zone) ''spring'' = Some spring_zone" by (simp add: zone_of_def)
  have date: "local_date spring_zone 100 = 0" by code_simp
  have "shows_time spring_zone (10800 * second) u \<longleftrightarrow> u = 7200 * second" for u
    by (auto simp: shows_time_def spring_zone_def second_def)
  moreover have "\<not> shows_time spring_zone (9000 * second + int m * minute) u" if "m < 30" for m u
    using that by (auto simp: shows_time_def spring_zone_def second_def minute_def split: if_splits)
  moreover have "10800 * second = 9000 * second + int 30 * minute" by (simp add: second_def minute_def)
  ultimately have "occurrence_of spring_zone 0 (9000 * second) (7200 * second)"
    unfolding occurrence_of_def Let_def by (intro exI[of _ 30]) auto
  moreover have "100 < 7200 * second" by (simp add: second_def)
  ultimately show ?thesis
    unfolding next_occurrence_exact[OF zone] date by (intro exI[of _ 0]) simp
qed

section \<open>Claims\<close>

lemma create_activity_frame:
  "create_activity op event db = Inr db' \<Longrightarrow> schedules db' = schedules db \<and> backups db' = backups db"
  by (auto simp: create_activity_def create_backup_activity_def Let_def split: operation.splits option.splits if_splits)

lemma intent_frame:
  assumes "record_backup_dispatch_intent b db = Inr db'"
  shows "bk_status b = BS_QUEUED" "schedules db' = schedules db" "backups db' = backups db"
  using assms create_activity_frame[of "OfBackup b" "''backup.dispatch_requested''" db db']
  by (auto simp: record_backup_dispatch_intent_def split: if_splits)

lemma requested_row:
  assumes "create_backup_request ord versions fresh business scope actor trigger ldate key parent system_actor db
      = Inr (b, db')"
  shows "schedules db' = schedules db \<and> b \<in> set (backups db') \<and> bk_business b = biz_id business \<and> bk_trigger b = trigger
    \<and> bk_local_date b = ldate"
proof -
  from assms obtain res k where result: "(case backup_by_key db (biz_id business) k of
       Some b \<Rightarrow> ebind (validate_existing_backup_idempotency b res trigger ldate parent) (\<lambda>b. Inr (b, db))
     | None \<Rightarrow>
         if (case parent of Some r \<Rightarrow> ro_id r \<notin> ro_id ` set (restores db) | None \<Rightarrow> False)
         then Inl IntegrityError
         else let b = new_backup db versions business res actor trigger ldate k parent system_actor
           in ebind (create_backup_activity (biz_id business) ''backup.requested'' (Some b) None
                       (Option.bind actor user_pk) [] (db\<lparr>backups := backups db @ [b]\<rparr>)) (\<lambda>db'.
              Inr (b, emit_summary_audit ''backup.requested'' business (bk_id b) db'))) = Inr (b, db')"
    unfolding create_backup_request_def by (simp only: returns) blast
  show ?thesis
  proof (cases "backup_by_key db (biz_id business) k")
    case None
    let ?b = "new_backup db versions business res actor trigger ldate k parent system_actor"
    from None result obtain db1 where act: "create_backup_activity (biz_id business) ''backup.requested'' (Some ?b) None
        (Option.bind actor user_pk) [] (db\<lparr>backups := backups db @ [?b]\<rparr>) = Inr db1"
      and out: "b = ?b" "db' = emit_summary_audit ''backup.requested'' business (bk_id ?b) db1"
      by (auto simp: Let_def ebind_eq_Inr split: if_splits)
    from act have "schedules db1 = schedules db \<and> backups db1 = backups db @ [?b]"
      by (auto simp: create_backup_activity_def Let_def split: if_splits)
    then show ?thesis by (simp add: out emit_summary_audit_def new_backup_def)
  next
    case (Some x)
    then have "b = x" "db' = db" "bk_trigger x = trigger" "bk_local_date x = ldate"
      using result by (auto simp: validate_existing_backup_idempotency_def split: if_splits)
    moreover have "x \<in> set (backups db) \<and> bk_business x = biz_id business"
      using Some by (auto simp: backup_by_key_def dest: find_Some_mem)
    ultimately show ?thesis by simp
  qed
qed

lemma future_claim:
  assumes "row_by sc_id i (schedules db) = Some s" and "sc_enabled s" and "sc_next_run s = Some n" and "t < n"
  shows "claim_due_schedule ord versions zones key i t db = Inr ((FUTURE, None), db)"
  using assms by (simp add: claim_due_schedule_def latest_due_occurrence_def)

lemma advanced:
  assumes "advance_schedule zones s now claimed db = Some db'" and "row_by sc_id (sc_id s) (schedules db) = Some s"
  shows "\<exists>n s'. now < n \<and> row_by sc_id (sc_id s) (schedules db') = Some s' \<and> sc_next_run s' = Some n
    \<and> sc_enabled s' = sc_enabled s \<and> backups db' = backups db \<and> (claimed \<noteq> None \<longrightarrow> sc_last_claimed s' = claimed)"
proof -
  obtain n where n: "next_daily_occurrence zones (sc_local_time s) (sc_timezone s) now = Some n"
    and db': "db' = save_schedule (s\<lparr>sc_next_run := Some n,
       sc_last_claimed := (case claimed of Some c \<Rightarrow> Some c | None \<Rightarrow> sc_last_claimed s)\<rparr>) db"
    using assms(1) by (auto simp: advance_schedule_def split: option.splits)
  have "now < n" using n by (auto simp: next_daily_occurrence_def dest: first_after_above split: option.splits)
  moreover have "sc_id s \<in> sc_id ` set (schedules db)" using row_by_Some[OF assms(2)] by force
  ultimately show ?thesis
    using save_row_same[of sc_id "s\<lparr>sc_next_run := Some n,
       sc_last_claimed := (case claimed of Some c \<Rightarrow> Some c | None \<Rightarrow> sc_last_claimed s)\<rparr>" "schedules db"]
    by (auto simp: db' save_schedule_def)
qed

text \<open>C23: a schedule is handed to the workers only when it is enabled and due and no backup of its business
  is in progress; what is handed over is a stored queued backup of that business, marked as scheduled;
  and the schedule then waits for an occurrence after the present instant, so that every later run before
  that occurrence leaves it and the database alone.\<close>

theorem schedule_claimed_once:
  assumes "claim_due_schedule ord versions zones key i now db = Inr ((DISPATCHED, Some b), db')"
  shows "\<exists>s s' r n. row_by sc_id i (schedules db) = Some s \<and> sc_enabled s \<and> sc_next_run s = Some r \<and> r \<le> now
    \<and> \<not> active_backup_exists (sc_business s) db
    \<and> b \<in> set (backups db') \<and> bk_business b = sc_business s \<and> bk_status b = BS_QUEUED \<and> bk_trigger b = TRIGGER_SCHEDULED
    \<and> row_by sc_id i (schedules db') = Some s' \<and> sc_next_run s' = Some n \<and> now < n
    \<and> (\<forall>t < n. claim_due_schedule ord versions zones key i t db' = Inr ((FUTURE, None), db'))"
proof -
  obtain s where s: "row_by sc_id i (schedules db) = Some s" and on: "sc_enabled s"
    using assms by (auto simp: claim_due_schedule_def split: option.splits if_splits)
  obtain r where r: "sc_next_run s = Some r"
  proof (cases "sc_next_run s")
    case None
    with assms s on show thesis by (simp add: claim_due_schedule_def split: option.splits)
  qed
  obtain due where due: "latest_due_occurrence zones s now = Some (Some due)"
    using assms s on r by (auto simp: claim_due_schedule_def split: option.splits)
  then have "r \<le> now" using r by (auto simp: latest_due_occurrence_def split: if_splits)
  obtain business where biz: "row_by biz_id (sc_business s) (businesses db) = Some business"
    using assms s on r due by (auto simp: claim_due_schedule_def split: option.splits)
  have ok: "schedule_is_eligible ord business s db" "\<not> active_backup_exists (biz_id business) db"
    using assms s on r due biz by (auto simp: claim_due_schedule_def split: option.splits if_splits)
  obtain z where z: "zone_of zones (sc_timezone s) = Some z"
    using assms s on r due biz ok by (auto simp: claim_due_schedule_def split: option.splits)
  let ?date = "local_date z due"
  obtain b1 db1 db2 where req: "create_backup_request ord versions [] business SCOPE_ALL_ENABLED None TRIGGER_SCHEDULED
      (Some ?date) (Some (key (biz_id business) ?date due)) None True db = Inr (b1, db1)"
    and adv: "advance_schedule zones s now (Some due) db1 = Some db2"
    and intent: "record_backup_dispatch_intent b db2 = Inr db'" and b1: "b1 = b"
    using assms s on r due biz ok z
    by (auto simp: claim_due_schedule_def Let_def ebind_eq_Inr split: option.splits if_splits)
  note q = requested_row[OF req] and f = intent_frame[OF intent]
  have sid: "sc_id s = i" and bid: "biz_id business = sc_business s"
    using row_by_Some[OF s] row_by_Some[OF biz] by auto
  have "row_by sc_id (sc_id s) (schedules db1) = Some s" using q s sid by simp
  from advanced[OF adv this] obtain n s' where n: "now < n" "row_by sc_id i (schedules db2) = Some s'" "sc_next_run s' = Some n"
    "sc_enabled s'" "backups db2 = backups db1"
    using on sid by auto
  have "claim_due_schedule ord versions zones key i t db' = Inr ((FUTURE, None), db')" if "t < n" for t
    by (rule future_claim[OF _ n(4,3) that]) (simp add: f(2) n(2))
  then show ?thesis
    using s on r \<open>r \<le> now\<close> ok(2) q f n bid b1 by (intro exI[of _ s] exI[of _ s'] exI[of _ r] exI[of _ n]) simp
qed

definition sample_schedule :: backup_schedule where
  "sample_schedule = \<lparr>sc_id = 1, sc_business = 1, sc_enabled = True, sc_timezone = ''UTC'', sc_local_time = 5,
     sc_next_run = Some 40, sc_last_claimed = None, sc_last_success = None, sc_last_failure = None, sc_scope = SCOPE_ALL_ENABLED\<rparr>"

definition sample_claim :: "err + (claim_state \<times> backup_record option) \<times> backup_db" where
  "sample_claim = claim_due_schedule (\<lambda>xs. xs) sample_versions (\<lambda>_. Some utc_zone) (\<lambda>_ _ _. ''daily'') 1 100
     (no_backups\<lparr>schedules := [sample_schedule]\<rparr>)"

theorem schedule_claimed_once_witness:
  "\<exists>b db. sample_claim = Inr ((DISPATCHED, Some b), db) \<and> bk_status b = BS_QUEUED \<and> b \<in> set (backups db)"
proof -
  have "case sample_claim of Inr ((DISPATCHED, Some _), _) \<Rightarrow> True | _ \<Rightarrow> False" by code_simp
  then obtain b db where c: "sample_claim = Inr ((DISPATCHED, Some b), db)"
    by (auto split: sum.splits prod.splits claim_state.splits option.splits)
  from schedule_claimed_once[OF c[unfolded sample_claim_def]] show ?thesis using c by blast
qed

end
