(* ===== verification/Purchases.thy ===== *)
theory Purchases
  imports Customer_Accounts
begin

text \<open>
  \<^verbatim>\<open>apps/purchases\<close> and \<^verbatim>\<open>apps/suppliers\<close>: supplier profiles, purchase orders, their receipt in parts,
  immediate and cheque payments, returns and cancellation.  The business row of a purchase is handed
  over with it; the services are modelled for calls without a request or with one of the same business
  (the \<open>Http404\<close> for a request of another business, or a business whose row is gone, is left out);
  a form's row is a record of its raw values.  Not
  modelled: attachments, the quick-added product (a form of the catalog).  The dash in the name of a
  variant is written as a hyphen.
\<close>

section \<open>Rows\<close>

datatype purchase_status = PU_ORDER | PU_PARTIAL | PU_RECEIVED | PU_CANCELLED

record purchase =
  pu_id :: id
  pu_business :: id
  pu_number :: string
  pu_supplier :: id
  pu_branch :: id
  pu_warehouse :: id
  pu_invoice :: string
  pu_date :: int
  pu_due :: "int option"
  pu_status :: purchase_status
  pu_subtotal :: milli
  pu_discount :: milli
  pu_shipping :: milli
  pu_other :: milli
  pu_total :: milli
  pu_paid :: milli
  pu_notes :: string
  pu_created_by :: "id option"

record purchase_item =
  pit_id :: id
  pit_business :: id
  pit_purchase :: id
  pit_product :: id
  pit_variant :: "id option"
  pit_name :: string
  pit_ordered :: milli
  pit_received :: milli
  pit_cost :: milli
  pit_line_total :: milli

datatype supplier_method = M_CASH | M_BANK | M_CARD | M_CHEQUE

datatype cheque_status = NoCheque | CQ_PENDING | CQ_CLEARED | CQ_BOUNCED | CQ_CANCELLED

record supplier_payment =
  spy_id :: id
  spy_business :: id
  spy_number :: string
  spy_supplier :: id
  spy_purchase :: "id option"
  spy_amount :: milli
  spy_payment_method :: "payment_method option"
  spy_method :: supplier_method
  spy_cheque_number :: string
  spy_bank :: string
  spy_issue :: "int option"
  spy_due :: "int option"
  spy_status :: cheque_status
  spy_cleared_at :: "int option"
  spy_reference :: string
  spy_notes :: string
  spy_paid_by :: "id option"

record purchase_return =
  prt_id :: id
  prt_business :: id
  prt_number :: string
  prt_purchase :: id
  prt_supplier :: id
  prt_warehouse :: id
  prt_reason :: string
  prt_total :: milli
  prt_processed_by :: "id option"

record purchase_return_item =
  pri_business :: id
  pri_return :: id
  pri_item :: id
  pri_quantity :: milli
  pri_cost :: milli
  pri_line_total :: milli

record purchase_db = pos_db +
  purchases :: "purchase list"
  purchase_items :: "purchase_item list"
  supplier_payments :: "supplier_payment list"
  purchase_returns :: "purchase_return list"
  purchase_return_items :: "purchase_return_item list"

definition quantity_pending :: "purchase_item \<Rightarrow> milli" where
  "quantity_pending it = pit_ordered it - pit_received it"

definition is_cheque :: "supplier_payment \<Rightarrow> bool" where
  "is_cheque p = (spy_method p = M_CHEQUE)"

definition payments_of :: "'a purchase_db_scheme \<Rightarrow> id \<Rightarrow> supplier_payment list" where
  "payments_of db i = filter (\<lambda>p. spy_purchase p = Some i) (supplier_payments db)"

definition items_of :: "'a purchase_db_scheme \<Rightarrow> id \<Rightarrow> purchase_item list" where
  "items_of db i = filter (\<lambda>it. pit_purchase it = i) (purchase_items db)"

definition cheques_pending :: "'a purchase_db_scheme \<Rightarrow> purchase \<Rightarrow> milli" where
  "cheques_pending db p =
     (\<Sum>x \<leftarrow> filter (\<lambda>x. spy_business x = pu_business p \<and> is_cheque x \<and> spy_status x = CQ_PENDING)
        (payments_of db (pu_id p)). spy_amount x)"

definition outstanding :: "purchase \<Rightarrow> milli" where
  "outstanding p = pu_total p - pu_paid p"

definition remaining_balance :: "'a purchase_db_scheme \<Rightarrow> purchase \<Rightarrow> milli" where
  "remaining_balance db p = max 0 (pu_total p - pu_paid p - cheques_pending db p)"

definition supplier_balance :: "purchase \<Rightarrow> milli" where
  "supplier_balance p = max 0 (pu_total p - pu_paid p)"

section \<open>Untrusted numbers and dates\<close>

datatype raw_decimal = RawEmpty | RawNumber rat | RawNotFinite | RawNoNumber

definition DECIMAL_FIELD_LIMIT :: rat where
  "DECIMAL_FIELD_LIMIT = 100000000000"

definition validated_decimal :: "string \<Rightarrow> raw_decimal \<Rightarrow> err + rat" where
  "validated_decimal label raw =
     (case raw of
        RawEmpty \<Rightarrow> Inr 0
      | RawNoNumber \<Rightarrow> Inl (ValidationError (label @ '' must be a valid number.''))
      | RawNotFinite \<Rightarrow> Inl (ValidationError (label @ '' must be a finite number.''))
      | RawNumber x \<Rightarrow>
          if DECIMAL_FIELD_LIMIT \<le> \<bar>x\<bar> then Inl (ValidationError (label @ '' is outside the supported range.''))
          else Inr x)"

definition validated_money :: "string \<Rightarrow> raw_decimal \<Rightarrow> err + milli" where
  "validated_money label raw = ebind (validated_decimal label raw) (\<lambda>x. Inr (money x))"

datatype raw_date = DateMissing | DateInvalid | DateValue int

definition validated_date :: "string \<Rightarrow> bool \<Rightarrow> raw_date \<Rightarrow> err + int option" where
  "validated_date label allow_empty raw =
     (case raw of
        DateValue d \<Rightarrow> Inr (Some d)
      | DateMissing \<Rightarrow> if allow_empty then Inr None else Inl (ValidationError (''Enter a valid '' @ label @ ''.''))
      | DateInvalid \<Rightarrow> Inl (ValidationError (''Enter a valid '' @ label @ ''.'')))"

section \<open>Authorization\<close>

text \<open>The businesses of related rows are \<open>tenant_objects\<close>.\<close>

definition context_warehouses :: "'a core_db_scheme \<Rightarrow> access_context \<Rightarrow> id list option" where
  "context_warehouses db c = (case ctx_membership c of Some m \<Rightarrow> allowed_warehouse_ids db m | None \<Rightarrow> Some [])"

definition in_scope :: "id list option \<Rightarrow> id \<Rightarrow> bool" where
  "in_scope limit i = (case limit of None \<Rightarrow> True | Some ids \<Rightarrow> i \<in> set ids)"

definition ensure_purchases_scope ::
    "access_context \<Rightarrow> business \<Rightarrow> branch \<Rightarrow> warehouse \<Rightarrow> id list \<Rightarrow> 'a core_db_scheme \<Rightarrow> err + unit" where
  "ensure_purchases_scope c business b w tenant_objects db =
     require (br_business b = biz_id business \<and> in_scope (context_branches c) (br_id b)
         \<and> wh_business w = biz_id business \<and> in_scope (context_warehouses db c) (wh_id w)
         \<and> (wh_branch w = None \<or> wh_branch w = Some (br_id b))
         \<and> list_all (\<lambda>x. x = biz_id business) tenant_objects)
       Http404"

definition require_purchases_write ::
    "(string list \<Rightarrow> string list) \<Rightarrow> 'a core_db_scheme \<Rightarrow> business \<Rightarrow> user option \<Rightarrow> string \<Rightarrow>
     membership option \<Rightarrow> err + access_context" where
  "require_purchases_write ord db business user perm membership =
     require_actor_access ord db user (Some business) ''purchases'' (Some perm) WRITE membership True"

definition require_tailoring_purchase ::
    "(string list \<Rightarrow> string list) \<Rightarrow> 'a core_db_scheme \<Rightarrow> business \<Rightarrow> user option \<Rightarrow> access_context \<Rightarrow> bool \<Rightarrow>
     err + unit" where
  "require_tailoring_purchase ord db business user c tailored =
     (if tailored
      then ebind (require_actor_access ord db user (Some business) ''tailoring'' (Some ''purchases.manage'') WRITE
                   (ctx_membership c) True) (\<lambda>_. Inr ())
      else Inr ())"

text \<open>The actor's claim to the business of a row that was reloaded by its key.\<close>

definition business_for_canonical_object ::
    "'a core_db_scheme \<Rightarrow> id \<Rightarrow> user option \<Rightarrow> membership option \<Rightarrow> err + unit" where
  "business_for_canonical_object db b user membership =
     (case membership of
        Some m \<Rightarrow> require (Some (mem_user m) = upk user \<and> mem_business m = b) Http404
      | None \<Rightarrow> require (list_ex (\<lambda>m. mem_business m = b \<and> Some (mem_user m) = upk user \<and> mem_active m)
                   (memberships db)) Http404)"

text \<open>A purchase with the rows it refers to.\<close>

record opened_purchase =
  op_purchase :: purchase
  op_supplier :: supplier_row
  op_branch :: branch
  op_warehouse :: warehouse
  op_context :: access_context

definition purchase_rows ::
    "'a purchase_db_scheme \<Rightarrow> purchase \<Rightarrow> err + (supplier_row \<times> branch \<times> warehouse)" where
  "purchase_rows db p =
     (case (row_by su_id (pu_supplier p) (suppliers db), row_by br_id (pu_branch p) (branches db),
            row_by wh_id (pu_warehouse p) (warehouses db)) of
        (Some s, Some b, Some w) \<Rightarrow> Inr (s, b, w)
      | _ \<Rightarrow> Inl DoesNotExist)"

definition authorized_purchase ::
    "(string list \<Rightarrow> string list) \<Rightarrow> business \<Rightarrow> id \<Rightarrow> user option \<Rightarrow> string \<Rightarrow> membership option \<Rightarrow>
     'a purchase_db_scheme \<Rightarrow> err + opened_purchase" where
  "authorized_purchase ord business i user perm membership db =
     (case find (\<lambda>p. pu_id p = i \<and> pu_business p = biz_id business) (purchases db) of
        None \<Rightarrow> Inl Http404
      | Some p \<Rightarrow>
          ebind (business_for_canonical_object db (pu_business p) user membership) (\<lambda>_.
          ebind (require_purchases_write ord db business user perm membership) (\<lambda>c.
          ebind (purchase_rows db p) (\<lambda>(s, b, w).
          ebind (ensure_purchases_scope c business b w [su_business s] db) (\<lambda>_.
            Inr \<lparr>op_purchase = p, op_supplier = s, op_branch = b, op_warehouse = w, op_context = c\<rparr>)))))"

definition authorize_purchase_write ::
    "(string list \<Rightarrow> string list) \<Rightarrow> business \<Rightarrow> id \<Rightarrow> user option \<Rightarrow> string \<Rightarrow> membership option \<Rightarrow>
     'a purchase_db_scheme \<Rightarrow> err + purchase" where
  "authorize_purchase_write ord business i user perm membership db =
     ebind (authorized_purchase ord business i user perm membership db) (\<lambda>o'. Inr (op_purchase o'))"

section \<open>The children of a purchase\<close>

text \<open>An item with its product and variant as they were when the items were loaded.\<close>

type_synonym loaded_item = "purchase_item \<times> product \<times> variant option"

definition item_consistent :: "purchase \<Rightarrow> loaded_item \<Rightarrow> bool" where
  "item_consistent p x =
     (case x of (it, pr, v) \<Rightarrow>
        pit_business it = pu_business p \<and> prod_business pr = pu_business p
        \<and> (case prod_unit pr of None \<Rightarrow> True | Some u \<Rightarrow> unit_business u = pu_business p)
        \<and> (case v of None \<Rightarrow> True | Some y \<Rightarrow> var_business y = pu_business p \<and> var_product y = pit_product it))"

definition locked_purchase_items :: "'a purchase_db_scheme \<Rightarrow> purchase \<Rightarrow> err + loaded_item list" where
  "locked_purchase_items db p =
     ebind (emap (\<lambda>it. ebind (item_objects db (pit_product it) (pit_variant it)) (\<lambda>pv. Inr (it, pv)))
             (items_of db (pu_id p))) (\<lambda>items.
     if list_all (item_consistent p) items then Inr items else Inl Http404)"

definition supplier_of :: "'a pos_db_scheme \<Rightarrow> id \<Rightarrow> supplier_row option" where
  "supplier_of db i = row_by su_id i (suppliers db)"

definition payment_consistent :: "'a purchase_db_scheme \<Rightarrow> purchase \<Rightarrow> supplier_payment \<Rightarrow> bool" where
  "payment_consistent db p x =
     (spy_business x = pu_business p \<and> spy_supplier x = pu_supplier p
      \<and> (case supplier_of db (spy_supplier x) of Some s \<Rightarrow> su_business s = pu_business p | None \<Rightarrow> False)
      \<and> (case spy_payment_method x of Some m \<Rightarrow> pm_business m = pu_business p | None \<Rightarrow> True))"

definition locked_purchase_payments :: "'a purchase_db_scheme \<Rightarrow> purchase \<Rightarrow> err + supplier_payment list" where
  "locked_purchase_payments db p =
     (let xs = payments_of db (pu_id p) in
      if list_all (payment_consistent db p) xs then Inr xs else Inl Http404)"

definition return_consistent :: "'a purchase_db_scheme \<Rightarrow> purchase \<Rightarrow> purchase_return \<Rightarrow> bool" where
  "return_consistent db p r =
     (prt_business r = pu_business p \<and> prt_supplier r = pu_supplier p
      \<and> (case supplier_of db (prt_supplier r) of Some s \<Rightarrow> su_business s = pu_business p | None \<Rightarrow> False)
      \<and> prt_warehouse r = pu_warehouse p
      \<and> (case row_by wh_id (prt_warehouse r) (warehouses db) of
           Some w \<Rightarrow> wh_business w = pu_business p | None \<Rightarrow> False))"

definition return_item_consistent :: "purchase \<Rightarrow> id list \<Rightarrow> purchase_item list \<Rightarrow> purchase_return_item \<Rightarrow> bool" where
  "return_item_consistent p returns items r =
     (pri_business r = pu_business p \<and> pri_return r \<in> set returns
      \<and> pri_item r \<in> pit_id ` set items \<and> 0 < pri_quantity r)"

text \<open>How much of each item went back.\<close>

definition returned_of :: "'a purchase_db_scheme \<Rightarrow> id \<Rightarrow> milli" where
  "returned_of db i = (\<Sum>r \<leftarrow> filter (\<lambda>r. pri_item r = i) (purchase_return_items db). pri_quantity r)"

definition locked_returned_quantities ::
    "'a purchase_db_scheme \<Rightarrow> purchase \<Rightarrow> purchase_item list \<Rightarrow> err + (id \<Rightarrow> milli)" where
  "locked_returned_quantities db p items =
     (let rs = filter (\<lambda>r. prt_purchase r = pu_id p) (purchase_returns db);
          ids = map prt_id rs;
          ris = filter (\<lambda>r. pri_return r \<in> set ids \<or> pri_item r \<in> pit_id ` set items) (purchase_return_items db)
      in if list_all (return_consistent db p) rs \<and> list_all (return_item_consistent p ids items) ris
         then Inr (\<lambda>i. \<Sum>r \<leftarrow> filter (\<lambda>r. pri_item r = i) ris. pri_quantity r)
         else Inl Http404)"

text \<open>The quantities of a form, by item; the items asked for with more than nothing.\<close>

type_synonym quantities = "(id \<times> raw_decimal) list"

definition quantity_for :: "quantities \<Rightarrow> id \<Rightarrow> raw_decimal" where
  "quantity_for qs i = (case map_of qs i of Some x \<Rightarrow> x | None \<Rightarrow> RawNumber 0)"

definition positive_requested_ids :: "quantities \<Rightarrow> err + id list" where
  "positive_requested_ids qs =
     ebind (emap (\<lambda>(i, raw). ebind (validated_decimal ''Quantity'' raw) (\<lambda>q. Inr (i, q))) qs) (\<lambda>xs.
     Inr (map fst (filter (\<lambda>(i, q). 0 < q) xs)))"

definition requested_items :: "quantities \<Rightarrow> loaded_item list \<Rightarrow> err + id list" where
  "requested_items qs items =
     ebind (positive_requested_ids qs) (\<lambda>ids.
     if set ids \<subseteq> (pit_id \<circ> fst) ` set items then Inr ids else Inl Http404)"

definition item_businesses :: "loaded_item list \<Rightarrow> id list" where
  "item_businesses items =
     map (\<lambda>x. prod_business (fst (snd x))) items
     @ concat (map (\<lambda>x. case snd (snd x) of Some v \<Rightarrow> [var_business v] | None \<Rightarrow> []) items)"

section \<open>Ordering\<close>

record purchase_row =
  pr_product :: "id option"
  pr_variant :: "id option"
  pr_quantity :: raw_decimal
  pr_cost :: raw_decimal

record purchase_line =
  pl_product :: product
  pl_variant :: "variant option"
  pl_quantity :: rat
  pl_cost :: milli
  pl_total :: milli

definition line_objects :: "'a stock_db_scheme \<Rightarrow> id \<Rightarrow> purchase_row \<Rightarrow> err + (product \<times> variant option)" where
  "line_objects db b row =
     (case pr_product row of
        None \<Rightarrow> Inl Http404
      | Some i \<Rightarrow>
          (case find (\<lambda>p. prod_id p = i \<and> prod_business p = b) (products db) of
             None \<Rightarrow> Inl Http404
           | Some p \<Rightarrow>
               (case pr_variant row of
                  None \<Rightarrow> Inr (p, None)
                | Some j \<Rightarrow> (case find (\<lambda>v. var_id v = j \<and> var_business v = b) (variants db) of
                    None \<Rightarrow> Inl Http404 | Some v \<Rightarrow> Inr (p, Some v)))))"

definition validated_line :: "purchase_row \<times> product \<times> variant option \<Rightarrow> err + purchase_line" where
  "validated_line x =
     (case x of (row, p, v) \<Rightarrow>
        if (case v of Some y \<Rightarrow> var_product y \<noteq> prod_id p | None \<Rightarrow> False) then Inl Http404
        else ebind (validated_decimal ''Purchase quantity'' (pr_quantity row)) (\<lambda>q.
          ebind (validated_money ''Purchase unit cost'' (pr_cost row)) (\<lambda>cost.
          if q \<le> 0 then Inl (ValidationError ''Purchase quantities must be positive.'')
          else if cost < 0 then Inl (ValidationError ''Purchase unit costs cannot be negative.'')
          else if is_meter_tailoring p \<and> has_variants p \<and> v = None
          then Inl (ValidationError (''Select a variant/color for '' @ prod_name p @ ''.''))
          else ebind (validated_money ''Purchase line total'' (RawNumber (dmul q (dec cost)))) (\<lambda>total.
            Inr \<lparr>pl_product = p, pl_variant = v, pl_quantity = q, pl_cost = cost, pl_total = total\<rparr>))))"

definition purchase_item_label :: "product \<Rightarrow> variant option \<Rightarrow> string" where
  "purchase_item_label p v =
     take 240 (case v of Some x \<Rightarrow> prod_name p @ '' - '' @ var_name x | None \<Rightarrow> prod_name p)"

fun new_purchase_items :: "id \<Rightarrow> id \<Rightarrow> id \<Rightarrow> purchase_line list \<Rightarrow> purchase_item list" where
  "new_purchase_items i b p [] = []"
| "new_purchase_items i b p (l # ls) =
     \<lparr>pit_id = i, pit_business = b, pit_purchase = p, pit_product = prod_id (pl_product l),
      pit_variant = map_option var_id (pl_variant l), pit_name = purchase_item_label (pl_product l) (pl_variant l),
      pit_ordered = qty (pl_quantity l), pit_received = 0, pit_cost = pl_cost l, pit_line_total = pl_total l\<rparr>
     # new_purchase_items (Suc i) b p ls"

record purchase_form =
  pf_supplier :: id
  pf_branch :: id
  pf_warehouse :: id
  pf_rows :: "purchase_row list"
  pf_date :: raw_date
  pf_due :: raw_date
  pf_invoice :: string
  pf_discount :: raw_decimal
  pf_shipping :: raw_decimal
  pf_other :: raw_decimal
  pf_notes :: string

definition purchase_place ::
    "id \<Rightarrow> purchase_form \<Rightarrow> 'a pos_db_scheme \<Rightarrow> err + (supplier_row \<times> branch \<times> warehouse)" where
  "purchase_place b f db =
     (case (find (\<lambda>s. su_id s = pf_supplier f \<and> su_business s = b) (suppliers db),
            find (\<lambda>x. br_id x = pf_branch f \<and> br_business x = b) (branches db),
            find (\<lambda>w. wh_id w = pf_warehouse f \<and> wh_business w = b) (warehouses db)) of
        (Some s, Some x, Some w) \<Rightarrow>
          if su_active s \<and> br_active x \<and> wh_active w then Inr (s, x, w)
          else Inl (ValidationError
            ''Purchase supplier and location must be active and belong to this business.'')
      | _ \<Rightarrow> Inl Http404)"

definition new_purchase ::
    "business \<Rightarrow> user option \<Rightarrow> purchase_form \<Rightarrow> int \<Rightarrow> int option \<Rightarrow> milli \<Rightarrow> milli \<Rightarrow> milli \<Rightarrow> milli \<Rightarrow> milli \<Rightarrow>
     'a purchase_db_scheme \<Rightarrow> purchase" where
  "new_purchase business user f date due subtotal discount shipping other payable db =
     \<lparr>pu_id = next_pk pu_id (purchases db), pu_business = biz_id business,
      pu_number = next_number ''PUR'' 6 (map pu_number (filter (\<lambda>p. pu_business p = biz_id business) (purchases db))),
      pu_supplier = pf_supplier f, pu_branch = pf_branch f, pu_warehouse = pf_warehouse f,
      pu_invoice = take 60 (pf_invoice f), pu_date = date, pu_due = due, pu_status = PU_ORDER,
      pu_subtotal = subtotal, pu_discount = discount, pu_shipping = shipping, pu_other = other,
      pu_total = payable, pu_paid = 0, pu_notes = pf_notes f, pu_created_by = upk user\<rparr>"

definition create_purchase ::
    "(string list \<Rightarrow> string list) \<Rightarrow> business \<Rightarrow> purchase_form \<Rightarrow> user option \<Rightarrow> membership option \<Rightarrow>
     'a purchase_db_scheme \<Rightarrow> err + purchase \<times> 'a purchase_db_scheme" where
  "create_purchase ord business f user membership db =
     ebind (require_purchases_write ord db business user ''purchases.manage'' membership) (\<lambda>c.
     if pf_rows f = [] then Inl (ValidationError ''Enter at least one purchase item.'')
     else
       ebind (purchase_place (biz_id business) f db) (\<lambda>(s, b, w).
       ebind (emap (\<lambda>row. ebind (line_objects db (biz_id business) row) (\<lambda>pv. Inr (row, pv))) (pf_rows f)) (\<lambda>rows.
       ebind (ensure_purchases_scope c business b w [su_business s] db) (\<lambda>_.
       ebind (validated_date ''purchase date'' False (pf_date f)) (\<lambda>date.
       ebind (validated_date ''due date'' True (pf_due f)) (\<lambda>due.
       ebind (validated_money ''Discount'' (pf_discount f)) (\<lambda>discount.
       ebind (validated_money ''Shipping cost'' (pf_shipping f)) (\<lambda>shipping.
       ebind (validated_money ''Other charges'' (pf_other f)) (\<lambda>other.
       if discount < 0 \<or> shipping < 0 \<or> other < 0
       then Inl (ValidationError ''Purchase adjustments cannot be negative.'')
       else
         ebind (emap validated_line rows) (\<lambda>ls.
         ebind (require_tailoring_purchase ord db business user c (list_ex (\<lambda>l. is_tailoring_item (pl_product l)) ls)) (\<lambda>_.
         ebind (validated_money ''Purchase subtotal'' (RawNumber (dec (\<Sum>l \<leftarrow> ls. pl_total l)))) (\<lambda>subtotal.
         ebind (validated_money ''Purchase total'' (RawNumber (dec (subtotal - discount + shipping + other)))) (\<lambda>total.
         if total < 0 then Inl (ValidationError ''Purchase total cannot be negative.'')
         else
           let p = new_purchase business user f (case date of Some d \<Rightarrow> d | None \<Rightarrow> 0) due subtotal discount
                     shipping other total db
           in Inr (p, log_audit ''purchase.created'' ''purchases'' (''Purchase order '' @ pu_number p @ '' created.'')
                (db\<lparr>purchases := purchases db @ [p],
                    purchase_items := purchase_items db
                      @ new_purchase_items (next_pk pit_id (purchase_items db)) (biz_id business) (pu_id p) ls\<rparr>)))))))))))))))"

section \<open>Receiving\<close>

definition save_item :: "purchase_item \<Rightarrow> 'a purchase_db_scheme \<Rightarrow> 'a purchase_db_scheme" where
  "save_item it db = db\<lparr>purchase_items := save_row pit_id it (purchase_items db)\<rparr>"

definition save_purchase :: "purchase \<Rightarrow> 'a purchase_db_scheme \<Rightarrow> 'a purchase_db_scheme" where
  "save_purchase p db = db\<lparr>purchases := save_row pu_id p (purchases db)\<rparr>"

definition change_supplier_balance :: "id \<Rightarrow> milli \<Rightarrow> 'a purchase_db_scheme \<Rightarrow> 'a purchase_db_scheme" where
  "change_supplier_balance i delta db =
     db\<lparr>suppliers := map (\<lambda>s. if su_id s = i then s\<lparr>su_balance := su_balance s + delta\<rparr> else s) (suppliers db)\<rparr>"

text \<open>The last purchase price, compared with the price the item was loaded with.\<close>

definition keep_purchase_price ::
    "product \<Rightarrow> variant option \<Rightarrow> milli \<Rightarrow> 'a purchase_db_scheme \<Rightarrow> 'a purchase_db_scheme" where
  "keep_purchase_price p v cost db =
     (if item_purchase_price p v = cost then db
      else case v of
        Some y \<Rightarrow> db\<lparr>variants := map (\<lambda>x. if var_id x = var_id y then x\<lparr>var_purchase_price := cost\<rparr> else x)
                     (variants db)\<rparr>
      | None \<Rightarrow> db\<lparr>products := map (\<lambda>x. if prod_id x = prod_id p then x\<lparr>prod_purchase_price := cost\<rparr> else x)
                     (products db)\<rparr>)"

definition receipt_args :: "purchase \<Rightarrow> purchase_item \<Rightarrow> rat \<Rightarrow> user option \<Rightarrow> movement_args" where
  "receipt_args p it q user =
     \<lparr>ma_type = PURCHASE, ma_quantity = q, ma_unit_cost = dec (pit_cost it), ma_reference_type = ''Purchase'',
      ma_reference_id = pu_number p, ma_user = upk user, ma_notes = [], ma_enforce = True\<rparr>"

text \<open>The loop threads the database, the value received and whether anything was received.\<close>

type_synonym 'a receipt_state = "'a purchase_db_scheme \<times> milli \<times> bool"

definition receive_item ::
    "business \<Rightarrow> purchase \<Rightarrow> warehouse \<Rightarrow> quantities \<Rightarrow> user option \<Rightarrow> loaded_item \<Rightarrow> 'a receipt_state \<Rightarrow>
     err + 'a receipt_state" where
  "receive_item business p w qs user x state =
     (case (x, state) of ((it, pr, v), (db, value, received)) \<Rightarrow>
        ebind (validated_decimal ''Receive quantity'' (quantity_for qs (pit_id it))) (\<lambda>q.
        if q \<le> 0 then Inr state
        else if dec (quantity_pending it) < q
        then Inl (ValidationError (''Cannot receive that much of '' @ pit_name it @ ''.''))
        else if is_meter_tailoring pr \<and> has_variants pr \<and> v = None
        then Inl (ValidationError (''Select a variant/color for '' @ prod_name pr @ '' before receipt.''))
        else
          ebind (if is_stocked pr then record_movement business w pr v (receipt_args p it q user) db else Inr db) (\<lambda>db1.
          ebind (validated_money ''Received value'' (RawNumber (dmul q (dec (pit_cost it))))) (\<lambda>amount.
            Inr (save_item (it\<lparr>pit_received := qty (dadd (dec (pit_received it)) q)\<rparr>)
                   (keep_purchase_price pr v (pit_cost it) db1),
                 value + amount, True)))))"

definition fully_received :: "'a purchase_db_scheme \<Rightarrow> purchase \<Rightarrow> bool" where
  "fully_received db p =
     ((\<Sum>it \<leftarrow> items_of db (pu_id p). pit_ordered it) \<le> (\<Sum>it \<leftarrow> items_of db (pu_id p). pit_received it))"

text \<open>The charges that join the payable when the order is complete.\<close>

definition completion_charges :: "purchase \<Rightarrow> milli" where
  "completion_charges p = pu_shipping p + pu_other p - pu_discount p"

definition receive_purchase ::
    "(string list \<Rightarrow> string list) \<Rightarrow> business \<Rightarrow> id \<Rightarrow> quantities \<Rightarrow> user option \<Rightarrow> membership option \<Rightarrow>
     'a purchase_db_scheme \<Rightarrow> err + purchase \<times> 'a purchase_db_scheme" where
  "receive_purchase ord business i qs user membership db =
     ebind (authorized_purchase ord business i user ''purchases.manage'' membership db) (\<lambda>o'.
     let p = op_purchase o'; c = op_context o' in
     if pu_status p = PU_CANCELLED then Inl (ValidationError ''Cancelled purchases cannot be received.'')
     else
       ebind (locked_purchase_items db p) (\<lambda>items.
       ebind (requested_items qs items) (\<lambda>ids.
       ebind (ensure_purchases_scope c business (op_branch o') (op_warehouse o')
               (su_business (op_supplier o') # item_businesses items) db) (\<lambda>_.
       ebind (require_tailoring_purchase ord db business user c
               (list_ex (\<lambda>x. pit_id (fst x) \<in> set ids \<and> is_tailoring_item (fst (snd x))) items)) (\<lambda>_.
       ebind (efold (receive_item business p (op_warehouse o') qs user) items (db, 0, False)) (\<lambda>(db1, value, received).
       if \<not> received then Inl (ValidationError ''Enter at least one quantity to receive.'')
       else
         let fully = fully_received db1 p;
             extra = (if fully then completion_charges p else 0);
             p' = p\<lparr>pu_status := (if fully then PU_RECEIVED else PU_PARTIAL)\<rparr>
         in Inr (p', log_audit ''purchase.received'' ''purchases'' (''Goods received on '' @ pu_number p @ ''.'')
              (save_purchase p' (change_supplier_balance (pu_supplier p) (value + extra) db1)))))))))"

section \<open>Payments\<close>

record payment_entry =
  py_method :: string
  py_amount :: raw_decimal
  py_payment_method :: "id option"
  py_reference :: string
  py_notes :: string
  py_cheque_number :: string
  py_bank :: string
  py_issue :: raw_date
  py_due :: raw_date

text \<open>What a row becomes: the fields of the payment but its number and its links.\<close>

definition parse_supplier_method :: "string \<Rightarrow> supplier_method option" where
  "parse_supplier_method s =
     (if s = ''cash'' then Some M_CASH else if s = ''bank'' then Some M_BANK
      else if s = ''card'' then Some M_CARD else if s = ''cheque'' then Some M_CHEQUE else None)"

definition method_label :: "supplier_method \<Rightarrow> string" where
  "method_label m = (case m of M_CASH \<Rightarrow> ''Cash'' | M_BANK \<Rightarrow> ''Bank Transfer'' | M_CARD \<Rightarrow> ''Card'' | M_CHEQUE \<Rightarrow> ''Cheque'')"

definition immediate_kind :: "supplier_method \<Rightarrow> method_kind option" where
  "immediate_kind m = (case m of M_CASH \<Rightarrow> Some CASH | M_BANK \<Rightarrow> Some BANK | M_CARD \<Rightarrow> Some CARD | M_CHEQUE \<Rightarrow> None)"

definition parsed_date :: "raw_date \<Rightarrow> int option" where
  "parsed_date d = (case d of DateValue x \<Rightarrow> Some x | _ \<Rightarrow> None)"

definition blank_payment :: "supplier_method \<Rightarrow> milli \<Rightarrow> payment_entry \<Rightarrow> supplier_payment" where
  "blank_payment m amount row =
     \<lparr>spy_id = 0, spy_business = 0, spy_number = [], spy_supplier = 0, spy_purchase = None, spy_amount = amount,
      spy_payment_method = None, spy_method = m, spy_cheque_number = [], spy_bank = [], spy_issue = None,
      spy_due = None, spy_status = NoCheque, spy_cleared_at = None,
      spy_reference = take 120 (py_strip (py_reference row)), spy_notes = take 300 (py_strip (py_notes row)),
      spy_paid_by = None\<rparr>"

definition cheque_payment :: "int \<Rightarrow> payment_entry \<Rightarrow> supplier_payment \<Rightarrow> err + supplier_payment" where
  "cheque_payment today row base =
     (let number = py_strip (py_cheque_number row); bank = py_strip (py_bank row) in
      if number = [] then Inl (ValidationError ''Cheque Number is required.'')
      else if bank = [] then Inl (ValidationError ''Bank Name is required.'')
      else case parsed_date (py_issue row) of
        None \<Rightarrow> Inl (ValidationError ''Cheque Issue Date is required.'')
      | Some issue \<Rightarrow>
          (case parsed_date (py_due row) of
             None \<Rightarrow> Inl (ValidationError ''Cheque Payment Date is required.'')
           | Some due \<Rightarrow>
               if due \<le> today then Inl (ValidationError ''Cheque Payment Date must be in the future.'')
               else Inr (base\<lparr>spy_cheque_number := take 100 number, spy_bank := take 120 bank,
                      spy_issue := Some issue, spy_due := Some due, spy_status := CQ_PENDING\<rparr>)))"

definition pick_payment_method ::
    "id \<Rightarrow> supplier_method \<Rightarrow> method_kind \<Rightarrow> id option \<Rightarrow> 'a pos_db_scheme \<Rightarrow> err + payment_method" where
  "pick_payment_method b m kind chosen db =
     (let usable = (\<lambda>x. pm_business x = b \<and> pm_kind x = kind \<and> pm_active x) in
      case chosen of
        Some i \<Rightarrow>
          if map_option pm_business (row_by pm_id i (payment_methods db)) \<noteq> Some b then Inl Http404
          else (case find (\<lambda>x. pm_id x = i \<and> usable x) (payment_methods db) of
                  None \<Rightarrow> Inl (ValidationError ''Invalid payment method for this business.'')
                | Some x \<Rightarrow> Inr x)
      | None \<Rightarrow>
          (case find usable (sort_key pm_id (payment_methods db)) of
             None \<Rightarrow> Inl (ValidationError (method_label m @ '' is not available.''))
           | Some x \<Rightarrow> Inr x))"

definition normalise_payment_row ::
    "calendar \<Rightarrow> id \<Rightarrow> 'a pos_db_scheme \<Rightarrow> payment_entry \<Rightarrow> err + supplier_payment" where
  "normalise_payment_row cal b db row =
     (case parse_supplier_method (py_strip (py_method row)) of
        None \<Rightarrow> Inl (ValidationError ''Select Cash, Bank Transfer, Card or Cheque.'')
      | Some m \<Rightarrow>
          ebind (validated_money ''Payment amount'' (py_amount row)) (\<lambda>amount.
          if amount \<le> 0 then Inl (ValidationError ''Payment amount must be greater than zero.'')
          else
            let base = blank_payment m amount row in
            case immediate_kind m of
              None \<Rightarrow> cheque_payment (business_date cal b (clock db)) row base
            | Some kind \<Rightarrow>
                ebind (pick_payment_method b m kind (py_payment_method row) db) (\<lambda>x.
                Inr (base\<lparr>spy_payment_method := Some x\<rparr>))))"

definition stored_payment ::
    "business \<Rightarrow> purchase \<Rightarrow> user option \<Rightarrow> supplier_payment \<Rightarrow> 'a purchase_db_scheme \<Rightarrow> supplier_payment" where
  "stored_payment business p user row db =
     row\<lparr>spy_id := next_pk spy_id (supplier_payments db), spy_business := biz_id business,
         spy_number := next_number ''SPY'' 6 (map spy_number (filter (\<lambda>x. spy_business x = biz_id business)
           (supplier_payments db))),
         spy_supplier := pu_supplier p, spy_purchase := Some (pu_id p), spy_paid_by := upk user\<rparr>"

definition add_payment_row ::
    "business \<Rightarrow> purchase \<Rightarrow> user option \<Rightarrow> supplier_payment \<Rightarrow> 'a purchase_db_scheme \<Rightarrow> 'a purchase_db_scheme" where
  "add_payment_row business p user row db =
     log_audit ''purchase.payment_recorded'' ''purchases'' (''Payment recorded on '' @ pu_number p @ ''.'')
       (db\<lparr>supplier_payments := supplier_payments db @ [stored_payment business p user row db]\<rparr>)"

definition settled_sum :: "supplier_payment list \<Rightarrow> milli" where
  "settled_sum rows = (\<Sum>x \<leftarrow> filter (\<lambda>x. \<not> is_cheque x) rows. spy_amount x)"

text \<open>Money that reached the supplier, booked on the purchase and off the payable.\<close>

definition book_settled :: "purchase \<Rightarrow> milli \<Rightarrow> 'a purchase_db_scheme \<Rightarrow> 'a purchase_db_scheme" where
  "book_settled p amount db =
     change_supplier_balance (pu_supplier p) (- amount)
       (db\<lparr>purchases := map (\<lambda>x. if pu_id x = pu_id p then x\<lparr>pu_paid := pu_paid x + amount\<rparr> else x) (purchases db)\<rparr>)"

definition record_purchase_payments ::
    "(string list \<Rightarrow> string list) \<Rightarrow> calendar \<Rightarrow> business \<Rightarrow> id \<Rightarrow> payment_entry list \<Rightarrow> user option \<Rightarrow>
     membership option \<Rightarrow> 'a purchase_db_scheme \<Rightarrow> err + 'a purchase_db_scheme" where
  "record_purchase_payments ord cal business i rows user membership db =
     ebind (authorized_purchase ord business i user ''purchases.manage'' membership db) (\<lambda>o'.
     let p = op_purchase o' in
     if pu_status p = PU_CANCELLED
     then Inl (ValidationError ''Payments cannot be added to a cancelled purchase.'')
     else
       ebind (locked_purchase_payments db p) (\<lambda>_.
       if su_business (op_supplier o') \<noteq> pu_business p then Inl Http404
       else
         ebind (ensure_purchases_scope (op_context o') business (op_branch o') (op_warehouse o')
                 [su_business (op_supplier o')] db) (\<lambda>_.
         ebind (emap (normalise_payment_row cal (biz_id business) db) rows) (\<lambda>ps.
         if ps = [] then Inl (ValidationError ''Add at least one payment row.'')
         else if pu_total p < pu_paid p + cheques_pending db p + (\<Sum>x \<leftarrow> ps. spy_amount x)
         then Inl (ValidationError ''Paid plus Pending Cheques cannot exceed Purchase Total.'')
         else
           let db1 = fold (add_payment_row business p user) ps db; settled = settled_sum ps
           in Inr (if settled \<noteq> 0 then book_settled p settled db1 else db1)))))"

text \<open>\<open>pay_purchase\<close>: an immediate payment with a method of the business.\<close>

definition pay_purchase ::
    "(string list \<Rightarrow> string list) \<Rightarrow> calendar \<Rightarrow> business \<Rightarrow> id \<Rightarrow> raw_decimal \<Rightarrow> payment_method \<Rightarrow> user option \<Rightarrow>
     string \<Rightarrow> string \<Rightarrow> membership option \<Rightarrow> 'a purchase_db_scheme \<Rightarrow> err + 'a purchase_db_scheme" where
  "pay_purchase ord cal business i amount chosen user reference memo membership db =
     (case (if pm_kind chosen = CASH then Some ''cash'' else if pm_kind chosen = BANK then Some ''bank''
            else if pm_kind chosen = CARD then Some ''card'' else None) of
        None \<Rightarrow> Inl (ValidationError ''Select Cash, Bank Transfer or Card.'')
      | Some m \<Rightarrow>
          record_purchase_payments ord cal business i
            [\<lparr>py_method = m, py_amount = amount, py_payment_method = Some (pm_id chosen), py_reference = reference,
              py_notes = memo, py_cheque_number = [], py_bank = [], py_issue = DateMissing, py_due = DateMissing\<rparr>]
            user membership db)"

text \<open>The part of \<open>update_cheque_status\<close> that stores the new status, and the checks before it.\<close>

definition cheque_moved ::
    "purchase \<Rightarrow> supplier_payment \<Rightarrow> cheque_status \<Rightarrow> 'a purchase_db_scheme \<Rightarrow> 'a purchase_db_scheme" where
  "cheque_moved p x st db =
     (let db1 = (if st = CQ_CLEARED then book_settled p (spy_amount x) db else db);
          x' = x\<lparr>spy_status := st,
            spy_cleared_at := (if st = CQ_CLEARED then Some (clock db) else spy_cleared_at x)\<rparr>
      in log_audit ''purchase.cheque_status_updated'' ''purchases''
           (''Cheque '' @ spy_cheque_number x @ '' changed on '' @ pu_number p @ ''.'')
           (db1\<lparr>supplier_payments := save_row spy_id x' (supplier_payments db1)\<rparr>))"

text \<open>The target status is \<open>None\<close> when the text names no status.\<close>

definition cheque_result ::
    "purchase \<Rightarrow> supplier_payment \<Rightarrow> cheque_status option \<Rightarrow> 'a purchase_db_scheme \<Rightarrow> err + 'a purchase_db_scheme" where
  "cheque_result p x status db =
     (case status of
        None \<Rightarrow> Inl (ValidationError ''Invalid cheque status.'')
      | Some NoCheque \<Rightarrow> Inl (ValidationError ''Invalid cheque status.'')
      | Some st \<Rightarrow>
          if st = spy_status x then Inr db
          else if spy_status x \<noteq> CQ_PENDING
          then Inl (ValidationError ''This cheque status can no longer be changed.'')
          else Inr (cheque_moved p x st db))"

definition update_cheque_status ::
    "(string list \<Rightarrow> string list) \<Rightarrow> business \<Rightarrow> id \<Rightarrow> cheque_status option \<Rightarrow> user option \<Rightarrow> membership option \<Rightarrow>
     'a purchase_db_scheme \<Rightarrow> err + 'a purchase_db_scheme" where
  "update_cheque_status ord business i status user membership db =
     (let b = biz_id business in
      case find (\<lambda>x. spy_id x = i \<and> spy_business x = b) (supplier_payments db) of
        None \<Rightarrow> Inl Http404
      | Some x \<Rightarrow>
          ebind (business_for_canonical_object db b user membership) (\<lambda>_.
          ebind (require_purchases_write ord db business user ''purchases.manage'' membership) (\<lambda>c.
          if \<not> is_cheque x \<or> spy_purchase x = None
          then Inl (ValidationError ''Only purchase cheques have a cheque status.'')
          else case find (\<lambda>p. Some (pu_id p) = spy_purchase x \<and> pu_business p = b) (purchases db) of
            None \<Rightarrow> Inl Http404
          | Some p \<Rightarrow>
              ebind (purchase_rows db p) (\<lambda>(s, br, w).
              if supplier_of db (spy_supplier x) = None \<or> su_business s \<noteq> b \<or> spy_supplier x \<noteq> pu_supplier p
              then Inl Http404
              else
                ebind (ensure_purchases_scope c business br w [su_business s] db) (\<lambda>_.
                cheque_result p x status db)))))"

section \<open>Returning and cancelling\<close>

text \<open>The lines of a return, and what they are worth.\<close>

definition return_item_line ::
    "quantities \<Rightarrow> (id \<Rightarrow> milli) \<Rightarrow> loaded_item \<Rightarrow> (loaded_item \<times> rat) list \<times> milli \<Rightarrow>
     err + (loaded_item \<times> rat) list \<times> milli" where
  "return_item_line qs returned x state =
     (case state of (ls, value) \<Rightarrow>
        let it = fst x in
        ebind (validated_decimal ''Return quantity'' (quantity_for qs (pit_id it))) (\<lambda>q.
        if q \<le> 0 then Inr state
        else if dec (pit_received it - returned (pit_id it)) < q
        then Inl (ValidationError (''Cannot return that much of '' @ pit_name it @ ''.''))
        else
          ebind (validated_money ''Purchase return value'' (RawNumber (dmul q (dec (pit_cost it))))) (\<lambda>amount.
            Inr (ls @ [(x, q)], value + amount))))"

definition supplier_return_args :: "purchase_return \<Rightarrow> purchase_item \<Rightarrow> rat \<Rightarrow> user option \<Rightarrow> movement_args" where
  "supplier_return_args r it q user =
     \<lparr>ma_type = PURCHASE_RETURN, ma_quantity = - q, ma_unit_cost = dec (pit_cost it),
      ma_reference_type = ''PurchaseReturn'', ma_reference_id = prt_number r, ma_user = upk user, ma_notes = [],
      ma_enforce = True\<rparr>"

definition post_return_line ::
    "business \<Rightarrow> warehouse \<Rightarrow> purchase_return \<Rightarrow> user option \<Rightarrow> loaded_item \<times> rat \<Rightarrow> 'a purchase_db_scheme \<Rightarrow>
     err + 'a purchase_db_scheme" where
  "post_return_line business w r user line db =
     (case line of ((it, pr, v), q) \<Rightarrow>
        ebind (validated_money ''Purchase return line total'' (RawNumber (dmul q (dec (pit_cost it))))) (\<lambda>amount.
        let db1 = db\<lparr>purchase_return_items := purchase_return_items db
              @ [\<lparr>pri_business = biz_id business, pri_return = prt_id r, pri_item = pit_id it,
                  pri_quantity = qty q, pri_cost = pit_cost it, pri_line_total = amount\<rparr>]\<rparr>
        in if is_stocked pr then record_movement business w pr v (supplier_return_args r it q user) db1
           else Inr db1))"

definition new_purchase_return ::
    "business \<Rightarrow> purchase \<Rightarrow> user option \<Rightarrow> string \<Rightarrow> milli \<Rightarrow> 'a purchase_db_scheme \<Rightarrow> purchase_return" where
  "new_purchase_return business p user reason value db =
     \<lparr>prt_id = next_pk prt_id (purchase_returns db), prt_business = biz_id business,
      prt_number = next_number ''PRT'' 6 (map prt_number (filter (\<lambda>r. prt_business r = biz_id business)
        (purchase_returns db))),
      prt_purchase = pu_id p, prt_supplier = pu_supplier p, prt_warehouse = pu_warehouse p,
      prt_reason = take 255 reason, prt_total = value, prt_processed_by = upk user\<rparr>"

definition return_purchase ::
    "(string list \<Rightarrow> string list) \<Rightarrow> business \<Rightarrow> id \<Rightarrow> quantities \<Rightarrow> user option \<Rightarrow> string \<Rightarrow> membership option \<Rightarrow>
     'a purchase_db_scheme \<Rightarrow> err + purchase_return \<times> 'a purchase_db_scheme" where
  "return_purchase ord business i qs user reason membership db =
     ebind (authorized_purchase ord business i user ''purchases.manage'' membership db) (\<lambda>o'.
     let p = op_purchase o'; c = op_context o' in
     ebind (locked_purchase_items db p) (\<lambda>items.
     ebind (requested_items qs items) (\<lambda>_.
     ebind (ensure_purchases_scope c business (op_branch o') (op_warehouse o')
             (su_business (op_supplier o') # item_businesses items) db) (\<lambda>_.
     ebind (locked_returned_quantities db p (map fst items)) (\<lambda>returned.
     ebind (efold (return_item_line qs returned) items ([], 0)) (\<lambda>(ls, value).
     if ls = [] then Inl (ValidationError ''Enter at least one quantity to return.'')
     else
       ebind (require_tailoring_purchase ord db business user c
               (list_ex (\<lambda>x. is_tailoring_item (fst (snd (fst x)))) ls)) (\<lambda>_.
       let r = new_purchase_return business p user reason value db in
       ebind (efold (post_return_line business (op_warehouse o') r user) ls
               (db\<lparr>purchase_returns := purchase_returns db @ [r]\<rparr>)) (\<lambda>db1.
       Inr (r, log_audit ''purchase.returned'' ''purchases''
         (''Purchase return '' @ prt_number r @ '' against '' @ pu_number p @ ''.'')
         (change_supplier_balance (pu_supplier p) (- value) db1))))))))))"

definition cancel_purchase ::
    "(string list \<Rightarrow> string list) \<Rightarrow> business \<Rightarrow> id \<Rightarrow> user option \<Rightarrow> membership option \<Rightarrow>
     'a purchase_db_scheme \<Rightarrow> err + purchase \<times> 'a purchase_db_scheme" where
  "cancel_purchase ord business i user membership db =
     ebind (authorized_purchase ord business i user ''purchases.manage'' membership db) (\<lambda>o'.
     let p = op_purchase o' in
     if pu_status p = PU_CANCELLED then Inl (ValidationError ''Purchase is already cancelled.'')
     else
       ebind (locked_purchase_items db p) (\<lambda>items.
       ebind (locked_returned_quantities db p (map fst items)) (\<lambda>_.
       ebind (locked_purchase_payments db p) (\<lambda>payments.
       if list_ex (\<lambda>x. 0 < pit_received (fst x)) items
       then Inl (ValidationError ''Purchases with received goods cannot be cancelled.'')
       else if 0 < pu_paid p \<or> list_ex (\<lambda>x. is_cheque x \<and> spy_status x = CQ_PENDING) payments
       then Inl (ValidationError ''Purchases with Paid or Pending Cheques cannot be cancelled.'')
       else
         let p' = p\<lparr>pu_status := PU_CANCELLED\<rparr>
         in Inr (p', log_audit ''purchase.cancelled'' ''purchases'' (''Purchase '' @ pu_number p @ '' cancelled.'')
              (save_purchase p' db))))))"

section \<open>Supplier profiles\<close>

text \<open>The fields a form may set; an absent one is left as it is.\<close>

record supplier_values =
  sv_code :: "string option"
  sv_profile :: "(string \<times> string) list"
  sv_active :: "bool option"

definition SUPPLIER_TEXT_FIELDS :: "string list" where
  "SUPPLIER_TEXT_FIELDS =
     [''name'', ''contact_person'', ''mobile'', ''email'', ''address'', ''tax_number'', ''payment_terms'', ''notes'']"

definition next_supplier_code :: "id \<Rightarrow> 'a pos_db_scheme \<Rightarrow> string" where
  "next_supplier_code b db =
     next_number ''SUP'' 4 (map su_code (filter (\<lambda>s. su_business s = b) (suppliers db)))"

definition new_supplier :: "id \<Rightarrow> 'a pos_db_scheme \<Rightarrow> supplier_row" where
  "new_supplier b db =
     \<lparr>su_id = next_pk su_id (suppliers db), su_business = b, su_code = [], su_profile = [], su_opening_balance = 0, su_balance = 0,
      su_active = True\<rparr>"

definition fill_supplier :: "supplier_values \<Rightarrow> supplier_row \<Rightarrow> supplier_row" where
  "fill_supplier v s =
     s\<lparr>su_code := (case sv_code v of Some c \<Rightarrow> c | None \<Rightarrow> su_code s),
       su_profile := filter (\<lambda>(k, _). k \<in> set SUPPLIER_TEXT_FIELDS) (sv_profile v) @ su_profile s,
       su_active := (case sv_active v of Some a \<Rightarrow> a | None \<Rightarrow> su_active s)\<rparr>"

definition supplier_code_taken :: "supplier_row \<Rightarrow> 'a pos_db_scheme \<Rightarrow> bool" where
  "supplier_code_taken s db =
     list_ex (\<lambda>x. su_business x = su_business s \<and> su_id x \<noteq> su_id s \<and> py_lower (su_code x) = py_lower (su_code s))
       (suppliers db)"

definition save_supplier ::
    "(string list \<Rightarrow> string list) \<Rightarrow> calendar \<Rightarrow> business \<Rightarrow> supplier_values \<Rightarrow> user option \<Rightarrow> id option \<Rightarrow>
     membership option \<Rightarrow> 'a pos_db_scheme \<Rightarrow> err + supplier_row \<times> 'a pos_db_scheme" where
  "save_supplier ord cal business values user target membership db =
     (let b = biz_id business in
      ebind (require_actor_access ord db user (Some business) ''suppliers'' (Some ''suppliers.manage'') WRITE
              membership True) (\<lambda>_.
      ebind (case target of
               None \<Rightarrow> Inr (new_supplier b db, False)
             | Some i \<Rightarrow> (case find (\<lambda>s. su_id s = i \<and> su_business s = b) (suppliers db) of
                 None \<Rightarrow> Inl Http404 | Some s \<Rightarrow> Inr (s, su_active s))) (\<lambda>(s, was_active).
      let s1 = fill_supplier values s in
      ebind (if su_active s1 \<and> \<not> was_active then check_limit cal db business L_SUPPLIERS else Inr ()) (\<lambda>_.
      let code = py_strip (su_code s1);
          s2 = s1\<lparr>su_code := (if code = [] then next_supplier_code b db else code)\<rparr>
      in if supplier_code_taken s2 db then Inl (ValidationError ''This supplier code is already in use.'')
         else Inr (s2, log_audit ''supplier.saved'' ''suppliers'' (''Supplier saved.'')
           (db\<lparr>suppliers := (if target = None then suppliers db @ [s2] else save_row su_id s2 (suppliers db))\<rparr>))))))"

end
