(* ===== verification/Purchase_Laws.thy ===== *)
theory Purchase_Laws
  imports Purchases Guards
begin

text \<open>
  What the operations of the purchases do to the tables: the loops of a receipt and of a return as
  maps and sums over the items of the purchase.
\<close>

section \<open>Helpers\<close>

lemma validated_decimal_label:
  "validated_decimal l raw = Inr q \<Longrightarrow> validated_decimal l' raw = Inr q"
  by (auto simp: validated_decimal_def split: raw_decimal.splits if_splits)

lemma validated_money_number: "validated_money l (RawNumber x) = Inr m \<Longrightarrow> m = money x"
  by (auto simp: validated_money_def validated_decimal_def split: if_splits)

text \<open>The quantity a form asks for an item, and what the code makes of it.\<close>

definition asked :: "quantities \<Rightarrow> id \<Rightarrow> rat" where
  "asked qs i = (case validated_decimal [] (quantity_for qs i) of Inr q \<Rightarrow> q | Inl _ \<Rightarrow> 0)"

lemma asked_eq: "validated_decimal l (quantity_for qs i) = Inr q \<Longrightarrow> asked qs i = q"
  using validated_decimal_label[of l "quantity_for qs i" q "[]"] by (simp add: asked_def)

definition worth :: "quantities \<Rightarrow> purchase_item \<Rightarrow> milli" where
  "worth qs it = (if 0 < asked qs (pit_id it) then money (dmul (asked qs (pit_id it)) (dec (pit_cost it))) else 0)"

definition received_item :: "quantities \<Rightarrow> purchase_item \<Rightarrow> purchase_item" where
  "received_item qs it =
     (if 0 < asked qs (pit_id it)
      then it\<lparr>pit_received := qty (dadd (dec (pit_received it)) (asked qs (pit_id it)))\<rparr> else it)"

text \<open>The quantity a line moves at the keys in \<open>P\<close>.\<close>

definition moved_at :: "(stock_key \<Rightarrow> bool) \<Rightarrow> business \<Rightarrow> warehouse \<Rightarrow> loaded_item \<Rightarrow> rat \<Rightarrow> milli" where
  "moved_at P business w x q =
     (if is_stocked (fst (snd x)) \<and> P (movement_key business w (fst (snd x)) (snd (snd x))) then qty q else 0)"

lemma item_fields [simp]:
  "pit_id (received_item qs it) = pit_id it" "pit_purchase (received_item qs it) = pit_purchase it"
  "pit_ordered (received_item qs it) = pit_ordered it" "pit_cost (received_item qs it) = pit_cost it"
  "pit_product (received_item qs it) = pit_product it" "pit_variant (received_item qs it) = pit_variant it"
  by (simp_all add: received_item_def)

lemma save_unique:
  assumes "distinct (map pk rs)" and "r \<in> set rs" and "\<And>x. pk (f x) = pk x"
  shows "save_row pk (f r) rs = map (\<lambda>x. if pk x = pk r then f x else x) rs"
  using assms by (auto simp: save_row_def distinct_map dest: inj_onD)

text \<open>Stock movements and price updates leave the purchase tables alone.\<close>

definition but_goods :: "'a purchase_db_scheme \<Rightarrow> 'a purchase_db_scheme" where
  "but_goods db = db\<lparr>products := [], variants := [], levels := [], movements := [], notifications := [],
     purchase_items := [], purchase_return_items := []\<rparr>"

lemma but_goodsD:
  assumes "but_goods db' = but_goods db"
  shows "purchases db' = purchases db" "supplier_payments db' = supplier_payments db"
    "purchase_returns db' = purchase_returns db" "suppliers db' = suppliers db" "warehouses db' = warehouses db"
    "memberships db' = memberships db"
  using arg_cong[OF assms, of purchases] arg_cong[OF assms, of supplier_payments] arg_cong[OF assms, of purchase_returns]
    arg_cong[OF assms, of suppliers] arg_cong[OF assms, of warehouses] arg_cong[OF assms, of memberships]
  by (simp_all add: but_goods_def)

lemma movement_frame:
  fixes db db' :: "'a purchase_db_scheme"
  assumes "record_movement business w p v a db = Inr db'"
  shows "but_goods db' = but_goods db" "purchase_items db' = purchase_items db"
    "purchase_return_items db' = purchase_return_items db"
  using record_movement_frame[OF assms] by (auto simp: but_goods_def)

lemma keep_price_frame:
  fixes db :: "'a purchase_db_scheme"
  shows "but_goods (keep_purchase_price p v cost db) = but_goods db"
    "purchase_items (keep_purchase_price p v cost db) = purchase_items db"
    "purchase_return_items (keep_purchase_price p v cost db) = purchase_return_items db"
    "levels (keep_purchase_price p v cost db) = levels db"
    "movements (keep_purchase_price p v cost db) = movements db"
  by (auto simp: keep_purchase_price_def but_goods_def split: option.splits)

section \<open>The loop of a receipt\<close>

lemma receive_item_effect:
  fixes db db' :: "'a purchase_db_scheme"
  assumes "receive_item business p w qs user x (db, val, received) = Inr (db', val', received')"
    and "stock_inv db" and "distinct (map pit_id (purchase_items db))" and "fst x \<in> set (purchase_items db)"
  shows "stock_inv db' \<and> but_goods db' = but_goods db \<and> purchase_return_items db' = purchase_return_items db
    \<and> held_stock P db' = held_stock P db
        + (if 0 < asked qs (pit_id (fst x)) then moved_at P business w x (asked qs (pit_id (fst x))) else 0)
    \<and> purchase_items db' = map (\<lambda>y. if pit_id y = pit_id (fst x) then received_item qs y else y) (purchase_items db)
    \<and> val' = val + worth qs (fst x) \<and> (received' \<longleftrightarrow> received \<or> 0 < asked qs (pit_id (fst x)))
    \<and> (0 < asked qs (pit_id (fst x)) \<longrightarrow> asked qs (pit_id (fst x)) \<le> dec (quantity_pending (fst x)))"
proof -
  obtain it pr v where x: "x = (it, pr, v)" by (cases x)
  obtain q where raw: "validated_decimal ''Receive quantity'' (quantity_for qs (pit_id it)) = Inr q"
    using assms(1) by (auto simp: receive_item_def x ebind_eq_Inr)
  note q = asked_eq[OF raw]
  let ?saved = "save_row pit_id (received_item qs it) (purchase_items db)"
  have saved: "?saved = map (\<lambda>y. if pit_id y = pit_id it then received_item qs y else y) (purchase_items db)"
    using assms(3,4) by (intro save_unique) (simp_all add: x)
  show ?thesis
  proof (cases "0 < q")
    case False
    have same: "db' = db" "val' = val" "received' = received"
      using assms(1) False by (auto simp: receive_item_def x raw)
    have "map (\<lambda>y. if pit_id y = pit_id it then received_item qs y else y) (purchase_items db) = purchase_items db"
      using False by (intro map_idI) (auto simp: received_item_def q)
    then show ?thesis using assms(2) False by (simp add: x q same worth_def)
  next
    case True
    obtain db1 amount where m: "(if is_stocked pr then record_movement business w pr v (receipt_args p it q user) db else Inr db) = Inr db1"
      and amount: "validated_money ''Received value'' (RawNumber (dmul q (dec (pit_cost it)))) = Inr amount"
      and bound: "q \<le> dec (quantity_pending it)"
      and out: "db' = save_item (it\<lparr>pit_received := qty (dadd (dec (pit_received it)) q)\<rparr>)
                   (keep_purchase_price pr v (pit_cost it) db1)" "val' = val + amount" "received' = True"
      using assms(1) True unfolding receive_item_def x prod.case raw ebind_Inr by (auto simp: returns)
    have 1: "but_goods db1 = but_goods db \<and> purchase_return_items db1 = purchase_return_items db \<and> purchase_items db1 = purchase_items db \<and> stock_inv db1
        \<and> held_stock P db1 = held_stock P db + moved_at P business w x q"
    proof (cases "is_stocked pr")
      case stocked: True
      then have move: "record_movement business w pr v (receipt_args p it q user) db = Inr db1" using m by simp
      have "levels_ok (levels db)" using assms(2) by (simp add: stock_inv_def)
      from record_movement_held[OF move this, of P] movement_frame[OF move] record_movement_inv[OF move assms(2)] stocked
      show ?thesis by (simp add: moved_at_def x receipt_args_def)
    next
      case False
      then show ?thesis using m assms(2) by (simp add: moved_at_def x)
    qed
    have item: "it\<lparr>pit_received := qty (dadd (dec (pit_received it)) q)\<rparr> = received_item qs it"
      using True by (simp add: received_item_def q)
    let ?db2 = "keep_purchase_price pr v (pit_cost it) db1"
    have "but_goods (save_item r d) = but_goods d" for r and d :: "'a purchase_db_scheme"
      by (simp add: but_goods_def save_item_def)
    then have "but_goods db' = but_goods db"
      using 1 by (simp add: out(1) keep_price_frame)
    moreover have "stock_inv db'" "purchase_return_items db' = purchase_return_items db" "held_stock P db' = held_stock P db1"
      using 1 by (simp_all add: out(1) save_item_def stock_inv_def held_stock_def keep_price_frame)
    moreover have "purchase_items db' = ?saved"
      using 1 by (simp add: out(1) save_item_def item keep_price_frame)
    ultimately show ?thesis
      using 1 True saved bound validated_money_number[OF amount] by (simp add: out x q worth_def)
  qed
qed

lemma receive_items_effect:
  fixes db db' :: "'a purchase_db_scheme"
  assumes "efold (receive_item business p w qs user) items (db, val, received) = Inr (db', val', received')"
    and "stock_inv db" and "distinct (map pit_id (purchase_items db))"
    and "distinct (map (pit_id \<circ> fst) items)" and "\<forall>x \<in> set items. fst x \<in> set (purchase_items db)"
  shows "stock_inv db' \<and> but_goods db' = but_goods db \<and> purchase_return_items db' = purchase_return_items db
    \<and> held_stock P db' = held_stock P db
        + (\<Sum>x \<leftarrow> items. if 0 < asked qs (pit_id (fst x)) then moved_at P business w x (asked qs (pit_id (fst x))) else 0)
    \<and> purchase_items db' = map (\<lambda>y. if pit_id y \<in> (pit_id \<circ> fst) ` set items then received_item qs y else y) (purchase_items db)
    \<and> val' = val + (\<Sum>x \<leftarrow> items. worth qs (fst x))
    \<and> (received' \<longleftrightarrow> received \<or> (\<exists>x \<in> set items. 0 < asked qs (pit_id (fst x))))
    \<and> (\<forall>x \<in> set items. 0 < asked qs (pit_id (fst x)) \<longrightarrow> asked qs (pit_id (fst x)) \<le> dec (quantity_pending (fst x)))"
  using assms
proof (induction items arbitrary: db val received)
  case Nil
  then show ?case by simp
next
  case (Cons x items)
  obtain db1 val1 received1 where one: "receive_item business p w qs user x (db, val, received) = Inr (db1, val1, received1)"
    and rest: "efold (receive_item business p w qs user) items (db1, val1, received1) = Inr (db', val', received')"
    using Cons.prems(1) by (auto simp: ebind_eq_Inr)
  note e = receive_item_effect[OF one Cons.prems(2,3), of P]
  have x: "fst x \<in> set (purchase_items db)" using Cons.prems(5) by simp
  note e = e[OF x]
  have ids: "map pit_id (purchase_items db1) = map pit_id (purchase_items db)" using e
    by (auto simp: comp_def)
  have "\<forall>y \<in> set items. fst y \<in> set (purchase_items db1)"
  proof
    fix y assume y: "y \<in> set items"
    then have "pit_id (fst y) \<noteq> pit_id (fst x)" using Cons.prems(4) by (force simp: image_iff)
    moreover have "fst y \<in> set (purchase_items db)" using Cons.prems(5) y by simp
    ultimately show "fst y \<in> set (purchase_items db1)" using e by (auto simp: image_iff intro!: bexI[of _ "fst y"])
  qed
  moreover have "distinct (map pit_id (purchase_items db1))" unfolding ids by (rule Cons.prems(3))
  moreover have "stock_inv db1" using e by simp
  moreover have "distinct (map (pit_id \<circ> fst) items)" using Cons.prems(4) by (simp add: comp_def)
  ultimately have ih: "stock_inv db' \<and> but_goods db' = but_goods db1 \<and> purchase_return_items db' = purchase_return_items db1
    \<and> held_stock P db' = held_stock P db1
        + (\<Sum>x \<leftarrow> items. if 0 < asked qs (pit_id (fst x)) then moved_at P business w x (asked qs (pit_id (fst x))) else 0)
    \<and> purchase_items db' = map (\<lambda>y. if pit_id y \<in> (pit_id \<circ> fst) ` set items then received_item qs y else y) (purchase_items db1)
    \<and> val' = val1 + (\<Sum>x \<leftarrow> items. worth qs (fst x))
    \<and> (received' \<longleftrightarrow> received1 \<or> (\<exists>x \<in> set items. 0 < asked qs (pit_id (fst x))))
    \<and> (\<forall>x \<in> set items. 0 < asked qs (pit_id (fst x)) \<longrightarrow> asked qs (pit_id (fst x)) \<le> dec (quantity_pending (fst x)))"
    using Cons.IH[OF rest] by blast
  have apart: "pit_id (fst x) \<notin> (pit_id \<circ> fst) ` set items" using Cons.prems(4) by simp
  have "purchase_items db' = map (\<lambda>y. if pit_id y \<in> (pit_id \<circ> fst) ` set (x # items) then received_item qs y else y) (purchase_items db)"
    using ih e apart by (auto simp: image_iff)
  then show ?case using ih e by simp
qed

section \<open>Loaded items\<close>

lemma locked_items_Inr:
  assumes "locked_purchase_items db p = Inr items"
  shows "map fst items = items_of db (pu_id p)"
    "\<And>x. x \<in> set items \<Longrightarrow> item_objects db (pit_product (fst x)) (pit_variant (fst x)) = Inr (snd x)"
    "list_all (item_consistent p) items"
  using assms emap_paired[of "\<lambda>it. item_objects db (pit_product it) (pit_variant it)" "items_of db (pu_id p)" items]
  by (auto simp: locked_purchase_items_def ebind_eq_Inr split: if_splits)

lemma locked_items_table:
  assumes "locked_purchase_items db p = Inr items" and "distinct (map pit_id (purchase_items db))"
  shows "distinct (map (pit_id \<circ> fst) items)" "\<forall>x \<in> set items. fst x \<in> set (purchase_items db)"
    "(pit_id \<circ> fst) ` set items = pit_id ` {it \<in> set (purchase_items db). pit_purchase it = pu_id p}"
proof -
  have eq: "map (pit_id \<circ> fst) items = map pit_id (items_of db (pu_id p))"
    using locked_items_Inr(1)[OF assms(1)] by (metis map_map)
  show "distinct (map (pit_id \<circ> fst) items)"
    unfolding eq items_of_def using assms(2) by (rule distinct_map_filter)
  have mem: "fst ` set items = set (items_of db (pu_id p))"
    using locked_items_Inr(1)[OF assms(1)] by (metis list.set_map)
  then show "\<forall>x \<in> set items. fst x \<in> set (purchase_items db)" by (auto simp: items_of_def)
  show "(pit_id \<circ> fst) ` set items = pit_id ` {it \<in> set (purchase_items db). pit_purchase it = pu_id p}"
    unfolding image_comp[symmetric] mem by (simp add: items_of_def)
qed

lemma authorized_purchase_Inr:
  assumes "authorized_purchase ord business i user perm membership db = Inr o'"
  shows "op_purchase o' \<in> set (purchases db)" "pu_id (op_purchase o') = i"
    "pu_business (op_purchase o') = biz_id business"
    "row_by wh_id (pu_warehouse (op_purchase o')) (warehouses db) = Some (op_warehouse o')"
  using assms unfolding authorized_purchase_def
  by (auto simp: returns purchase_rows_def split: option.splits dest!: find_Some_mem)

text \<open>The supplier's balance.\<close>

definition payable :: "'a pos_db_scheme \<Rightarrow> id \<Rightarrow> milli option" where
  "payable db i = map_option su_balance (row_by su_id i (suppliers db))"

lemma payable_change [simp]:
  "payable (change_supplier_balance i d db) j = (if j = i then map_option (\<lambda>x. x + d) (payable db j) else payable db j)"
proof -
  have "row_by su_id j (map (\<lambda>s. if su_id s = i then s\<lparr>su_balance := su_balance s + d\<rparr> else s) (suppliers db))
    = map_option (\<lambda>s. if su_id s = i then s\<lparr>su_balance := su_balance s + d\<rparr> else s) (row_by su_id j (suppliers db))"
    by (rule row_by_map) simp
  then show ?thesis
    by (cases "row_by su_id j (suppliers db)") (auto simp: payable_def change_supplier_balance_def dest: row_by_Some)
qed

lemma payable_frame [simp]:
  "payable (save_purchase p db) i = payable db i" "payable (log_audit a m d pdb) i = payable pdb i"
  by (simp_all add: payable_def save_purchase_def log_audit_def)

lemma payable_cong: "suppliers db' = suppliers db \<Longrightarrow> payable db' i = payable db i"
  by (simp add: payable_def)

lemma change_supplier_frame [simp]:
  "purchases (change_supplier_balance i d db) = purchases db"
  "purchase_items (change_supplier_balance i d db) = purchase_items db"
  "supplier_payments (change_supplier_balance i d db) = supplier_payments db"
  "purchase_returns (change_supplier_balance i d db) = purchase_returns db"
  "purchase_return_items (change_supplier_balance i d db) = purchase_return_items db"
  "levels (change_supplier_balance i d db) = levels db" "movements (change_supplier_balance i d db) = movements db"
  "warehouses (change_supplier_balance i d db) = warehouses db"
  by (simp_all add: change_supplier_balance_def)

definition received_items :: "quantities \<Rightarrow> id \<Rightarrow> purchase_item list \<Rightarrow> purchase_item list" where
  "received_items qs i its = map (\<lambda>y. if pit_purchase y = i then received_item qs y else y) its"

text \<open>The stock a receipt brings to the keys in \<open>P\<close>.\<close>

definition brought :: "(stock_key \<Rightarrow> bool) \<Rightarrow> business \<Rightarrow> warehouse \<Rightarrow> quantities \<Rightarrow> loaded_item list \<Rightarrow> milli" where
  "brought P business w qs items =
     (\<Sum>x \<leftarrow> items. if 0 < asked qs (pit_id (fst x)) then moved_at P business w x (asked qs (pit_id (fst x))) else 0)"

lemma table_of_items:
  assumes "distinct (map pit_id its)"
  shows "map (\<lambda>y. if pit_id y \<in> pit_id ` {it \<in> set its. pit_purchase it = i} then f y else y) its
    = map (\<lambda>y. if pit_purchase y = i then f y else y) its"
proof (rule map_cong[OF refl])
  fix y assume "y \<in> set its"
  then have "pit_id y \<in> pit_id ` {it \<in> set its. pit_purchase it = i} \<longleftrightarrow> pit_purchase y = i"
    using assms by (auto simp: distinct_map dest: inj_onD)
  then show "(if pit_id y \<in> pit_id ` {it \<in> set its. pit_purchase it = i} then f y else y)
      = (if pit_purchase y = i then f y else y)" by simp
qed

lemma receive_purchase_Inr:
  fixes db db' :: "'a purchase_db_scheme"
  assumes "receive_purchase ord business i qs user membership db = Inr (p', db')"
    and "stock_inv db" and "distinct (map pit_id (purchase_items db))"
  obtains p w items where "p \<in> set (purchases db)" "pu_id p = i" "pu_business p = biz_id business"
    "pu_status p \<noteq> PU_CANCELLED" "row_by wh_id (pu_warehouse p) (warehouses db) = Some w"
    "locked_purchase_items db p = Inr items" "\<exists>x \<in> set items. 0 < asked qs (pit_id (fst x))"
    "\<forall>x \<in> set items. 0 < asked qs (pit_id (fst x)) \<longrightarrow> asked qs (pit_id (fst x)) \<le> dec (quantity_pending (fst x))"
    "stock_inv db'" "\<And>P. held_stock P db' = held_stock P db + brought P business w qs items"
    "purchase_items db' = received_items qs i (purchase_items db)"
    "p' = p\<lparr>pu_status := (if fully_received db' p then PU_RECEIVED else PU_PARTIAL)\<rparr>"
    "purchases db' = save_row pu_id p' (purchases db)"
    "\<And>j. payable db' j = (if j = pu_supplier p
        then map_option (\<lambda>x. x + ((\<Sum>it \<leftarrow> items_of db i. worth qs it)
          + (if fully_received db' p then completion_charges p else 0))) (payable db j) else payable db j)"
    "supplier_payments db' = supplier_payments db" "purchase_returns db' = purchase_returns db"
    "purchase_return_items db' = purchase_return_items db" "warehouses db' = warehouses db"
proof -
  obtain o' items db1 val received where o: "authorized_purchase ord business i user ''purchases.manage'' membership db = Inr o'"
    and items: "locked_purchase_items db (op_purchase o') = Inr items"
    and fold: "efold (receive_item business (op_purchase o') (op_warehouse o') qs user) items (db, 0, False) = Inr (db1, val, received)"
    and received and status: "pu_status (op_purchase o') \<noteq> PU_CANCELLED"
    and p': "p' = (op_purchase o')\<lparr>pu_status := (if fully_received db1 (op_purchase o') then PU_RECEIVED else PU_PARTIAL)\<rparr>"
    and db': "db' = log_audit ''purchase.received'' ''purchases'' (''Goods received on '' @ pu_number (op_purchase o') @ ''.'')
              (save_purchase p' (change_supplier_balance (pu_supplier (op_purchase o'))
                (val + (if fully_received db1 (op_purchase o') then completion_charges (op_purchase o') else 0)) db1))"
    using assms(1) unfolding receive_purchase_def by (auto simp: returns)
  let ?p = "op_purchase o'"
  note a = authorized_purchase_Inr[OF o]
  note t = locked_items_table[OF items assms(3)]
  note e = receive_items_effect[OF fold assms(2,3) t(1,2)]
  have tables: "purchase_items db' = purchase_items db1" "levels db' = levels db1" "movements db' = movements db1"
    "purchases db' = save_row pu_id p' (purchases db1)" "supplier_payments db' = supplier_payments db1"
    "purchase_returns db' = purchase_returns db1" "purchase_return_items db' = purchase_return_items db1"
    "warehouses db' = warehouses db1"
    by (simp_all add: db' save_purchase_def log_audit_def)
  have its: "purchase_items db' = received_items qs i (purchase_items db)"
  proof -
    have "purchase_items db1 = map (\<lambda>y. if pit_id y \<in> (pit_id \<circ> fst) ` set items then received_item qs y else y)
        (purchase_items db)" using e by blast
    then show ?thesis by (simp only: tables(1) received_items_def t(3) a(2) table_of_items[OF assms(3)])
  qed
  have full: "fully_received db' p = fully_received db1 p" for p
    by (simp add: fully_received_def items_of_def tables)
  have val: "val = (\<Sum>it \<leftarrow> items_of db i. worth qs it)"
  proof -
    have "val = (\<Sum>it \<leftarrow> map fst items. worth qs it)" using e by (simp add: comp_def)
    then show ?thesis by (simp only: locked_items_Inr(1)[OF items] a(2))
  qed
  have "but_goods db1 = but_goods db" using e by blast
  then have pc: "payable db1 j = payable db j" for j using payable_cong but_goodsD(4) by blast
  have paid_for: "payable db' j = payable (change_supplier_balance (pu_supplier ?p)
      (val + (if fully_received db1 ?p then completion_charges ?p else 0)) db1) j" for j
    by (simp only: db' payable_frame)
  show ?thesis
  proof (rule that[of ?p "op_warehouse o'" items])
    show "\<And>P. held_stock P db' = held_stock P db + brought P business (op_warehouse o') qs items"
      using receive_items_effect[OF fold assms(2,3) t(1,2)]
      by (simp add: held_stock_def brought_def tables)
    show "\<And>j. payable db' j = (if j = pu_supplier ?p
        then map_option (\<lambda>x. x + ((\<Sum>it \<leftarrow> items_of db i. worth qs it)
          + (if fully_received db' ?p then completion_charges ?p else 0))) (payable db j) else payable db j)"
      by (simp only: full val[symmetric] paid_for pc payable_change)
    show "\<exists>x \<in> set items. 0 < asked qs (pit_id (fst x))" using e \<open>received\<close> by simp
    show "\<forall>x \<in> set items. 0 < asked qs (pit_id (fst x)) \<longrightarrow> asked qs (pit_id (fst x)) \<le> dec (quantity_pending (fst x))"
      using e by blast
    show "stock_inv db'" using e by (simp add: stock_inv_def tables)
    show "purchases db' = save_row pu_id p' (purchases db)" "supplier_payments db' = supplier_payments db"
      "purchase_returns db' = purchase_returns db" "warehouses db' = warehouses db"
      using e but_goodsD[of db1 db] by (simp_all add: tables)
    show "purchase_return_items db' = purchase_return_items db" using e by (simp add: tables)
  qed (use a status items its full p' in simp_all)
qed

end
