(* ===== verification/Purchase_Returns.thy ===== *)
theory Purchase_Returns
  imports Purchase_Laws
begin

text \<open>
  What a return, a payment, a cheque and a cancellation do to the tables of the purchases.
\<close>

section \<open>The loops of a return\<close>

lemma return_item_lines:
  assumes "efold (return_item_line qs returned) items (ls, val) = Inr (ls', val')"
  shows "ls' = ls @ map (\<lambda>x. (x, asked qs (pit_id (fst x)))) (filter (\<lambda>x. 0 < asked qs (pit_id (fst x))) items)
    \<and> val' = val + (\<Sum>x \<leftarrow> items. worth qs (fst x))
    \<and> (\<forall>x \<in> set items. 0 < asked qs (pit_id (fst x)) \<longrightarrow>
          asked qs (pit_id (fst x)) \<le> dec (pit_received (fst x) - returned (pit_id (fst x))))"
  using assms
proof (induction items arbitrary: ls val)
  case Nil
  then show ?case by simp
next
  case (Cons x items)
  obtain ls1 val1 where one: "return_item_line qs returned x (ls, val) = Inr (ls1, val1)"
    and rest: "efold (return_item_line qs returned) items (ls1, val1) = Inr (ls', val')"
    using Cons.prems by (auto simp: ebind_eq_Inr)
  obtain q where raw: "validated_decimal ''Return quantity'' (quantity_for qs (pit_id (fst x))) = Inr q"
    using one by (auto simp: return_item_line_def ebind_eq_Inr Let_def)
  note q = asked_eq[OF raw]
  show ?case
  proof (cases "0 < q")
    case False
    then have "ls1 = ls" "val1 = val" using one raw by (auto simp: return_item_line_def Let_def)
    then show ?thesis using Cons.IH[OF rest] False by (simp add: q worth_def)
  next
    case True
    obtain amount where amount: "validated_money ''Purchase return value'' (RawNumber (dmul q (dec (pit_cost (fst x))))) = Inr amount"
      and "q \<le> dec (pit_received (fst x) - returned (pit_id (fst x)))" "ls1 = ls @ [(x, q)]" "val1 = val + amount"
      using one True unfolding return_item_line_def prod.case Let_def raw ebind_Inr by (auto simp: returns)
    then show ?thesis
      using Cons.IH[OF rest] True validated_money_number[OF amount] by (simp add: q worth_def)
  qed
qed

definition return_row :: "business \<Rightarrow> purchase_return \<Rightarrow> loaded_item \<times> rat \<Rightarrow> purchase_return_item" where
  "return_row business r line =
     (case line of ((it, pr, v), q) \<Rightarrow>
        \<lparr>pri_business = biz_id business, pri_return = prt_id r, pri_item = pit_id it, pri_quantity = qty q,
         pri_cost = pit_cost it, pri_line_total = money (dmul q (dec (pit_cost it)))\<rparr>)"

lemma post_return_line_effect:
  fixes db db' :: "'a purchase_db_scheme"
  assumes "post_return_line business w r user line db = Inr db'" and "stock_inv db"
  shows "stock_inv db' \<and> but_goods db' = but_goods db \<and> purchase_items db' = purchase_items db
    \<and> purchase_return_items db' = purchase_return_items db @ [return_row business r line]
    \<and> held_stock P db' = held_stock P db - moved_at P business w (fst line) (snd line)"
proof -
  obtain it pr v q where line: "line = ((it, pr, v), q)" by (metis prod.collapse)
  define db1 where "db1 = db\<lparr>purchase_return_items := purchase_return_items db @ [return_row business r line]\<rparr>"
  obtain amount where amount: "validated_money ''Purchase return line total'' (RawNumber (dmul q (dec (pit_cost it)))) = Inr amount"
    and m': "(if is_stocked pr then record_movement business w pr v (supplier_return_args r it q user)
          (db\<lparr>purchase_return_items := purchase_return_items db @ [\<lparr>pri_business = biz_id business, pri_return = prt_id r,
             pri_item = pit_id it, pri_quantity = qty q, pri_cost = pit_cost it, pri_line_total = amount\<rparr>]\<rparr>)
        else Inr (db\<lparr>purchase_return_items := purchase_return_items db @ [\<lparr>pri_business = biz_id business, pri_return = prt_id r,
             pri_item = pit_id it, pri_quantity = qty q, pri_cost = pit_cost it, pri_line_total = amount\<rparr>]\<rparr>)) = Inr db'"
    using assms(1) unfolding post_return_line_def line prod.case Let_def ebind_eq_Inr by blast
  have m: "(if is_stocked pr then record_movement business w pr v (supplier_return_args r it q user) db1 else Inr db1) = Inr db'"
    using m' unfolding db1_def return_row_def line prod.case validated_money_number[OF amount] .
  have inv: "stock_inv db1" using assms(2) by (simp add: db1_def stock_inv_def)
  have 1: "but_goods db1 = but_goods db" "purchase_items db1 = purchase_items db"
    "purchase_return_items db1 = purchase_return_items db @ [return_row business r line]"
    "held_stock P db1 = held_stock P db"
    by (simp_all add: db1_def but_goods_def held_stock_def)
  show ?thesis
  proof (cases "is_stocked pr")
    case True
    then have move: "record_movement business w pr v (supplier_return_args r it q user) db1 = Inr db'" using m by simp
    have "levels_ok (levels db1)" using inv by (simp add: stock_inv_def)
    from record_movement_held[OF move this, of P] movement_frame[OF move] record_movement_inv[OF move inv] True 1
    show ?thesis by (simp add: moved_at_def line supplier_return_args_def qty_minus)
  next
    case False
    then show ?thesis using m inv 1 by (simp add: moved_at_def line)
  qed
qed

lemma post_return_lines_effect:
  fixes db db' :: "'a purchase_db_scheme"
  assumes "efold (post_return_line business w r user) ls db = Inr db'" and "stock_inv db"
  shows "stock_inv db' \<and> but_goods db' = but_goods db \<and> purchase_items db' = purchase_items db
    \<and> purchase_return_items db' = purchase_return_items db @ map (return_row business r) ls
    \<and> held_stock P db' = held_stock P db - (\<Sum>x \<leftarrow> ls. moved_at P business w (fst x) (snd x))"
  using assms
proof (induction ls arbitrary: db)
  case Nil
  then show ?case by simp
next
  case (Cons line ls)
  obtain db1 where one: "post_return_line business w r user line db = Inr db1"
    and rest: "efold (post_return_line business w r user) ls db1 = Inr db'"
    using Cons.prems(1) by (auto simp: ebind_eq_Inr)
  note e = post_return_line_effect[OF one Cons.prems(2), of P]
  show ?case using Cons.IH[OF rest] e by simp
qed

lemma locked_returned_Inr:
  assumes "locked_returned_quantities db p its = Inr returned" and "it \<in> set its"
  shows "returned (pit_id it) = returned_of db (pit_id it)"
proof -
  have same: "filter (\<lambda>r. pri_item r = pit_id it) (filter (\<lambda>r. pri_return r \<in> X \<or> pri_item r \<in> pit_id ` set its) rs)
    = filter (\<lambda>r. pri_item r = pit_id it) rs" for X rs
    unfolding filter_filter using assms(2) by (intro filter_cong) auto
  let ?ids = "map prt_id (filter (\<lambda>r. prt_purchase r = pu_id p) (purchase_returns db))"
  have "(\<lambda>i. \<Sum>r \<leftarrow> filter (\<lambda>r. pri_item r = i)
      (filter (\<lambda>r. pri_return r \<in> set ?ids \<or> pri_item r \<in> pit_id ` set its) (purchase_return_items db)). pri_quantity r)
    = returned"
    using assms(1) by (simp only: locked_returned_quantities_def Let_def guard_if guard_done)
  note this[symmetric]
  then show ?thesis by (simp only: returned_of_def same)
qed

text \<open>What a return lists: the asked items of the purchase.\<close>

definition returned_lines :: "quantities \<Rightarrow> loaded_item list \<Rightarrow> (loaded_item \<times> rat) list" where
  "returned_lines qs items =
     map (\<lambda>x. (x, asked qs (pit_id (fst x)))) (filter (\<lambda>x. 0 < asked qs (pit_id (fst x))) items)"

lemma returned_lines_brought:
  "(\<Sum>x \<leftarrow> returned_lines qs items. moved_at P business w (fst x) (snd x)) = brought P business w qs items"
  by (induction items) (simp_all add: returned_lines_def brought_def)

lemma return_purchase_Inr:
  fixes db db' :: "'a purchase_db_scheme"
  assumes "return_purchase ord business i qs user reason membership db = Inr (r, db')"
    and "stock_inv db" and "distinct (map pit_id (purchase_items db))"
  obtains p w items where "p \<in> set (purchases db)" "pu_id p = i" "pu_business p = biz_id business"
    "row_by wh_id (pu_warehouse p) (warehouses db) = Some w" "locked_purchase_items db p = Inr items"
    "\<forall>x \<in> set items. 0 < asked qs (pit_id (fst x)) \<longrightarrow>
        asked qs (pit_id (fst x)) \<le> dec (pit_received (fst x) - returned_of db (pit_id (fst x)))"
    "stock_inv db'" "\<And>P. held_stock P db' = held_stock P db - brought P business w qs items"
    "r = new_purchase_return business p user reason (\<Sum>it \<leftarrow> items_of db i. worth qs it) db"
    "purchase_returns db' = purchase_returns db @ [r]"
    "purchase_return_items db' = purchase_return_items db @ map (return_row business r) (returned_lines qs items)"
    "\<And>j. payable db' j = (if j = pu_supplier p
        then map_option (\<lambda>x. x - (\<Sum>it \<leftarrow> items_of db i. worth qs it)) (payable db j) else payable db j)"
    "purchase_items db' = purchase_items db" "purchases db' = purchases db"
    "supplier_payments db' = supplier_payments db" "warehouses db' = warehouses db"
proof -
  obtain o' items returned ls val db1 where o: "authorized_purchase ord business i user ''purchases.manage'' membership db = Inr o'"
    and items: "locked_purchase_items db (op_purchase o') = Inr items"
    and returned: "locked_returned_quantities db (op_purchase o') (map fst items) = Inr returned"
    and lines: "efold (return_item_line qs returned) items ([], 0) = Inr (ls, val)"
    and r: "r = new_purchase_return business (op_purchase o') user reason val db"
    and fold: "efold (post_return_line business (op_warehouse o') r user) ls (db\<lparr>purchase_returns := purchase_returns db @ [r]\<rparr>) = Inr db1"
    and db': "db' = log_audit ''purchase.returned'' ''purchases''
         (''Purchase return '' @ prt_number r @ '' against '' @ pu_number (op_purchase o') @ ''.'')
         (change_supplier_balance (pu_supplier (op_purchase o')) (- val) db1)"
    using assms(1) unfolding return_purchase_def by (auto simp: returns)
  let ?p = "op_purchase o'" and ?db0 = "db\<lparr>purchase_returns := purchase_returns db @ [r]\<rparr>"
  note a = authorized_purchase_Inr[OF o]
  note l = return_item_lines[OF lines]
  have inv: "stock_inv ?db0" using assms(2) by (simp add: stock_inv_def)
  note e = post_return_lines_effect[OF fold inv]
  have bg: "but_goods db1 = but_goods ?db0" using e by blast
  have ls: "ls = returned_lines qs items" using l by (simp add: returned_lines_def)
  have tables: "purchase_items db' = purchase_items db1" "levels db' = levels db1" "movements db' = movements db1"
    "purchases db' = purchases db1" "supplier_payments db' = supplier_payments db1"
    "purchase_returns db' = purchase_returns db1" "purchase_return_items db' = purchase_return_items db1"
    "warehouses db' = warehouses db1"
    by (simp_all add: db' log_audit_def)
  have val: "val = (\<Sum>it \<leftarrow> items_of db i. worth qs it)"
  proof -
    have "val = (\<Sum>it \<leftarrow> map fst items. worth qs it)" using l by (simp add: comp_def)
    then show ?thesis by (simp only: locked_items_Inr(1)[OF items] a(2))
  qed
  have paid_for: "payable db' j = payable (change_supplier_balance (pu_supplier ?p) (- val) db1) j" for j
    by (simp only: db' payable_frame)
  have pc: "payable db1 j = payable db j" for j
    using payable_cong[of db1 db j] but_goodsD(4)[OF bg] by simp
  show ?thesis
  proof (rule that[of ?p "op_warehouse o'" items])
    show "\<forall>x \<in> set items. 0 < asked qs (pit_id (fst x)) \<longrightarrow>
        asked qs (pit_id (fst x)) \<le> dec (pit_received (fst x) - returned_of db (pit_id (fst x)))"
      using l locked_returned_Inr[OF returned] by simp
    show "\<And>P. held_stock P db' = held_stock P db - brought P business (op_warehouse o') qs items"
      using e returned_lines_brought[of _ business "op_warehouse o'" qs items]
      by (simp add: held_stock_def tables ls)
    show "\<And>j. payable db' j = (if j = pu_supplier ?p
        then map_option (\<lambda>x. x - (\<Sum>it \<leftarrow> items_of db i. worth qs it)) (payable db j) else payable db j)"
      by (simp add: paid_for pc val)
    show "stock_inv db'" using e by (simp add: stock_inv_def tables)
    show "purchase_returns db' = purchase_returns db @ [r]" "purchases db' = purchases db"
      "supplier_payments db' = supplier_payments db" "warehouses db' = warehouses db"
      using but_goodsD[OF bg] by (simp_all add: tables)
    show "purchase_return_items db' = purchase_return_items db @ map (return_row business r) (returned_lines qs items)"
      "purchase_items db' = purchase_items db"
      using e by (simp_all add: tables ls)
  qed (use a items r val in simp_all)
qed

end
