(* ===== verification/Purchase_Runs.thy ===== *)
theory Purchase_Runs
  imports Purchase_Returns
begin

text \<open>
  The books of the purchases under every sequence of orders, receipts, payments, cheques, returns and
  cancellations.
\<close>

section \<open>The books\<close>

definition returned_sum :: "purchase_return_item list \<Rightarrow> id \<Rightarrow> milli" where
  "returned_sum ris i = (\<Sum>r \<leftarrow> filter (\<lambda>r. pri_item r = i) ris. pri_quantity r)"

definition item_ok :: "purchase_return_item list \<Rightarrow> purchase_item \<Rightarrow> bool" where
  "item_ok ris it =
     (0 \<le> pit_received it \<and> pit_received it \<le> pit_ordered it \<and> pit_ordered it \<le> 10 ^ 14
      \<and> returned_sum ris (pit_id it) \<le> pit_received it)"

definition settled :: "supplier_payment list \<Rightarrow> id \<Rightarrow> milli" where
  "settled pays i =
     (\<Sum>x \<leftarrow> filter (\<lambda>x. spy_purchase x = Some i \<and> (\<not> is_cheque x \<or> spy_status x = CQ_CLEARED)) pays. spy_amount x)"

definition pending :: "supplier_payment list \<Rightarrow> id \<Rightarrow> milli" where
  "pending pays i =
     (\<Sum>x \<leftarrow> filter (\<lambda>x. spy_purchase x = Some i \<and> is_cheque x \<and> spy_status x = CQ_PENDING) pays. spy_amount x)"

definition payment_ok :: "supplier_payment \<Rightarrow> bool" where
  "payment_ok x = (0 < spy_amount x \<and> (is_cheque x \<longleftrightarrow> spy_status x \<noteq> NoCheque))"

definition nothing_received :: "purchase_item list \<Rightarrow> id \<Rightarrow> bool" where
  "nothing_received its i = list_all (\<lambda>it. pit_purchase it = i \<longrightarrow> pit_received it = 0) its"

definition all_received :: "purchase_item list \<Rightarrow> id \<Rightarrow> bool" where
  "all_received its i = list_all (\<lambda>it. pit_purchase it = i \<longrightarrow> pit_received it = pit_ordered it) its"

definition order_ok :: "purchase_item list \<Rightarrow> supplier_payment list \<Rightarrow> purchase \<Rightarrow> bool" where
  "order_ok its pays p =
     (pu_paid p = settled pays (pu_id p) \<and> pu_paid p + pending pays (pu_id p) \<le> pu_total p
      \<and> (case pu_status p of
           PU_ORDER \<Rightarrow> nothing_received its (pu_id p)
         | PU_PARTIAL \<Rightarrow> True
         | PU_RECEIVED \<Rightarrow> all_received its (pu_id p)
         | PU_CANCELLED \<Rightarrow> nothing_received its (pu_id p) \<and> pu_paid p = 0 \<and> pending pays (pu_id p) = 0))"

definition order_books ::
    "purchase list \<Rightarrow> purchase_item list \<Rightarrow> supplier_payment list \<Rightarrow> purchase_return list \<Rightarrow>
     purchase_return_item list \<Rightarrow> bool" where
  "order_books ps its pays rs ris =
     (distinct (map pu_id ps) \<and> distinct (map pit_id its) \<and> distinct (map spy_id pays) \<and> distinct (map prt_id rs)
      \<and> distinct (map (\<lambda>p. (pu_business p, pu_number p)) ps)
      \<and> distinct (map (\<lambda>x. (spy_business x, spy_number x)) pays)
      \<and> distinct (map (\<lambda>r. (prt_business r, prt_number r)) rs)
      \<and> pit_purchase ` set its \<subseteq> pu_id ` set ps
      \<and> (\<Union>x \<in> set pays. set_option (spy_purchase x)) \<subseteq> pu_id ` set ps
      \<and> pri_item ` set ris \<subseteq> pit_id ` set its
      \<and> list_all (item_ok ris) its \<and> list_all payment_ok pays \<and> list_all (order_ok its pays) ps)"

definition purchase_books :: "'a purchase_db_scheme \<Rightarrow> bool" where
  "purchase_books db =
     (stock_inv db
      \<and> order_books (purchases db) (purchase_items db) (supplier_payments db) (purchase_returns db)
          (purchase_return_items db))"

lemma purchase_books_log [simp]: "purchase_books (log_audit a m d db) = purchase_books db"
  by (simp add: purchase_books_def log_audit_def stock_inv_def)

lemma booksD:
  assumes "purchase_books db"
  shows "stock_inv db" "distinct (map pit_id (purchase_items db))" "distinct (map pu_id (purchases db))"
    "distinct (map spy_id (supplier_payments db))"
    "\<And>it. it \<in> set (purchase_items db) \<Longrightarrow> item_ok (purchase_return_items db) it"
    "\<And>p. p \<in> set (purchases db) \<Longrightarrow> order_ok (purchase_items db) (supplier_payments db) p"
    "\<And>x. x \<in> set (supplier_payments db) \<Longrightarrow> payment_ok x"
  using assms by (auto simp: purchase_books_def order_books_def list_all_iff)

lemma row_same: "distinct (map pk rs) \<Longrightarrow> a \<in> set rs \<Longrightarrow> b \<in> set rs \<Longrightarrow> pk a = pk b \<Longrightarrow> a = b"
  by (auto simp: distinct_map dest: inj_onD)

section \<open>Sums of payments\<close>

lemma sums_append [simp]:
  "settled (xs @ ys) i = settled xs i + settled ys i" "pending (xs @ ys) i = pending xs i + pending ys i"
  "returned_sum (as @ bs) i = returned_sum as i + returned_sum bs i"
  by (simp_all add: settled_def pending_def returned_sum_def)

lemma sums_absent:
  "i \<notin> (\<Union>x \<in> set pays. set_option (spy_purchase x)) \<Longrightarrow> settled pays i = 0 \<and> pending pays i = 0"
proof -
  assume "i \<notin> (\<Union>x \<in> set pays. set_option (spy_purchase x))"
  then have "filter (\<lambda>x. spy_purchase x = Some i \<and> Q x) pays = []" for Q by (auto simp: filter_empty_conv)
  then show ?thesis by (simp add: settled_def pending_def)
qed

lemma returned_absent: "i \<notin> pri_item ` set ris \<Longrightarrow> returned_sum ris i = 0"
proof -
  assume "i \<notin> pri_item ` set ris"
  then have "filter (\<lambda>r. pri_item r = i) ris = []" by (auto simp: filter_empty_conv)
  then show ?thesis by (simp add: returned_sum_def)
qed

lemma sums_nonneg:
  assumes "list_all payment_ok pays"
  shows "0 \<le> settled pays i" "0 \<le> pending pays i"
proof -
  have "\<forall>x \<in> set pays. 0 \<le> spy_amount x" using assms by (auto simp: list_all_iff payment_ok_def)
  then show "0 \<le> settled pays i" "0 \<le> pending pays i"
    unfolding settled_def pending_def by (auto intro!: sum_list_nonneg)
qed

section \<open>Ordering\<close>

lemma new_items_fields:
  "map pit_id (new_purchase_items i b p ls) = [i..<i + length ls]"
  "it \<in> set (new_purchase_items i b p ls) \<Longrightarrow> pit_purchase it = p \<and> pit_received it = 0
     \<and> (\<exists>l \<in> set ls. pit_ordered it = qty (pl_quantity l))"
proof -
  show "map pit_id (new_purchase_items i b p ls) = [i..<i + length ls]" for ls
    by (induction ls arbitrary: i) (simp_all add: upt_conv_Cons del: upt_Suc)
  show "it \<in> set (new_purchase_items i b p ls) \<Longrightarrow> pit_purchase it = p \<and> pit_received it = 0
     \<and> (\<exists>l \<in> set ls. pit_ordered it = qty (pl_quantity l))" for ls
    by (induction ls arbitrary: i) auto
qed

lemma next_pk_above: "x \<in> set rs \<Longrightarrow> pk x < next_pk pk rs"
  using le_foldr_max[of "pk x" "map pk rs"] by (simp add: next_pk_def)

lemma fresh_number:
  assumes "distinct (map (\<lambda>p. (biz p, num p)) ps)" and "biz y = b"
    and "num y = next_number pre w (map num (filter (\<lambda>p. biz p = b) ps))"
  shows "distinct (map (\<lambda>p. (biz p, num p)) (ps @ [y]))"
  using assms next_number_new(1)[of pre w "map num (filter (\<lambda>p. biz p = b) ps)"] by (auto simp: image_iff)

lemma emap_mem: "emap f xs = Inr ys \<Longrightarrow> y \<in> set ys \<Longrightarrow> \<exists>x \<in> set xs. f x = Inr y"
  by (induction xs arbitrary: ys) (auto simp: ebind_eq_Inr)

lemma validated_line_bounds:
  assumes "validated_line x = Inr l"
  shows "0 \<le> qty (pl_quantity l) \<and> qty (pl_quantity l) \<le> 10 ^ 14"
proof -
  obtain row p v where x: "x = (row, p, v)" by (cases x)
  obtain q where q: "validated_decimal ''Purchase quantity'' (pr_quantity row) = Inr q" "0 < q" "pl_quantity l = q"
    using assms unfolding validated_line_def x prod.case by (auto simp: returns)
  then have "\<bar>q\<bar> < DECIMAL_FIELD_LIMIT" by (auto simp: validated_decimal_def split: raw_decimal.splits if_splits)
  then have "q \<le> dec (10 ^ 14)" by (simp add: DECIMAL_FIELD_LIMIT_def dec_def)
  then show ?thesis using qty_between[of q "10 ^ 14"] q by simp
qed

lemma create_books:
  assumes "create_purchase ord business f user membership db = Inr (p, db')" and "purchase_books db"
  shows "purchase_books db'"
proof -
  obtain rows ls date due discount shipping other subtotal amount where ls: "emap validated_line rows = Inr ls" and "0 \<le> amount"
    and p: "p = new_purchase business user f (case date of Some d \<Rightarrow> d | None \<Rightarrow> 0) due subtotal discount shipping other amount db"
    and db': "db' = log_audit ''purchase.created'' ''purchases'' (''Purchase order '' @ pu_number p @ '' created.'')
                (db\<lparr>purchases := purchases db @ [p],
                    purchase_items := purchase_items db
                      @ new_purchase_items (next_pk pit_id (purchase_items db)) (biz_id business) (pu_id p) ls\<rparr>)"
    using assms(1) unfolding create_purchase_def by (simp only: returns prod.inject linorder_not_less) blast
  let ?its = "new_purchase_items (next_pk pit_id (purchase_items db)) (biz_id business) (pu_id p) ls"
  have pid: "pu_id p = next_pk pu_id (purchases db)" and fields: "pu_paid p = 0" "pu_total p = amount" "pu_status p = PU_ORDER"
    by (simp_all add: p new_purchase_def)
  have old: "pu_id p \<notin> pu_id ` set (purchases db)" unfolding pid by (rule next_pk_fresh)
  note b = assms(2)[unfolded purchase_books_def order_books_def]
  note new = new_items_fields[where i = "next_pk pit_id (purchase_items db)" and b = "biz_id business" and p = "pu_id p" and ls = ls]
  have bounds: "0 \<le> pit_ordered it \<and> pit_ordered it \<le> 10 ^ 14" if "it \<in> set ?its" for it
  proof -
    from new(2)[OF that] obtain l where "l \<in> set ls" "pit_ordered it = qty (pl_quantity l)" by blast
    moreover from this(1) obtain x where "validated_line x = Inr l"
      using emap_mem[OF ls] by blast
    ultimately show ?thesis using validated_line_bounds by metis
  qed
  have ids: "distinct (map pit_id (purchase_items db @ ?its))"
    using b new(1) next_pk_above[of _ "purchase_items db" pit_id] by fastforce
  have fresh_ids: "pit_id it \<notin> pri_item ` set (purchase_return_items db)" if "it \<in> set ?its" for it
  proof -
    have "pit_id it \<in> set (map pit_id ?its)" using that by simp
    then have "pit_id it \<notin> pit_id ` set (purchase_items db)"
      unfolding new(1) using next_pk_above[of _ "purchase_items db" pit_id] by fastforce
    then show ?thesis using b by blast
  qed
  have "item_ok (purchase_return_items db) it" if "it \<in> set ?its" for it
    using bounds[OF that] new(2)[OF that] returned_absent[OF fresh_ids[OF that]] by (simp add: item_ok_def)
  then have items: "list_all (item_ok (purchase_return_items db)) (purchase_items db @ ?its)"
    using b by (auto simp: list_all_iff)
  have none: "settled (supplier_payments db) (pu_id p) = 0 \<and> pending (supplier_payments db) (pu_id p) = 0"
    using old b by (intro sums_absent) blast
  have refs: "pit_purchase ` set (purchase_items db) \<subseteq> pu_id ` set (purchases db)" using b by simp
  have "pit_purchase it \<noteq> pu_id p" if "it \<in> set (purchase_items db)" for it
    using subsetD[OF refs imageI[OF that]] old by metis
  then have "nothing_received (purchase_items db @ ?its) (pu_id p)"
    using new(2) by (auto simp: nothing_received_def list_all_iff)
  then have mine: "order_ok (purchase_items db @ ?its) (supplier_payments db) p"
    using none \<open>0 \<le> amount\<close> by (simp add: order_ok_def fields)
  have "order_ok (purchase_items db @ ?its) (supplier_payments db) q" if "q \<in> set (purchases db)" for q
  proof -
    have "pu_id q \<noteq> pu_id p" using old imageI[OF that, of pu_id] by metis
    then have "nothing_received (purchase_items db @ ?its) (pu_id q) = nothing_received (purchase_items db) (pu_id q)"
      "all_received (purchase_items db @ ?its) (pu_id q) = all_received (purchase_items db) (pu_id q)"
      using new(2) by (auto simp: nothing_received_def all_received_def list_all_iff)
    then show ?thesis using booksD(6)[OF assms(2) that] by (simp add: order_ok_def split: purchase_status.splits)
  qed
  with mine have orders: "list_all (order_ok (purchase_items db @ ?its) (supplier_payments db)) (purchases db @ [p])"
    by (simp add: list_all_iff)
  have numbers: "distinct (map (\<lambda>p. (pu_business p, pu_number p)) (purchases db @ [p]))"
    using b by (intro fresh_number[where b = "biz_id business" and pre = "''PUR''" and w = 6])
      (simp_all add: p new_purchase_def)
  have pids: "distinct (map pu_id (purchases db @ [p]))" using b old by simp
  have "order_books (purchases db @ [p]) (purchase_items db @ ?its) (supplier_payments db) (purchase_returns db)
      (purchase_return_items db)"
    unfolding order_books_def using b ids items orders numbers pids new(2) by (auto simp del: map_append)
  then show ?thesis unfolding db' purchase_books_log using b by (simp add: purchase_books_def stock_inv_def)
qed

section \<open>Saving an order\<close>

text \<open>A saved row of a purchase that keeps its keys, with a new state of the tables it is judged by.\<close>

lemma save_order_books:
  assumes "order_books ps its pays rs ris" and "p \<in> set ps"
    and "pu_id p' = pu_id p" "pu_business p' = pu_business p" "pu_number p' = pu_number p"
    and "order_ok its' pays' p'"
    and "\<And>q. q \<in> set ps \<Longrightarrow> pu_id q \<noteq> pu_id p \<Longrightarrow> order_ok its' pays' q"
    and "map pit_id its' = map pit_id its" "map pit_purchase its' = map pit_purchase its" "list_all (item_ok ris) its'"
    and "distinct (map spy_id pays')" "distinct (map (\<lambda>x. (spy_business x, spy_number x)) pays')"
    and "(\<Union>x \<in> set pays'. set_option (spy_purchase x)) \<subseteq> pu_id ` set ps" "list_all payment_ok pays'"
  shows "order_books (save_row pu_id p' ps) its' pays' rs ris"
proof -
  note b = assms(1)[unfolded order_books_def]
  have one: "x = p" if "x \<in> set ps" "pu_id x = pu_id p" for x using row_same[of pu_id ps x p] b that assms(2) by simp
  have ids: "set (map pu_id (save_row pu_id p' ps)) = set (map pu_id ps)" by simp
  then have ids': "pu_id ` set (save_row pu_id p' ps) = pu_id ` set ps" by (simp only: set_map)
  have "map (\<lambda>p. (pu_business p, pu_number p)) (save_row pu_id p' ps) = map (\<lambda>p. (pu_business p, pu_number p)) ps"
    using one assms(3-5) by (intro save_row_map_other) auto
  moreover have "order_ok its' pays' x" if "x \<in> set (save_row pu_id p' ps)" for x
    using set_save_row[of pu_id p' ps] that assms(3,6,7) by auto
  moreover have "pit_purchase ` set its' = pit_purchase ` set its" "pit_id ` set its' = pit_id ` set its"
    using assms(8,9) by (metis list.set_map)+
  ultimately show ?thesis unfolding order_books_def using b assms(8-14) ids' by (simp add: list_all_iff)
qed

section \<open>Receiving\<close>

lemma received_between:
  assumes "0 \<le> a" and "0 < q" and "q \<le> dec (n - a)" and "n \<le> 10 ^ 14"
  shows "a \<le> qty (dadd (dec a) q) \<and> qty (dadd (dec a) q) \<le> n"
proof -
  have range: "dec a \<le> dec a + q" "dec a + q \<le> dec n" using assms(2,3) by (simp_all add: dec_def diff_divide_distrib)
  have "dec n \<le> 10 ^ 11" "0 \<le> dec a" using assms(1,4) by (simp_all add: dec_def)
  then have small: "\<bar>dec a + q\<bar> < pow10 (28 - 3)" using range assms(2) by (simp add: pow10_def)
  have "dec a \<le> dadd (dec a) q" "dadd (dec a) q \<le> dec n"
    unfolding dadd_def
    using ctx28_ge[of a 3 "dec a + q"] ctx28_le[of "dec a + q" n 3] range small by (simp_all add: dec_pow10)
  then show ?thesis using money_ge money_le by (simp add: qty_def money_def)
qed

lemma received_item_ok:
  assumes "item_ok ris it" and "0 < asked qs (pit_id it) \<Longrightarrow> asked qs (pit_id it) \<le> dec (quantity_pending it)"
  shows "item_ok ris (received_item qs it)"
proof (cases "0 < asked qs (pit_id it)")
  case True
  then show ?thesis
    using assms received_between[of "pit_received it" "asked qs (pit_id it)" "pit_ordered it"]
    by (auto simp: item_ok_def received_item_def quantity_pending_def)
next
  case False
  then show ?thesis using assms(1) by (simp add: received_item_def)
qed

lemma sum_squeezed:
  fixes f g :: "'x \<Rightarrow> int"
  assumes "\<forall>x \<in> set xs. f x \<le> g x" and "(\<Sum>x \<leftarrow> xs. g x) \<le> (\<Sum>x \<leftarrow> xs. f x)"
  shows "\<forall>x \<in> set xs. f x = g x"
  using assms
proof (induction xs)
  case Nil
  show ?case by simp
next
  case (Cons y xs)
  have a: "(\<Sum>x \<leftarrow> xs. f x) \<le> (\<Sum>x \<leftarrow> xs. g x)" using Cons.prems(1) by (intro sum_list_mono) simp
  have b: "f y \<le> g y" using Cons.prems(1) by simp
  have c: "g y + (\<Sum>x \<leftarrow> xs. g x) \<le> f y + (\<Sum>x \<leftarrow> xs. f x)" using Cons.prems(2) by simp
  have d: "f y = g y" using a b c by linarith
  have e: "(\<Sum>x \<leftarrow> xs. g x) \<le> (\<Sum>x \<leftarrow> xs. f x)" using b c by linarith
  have "\<forall>x \<in> set xs. f x = g x" by (rule Cons.IH[OF _ e]) (use Cons.prems(1) in simp)
  then show ?case using d by simp
qed

lemma receive_books:
  assumes "receive_purchase ord business i qs user membership db = Inr (p', db')" and "purchase_books db"
  shows "purchase_books db'"
proof -
  note d = booksD[OF assms(2)]
  obtain p w items where p: "p \<in> set (purchases db)" "pu_id p = i"
    and items: "locked_purchase_items db p = Inr items"
    and bound: "\<forall>x \<in> set items. 0 < asked qs (pit_id (fst x)) \<longrightarrow> asked qs (pit_id (fst x)) \<le> dec (quantity_pending (fst x))"
    and inv: "stock_inv db'" and its: "purchase_items db' = received_items qs i (purchase_items db)"
    and p': "p' = p\<lparr>pu_status := (if fully_received db' p then PU_RECEIVED else PU_PARTIAL)\<rparr>"
    and tables: "purchases db' = save_row pu_id p' (purchases db)" "supplier_payments db' = supplier_payments db"
      "purchase_returns db' = purchase_returns db" "purchase_return_items db' = purchase_return_items db"
    by (rule receive_purchase_Inr[OF assms(1) d(1,2)]) metis
  let ?its = "received_items qs i (purchase_items db)" and ?ris = "purchase_return_items db"
  have mem: "fst ` set items = set (items_of db i)"
    using locked_items_Inr(1)[OF items] p(2) by (metis list.set_map)
  have ok: "item_ok ?ris (if pit_purchase y = i then received_item qs y else y)" if y: "y \<in> set (purchase_items db)" for y
  proof (cases "pit_purchase y = i")
    case True
    then have "y \<in> fst ` set items" using mem y by (simp add: items_of_def)
    then show ?thesis using received_item_ok[OF d(5)[OF y]] bound True by auto
  next
    case False
    then show ?thesis using d(5)[OF y] by simp
  qed
  then have oks: "list_all (item_ok ?ris) ?its" unfolding received_items_def list_all_iff set_map by blast
  have same: "map pit_id ?its = map pit_id (purchase_items db)" "map pit_purchase ?its = map pit_purchase (purchase_items db)"
    by (auto simp: received_items_def)
  have mine: "order_ok ?its (supplier_payments db) p'"
  proof -
    have "all_received ?its i" if "fully_received db' p"
    proof -
      have "\<forall>it \<in> set (items_of db' i). pit_received it = pit_ordered it"
      proof (rule sum_squeezed)
        show "\<forall>it \<in> set (items_of db' i). pit_received it \<le> pit_ordered it"
          using oks by (auto simp: items_of_def its list_all_iff item_ok_def)
        show "(\<Sum>it \<leftarrow> items_of db' i. pit_ordered it) \<le> (\<Sum>it \<leftarrow> items_of db' i. pit_received it)"
          using that p(2) by (simp add: fully_received_def)
      qed
      then show ?thesis by (simp add: all_received_def list_all_iff items_of_def its)
    qed
    then show ?thesis using d(6)[OF p(1)] p(2) by (simp add: order_ok_def p')
  qed
  have others: "order_ok ?its (supplier_payments db) q" if "q \<in> set (purchases db)" "pu_id q \<noteq> pu_id p" for q
  proof -
    have "nothing_received ?its (pu_id q) = nothing_received (purchase_items db) (pu_id q)"
      "all_received ?its (pu_id q) = all_received (purchase_items db) (pu_id q)"
      using that(2) p(2) by (auto simp: nothing_received_def all_received_def list_all_iff received_items_def)
    then show ?thesis using d(6)[OF that(1)] by (simp add: order_ok_def split: purchase_status.splits)
  qed
  have "order_books (save_row pu_id p' (purchases db)) ?its (supplier_payments db) (purchase_returns db) ?ris"
    by (rule save_order_books[OF _ p(1)])
      (use assms(2) mine others same oks in \<open>auto simp: purchase_books_def order_books_def p'\<close>)
  then show ?thesis using inv by (simp add: purchase_books_def tables its)
qed

section \<open>Payments\<close>

lemma normalised_ok:
  assumes "normalise_payment_row cal b db row = Inr x"
  shows "payment_ok x \<and> spy_status x \<in> {NoCheque, CQ_PENDING}"
proof -
  obtain m amount where m: "parse_supplier_method (py_strip (py_method row)) = Some m"
    and "validated_money ''Payment amount'' (py_amount row) = Inr amount" and pos: "0 < amount"
    and rest: "(case immediate_kind m of
              None \<Rightarrow> cheque_payment (business_date cal b (clock db)) row (blank_payment m amount row)
            | Some kind \<Rightarrow>
                ebind (pick_payment_method b m kind (py_payment_method row) db) (\<lambda>x.
                Inr ((blank_payment m amount row)\<lparr>spy_payment_method := Some x\<rparr>))) = Inr x"
    using assms unfolding normalise_payment_row_def by (auto simp: returns)
  show ?thesis
  proof (cases "m = M_CHEQUE")
    case True
    then show ?thesis using rest pos
      by (auto simp: immediate_kind_def cheque_payment_def returns payment_ok_def blank_payment_def is_cheque_def)
  next
    case False
    then show ?thesis using rest pos
      by (cases m) (auto simp: immediate_kind_def returns payment_ok_def blank_payment_def is_cheque_def)
  qed
qed

lemma add_rows_tables:
  "purchases (fold (add_payment_row business p user) ps db) = purchases db"
  "purchase_items (fold (add_payment_row business p user) ps db) = purchase_items db"
  "purchase_returns (fold (add_payment_row business p user) ps db) = purchase_returns db"
  "purchase_return_items (fold (add_payment_row business p user) ps db) = purchase_return_items db"
  "levels (fold (add_payment_row business p user) ps db) = levels db"
  "movements (fold (add_payment_row business p user) ps db) = movements db"
  "suppliers (fold (add_payment_row business p user) ps db) = suppliers db"
  by (induction ps arbitrary: db) (simp_all add: add_payment_row_def log_audit_def)

text \<open>The rows that are added: the normalised ones with fresh keys and numbers.\<close>

lemma add_rows:
  assumes "distinct (map spy_id (supplier_payments db))"
    and "distinct (map (\<lambda>x. (spy_business x, spy_number x)) (supplier_payments db))"
  shows "\<exists>new. supplier_payments (fold (add_payment_row business p user) ps db) = supplier_payments db @ new
    \<and> map spy_amount new = map spy_amount ps \<and> map spy_status new = map spy_status ps
    \<and> map spy_method new = map spy_method ps \<and> (\<forall>x \<in> set new. spy_purchase x = Some (pu_id p))
    \<and> distinct (map spy_id (supplier_payments db @ new))
    \<and> distinct (map (\<lambda>x. (spy_business x, spy_number x)) (supplier_payments db @ new))"
  using assms
proof (induction ps arbitrary: db)
  case Nil
  then show ?case by simp
next
  case (Cons row ps)
  let ?y = "stored_payment business p user row db" and ?db1 = "add_payment_row business p user row db"
  have pays: "supplier_payments ?db1 = supplier_payments db @ [?y]" by (simp add: add_payment_row_def log_audit_def)
  have "distinct (map spy_id (supplier_payments ?db1))"
    unfolding pays by (rule distinct_add_row[OF Cons.prems(1)]) (simp add: stored_payment_def)
  moreover have "distinct (map (\<lambda>x. (spy_business x, spy_number x)) (supplier_payments ?db1))"
    unfolding pays by (rule fresh_number[OF Cons.prems(2), where b = "biz_id business" and pre = "''SPY''" and w = 6])
      (simp_all add: stored_payment_def)
  ultimately obtain new where new: "supplier_payments (fold (add_payment_row business p user) ps ?db1) = supplier_payments ?db1 @ new"
    "map spy_amount new = map spy_amount ps" "map spy_status new = map spy_status ps" "map spy_method new = map spy_method ps"
    "\<forall>x \<in> set new. spy_purchase x = Some (pu_id p)" "distinct (map spy_id (supplier_payments ?db1 @ new))"
    "distinct (map (\<lambda>x. (spy_business x, spy_number x)) (supplier_payments ?db1 @ new))"
    using Cons.IH[of ?db1] by blast
  show ?case
    by (rule exI[of _ "?y # new"]) (use new in \<open>simp add: pays stored_payment_def\<close>)
qed

lemma new_sums:
  assumes "map spy_amount new = map spy_amount ps" "map spy_status new = map spy_status ps"
    "map spy_method new = map spy_method ps" "\<forall>x \<in> set new. spy_purchase x = Some i"
    and "\<forall>x \<in> set ps. payment_ok x \<and> spy_status x \<in> {NoCheque, CQ_PENDING}"
  shows "settled new j = (if j = i then settled_sum ps else 0)"
    "pending new j = (if j = i then (\<Sum>x \<leftarrow> ps. spy_amount x) - settled_sum ps else 0)"
    "list_all payment_ok new"
proof -
  have "list_all2 (\<lambda>x y. spy_amount x = spy_amount y \<and> spy_status x = spy_status y \<and> spy_method x = spy_method y) new ps"
    using assms(1-3) by (auto simp: list_all2_conv_all_nth dest: map_eq_imp_length_eq) (metis map_eq_imp_length_eq nth_map)+
  then have "settled new j = (if j = i then settled_sum ps else 0)
    \<and> pending new j = (if j = i then (\<Sum>x \<leftarrow> ps. spy_amount x) - settled_sum ps else 0) \<and> list_all payment_ok new"
    using assms(4,5)
    by (induction rule: list_all2_induct)
      (auto simp: settled_def pending_def settled_sum_def payment_ok_def is_cheque_def)
  then show "settled new j = (if j = i then settled_sum ps else 0)"
    "pending new j = (if j = i then (\<Sum>x \<leftarrow> ps. spy_amount x) - settled_sum ps else 0)" "list_all payment_ok new"
    by simp_all
qed

lemma cheques_pending_eq:
  assumes "locked_purchase_payments db p = Inr xs"
  shows "cheques_pending db p = pending (supplier_payments db) (pu_id p)" "xs = payments_of db (pu_id p)"
proof -
  show xs: "xs = payments_of db (pu_id p)" using assms by (simp add: locked_purchase_payments_def Let_def split: if_splits)
  have "\<forall>x \<in> set (payments_of db (pu_id p)). spy_business x = pu_business p"
    using assms by (auto simp: locked_purchase_payments_def Let_def list_all_iff payment_consistent_def split: if_splits)
  then have "filter (\<lambda>x. spy_business x = pu_business p \<and> is_cheque x \<and> spy_status x = CQ_PENDING) (payments_of db (pu_id p))
    = filter (\<lambda>x. spy_purchase x = Some (pu_id p) \<and> is_cheque x \<and> spy_status x = CQ_PENDING) (supplier_payments db)"
    by (auto simp: payments_of_def filter_filter intro!: filter_cong)
  then show "cheques_pending db p = pending (supplier_payments db) (pu_id p)" by (simp add: cheques_pending_def pending_def)
qed

text \<open>An order whose row changes what was paid for it, with the payments of that order.\<close>

lemma paid_books:
  assumes "purchase_books db" and "p \<in> set (purchases db)" and "stock_inv db'"
    and "purchases db' = save_row pu_id (p\<lparr>pu_paid := pu_paid p + d\<rparr>) (purchases db)"
    and "purchase_items db' = purchase_items db" "purchase_returns db' = purchase_returns db"
      "purchase_return_items db' = purchase_return_items db"
    and "order_ok (purchase_items db) (supplier_payments db') (p\<lparr>pu_paid := pu_paid p + d\<rparr>)"
    and "\<And>j. j \<noteq> pu_id p \<Longrightarrow> settled (supplier_payments db') j = settled (supplier_payments db) j
        \<and> pending (supplier_payments db') j = pending (supplier_payments db) j"
    and "distinct (map spy_id (supplier_payments db'))"
      "distinct (map (\<lambda>x. (spy_business x, spy_number x)) (supplier_payments db'))"
    and "(\<Union>x \<in> set (supplier_payments db'). set_option (spy_purchase x)) \<subseteq> pu_id ` set (purchases db)"
      "list_all payment_ok (supplier_payments db')"
  shows "purchase_books db'"
proof -
  have books: "order_books (purchases db) (purchase_items db) (supplier_payments db) (purchase_returns db) (purchase_return_items db)"
    using assms(1) by (simp add: purchase_books_def)
  have "order_books (save_row pu_id (p\<lparr>pu_paid := pu_paid p + d\<rparr>) (purchases db)) (purchase_items db) (supplier_payments db')
      (purchase_returns db) (purchase_return_items db)"
  proof (rule save_order_books[OF books assms(2)])
    show "order_ok (purchase_items db) (supplier_payments db') q" if "q \<in> set (purchases db)" "pu_id q \<noteq> pu_id p" for q
      using booksD(6)[OF assms(1) that(1)] assms(9)[OF that(2)]
      by (simp add: order_ok_def split: purchase_status.splits)
    show "list_all (item_ok (purchase_return_items db)) (purchase_items db)"
      using books by (simp add: order_books_def)
  qed (use assms in simp_all)
  then show ?thesis using assms(3-7) by (simp add: purchase_books_def)
qed

lemma book_settled_tables:
  assumes "distinct (map pu_id (purchases db))" and "p \<in> set (purchases db)"
  shows "purchases (book_settled p d db) = save_row pu_id (p\<lparr>pu_paid := pu_paid p + d\<rparr>) (purchases db)"
    "purchase_items (book_settled p d db) = purchase_items db" "supplier_payments (book_settled p d db) = supplier_payments db"
    "purchase_returns (book_settled p d db) = purchase_returns db"
    "purchase_return_items (book_settled p d db) = purchase_return_items db"
    "levels (book_settled p d db) = levels db" "movements (book_settled p d db) = movements db"
  using save_unique[OF assms, of "\<lambda>x. x\<lparr>pu_paid := pu_paid x + d\<rparr>"] by (simp_all add: book_settled_def)

lemma record_payments_Inr:
  assumes "record_purchase_payments ord cal business i rows user membership db = Inr db'"
  obtains o' xs ps where "authorized_purchase ord business i user ''purchases.manage'' membership db = Inr o'"
    "pu_status (op_purchase o') \<noteq> PU_CANCELLED" "locked_purchase_payments db (op_purchase o') = Inr xs"
    "emap (normalise_payment_row cal (biz_id business) db) rows = Inr ps"
    "pu_paid (op_purchase o') + cheques_pending db (op_purchase o') + (\<Sum>x \<leftarrow> ps. spy_amount x) \<le> pu_total (op_purchase o')"
    "db' = (if settled_sum ps \<noteq> 0
        then book_settled (op_purchase o') (settled_sum ps) (fold (add_payment_row business (op_purchase o') user) ps db)
        else fold (add_payment_row business (op_purchase o') user) ps db)"
  using assms unfolding record_purchase_payments_def Let_def
  by (simp only: ebind_eq_Inr guard_if guard_done linorder_not_less) metis

lemma payments_books:
  assumes "record_purchase_payments ord cal business i rows user membership db = Inr db'" and "purchase_books db"
  shows "purchase_books db'"
proof -
  obtain o' xs ps where o: "authorized_purchase ord business i user ''purchases.manage'' membership db = Inr o'"
    and status: "pu_status (op_purchase o') \<noteq> PU_CANCELLED"
    and xs: "locked_purchase_payments db (op_purchase o') = Inr xs"
    and ps: "emap (normalise_payment_row cal (biz_id business) db) rows = Inr ps"
    and bound: "pu_paid (op_purchase o') + cheques_pending db (op_purchase o') + (\<Sum>x \<leftarrow> ps. spy_amount x) \<le> pu_total (op_purchase o')"
    and db': "db' = (if settled_sum ps \<noteq> 0
        then book_settled (op_purchase o') (settled_sum ps) (fold (add_payment_row business (op_purchase o') user) ps db)
        else fold (add_payment_row business (op_purchase o') user) ps db)"
    by (rule record_payments_Inr[OF assms(1)])
  let ?p = "op_purchase o'" and ?db1 = "fold (add_payment_row business (op_purchase o') user) ps db"
  note a = authorized_purchase_Inr[OF o]
  note d = booksD[OF assms(2)]
  note b = assms(2)[unfolded purchase_books_def order_books_def]
  have ok: "\<forall>x \<in> set ps. payment_ok x \<and> spy_status x \<in> {NoCheque, CQ_PENDING}"
    using emap_mem[OF ps] normalised_ok by blast
  have numbers: "distinct (map (\<lambda>x. (spy_business x, spy_number x)) (supplier_payments db))" using b by simp
  obtain new where new: "supplier_payments ?db1 = supplier_payments db @ new" "map spy_amount new = map spy_amount ps"
    "map spy_status new = map spy_status ps" "map spy_method new = map spy_method ps"
    "\<forall>x \<in> set new. spy_purchase x = Some (pu_id ?p)" "distinct (map spy_id (supplier_payments db @ new))"
    "distinct (map (\<lambda>x. (spy_business x, spy_number x)) (supplier_payments db @ new))"
    using add_rows[OF d(4) numbers, of business ?p user ps] by (elim exE conjE)
  note sums = new_sums[OF new(2-5) ok]
  note t = book_settled_tables[of ?db1 ?p "settled_sum ps"]
  have "save_row pu_id (?p\<lparr>pu_paid := pu_paid ?p + 0\<rparr>) (purchases db) = purchases db"
    using save_unique[OF d(3) a(1), of "\<lambda>x. x"] by simp
  then have ps': "purchases db' = save_row pu_id (?p\<lparr>pu_paid := pu_paid ?p + settled_sum ps\<rparr>) (purchases db)"
    using t d(3) a(1) by (simp add: db' add_rows_tables)
  have pays: "supplier_payments db' = supplier_payments db @ new"
    using t d(3) a(1) new(1) by (simp add: db' add_rows_tables)
  have same: "purchase_items db' = purchase_items db" "purchase_returns db' = purchase_returns db"
    "purchase_return_items db' = purchase_return_items db" "levels db' = levels db" "movements db' = movements db"
    using t d(3) a(1) by (simp_all add: db' add_rows_tables)
  show ?thesis
  proof (rule paid_books[OF assms(2) a(1) _ ps' same(1-3)])
    show "stock_inv db'" using d(1) same by (simp add: stock_inv_def)
    show "order_ok (purchase_items db) (supplier_payments db') (?p\<lparr>pu_paid := pu_paid ?p + settled_sum ps\<rparr>)"
      using d(6)[OF a(1)] bound sums status cheques_pending_eq(1)[OF xs]
      by (auto simp: order_ok_def pays split: purchase_status.splits)
    show "settled (supplier_payments db') j = settled (supplier_payments db) j
        \<and> pending (supplier_payments db') j = pending (supplier_payments db) j" if "j \<noteq> pu_id ?p" for j
      using that sums by (simp add: pays)
    show "distinct (map spy_id (supplier_payments db'))" "distinct (map (\<lambda>x. (spy_business x, spy_number x)) (supplier_payments db'))"
      using new by (simp_all only: pays)
    show "(\<Union>x \<in> set (supplier_payments db'). set_option (spy_purchase x)) \<subseteq> pu_id ` set (purchases db)"
      using b new(5) a(1) by (auto simp: pays)
    show "list_all payment_ok (supplier_payments db')" using b sums(3) by (simp add: pays)
  qed
qed

section \<open>Cheques\<close>

lemma sums_if:
  "settled pays i = (\<Sum>x \<leftarrow> pays. if spy_purchase x = Some i \<and> (\<not> is_cheque x \<or> spy_status x = CQ_CLEARED) then spy_amount x else 0)"
  "pending pays i = (\<Sum>x \<leftarrow> pays. if spy_purchase x = Some i \<and> is_cheque x \<and> spy_status x = CQ_PENDING then spy_amount x else 0)"
  by (simp_all add: settled_def pending_def sum_list_map_filter')

lemma cheque_books:
  assumes "update_cheque_status ord business i status user membership db = Inr db'" and "purchase_books db"
  shows "purchase_books db'"
proof (cases "db' = db")
  case True
  then show ?thesis using assms(2) by simp
next
  case False
  obtain x p where x: "find (\<lambda>x. spy_id x = i \<and> spy_business x = biz_id business) (supplier_payments db) = Some x"
    and kind: "\<not> (\<not> is_cheque x \<or> spy_purchase x = None)"
    and p: "find (\<lambda>p. Some (pu_id p) = spy_purchase x \<and> pu_business p = biz_id business) (purchases db) = Some p"
    and rest: "cheque_result p x status db = Inr db'"
    using assms(1) unfolding update_cheque_status_def Let_def
    by (auto simp: returns)
  obtain st where st: "st \<notin> {NoCheque, CQ_PENDING}" "spy_status x = CQ_PENDING" "db' = cheque_moved p x st db"
    using rest False by (auto simp: cheque_result_def split: option.splits cheque_status.splits if_splits)
  have x': "x \<in> set (supplier_payments db)" "is_cheque x" "spy_purchase x = Some (pu_id p)"
    and p': "p \<in> set (purchases db)"
    using find_Some_mem[OF x] find_Some_mem[OF p] kind by auto
  note d = booksD[OF assms(2)]
  note b = assms(2)[unfolded purchase_books_def order_books_def]
  define y where "y = x\<lparr>spy_status := st, spy_cleared_at := (if st = CQ_CLEARED then Some (clock db) else spy_cleared_at x)\<rparr>"
  define e where "e = (if st = CQ_CLEARED then spy_amount x else 0)"
  note t = book_settled_tables[OF d(3) p', of "spy_amount x"]
  have "save_row pu_id (p\<lparr>pu_paid := pu_paid p + 0\<rparr>) (purchases db) = purchases db"
    using save_unique[OF d(3) p', of "\<lambda>x. x"] by simp
  then have ps': "purchases db' = save_row pu_id (p\<lparr>pu_paid := pu_paid p + e\<rparr>) (purchases db)"
    using t by (simp add: st(3) cheque_moved_def e_def Let_def log_audit_def)
  have tables: "purchase_items db' = purchase_items db" "purchase_returns db' = purchase_returns db"
    "purchase_return_items db' = purchase_return_items db" "levels db' = levels db" "movements db' = movements db"
    "supplier_payments db' = save_row spy_id y (supplier_payments db)"
    using t by (simp_all add: st(3) cheque_moved_def y_def Let_def log_audit_def)
  have key: "spy_id y = spy_id x" "is_cheque y" "spy_purchase y = Some (pu_id p)" "spy_amount y = spy_amount x"
    "spy_business y = spy_business x" "spy_number y = spy_number x" "spy_status y = st"
    using x' by (simp_all add: y_def is_cheque_def)
  have sums: "settled (supplier_payments db') j = settled (supplier_payments db) j + (if j = pu_id p then e else 0)"
    "pending (supplier_payments db') j = pending (supplier_payments db) j - (if j = pu_id p then spy_amount x else 0)" for j
    unfolding sums_if tables(6) sum_save_row[OF d(4) x'(1) key(1)] using st x' key by (auto simp: e_def)
  have one: "z = x" if "z \<in> set (supplier_payments db)" "spy_id z = spy_id x" for z using row_same[OF d(4) that(1) x'(1) that(2)] .
  have oks: "list_all payment_ok (supplier_payments db')"
    using set_save_row[of spy_id y "supplier_payments db"] d(7) x' key st(1)
    by (fastforce simp: tables(6) list_all_iff payment_ok_def)
  show ?thesis
  proof (rule paid_books[OF assms(2) p' _ ps' tables(1-3)])
    show "stock_inv db'" using d(1) tables by (simp add: stock_inv_def)
    have "0 < spy_amount x" using d(7)[OF x'(1)] by (simp add: payment_ok_def)
    moreover have "0 \<le> pending (supplier_payments db') (pu_id p)" by (rule sums_nonneg(2)[OF oks])
    ultimately show "order_ok (purchase_items db) (supplier_payments db') (p\<lparr>pu_paid := pu_paid p + e\<rparr>)"
      using d(6)[OF p'] sums[of "pu_id p"] by (auto simp: order_ok_def e_def split: purchase_status.splits if_splits)
    show "settled (supplier_payments db') j = settled (supplier_payments db) j
        \<and> pending (supplier_payments db') j = pending (supplier_payments db) j" if "j \<noteq> pu_id p" for j
      using that sums by simp
    show "distinct (map spy_id (supplier_payments db'))" using d(4) by (simp add: tables(6))
    have "map (\<lambda>x. (spy_business x, spy_number x)) (supplier_payments db') = map (\<lambda>x. (spy_business x, spy_number x)) (supplier_payments db)"
      unfolding tables(6) using one key by (intro save_row_map_other) auto
    then show "distinct (map (\<lambda>x. (spy_business x, spy_number x)) (supplier_payments db'))" using b by simp
    show "(\<Union>x \<in> set (supplier_payments db'). set_option (spy_purchase x)) \<subseteq> pu_id ` set (purchases db)"
    proof
      fix j assume "j \<in> (\<Union>x \<in> set (supplier_payments db'). set_option (spy_purchase x))"
      then obtain z where z: "z \<in> set (supplier_payments db')" "spy_purchase z = Some j" by auto
      then have "z = y \<or> z \<in> set (supplier_payments db)" using set_save_row[of spy_id y "supplier_payments db"] by (auto simp: tables(6))
      then show "j \<in> pu_id ` set (purchases db)" using z(2) key(3) p' b by auto
    qed
  qed (rule oks)
qed

section \<open>Returns and cancellations\<close>

lemma returned_rows_sum:
  assumes "distinct (map (pit_id \<circ> fst) items)"
  shows "returned_sum (map (return_row business r) (returned_lines qs items)) k
    = (if k \<in> (pit_id \<circ> fst) ` set items \<and> 0 < asked qs k then qty (asked qs k) else 0)"
  using assms
proof (induction items)
  case Nil
  then show ?case by (simp add: returned_lines_def returned_sum_def)
next
  case (Cons x items)
  have cons: "returned_sum (map (return_row business r) (returned_lines qs (x # items))) k
    = (if k = pit_id (fst x) \<and> 0 < asked qs k then qty (asked qs k) else 0)
      + returned_sum (map (return_row business r) (returned_lines qs items)) k"
    by (cases x) (auto simp: returned_lines_def returned_sum_def return_row_def)
  have "pit_id (fst x) \<notin> (pit_id \<circ> fst) ` set items" using Cons.prems by simp
  then show ?case using Cons cons by (auto simp: comp_def)
qed

lemma sent_back_books:
  assumes "return_purchase ord business i qs user reason membership db = Inr (r, db')" and "purchase_books db"
  shows "purchase_books db'"
proof -
  note d = booksD[OF assms(2)]
  note b = assms(2)[unfolded purchase_books_def order_books_def]
  obtain p w items v where p: "p \<in> set (purchases db)" "pu_id p = i"
    and items: "locked_purchase_items db p = Inr items"
    and bound: "\<forall>x \<in> set items. 0 < asked qs (pit_id (fst x)) \<longrightarrow>
        asked qs (pit_id (fst x)) \<le> dec (pit_received (fst x) - returned_of db (pit_id (fst x)))"
    and inv: "stock_inv db'" and r: "r = new_purchase_return business p user reason v db"
    and tables: "purchase_returns db' = purchase_returns db @ [r]"
      "purchase_return_items db' = purchase_return_items db @ map (return_row business r) (returned_lines qs items)"
      "purchase_items db' = purchase_items db" "purchases db' = purchases db" "supplier_payments db' = supplier_payments db"
    by (rule return_purchase_Inr[OF assms(1) d(1,2)]) metis
  note t = locked_items_table[OF items d(2)]
  note rows = returned_rows_sum[OF t(1)]
  let ?ris = "purchase_return_items db" and ?new = "map (return_row business r) (returned_lines qs items)"
  have "item_ok (?ris @ ?new) it" if it: "it \<in> set (purchase_items db)" for it
  proof (cases "pit_id it \<in> (pit_id \<circ> fst) ` set items \<and> 0 < asked qs (pit_id it)")
    case True
    then obtain x where x: "x \<in> set items" "pit_id (fst x) = pit_id it" by auto
    then have "fst x = it" using row_same[OF d(2)] t(2) it by blast
    then have "asked qs (pit_id it) \<le> dec (pit_received it - returned_sum ?ris (pit_id it))"
      using bound x True by (auto simp: returned_of_def returned_sum_def)
    then show ?thesis
      using d(5)[OF it] qty_between[of "asked qs (pit_id it)" "pit_received it - returned_sum ?ris (pit_id it)"] True
      by (simp add: item_ok_def rows)
  next
    case False
    then have "returned_sum ?new (pit_id it) = 0" by (simp only: rows if_False)
    then show ?thesis using d(5)[OF it] by (simp add: item_ok_def)
  qed
  then have oks: "list_all (item_ok (?ris @ ?new)) (purchase_items db)" by (simp add: list_all_iff)
  have "pri_item ` set ?new \<subseteq> pit_id ` set (purchase_items db)"
    using t(2) by (auto simp: returned_lines_def return_row_def)
  moreover have "distinct (map prt_id (purchase_returns db @ [r]))"
    by (rule distinct_add_row) (use b in \<open>simp_all add: r new_purchase_return_def\<close>)
  moreover have "distinct (map (\<lambda>r. (prt_business r, prt_number r)) (purchase_returns db @ [r]))"
    by (rule fresh_number[where b = "biz_id business" and pre = "''PRT''" and w = 6])
      (use b in \<open>simp_all add: r new_purchase_return_def\<close>)
  ultimately have "order_books (purchases db) (purchase_items db) (supplier_payments db) (purchase_returns db @ [r]) (?ris @ ?new)"
    unfolding order_books_def using b oks by (simp add: image_Un del: map_append map_map)
  then show ?thesis using inv by (simp add: purchase_books_def tables)
qed

lemma cancel_books:
  assumes "cancel_purchase ord business i user membership db = Inr (p', db')" and "purchase_books db"
  shows "purchase_books db'"
proof -
  obtain o' items xs where o: "authorized_purchase ord business i user ''purchases.manage'' membership db = Inr o'"
    and items: "locked_purchase_items db (op_purchase o') = Inr items"
    and xs: "locked_purchase_payments db (op_purchase o') = Inr xs"
    and none: "\<not> list_ex (\<lambda>x. 0 < pit_received (fst x)) items"
    and clear: "\<not> (0 < pu_paid (op_purchase o') \<or> list_ex (\<lambda>x. is_cheque x \<and> spy_status x = CQ_PENDING) xs)"
    and p': "p' = (op_purchase o')\<lparr>pu_status := PU_CANCELLED\<rparr>"
    and db': "db' = log_audit ''purchase.cancelled'' ''purchases''
        (''Purchase '' @ pu_number (op_purchase o') @ '' cancelled.'') (save_purchase p' db)"
    using assms(1) unfolding cancel_purchase_def by (auto simp: returns)
  let ?p = "op_purchase o'"
  note p = authorized_purchase_Inr(1)[OF o]
  note d = booksD[OF assms(2)]
  have books: "order_books (purchases db) (purchase_items db) (supplier_payments db) (purchase_returns db) (purchase_return_items db)"
    using assms(2) by (simp add: purchase_books_def)
  have pays: "list_all payment_ok (supplier_payments db)" using books by (simp add: order_books_def)
  have mem: "fst ` set items = set (items_of db (pu_id ?p))"
    using locked_items_Inr(1)[OF items] by (metis list.set_map)
  have empty: "nothing_received (purchase_items db) (pu_id ?p)"
  proof -
    have "pit_received it = 0" if it: "it \<in> set (purchase_items db)" "pit_purchase it = pu_id ?p" for it
    proof -
      from it have "it \<in> fst ` set items" unfolding mem by (simp add: items_of_def)
      then have "pit_received it \<le> 0" using none by (auto simp: list_ex_iff)
      then show ?thesis using d(5)[OF it(1)] by (simp add: item_ok_def)
    qed
    then show ?thesis by (simp add: nothing_received_def list_all_iff)
  qed
  have "filter (\<lambda>x. spy_purchase x = Some (pu_id ?p) \<and> is_cheque x \<and> spy_status x = CQ_PENDING) (supplier_payments db) = []"
    using clear by (auto simp: cheques_pending_eq(2)[OF xs] payments_of_def list_ex_iff filter_empty_conv)
  then have "pending (supplier_payments db) (pu_id ?p) = 0" by (simp add: pending_def)
  moreover have "pu_paid ?p = 0"
    using clear sums_nonneg(1)[OF pays, of "pu_id ?p"] d(6)[OF p] by (simp add: order_ok_def)
  ultimately have "order_ok (purchase_items db) (supplier_payments db) p'"
    using d(6)[OF p] by (simp add: order_ok_def p' empty)
  then have "order_books (save_row pu_id p' (purchases db)) (purchase_items db) (supplier_payments db) (purchase_returns db)
      (purchase_return_items db)"
    by (intro save_order_books[OF books p]) (use books d(6) in \<open>simp_all add: p' order_books_def\<close>)
  then show ?thesis using d(1) unfolding db' purchase_books_log by (simp add: purchase_books_def save_purchase_def stock_inv_def)
qed

end
