(* ===== verification/Purchase_Accounts.thy ===== *)
theory Purchase_Accounts
  imports Purchase_Runs Register_Shifts
begin

text \<open>
  Runs of the purchase operations, and what a receipt and its return mean for the stock and for what is
  owed to the supplier.
\<close>

section \<open>Which products are stocked\<close>

definition stock_shape :: "'a stock_db_scheme \<Rightarrow> (id \<times> bool) list" where
  "stock_shape db = map (\<lambda>p. (prod_id p, is_stocked p)) (products db)"

definition stocked_ids :: "'a stock_db_scheme \<Rightarrow> id set" where
  "stocked_ids db = fst ` {x \<in> set (stock_shape db). snd x}"

lemma shape_keys: "map prod_id (products db) = map fst (stock_shape db)"
  by (simp add: stock_shape_def comp_def)

lemma movement_shape:
  fixes db db' :: "'a stock_db_scheme"
  assumes "record_movement business w product variant a db = Inr db'" and "distinct (map prod_id (products db))"
  shows "stock_shape db' = stock_shape db"
proof -
  obtain p v q n where p: "locked_product db (biz_id business) (prod_id product) = Inr p"
    and db': "db' = write_movement business w p v a q n db"
    using record_movement_elim[OF assms(1)] by metis
  have mem: "p \<in> set (products db)" using p by (auto simp: locked_product_def split: option.splits dest: find_Some_mem)
  have one: "x = p" if "x \<in> set (products db)" "prod_id x = prod_id p" for x
    using row_same[OF assms(2) that(1) mem that(2)] .
  have saved: "map (\<lambda>p. (prod_id p, is_stocked p)) (save_row prod_id (p\<lparr>prod_average_cost := c\<rparr>) (products db))
      = map (\<lambda>p. (prod_id p, is_stocked p)) (products db)" for c
    by (rule save_row_map_other) (auto simp: is_stocked_def dest!: one)
  show ?thesis
    unfolding stock_shape_def db' write_movement_def Let_def low_stock_alert_def update_average_cost_def
    by (cases v) (simp_all add: saved)
qed

lemma price_shape: "stock_shape (keep_purchase_price p v cost db) = stock_shape db"
  by (auto simp: keep_purchase_price_def stock_shape_def is_stocked_def split: option.splits)

lemma receive_shape:
  assumes "efold (receive_item business p w qs user) items (db, val, received) = Inr (db', val', received')"
    and "distinct (map prod_id (products db))"
  shows "stock_shape db' = stock_shape db"
proof -
  have "stock_shape (fst (db', val', received')) = stock_shape db"
  proof (rule efold_invariant[OF assms(1), where I = "\<lambda>st. stock_shape (fst st) = stock_shape db"])
    fix x u v assume u: "stock_shape (fst u) = stock_shape db" and step: "receive_item business p w qs user x u = Inr v"
    obtain it pr y d1 n1 r1 d2 n2 r2 where st: "x = (it, pr, y)" "u = (d1, n1, r1)" "v = (d2, n2, r2)" by (metis prod_cases3)
    have keys: "distinct (map prod_id (products d1))" using u assms(2) by (simp add: shape_keys st)
    have "d2 = d1 \<or> (\<exists>d q r. (record_movement business w pr y (receipt_args p it q user) d1 = Inr d \<or> d = d1)
        \<and> d2 = save_item r (keep_purchase_price pr y (pit_cost it) d))"
      using step unfolding receive_item_def st prod.case
      by (auto simp: ebind_eq_Inr split: if_splits)
    then show "stock_shape (fst v) = stock_shape db"
    proof (elim disjE exE conjE)
      fix d q r assume d: "record_movement business w pr y (receipt_args p it q user) d1 = Inr d"
        and d2: "d2 = save_item r (keep_purchase_price pr y (pit_cost it) d)"
      have "stock_shape d2 = stock_shape d"
        using price_shape[of pr y "pit_cost it" d] by (simp add: d2 save_item_def stock_shape_def)
      then show ?thesis using movement_shape[OF d keys] u by (simp add: st)
    next
      fix d q r assume d: "d = d1" and d2: "d2 = save_item r (keep_purchase_price pr y (pit_cost it) d)"
      have "stock_shape d2 = stock_shape d"
        using price_shape[of pr y "pit_cost it" d] by (simp add: d2 save_item_def stock_shape_def)
      then show ?thesis using u by (simp add: st d)
    qed (use u in \<open>simp add: st\<close>)
  qed simp
  then show ?thesis by simp
qed

text \<open>The stock that the asked quantities of some items are, at the keys in \<open>P\<close>.\<close>

definition stock_of_items ::
    "(stock_key \<Rightarrow> bool) \<Rightarrow> id \<Rightarrow> id \<Rightarrow> quantities \<Rightarrow> id set \<Rightarrow> purchase_item list \<Rightarrow> milli" where
  "stock_of_items P b w qs stocked its =
     (\<Sum>it \<leftarrow> its. if 0 < asked qs (pit_id it) \<and> pit_product it \<in> stocked \<and> P (b, w, pit_product it, pit_variant it)
        then qty (asked qs (pit_id it)) else 0)"

lemma brought_closed:
  assumes "locked_purchase_items db p = Inr items" and "distinct (map prod_id (products db))"
  shows "brought P business w qs items
    = stock_of_items P (biz_id business) (wh_id w) qs (stocked_ids db) (items_of db (pu_id p))"
proof -
  have one: "(if 0 < asked qs (pit_id (fst x)) then moved_at P business w x (asked qs (pit_id (fst x))) else 0)
    = (if 0 < asked qs (pit_id (fst x)) \<and> pit_product (fst x) \<in> stocked_ids db
          \<and> P (biz_id business, wh_id w, pit_product (fst x), pit_variant (fst x))
       then qty (asked qs (pit_id (fst x))) else 0)" if "x \<in> set items" for x
  proof -
    obtain it pr v where x: "x = (it, pr, v)" by (cases x)
    have ob: "item_objects db (pit_product it) (pit_variant it) = Inr (pr, v)"
      using locked_items_Inr(2)[OF assms(1) that] by (simp add: x)
    have ids: "prod_id pr = pit_product it" "map_option var_id v = pit_variant it" using item_objects_Inr[OF ob] by simp_all
    have mem: "pr \<in> set (products db)" using ob by (auto simp: item_objects_def split: option.splits dest: row_by_Some)
    have "is_stocked pr \<longleftrightarrow> pit_product it \<in> stocked_ids db"
    proof
      assume "is_stocked pr"
      then have "(prod_id pr, True) \<in> set (stock_shape db)" using mem by (force simp: stock_shape_def)
      then show "pit_product it \<in> stocked_ids db" using ids by (force simp: stocked_ids_def)
    next
      assume "pit_product it \<in> stocked_ids db"
      then obtain z where "z \<in> set (products db)" "prod_id z = prod_id pr" "is_stocked z"
        using ids by (auto simp: stocked_ids_def stock_shape_def)
      then show "is_stocked pr" using row_same[OF assms(2) _ mem, of z] by simp
    qed
    then show ?thesis using ids by (simp add: x moved_at_def movement_key_def)
  qed
  have "brought P business w qs items
    = (\<Sum>x \<leftarrow> items. if 0 < asked qs (pit_id (fst x)) \<and> pit_product (fst x) \<in> stocked_ids db
          \<and> P (biz_id business, wh_id w, pit_product (fst x), pit_variant (fst x))
       then qty (asked qs (pit_id (fst x))) else 0)"
    unfolding brought_def by (rule arg_cong[where f = sum_list], rule map_cong[OF refl]) (rule one)
  also have "\<dots> = stock_of_items P (biz_id business) (wh_id w) qs (stocked_ids db) (map fst items)"
    by (simp add: stock_of_items_def comp_def)
  finally show ?thesis by (simp only: locked_items_Inr(1)[OF assms(1)])
qed

lemma receive_purchase_shape:
  assumes "receive_purchase ord business i qs user membership db = Inr (p', db')"
    and "distinct (map prod_id (products db))"
  shows "stock_shape db' = stock_shape db"
proof -
  obtain p w items db1 val received q v d where
    fold: "efold (receive_item business p w qs user) items (db, 0, False) = Inr (db1, val, received)"
    and db': "db' = log_audit ''purchase.received'' ''purchases'' d (save_purchase p' (change_supplier_balance q v db1))"
    using assms(1) unfolding receive_purchase_def by (auto simp: returns)
  show ?thesis
    using receive_shape[OF fold assms(2)]
    by (simp add: db' stock_shape_def log_audit_def save_purchase_def change_supplier_balance_def)
qed

section \<open>Runs\<close>

text \<open>The operations on purchases and supplier profiles; \<open>pay_purchase\<close> is a case of the payments.\<close>

inductive purchase_step ::
    "(string list \<Rightarrow> string list) \<Rightarrow> calendar \<Rightarrow> 'a purchase_db_scheme \<Rightarrow> 'a purchase_db_scheme \<Rightarrow> bool"
  for ord cal where
  ordered: "create_purchase ord b f user m db = Inr (p, db') \<Longrightarrow> purchase_step ord cal db db'"
| received: "receive_purchase ord b i qs user m db = Inr (p, db') \<Longrightarrow> purchase_step ord cal db db'"
| paid: "record_purchase_payments ord cal b i rows user m db = Inr db' \<Longrightarrow> purchase_step ord cal db db'"
| cheque: "update_cheque_status ord b i st user m db = Inr db' \<Longrightarrow> purchase_step ord cal db db'"
| returned: "return_purchase ord b i qs user reason m db = Inr (r, db') \<Longrightarrow> purchase_step ord cal db db'"
| cancelled: "cancel_purchase ord b i user m db = Inr (p, db') \<Longrightarrow> purchase_step ord cal db db'"
| supplier: "save_supplier ord cal b v user t m db = Inr (s, db') \<Longrightarrow> purchase_step ord cal db db'"

lemma supplier_books:
  fixes db :: "'a purchase_db_scheme"
  assumes "save_supplier ord cal b v user t m db = Inr (s, db')" and "purchase_books db"
  shows "purchase_books db'"
proof -
  obtain xs where db': "db' = log_audit ''supplier.saved'' ''suppliers'' (''Supplier saved.'') (db\<lparr>suppliers := xs\<rparr>)"
    using assms(1) unfolding save_supplier_def Let_def by (simp only: returns) blast
  show ?thesis using assms(2) unfolding db' purchase_books_log by (simp add: purchase_books_def stock_inv_def)
qed

lemma purchase_step_books: "purchase_step ord cal db db' \<Longrightarrow> purchase_books db \<Longrightarrow> purchase_books db'"
  by (erule purchase_step.cases)
    (simp_all add: create_books receive_books payments_books cheque_books sent_back_books cancel_books supplier_books)

text \<open>C13: whatever sequence of orders, part receipts, payments, cheque updates, returns, cancellations and
  supplier edits runs, the books of the purchases stay consistent: no item is received beyond what was
  ordered nor returned beyond what was received, the paid amount of a purchase is the sum of its
  immediate payments and cleared cheques, paid plus pending cheques never exceed the total, the status
  agrees with what was received, and a cancelled purchase has no goods, no payment and no pending cheque.\<close>

theorem purchase_run_invariant:
  assumes "(purchase_step ord cal)\<^sup>*\<^sup>* db db'" and "purchase_books db"
  shows "purchase_books db'"
  using assms by (induction rule: rtranclp_induct) (simp_all add: purchase_step_books)

section \<open>A receipt and its return\<close>

lemma received_keep:
  "items_of (db :: 'a purchase_db_scheme) i = its \<Longrightarrow> purchase_items db' = received_items qs i (purchase_items db)
   \<Longrightarrow> items_of (db' :: 'b purchase_db_scheme) i = map (received_item qs) its"
proof -
  have "filter (\<lambda>it. pit_purchase it = i) (received_items qs i xs)
      = map (received_item qs) (filter (\<lambda>it. pit_purchase it = i) xs)" for xs
    by (induction xs) (simp_all add: received_items_def)
  then show "items_of db i = its \<Longrightarrow> purchase_items db' = received_items qs i (purchase_items db)
   \<Longrightarrow> items_of db' i = map (received_item qs) its" by (auto simp: items_of_def)
qed

lemma stock_of_received [simp]:
  "stock_of_items P b w qs S (map (received_item qs) its) = stock_of_items P b w qs S its"
  "(\<Sum>it \<leftarrow> map (received_item qs) its. worth qs it) = (\<Sum>it \<leftarrow> its. worth qs it)"
  by (simp_all add: stock_of_items_def worth_def comp_def cong: if_cong)

lemma stock_inv_levels: "stock_inv db \<Longrightarrow> levels_ok (levels db)"
  by (simp add: stock_inv_def)

lemma full_all_received:
  assumes "purchase_books db" and "pu_id p = i"
  shows "fully_received db p \<longleftrightarrow> all_received (purchase_items db) i"
proof -
  have le: "pit_received it \<le> pit_ordered it" if "it \<in> set (items_of db i)" for it
    using booksD(5)[OF assms(1), of it] that by (simp add: items_of_def item_ok_def)
  have eq: "sum_list (map pit_ordered xs) \<le> sum_list (map pit_received xs) \<longleftrightarrow> (\<forall>it \<in> set xs. pit_received it = pit_ordered it)"
    if "\<And>it. it \<in> set xs \<Longrightarrow> pit_received it \<le> pit_ordered it" for xs
    using that
  proof (induction xs)
    case (Cons x xs)
    have "sum_list (map pit_received xs) \<le> sum_list (map pit_ordered xs)" using Cons.prems by (intro sum_list_mono) simp
    moreover have "pit_received x \<le> pit_ordered x" using Cons.prems by simp
    ultimately show ?case using Cons.IH Cons.prems by (simp, smt (verit))
  qed simp
  have "fully_received db p \<longleftrightarrow> (\<forall>it \<in> set (items_of db i). pit_received it = pit_ordered it)"
    unfolding fully_received_def assms(2) by (rule eq[OF le])
  then show ?thesis by (auto simp: all_received_def list_all_iff items_of_def)
qed

lemma goods_receipt_effect:
  assumes "receive_purchase ord business i qs user m db = Inr (p', db')" and "purchase_books db"
    and "distinct (map prod_id (products db))"
  shows "pu_status p' = (if all_received (purchase_items db') i then PU_RECEIVED else PU_PARTIAL)
    \<and> p' \<in> set (purchases db') \<and> pu_id p' = i
    \<and> purchase_items db' = received_items qs i (purchase_items db)
    \<and> (\<forall>it \<in> set (items_of db i). 0 < asked qs (pit_id it) \<longrightarrow> asked qs (pit_id it) \<le> dec (quantity_pending it))
    \<and> (\<forall>k. stock_at db' k = stock_at db k
          + stock_of_items (\<lambda>k'. k' = k) (biz_id business) (pu_warehouse p') qs (stocked_ids db) (items_of db i))
    \<and> (\<forall>j. payable db' j = (if j = pu_supplier p'
          then map_option (\<lambda>x. x + (\<Sum>it \<leftarrow> items_of db i. worth qs it)
            + (if pu_status p' = PU_RECEIVED then completion_charges p' else 0)) (payable db j) else payable db j))"
proof -
  note d = booksD[OF assms(2)] and b = receive_books[OF assms(1,2)]
  obtain p w items where p: "p \<in> set (purchases db)" "pu_id p = i"
    and w: "row_by wh_id (pu_warehouse p) (warehouses db) = Some w" and items: "locked_purchase_items db p = Inr items"
    and bound: "\<forall>x \<in> set items. 0 < asked qs (pit_id (fst x)) \<longrightarrow> asked qs (pit_id (fst x)) \<le> dec (quantity_pending (fst x))"
    and inv: "stock_inv db'" and held: "\<And>P. held_stock P db' = held_stock P db + brought P business w qs items"
    and its: "purchase_items db' = received_items qs i (purchase_items db)"
    and p': "p' = p\<lparr>pu_status := (if fully_received db' p then PU_RECEIVED else PU_PARTIAL)\<rparr>"
    and saved: "purchases db' = save_row pu_id p' (purchases db)"
    and owed: "\<And>j. payable db' j = (if j = pu_supplier p
        then map_option (\<lambda>x. x + ((\<Sum>it \<leftarrow> items_of db i. worth qs it)
          + (if fully_received db' p then completion_charges p else 0))) (payable db j) else payable db j)"
    by (rule receive_purchase_Inr[OF assms(1) d(1,2)]) metis
  have wid: "wh_id w = pu_warehouse p" using row_by_Some[OF w] by simp
  have mem: "fst ` set items = set (items_of db i)"
    using locked_items_Inr(1)[OF items] p(2) by (metis list.set_map)
  have full: "fully_received db' p = all_received (purchase_items db') i" by (rule full_all_received[OF b p(2)])
  have "p' \<in> set (purchases db')"
    unfolding saved using p(1) by (subst set_save_row_eq) (auto simp: p')
  moreover have "\<forall>it \<in> set (items_of db i). 0 < asked qs (pit_id it) \<longrightarrow> asked qs (pit_id it) \<le> dec (quantity_pending it)"
    using bound unfolding mem[symmetric] by blast
  moreover have "stock_at db' k = stock_at db k
      + stock_of_items (\<lambda>k'. k' = k) (biz_id business) (pu_warehouse p') qs (stocked_ids db) (items_of db i)" for k
    using held[of "\<lambda>k'. k' = k"] brought_closed[OF items assms(3), of "\<lambda>k'. k' = k" business w qs]
    by (simp add: stock_at_held stock_inv_levels inv d(1) wid p(2) p')
  moreover have "payable db' j = (if j = pu_supplier p'
      then map_option (\<lambda>x. x + (\<Sum>it \<leftarrow> items_of db i. worth qs it)
        + (if pu_status p' = PU_RECEIVED then completion_charges p' else 0)) (payable db j) else payable db j)" for j
    using owed[of j] by (simp add: p' completion_charges_def algebra_simps cong: option.map_cong)
  ultimately show ?thesis using full its p(2) by (simp add: p')
qed

text \<open>C14: receiving goods on an order brings exactly the asked quantities of its stocked items into the
  warehouse of the order and nothing anywhere else, raises the received quantity of each asked item
  (never beyond what is pending), makes the order received exactly when every item of it is complete and
  partly received otherwise, and raises what is owed to the supplier by the worth of the goods, with
  shipping and other charges less the discount added when the order is complete.\<close>

theorem goods_receipt:
  assumes "receive_purchase ord business i qs user m db = Inr (p', db')" and "purchase_books db"
    and "distinct (map prod_id (products db))"
  shows "pu_status p' = (if all_received (purchase_items db') i then PU_RECEIVED else PU_PARTIAL)
    \<and> p' \<in> set (purchases db') \<and> pu_id p' = i
    \<and> purchase_items db' = received_items qs i (purchase_items db)
    \<and> (\<forall>it \<in> set (items_of db i). 0 < asked qs (pit_id it) \<longrightarrow> asked qs (pit_id it) \<le> dec (quantity_pending it))
    \<and> (\<forall>k. stock_at db' k = stock_at db k
          + stock_of_items (\<lambda>k'. k' = k) (biz_id business) (pu_warehouse p') qs (stocked_ids db) (items_of db i))
    \<and> (\<forall>j. payable db' j = (if j = pu_supplier p'
          then map_option (\<lambda>x. x + (\<Sum>it \<leftarrow> items_of db i. worth qs it)
            + (if pu_status p' = PU_RECEIVED then completion_charges p' else 0)) (payable db j) else payable db j))"
  using goods_receipt_effect[OF assms] by blast

text \<open>C15: returning the quantities of a receipt that has just been booked takes the stock back to what it
  was, at every place, and leaves the payable as it was but for the charges that the completed order
  added; the ordered and received quantities stay as the receipt left them.\<close>

theorem receipt_returned:
  assumes "receive_purchase ord business i qs user m db = Inr (p', db')"
    and "return_purchase ord business i qs user' reason m' db' = Inr (r, db'')"
    and "purchase_books db" and "distinct (map prod_id (products db))"
  shows "(\<forall>k. stock_at db'' k = stock_at db k)
    \<and> (\<forall>j. payable db'' j = (if j = pu_supplier p' \<and> pu_status p' = PU_RECEIVED
          then map_option (\<lambda>x. x + completion_charges p') (payable db j) else payable db j))
    \<and> purchase_items db'' = received_items qs i (purchase_items db)
    \<and> prt_total r = (\<Sum>it \<leftarrow> items_of db i. worth qs it)"
proof -
  note g = goods_receipt_effect[OF assms(1,3,4)]
  note b = receive_books[OF assms(1,3)] and b' = sent_back_books[OF assms(2) receive_books[OF assms(1,3)]]
  note d = booksD[OF b]
  have shape: "stock_shape db' = stock_shape db" by (rule receive_purchase_shape[OF assms(1,4)])
  then have keys: "distinct (map prod_id (products db'))" using assms(4) by (simp add: shape_keys)
  have its: "items_of db' i = map (received_item qs) (items_of db i)" using g by (intro received_keep[OF refl]) blast
  obtain p w items where p: "p \<in> set (purchases db')" "pu_id p = i"
    and w: "row_by wh_id (pu_warehouse p) (warehouses db') = Some w" and items: "locked_purchase_items db' p = Inr items"
    and held: "\<And>P. held_stock P db'' = held_stock P db' - brought P business w qs items"
    and r: "r = new_purchase_return business p user' reason (\<Sum>it \<leftarrow> items_of db' i. worth qs it) db'"
    and owed: "\<And>j. payable db'' j = (if j = pu_supplier p
        then map_option (\<lambda>x. x - (\<Sum>it \<leftarrow> items_of db' i. worth qs it)) (payable db' j) else payable db' j)"
    and same: "purchase_items db'' = purchase_items db'"
    by (rule return_purchase_Inr[OF assms(2) d(1,2)]) metis
  have "p' \<in> set (purchases db')" "pu_id p' = i" using g by blast+
  then have p': "p = p'" using row_same[OF d(3) p(1)] p(2) by simp
  have wid: "wh_id w = pu_warehouse p" using row_by_Some[OF w] by simp
  have total: "(\<Sum>it \<leftarrow> items_of db' i. worth qs it) = (\<Sum>it \<leftarrow> items_of db i. worth qs it)" by (simp add: its del: map_map)
  have there: "stock_at db'' k = stock_at db' k
      - stock_of_items (\<lambda>k'. k' = k) (biz_id business) (pu_warehouse p') qs (stocked_ids db) (items_of db i)" for k
    using held[of "\<lambda>k'. k' = k"] brought_closed[OF items keys, of "\<lambda>k'. k' = k" business w qs] booksD(1)[OF b']
    by (simp add: stock_at_held stock_inv_levels d(1) wid p(2) its stocked_ids_def shape del: map_map flip: p')
  have "stock_at db'' k = stock_at db k" for k
    using there[of k] g by simp
  moreover have "payable db'' j = (if j = pu_supplier p' \<and> pu_status p' = PU_RECEIVED
      then map_option (\<lambda>x. x + completion_charges p') (payable db j) else payable db j)" for j
  proof -
    have "payable db' j = (if j = pu_supplier p'
          then map_option (\<lambda>x. x + (\<Sum>it \<leftarrow> items_of db i. worth qs it)
            + (if pu_status p' = PU_RECEIVED then completion_charges p' else 0)) (payable db j) else payable db j)"
      using g by blast
    then show ?thesis
      unfolding owed[of j] total p' by (cases "payable db j"; cases "j = pu_supplier p'") simp_all
  qed
  moreover have "purchase_items db'' = received_items qs i (purchase_items db)" using same g by simp
  moreover have "prt_total r = (\<Sum>it \<leftarrow> items_of db i. worth qs it)" by (simp add: r new_purchase_return_def total)
  ultimately show ?thesis by blast
qed

section \<open>Witnesses\<close>

text \<open>Five metres of cloth are ordered at 2.00 with 1.00 of shipping, received, and sent back or paid in part.\<close>

definition sample_supplier :: supplier_row where
  "sample_supplier = \<lparr>su_id = 6, su_business = 1, su_code = ''SUP0001'', su_profile = [(''name'', ''Mill'')],
     su_opening_balance = 0, su_balance = 0, su_active = True\<rparr>"

definition sample_purchasing :: "subscription list" where
  "sample_purchasing = map (\<lambda>s. s\<lparr>sub_plan := sample_plan\<lparr>plan_features := plan_features sample_plan
     @ [''feature_purchases'', ''feature_suppliers'']\<rparr>\<rparr>) (subscriptions sample_core)"

definition sample_orders :: purchase_db where
  "sample_orders = pos_db.extend (sample_pos\<lparr>subscriptions := sample_purchasing, suppliers := [sample_supplier]\<rparr>)
     \<lparr>purchases = [], purchase_items = [], supplier_payments = [], purchase_returns = [], purchase_return_items = []\<rparr>"

definition sample_form :: purchase_form where
  "sample_form = \<lparr>pf_supplier = 6, pf_branch = 1, pf_warehouse = 1,
     pf_rows = [\<lparr>pr_product = Some 10, pr_variant = None, pr_quantity = RawNumber 5, pr_cost = RawNumber 2\<rparr>],
     pf_date = DateValue 20, pf_due = DateMissing, pf_invoice = ''A-1'', pf_discount = RawEmpty,
     pf_shipping = RawNumber 1, pf_other = RawEmpty, pf_notes = []\<rparr>"

definition sample_payment :: payment_entry where
  "sample_payment = \<lparr>py_method = ''cash'', py_amount = RawNumber 4, py_payment_method = Some 1, py_reference = [],
     py_notes = [], py_cheque_number = [], py_bank = [], py_issue = DateMissing, py_due = DateMissing\<rparr>"

definition sample_ordered :: "err + purchase \<times> purchase_db" where
  "sample_ordered = create_purchase (\<lambda>xs. xs) sample_business sample_form (Some sample_user) None sample_orders"

definition sample_goods :: "err + purchase \<times> purchase_db" where
  "sample_goods = ebind sample_ordered (\<lambda>(_, db).
     receive_purchase (\<lambda>xs. xs) sample_business 1 [(1, RawNumber 5)] (Some sample_user) None db)"

definition sample_paid :: "err + purchase_db" where
  "sample_paid = ebind sample_goods (\<lambda>(_, db).
     record_purchase_payments (\<lambda>xs. xs) sample_calendar sample_business 1 [sample_payment] (Some sample_user) None db)"

definition sample_sent_back :: "err + purchase_return \<times> purchase_db" where
  "sample_sent_back = ebind sample_goods (\<lambda>(_, db).
     return_purchase (\<lambda>xs. xs) sample_business 1 [(1, RawNumber 5)] (Some sample_user) ''Damaged'' None db)"

lemma sample_paid_ok:
  "case sample_paid of Inl _ \<Rightarrow> False
   | Inr db \<Rightarrow> map pu_status (purchases db) = [PU_RECEIVED] \<and> map pu_paid (purchases db) = [4000]
       \<and> map su_balance (suppliers db) = [7000]"
  by code_simp

lemma sample_sent_back_ok: "case sample_sent_back of Inl _ \<Rightarrow> False | Inr _ \<Rightarrow> True"
  by code_simp

lemma sample_orders_tables:
  "levels sample_orders = levels sample_stock" "movements sample_orders = movements sample_stock"
  "products sample_orders = [sample_product]" "purchases sample_orders = []" "purchase_items sample_orders = []"
  "supplier_payments sample_orders = []" "purchase_returns sample_orders = []" "purchase_return_items sample_orders = []"
  by (simp_all add: sample_orders_def pos_db.extend_def sample_pos_def workflow_db.extend_def sample_workflows_def
      stock_db.extend_def sample_stock_def core_db.extend_def)

lemma sample_orders_books: "purchase_books sample_orders \<and> distinct (map prod_id (products sample_orders))"
  using sample_stock_inv by (simp add: purchase_books_def order_books_def stock_inv_def sample_orders_tables)

lemma create_products:
  fixes db :: "'a purchase_db_scheme"
  assumes "create_purchase ord business f user m db = Inr (p, db')"
  shows "products db' = products db"
proof -
  obtain a b d xs ys where "db' = log_audit a b d (db\<lparr>purchases := xs, purchase_items := ys\<rparr>)"
    using assms unfolding create_purchase_def by (simp only: returns prod.inject) blast
  then show ?thesis by (simp add: log_audit_def)
qed

lemma sample_goods_ok:
  "case sample_goods of Inl _ \<Rightarrow> False | Inr (p, db) \<Rightarrow> pu_status p = PU_RECEIVED \<and> map su_balance (suppliers db) = [11000]"
  by code_simp

lemma sample_goods_run:
  obtains p0 db0 p1 db1 where "create_purchase (\<lambda>xs. xs) sample_business sample_form (Some sample_user) None sample_orders = Inr (p0, db0)"
    "receive_purchase (\<lambda>xs. xs) sample_business 1 [(1, RawNumber 5)] (Some sample_user) None db0 = Inr (p1, db1)"
    "sample_goods = Inr (p1, db1)" "pu_status p1 = PU_RECEIVED" "purchase_books db0" "distinct (map prod_id (products db0))"
proof -
  obtain p1 db1 where g: "sample_goods = Inr (p1, db1)" using sample_goods_ok by (auto split: sum.splits)
  have status: "pu_status p1 = PU_RECEIVED" using sample_goods_ok unfolding g sum.case prod.case by (rule conjunct1)
  from g obtain p0 db0 where
    made: "create_purchase (\<lambda>xs. xs) sample_business sample_form (Some sample_user) None sample_orders = Inr (p0, db0)"
    and run: "receive_purchase (\<lambda>xs. xs) sample_business 1 [(1, RawNumber 5)] (Some sample_user) None db0 = Inr (p1, db1)"
    unfolding sample_goods_def sample_ordered_def ebind_eq_Inr by auto
  have "purchase_books db0" by (rule create_books[OF made conjunct1[OF sample_orders_books]])
  moreover have "distinct (map prod_id (products db0))"
    using sample_orders_books by (simp add: create_products[OF made])
  ultimately show thesis by (intro that[OF made run g status])
qed

theorem purchase_run_invariant_witness:
  "\<exists>db. sample_paid = Inr db \<and> map pu_paid (purchases db) = [4000] \<and> purchase_books db"
proof -
  obtain db where db: "sample_paid = Inr db" using sample_paid_ok by (auto split: sum.splits)
  have paid: "map pu_paid (purchases db) = [4000]" using sample_paid_ok unfolding db sum.case by (elim conjE)
  obtain p0 db0 p1 db1 where 1: "create_purchase (\<lambda>xs. xs) sample_business sample_form (Some sample_user) None sample_orders = Inr (p0, db0)"
    and 2: "receive_purchase (\<lambda>xs. xs) sample_business 1 [(1, RawNumber 5)] (Some sample_user) None db0 = Inr (p1, db1)"
    and goods: "sample_goods = Inr (p1, db1)"
    by (rule sample_goods_run)
  have 3: "record_purchase_payments (\<lambda>xs. xs) sample_calendar sample_business 1 [sample_payment] (Some sample_user) None db1 = Inr db"
    using db unfolding sample_paid_def goods ebind_Inr prod.case .
  have "(purchase_step (\<lambda>xs. xs) sample_calendar)\<^sup>*\<^sup>* sample_orders db1"
    by (rule rtranclp.rtrancl_into_rtrancl[OF r_into_rtranclp])
      (rule purchase_step.ordered[OF 1], rule purchase_step.received[OF 2])
  then have "(purchase_step (\<lambda>xs. xs) sample_calendar)\<^sup>*\<^sup>* sample_orders db"
    by (rule rtranclp.rtrancl_into_rtrancl) (rule purchase_step.paid[OF 3])
  from purchase_run_invariant[OF this conjunct1[OF sample_orders_books]] show ?thesis by (intro exI[of _ db] conjI db paid)
qed

theorem goods_receipt_witness:
  "\<exists>p db. sample_goods = Inr (p, db) \<and> p \<in> set (purchases db) \<and> all_received (purchase_items db) 1"
proof -
  obtain p0 db0 p1 db1 where "receive_purchase (\<lambda>xs. xs) sample_business 1 [(1, RawNumber 5)] (Some sample_user) None db0 = Inr (p1, db1)"
    and goods: "sample_goods = Inr (p1, db1)" "pu_status p1 = PU_RECEIVED"
    and ok: "purchase_books db0" "distinct (map prod_id (products db0))"
    by (rule sample_goods_run)
  from goods_receipt[OF this(1) ok]
  have "pu_status p1 = (if all_received (purchase_items db1) 1 then PU_RECEIVED else PU_PARTIAL)" and "p1 \<in> set (purchases db1)"
    by blast+
  then show ?thesis using goods by (auto split: if_splits)
qed

theorem receipt_returned_witness:
  "\<exists>p r db0 db. sample_ordered = Inr (p, db0) \<and> sample_sent_back = Inr (r, db) \<and> (\<forall>k. stock_at db k = stock_at db0 k)"
proof -
  obtain p0 db0 p1 db1 where made: "create_purchase (\<lambda>xs. xs) sample_business sample_form (Some sample_user) None sample_orders = Inr (p0, db0)"
    and run: "receive_purchase (\<lambda>xs. xs) sample_business 1 [(1, RawNumber 5)] (Some sample_user) None db0 = Inr (p1, db1)"
    and goods: "sample_goods = Inr (p1, db1)" and ok: "purchase_books db0" "distinct (map prod_id (products db0))"
    by (rule sample_goods_run)
  obtain r db2 where sent: "sample_sent_back = Inr (r, db2)" using sample_sent_back_ok by (auto split: sum.splits)
  then have ret: "return_purchase (\<lambda>xs. xs) sample_business 1 [(1, RawNumber 5)] (Some sample_user) ''Damaged'' None db1 = Inr (r, db2)"
    unfolding sample_sent_back_def goods ebind_Inr prod.case .
  have "\<forall>k. stock_at db2 k = stock_at db0 k" using receipt_returned[OF run ret ok] by (rule conjunct1)
  then show ?thesis using made sent unfolding sample_ordered_def by blast
qed

end
