(* ===== verification/Spec2Isabelle.thy ===== *)
theory Spec2Isabelle
  imports Plan_Limits Sale_Runs Backup_Schedule_Laws Purchase_Accounts
begin

text \<open>
  A verification development for the server of a multi-tenant point of sale (Django, Python; the paths
  below are under \<^verbatim>\<open>src/apps\<close>).

  \<^bold>\<open>The program.\<close>  Every tenant is a business with branches, warehouses, members and a subscription to
  a plan.  Views and background workers call services; a service authorizes its actor, locks the rows it
  needs, checks them, writes, and raises an exception to roll everything back.  One service decides
  access from the modules of the plan (\<^verbatim>\<open>subscriptions\<close>); stock changes in one function only, the ledger
  (\<^verbatim>\<open>inventory\<close>), which transfers, adjustments, counts, sales, returns and purchases call; a checkout
  (\<^verbatim>\<open>sales\<close>) uses the catalog, the ledger, the customers' accounts, the invoice numbers and the shift of
  a register; purchases move stock and what is owed to suppliers; the backup engine (\<^verbatim>\<open>backups\<close>) requests,
  schedules, dispatches and restores backups of a tenant under an exclusive lock.

  \<^bold>\<open>The shape of the model.\<close>  A table is the list of its rows in the order of their keys, a row is a
  record whose fields are the columns the services read or write, and the database is a record of tables
  that grows with the components: \<open>core_db\<close> (tenants, subscriptions, audit), \<open>stock_db\<close>, \<open>workflow_db\<close>,
  \<open>pos_db\<close>, \<open>purchase_db\<close>, and beside them \<open>backup_db\<close> and \<open>dispatch_db\<close>; an operation works on every
  extension of the record it needs.  A service is a function to \<open>err + 'a\<close>: \<open>Inl\<close> an exception, in which
  case there is no new database (\<^verbatim>\<open>transaction.atomic\<close>), \<open>Inr\<close> the result with the new one.  A choice of
  the code is an enumeration or a tagged union with the same values, a \<open>Decimal\<close> in flight is a rational
  whose products and quotients are rounded to 28 digits, and a column of three decimals is an integer of
  thousandths.  A lookup by key under \<^verbatim>\<open>select_for_update\<close> is a lookup: concurrent requests appear as
  sequences of whole operations.  Parameters of the model are what the code calls and does not contain:
  the order in which Python walks a set (\<open>ord\<close>, a reordering), the calendar and the time zone database,
  the broker, Django's model metadata, random keys and hashes.

  \<^bold>\<open>The theories.\<close>
  \<^item> \<open>Prelude\<close>, \<open>Guards\<close>, \<open>Text\<close>: results with exceptions, folds and maps that stop at the first one, tables,
    the search for a free number; Python's string methods (\<^verbatim>\<open>core\<close>).  The collections \<open>result_simps\<close>,
    \<open>row_simps\<close> and \<open>returns\<close> carry the proofs of the components.
  \<^item> \<open>Decimals\<close> (\<^verbatim>\<open>core/money.py\<close>): the 28-digit context, \<open>money\<close>, \<open>qty\<close>, display rounding.  The locale \<open>rounding\<close>
    states that a rounding never crosses an integer; it is interpreted for both rounding modes and for
    their composition.
  \<^item> \<open>Numbering\<close>: the loop that allocates document numbers, with a locale of what a series of numbers promises.
  \<^item> \<open>Plan_Modules\<close> (\<^verbatim>\<open>subscriptions/feature_registry.py\<close>, \<^verbatim>\<open>access.py\<close>): the module registry, the search for
    dependency cycles and the fixed-point resolution of a plan; the locale \<open>module_registry\<close> is interpreted on
    the registry of the code.  Lemmas: the resolution ends and computes an entitlement defined without it.
  \<^item> \<open>Tenancy\<close> (\<^verbatim>\<open>tenants\<close>, \<^verbatim>\<open>branches\<close>, \<^verbatim>\<open>accounts\<close>, \<^verbatim>\<open>subscriptions/models.py\<close>) and \<open>Access\<close>
    (\<^verbatim>\<open>subscriptions/access.py\<close>): rows of tenants, and the layers of an access decision with its cache.
    Lemmas: a decision equals a condition on the stored rows.
  \<^item> \<open>Plan_Limits\<close> (\<^verbatim>\<open>subscriptions/services.py\<close>), \<open>Catalog\<close> (\<^verbatim>\<open>catalog/models.py\<close>), \<open>Pos_Access\<close>.
  \<^item> \<open>Stock_Ledger\<close> (\<^verbatim>\<open>inventory/services.py\<close>): levels, movements, the moving average cost, the negative-stock
    policy.  The locale \<open>ledger\<close> is what a client of the ledger relies on: an invariant that a movement
    keeps, and the exact change of the stock held at any set of keys; it is interpreted on
    \<open>record_movement\<close>, and sales and purchases rest on it.
  \<^item> \<open>Stock_Workflows\<close> (\<^verbatim>\<open>inventory/workflows.py\<close>): transfers, adjustments, counts.
  \<^item> \<open>Sale_Calculations\<close>, \<open>Sales_Data\<close>, \<open>Sale_Financials\<close> (\<^verbatim>\<open>sales/calculations.py\<close>, \<^verbatim>\<open>models.py\<close>, \<^verbatim>\<open>financials.py\<close>).
  \<^item> \<open>Register_Shifts\<close> (\<^verbatim>\<open>registers/services.py\<close>), \<open>Customer_Accounts\<close> (\<^verbatim>\<open>customers/services.py\<close>).
  \<^item> \<open>Invoice_Numbers\<close>, \<open>Sale_Cart\<close>, \<open>Checkout\<close>, \<open>Sale_Operations\<close> (\<^verbatim>\<open>sales/services.py\<close>): numbers, the lines of a
    cart, \<^verbatim>\<open>complete_sale\<close>, and the operations on a stored sale.  \<open>Checkout_Laws\<close>, \<open>Sale_Operation_Laws\<close> and
    \<open>Sale_Runs\<close> show what a checkout stores and settles, that its repetition changes nothing, that a void
    takes it back, and an invariant of the books under all operations.
  \<^item> \<open>Purchases\<close> (\<^verbatim>\<open>purchases/services.py\<close>, \<^verbatim>\<open>suppliers/services.py\<close>); \<open>Purchase_Laws\<close>, \<open>Purchase_Returns\<close>,
    \<open>Purchase_Runs\<close>, \<open>Purchase_Accounts\<close>: the effect of each operation, the books of the purchases under all of
    them, receipts and their return.
  \<^item> \<open>Backup_Registry\<close> (\<^verbatim>\<open>backups/registry.py\<close>), \<open>Backup_Lifecycle\<close> (\<^verbatim>\<open>state_machines.py\<close>), \<open>Backup_Requests\<close>,
    \<open>Backup_Runs\<close>, \<open>Operation_Locks\<close> (\<^verbatim>\<open>services.py\<close>), \<open>Backup_Dispatch\<close> (\<^verbatim>\<open>dispatch.py\<close>, \<^verbatim>\<open>reconciliation.py\<close>),
    \<open>Backup_Schedule\<close> and \<open>Backup_Schedule_Laws\<close> (\<^verbatim>\<open>scheduling.py\<close>): which data a backup has, its states, the
    constraints every service keeps, the lease of the exclusive lock (locale \<open>lease_protocol\<close>), the bounded
    hand-over to the broker and the daily schedule.

  \<^bold>\<open>What the properties show.\<close>  C1, C7, C39 and C40: access and entitlement equal their declarative meaning.
  C2 to C6, C28 and C35 to C38: the money, stock and numbers of a sale from the cart to its void.  C16, C26,
  C27 and C31 to C34: the ledger and its workflows.  C29 and C30: registers and the cash count.  C13 to C15:
  purchases.  C8 to C12 and C17 to C25: backups.  A property of a sequence of operations is an invariant of
  an inductive run relation whose steps are the modelled services.

  \<^bold>\<open>Bounds and fuel.\<close>  The resolution of modules gets \<open>2 * |registry| + 2\<close> rounds and each search for cycles
  \<open>|registry| + 1\<close> (for components \<open>|definitions| + 2\<close>) levels; the search for a free number looks at one more
  candidate than there are rows, the one for an invoice number at two; that this is enough is proved
  where the fuel is chosen, so running out is no result of an operation.  The 181 minutes and three days
  of a schedule and the attempts of a dispatch are bounds of the code.

  \<^bold>\<open>What is not modelled.\<close>  Views, forms, templates, the REST interface, commands, migrations and tests (they
  call the services); reports and dashboards (read-only queries); expenses beyond what the cash count of a
  shift reads; the services of the catalog beyond the visibility of a product; accounts, the platform's
  administration and the audit viewer; imports and exports; the inside of the backup engine (snapshots,
  packaging, encryption, storage providers, the mutation of a restore); the workshop applications
  (\<^verbatim>\<open>wms_*\<close>).  Texts of audit rows and notifications are abbreviated, since nothing reads them.
\<close>

end
